(* ===== verification/Prelude.thy ===== *)
theory Prelude
  imports Main "HOL-Library.Word" "HOL-Library.List_Lexorder" "HOL-Library.Product_Lexorder"
    "HOL-Library.Char_ord"
begin

text \<open>
  Shared vocabulary of the development: Rust's fixed-width integers as words, the
  \<open>Result\<close> type and its \<open>?\<close> operator, fallible folds over vectors, the string functions
  of the standard library that the sources call, and two interfaces every component relies
  on (a state machine that fails closed, and a step system with an invariant).
\<close>

section \<open>Collections of facts\<close>

named_theorems result_simps \<open>unfolding of \<open>?\<close>-chains that return Ok\<close>
named_theorems checked_simps \<open>checked machine arithmetic read over the naturals\<close>

section \<open>Machine integers\<close>

type_synonym u8 = "8 word"
type_synonym u16 = "16 word"
type_synonym u32 = "32 word"
type_synonym u64 = "64 word"
type_synonym u128 = "128 word"

text \<open>
  A \<open>[u8; 32]\<close> array is kept as the 256-bit word it spells most significant byte first, so
  that array comparison (lexicographic) is word comparison and \<open>[0; 32]\<close> is 0.
\<close>

type_synonym hash32 = "256 word"

definition checked_add :: "'a::len word \<Rightarrow> 'a word \<Rightarrow> 'a word option" where
  "checked_add a b = (if unat a + unat b < 2 ^ LENGTH('a) then Some (a + b) else None)"

definition checked_sub :: "'a::len word \<Rightarrow> 'a word \<Rightarrow> 'a word option" where
  "checked_sub a b = (if b \<le> a then Some (a - b) else None)"

definition checked_mul :: "'a::len word \<Rightarrow> 'a word \<Rightarrow> 'a word option" where
  "checked_mul a b = (if unat a * unat b < 2 ^ LENGTH('a) then Some (a * b) else None)"

definition saturating_add :: "'a::len word \<Rightarrow> 'a word \<Rightarrow> 'a word" where
  "saturating_add a b = (if unat a + unat b < 2 ^ LENGTH('a) then a + b else - 1)"

section \<open>Result\<close>

datatype ('a, 'e) result = Ok (ok_of: 'a) | Err (err_of: 'e)

definition is_ok :: "('a, 'e) result \<Rightarrow> bool" where
  "is_ok r = (case r of Ok _ \<Rightarrow> True | Err _ \<Rightarrow> False)"

text \<open>\<open>tryR r k\<close> is \<open>let x = r?; k x\<close>; \<open>ok_or\<close> is \<open>Option::ok_or\<close>.\<close>

definition tryR :: "('a, 'e) result \<Rightarrow> ('a \<Rightarrow> ('b, 'e) result) \<Rightarrow> ('b, 'e) result" where
  "tryR r k = (case r of Ok x \<Rightarrow> k x | Err e \<Rightarrow> Err e)"

definition ok_or :: "'a option \<Rightarrow> 'e \<Rightarrow> ('a, 'e) result" where
  "ok_or x e = (case x of Some v \<Rightarrow> Ok v | None \<Rightarrow> Err e)"

text \<open>
  A method \<open>&mut self -> Result\<close> is a function to the state it leaves behind paired with its
  result: an early return keeps whatever the body has already written. \<open>tryS s r k\<close> is
  \<open>r?\<close> for a check that writes nothing, \<open>tryM\<close> is \<open>?\<close> on a call that may write.
\<close>

definition tryS :: "'s \<Rightarrow> ('a, 'e) result \<Rightarrow> ('a \<Rightarrow> 's \<times> ('b, 'e) result) \<Rightarrow> 's \<times> ('b, 'e) result" where
  "tryS s r k = (case r of Ok x \<Rightarrow> k x | Err e \<Rightarrow> (s, Err e))"

definition tryM :: "'s \<times> ('a, 'e) result \<Rightarrow> ('s \<Rightarrow> 'a \<Rightarrow> 's \<times> ('b, 'e) result) \<Rightarrow> 's \<times> ('b, 'e) result" where
  "tryM m k = (case m of (s, r) \<Rightarrow> (case r of Ok x \<Rightarrow> k s x | Err e \<Rightarrow> (s, Err e)))"

text \<open>\<open>Iterator::try_fold\<close>, and \<open>collect::<Result<Vec<_>, _>>\<close> over \<open>map\<close>.\<close>

fun try_fold :: "('b \<Rightarrow> 'a \<Rightarrow> ('b, 'e) result) \<Rightarrow> 'b \<Rightarrow> 'a list \<Rightarrow> ('b, 'e) result" where
  "try_fold f acc [] = Ok acc"
| "try_fold f acc (x # xs) = tryR (f acc x) (\<lambda>acc'. try_fold f acc' xs)"

fun collect :: "('a \<Rightarrow> ('b, 'e) result) \<Rightarrow> 'a list \<Rightarrow> ('b list, 'e) result" where
  "collect f [] = Ok []"
| "collect f (x # xs) = tryR (f x) (\<lambda>y. tryR (collect f xs) (\<lambda>ys. Ok (y # ys)))"

text \<open>\<open>values.windows(2).any(|w| w[0] >= w[1])\<close> negated: strictly increasing.\<close>

fun strictly_sorted :: "'a::linorder list \<Rightarrow> bool" where
  "strictly_sorted (x # y # ys) \<longleftrightarrow> x < y \<and> strictly_sorted (y # ys)"
| "strictly_sorted _ \<longleftrightarrow> True"

section \<open>Strings\<close>

text \<open>
  A Rust string is its UTF-8 byte sequence. \<open>str::trim\<close> strips the code points with the
  Unicode property White\_Space; \<open>whitespace\<close> lists their encodings.
\<close>

definition whitespace :: "string list" where
  "whitespace =
     [[CHR 0x09], [CHR 0x0A], [CHR 0x0B], [CHR 0x0C], [CHR 0x0D], [CHR 0x20],
      [CHR 0xC2, CHR 0x85], [CHR 0xC2, CHR 0xA0], [CHR 0xE1, CHR 0x9A, CHR 0x80],
      [CHR 0xE2, CHR 0x80, CHR 0x80], [CHR 0xE2, CHR 0x80, CHR 0x81],
      [CHR 0xE2, CHR 0x80, CHR 0x82], [CHR 0xE2, CHR 0x80, CHR 0x83],
      [CHR 0xE2, CHR 0x80, CHR 0x84], [CHR 0xE2, CHR 0x80, CHR 0x85],
      [CHR 0xE2, CHR 0x80, CHR 0x86], [CHR 0xE2, CHR 0x80, CHR 0x87],
      [CHR 0xE2, CHR 0x80, CHR 0x88], [CHR 0xE2, CHR 0x80, CHR 0x89],
      [CHR 0xE2, CHR 0x80, CHR 0x8A], [CHR 0xE2, CHR 0x80, CHR 0xA8],
      [CHR 0xE2, CHR 0x80, CHR 0xA9], [CHR 0xE2, CHR 0x80, CHR 0xAF],
      [CHR 0xE2, CHR 0x81, CHR 0x9F], [CHR 0xE3, CHR 0x80, CHR 0x80]]"

definition starts_with :: "'a list \<Rightarrow> 'a list \<Rightarrow> bool" where
  "starts_with s w \<longleftrightarrow> take (length w) s = w"

text \<open>At most one code point is stripped per unit of fuel; the length of the string is enough.\<close>

fun strip_leading :: "nat \<Rightarrow> string list \<Rightarrow> string \<Rightarrow> string" where
  "strip_leading 0 ws s = s"
| "strip_leading (Suc n) ws s =
     (case find (starts_with s) ws of
        None \<Rightarrow> s
      | Some w \<Rightarrow> strip_leading n ws (drop (length w) s))"

definition trim_start :: "string \<Rightarrow> string" where
  "trim_start s = strip_leading (length s) whitespace s"

definition trim_end :: "string \<Rightarrow> string" where
  "trim_end s = rev (strip_leading (length s) (map rev whitespace) (rev s))"

definition trim :: "string \<Rightarrow> string" where
  "trim s = trim_end (trim_start s)"

text \<open>\<open>to_string\<close> of an unsigned integer and of a \<open>bool\<close>.\<close>

fun decimal :: "nat \<Rightarrow> string" where
  "decimal n = (if n < 10 then [char_of (n + 48)] else decimal (n div 10) @ [char_of (n mod 10 + 48)])"

declare decimal.simps [simp del]

definition show_word :: "'a::len word \<Rightarrow> string" where
  "show_word w = decimal (unat w)"

definition show_bool :: "bool \<Rightarrow> string" where
  "show_bool b = (if b then ''true'' else ''false'')"

section \<open>Facts about machine integers\<close>

lemma unat_bound: "unat (a :: 'a::len word) < 2 ^ LENGTH('a)"
  by (rule unsigned_less)

lemma unat_max_word: "unat (- 1 :: 'a::len word) = 2 ^ LENGTH('a) - 1"
  by (simp add: unsigned_minus_1_eq_mask mask_eq_exp_minus_1)

lemma checked_add_eq_Some [checked_simps]:
  "checked_add a b = Some c \<longleftrightarrow> unat c = unat a + unat b"
proof
  assume "checked_add a b = Some c"
  then show "unat c = unat a + unat b"
    by (auto simp: checked_add_def unat_word_ariths split: if_splits)
next
  assume *: "unat c = unat a + unat b"
  then have "unat a + unat b < 2 ^ LENGTH('a)"
    using unat_bound [of c] by simp
  moreover from this * have "c = a + b"
    by (simp add: word_unat_eq_iff unat_word_ariths)
  ultimately show "checked_add a b = Some c"
    by (simp add: checked_add_def)
qed

lemma checked_add_eq_None: "checked_add (a :: 'a::len word) b = None \<longleftrightarrow> 2 ^ LENGTH('a) \<le> unat a + unat b"
  by (auto simp: checked_add_def)

lemma checked_sub_eq_Some [checked_simps]:
  "checked_sub a b = Some c \<longleftrightarrow> unat a = unat b + unat c"
proof
  assume "checked_sub a b = Some c"
  then show "unat a = unat b + unat c"
    by (auto simp: checked_sub_def unat_sub word_le_nat_alt split: if_splits)
next
  assume *: "unat a = unat b + unat c"
  then have le: "b \<le> a"
    by (simp add: word_le_nat_alt)
  with * have "c = a - b"
    by (simp add: word_unat_eq_iff unat_sub)
  with le show "checked_sub a b = Some c"
    by (simp add: checked_sub_def)
qed

lemma checked_mul_eq_Some [checked_simps]:
  "checked_mul a b = Some c \<longleftrightarrow> unat c = unat a * unat b"
proof
  assume "checked_mul a b = Some c"
  then show "unat c = unat a * unat b"
    by (auto simp: checked_mul_def unat_word_ariths split: if_splits)
next
  assume *: "unat c = unat a * unat b"
  then have "unat a * unat b < 2 ^ LENGTH('a)"
    using unat_bound [of c] by simp
  moreover from this * have "c = a * b"
    by (simp add: word_unat_eq_iff unat_word_ariths)
  ultimately show "checked_mul a b = Some c"
    by (simp add: checked_mul_def)
qed

lemma unat_saturating_add:
  "unat (saturating_add a b) = min (2 ^ LENGTH('a) - 1) (unat a + unat (b :: 'a::len word))"
proof (cases "unat a + unat b < 2 ^ LENGTH('a)")
  case True
  then have "unat a + unat b \<le> 2 ^ LENGTH('a) - 1" by arith
  with True show ?thesis
    by (simp add: saturating_add_def unat_word_ariths min_def)
next
  case False
  then have "2 ^ LENGTH('a) - 1 \<le> unat a + unat b" by arith
  with False show ?thesis
    by (simp only: saturating_add_def unat_max_word min_def if_False if_True)
qed

lemma saturating_add_Suc:
  "(n :: 'a::len word) \<noteq> - 1 \<Longrightarrow> unat (saturating_add n 1) = Suc (unat n)"
proof -
  assume "n \<noteq> - 1"
  then have "unat n \<noteq> 2 ^ LENGTH('a) - 1"
    by (metis unat_max_word word_unat_eq_iff)
  with unat_bound [of n] have "Suc (unat n) \<le> 2 ^ LENGTH('a) - 1" by arith
  then show ?thesis by (simp add: unat_saturating_add min_def)
qed

section \<open>Facts about results and folds\<close>

lemma is_ok_simps [simp]: "is_ok (Ok x)" "\<not> is_ok (Err e)"
  by (simp_all add: is_ok_def)

lemma tryR_simps [simp]: "tryR (Ok x) k = k x" "tryR (Err e) k = Err e"
  by (simp_all add: tryR_def)

lemma tryS_simps [simp]: "tryS s (Ok x) k = k x" "tryS s (Err e) k = (s, Err e)"
  by (simp_all add: tryS_def)

lemma tryM_simps [simp]: "tryM (s, Ok x) k = k s x" "tryM (s, Err e) k = (s, Err e)"
  by (simp_all add: tryM_def)

lemma ok_or_simps [simp]: "ok_or (Some x) e = Ok x" "ok_or None e = Err e"
  by (simp_all add: ok_or_def)

lemma tryR_eq_Ok [result_simps]: "tryR r k = Ok y \<longleftrightarrow> (\<exists>x. r = Ok x \<and> k x = Ok y)"
  by (cases r) auto

lemma tryS_eq_Ok [result_simps]: "tryS s r k = (s', Ok y) \<longleftrightarrow> (\<exists>x. r = Ok x \<and> k x = (s', Ok y))"
  by (cases r) auto

lemma tryM_eq_Ok [result_simps]:
  "tryM m k = (s', Ok y) \<longleftrightarrow> (\<exists>s x. m = (s, Ok x) \<and> k s x = (s', Ok y))"
  by (cases m, cases "snd m") auto

lemma reject_eq_Ok [result_simps]:
  "(if b then Err e else r) = Ok y \<longleftrightarrow> \<not> b \<and> r = Ok y"
  "(if b then (s, Err e) else m) = (s', Ok y) \<longleftrightarrow> \<not> b \<and> m = (s', Ok y)"
  by auto

lemma tryS_eq_Err: "tryS s r k = (s', Err e) \<longleftrightarrow> (r = Err e \<and> s' = s) \<or> (\<exists>x. r = Ok x \<and> k x = (s', Err e))"
  by (cases r) auto

lemma ok_or_eq_Ok [result_simps]: "ok_or x e = Ok y \<longleftrightarrow> x = Some y"
  by (cases x) auto

lemma collect_eq_Ok: "collect f xs = Ok ys \<longleftrightarrow> list_all2 (\<lambda>x y. f x = Ok y) xs ys"
  by (induction xs arbitrary: ys) (auto simp: result_simps list_all2_Cons1)

lemma collect_Ok_length: "collect f xs = Ok ys \<Longrightarrow> length ys = length xs"
  by (auto simp: collect_eq_Ok dest: list_all2_lengthD)

lemma collect_Ok_nth: "collect f xs = Ok ys \<Longrightarrow> i < length xs \<Longrightarrow> f (xs ! i) = Ok (ys ! i)"
  by (auto simp: collect_eq_Ok list_all2_conv_all_nth)

lemma collect_cong [fundef_cong]:
  "xs = ys \<Longrightarrow> (\<And>x. x \<in> set ys \<Longrightarrow> f x = g x) \<Longrightarrow> collect f xs = collect g ys"
  by (induction ys arbitrary: xs) auto

lemma try_fold_append:
  "try_fold f acc (xs @ ys) = tryR (try_fold f acc xs) (\<lambda>acc'. try_fold f acc' ys)"
proof (induction xs arbitrary: acc)
  case (Cons x xs)
  then show ?case by (cases "f acc x") auto
qed simp

lemma tryR_cong: "r = r' \<Longrightarrow> (\<And>x. r' = Ok x \<Longrightarrow> k x = k' x) \<Longrightarrow> tryR r k = tryR r' k'"
  by (cases r') auto

lemma tryR_assoc: "tryR (tryR r k) h = tryR r (\<lambda>x. tryR (k x) h)"
  by (cases r) auto

lemma try_fold_cong [fundef_cong]:
  "acc = acc' \<Longrightarrow> xs = ys \<Longrightarrow> (\<And>a x. x \<in> set ys \<Longrightarrow> f a x = g a x) \<Longrightarrow> try_fold f acc xs = try_fold g acc' ys"
proof (induction ys arbitrary: acc acc' xs)
  case (Cons y ys)
  then show ?case by (cases "g acc' y") auto
qed simp

lemma collect_map: "collect f (map h xs) = collect (\<lambda>x. f (h x)) xs"
  by (induction xs) auto

lemma try_fold_map: "try_fold f acc (map h xs) = try_fold (\<lambda>a x. f a (h x)) acc xs"
proof (induction xs arbitrary: acc)
  case (Cons x xs)
  then show ?case by (cases "f acc (h x)") auto
qed simp

text \<open>An invariant of the accumulator is kept by a fold that returns.\<close>

lemma try_fold_invariant:
  assumes "try_fold f acc xs = Ok r" and "P acc"
    and "\<And>a x a'. x \<in> set xs \<Longrightarrow> P a \<Longrightarrow> f a x = Ok a' \<Longrightarrow> P a'"
  shows "P r"
  using assms by (induction xs arbitrary: acc) (auto simp: result_simps)

text \<open>The checked sum of a vector is the sum over the naturals whenever it exists.\<close>

lemma try_fold_checked_sum:
  "try_fold (\<lambda>total x. ok_or (checked_add total (f x :: 'w::len word)) e) acc xs = Ok r \<longleftrightarrow>
     unat r = unat acc + (\<Sum>x\<leftarrow>xs. unat (f x))"
proof (induction xs arbitrary: acc)
  case Nil
  then show ?case by (auto simp: word_unat_eq_iff)
next
  case (Cons x xs)
  show ?case
  proof (cases "checked_add acc (f x)")
    case None
    then have "2 ^ LENGTH('w) \<le> unat acc + unat (f x)"
      by (simp add: checked_add_eq_None)
    then have "unat r \<noteq> unat acc + (unat (f x) + (\<Sum>x\<leftarrow>xs. unat (f x)))"
      using unat_bound [of r] by arith
    with None show ?thesis by simp
  next
    case (Some a)
    then have "unat a = unat acc + unat (f x)"
      by (simp add: checked_simps)
    with Some Cons.IH [of a] show ?thesis
      by (simp add: add.assoc)
  qed
qed

lemma strictly_sorted_iff: "strictly_sorted xs \<longleftrightarrow> sorted_wrt (<) xs"
proof (induction xs rule: strictly_sorted.induct)
  case (1 x y ys)
  then show ?case by (auto dest: less_trans)
qed auto

lemma strictly_sorted_distinct: "strictly_sorted xs \<Longrightarrow> distinct xs"
  by (auto simp: strictly_sorted_iff strict_sorted_iff)

section \<open>Interfaces\<close>

text \<open>
  A state machine driven by commands. \<open>exec\<close> is the whole handler: the state it leaves and
  its result. The contract \<open>fails closed\<close> says that a rejected command writes nothing.
\<close>

fun run :: "('s \<Rightarrow> 'c \<Rightarrow> 's \<times> ('r, 'e) result) \<Rightarrow> 's \<Rightarrow> 'c list \<Rightarrow> 's" where
  "run exec s [] = s"
| "run exec s (c # cs) = run exec (fst (exec s c)) cs"

lemma run_append: "run exec s (cs @ ds) = run exec (run exec s cs) ds"
  by (induction cs arbitrary: s) simp_all

text \<open>The commands of a history that are accepted.\<close>

fun accepted :: "('s \<Rightarrow> 'c \<Rightarrow> 's \<times> ('r, 'e) result) \<Rightarrow> 's \<Rightarrow> 'c list \<Rightarrow> 'c list" where
  "accepted exec s [] = []"
| "accepted exec s (c # cs) =
     (if is_ok (snd (exec s c)) then c # accepted exec (fst (exec s c)) cs
      else accepted exec (fst (exec s c)) cs)"

lemma run_stuck:
  assumes "\<And>c. \<exists>e. exec s c = (s, Err e)"
  shows "run exec s cs = s \<and> accepted exec s cs = []"
proof (induction cs)
  case (Cons c cs)
  from assms obtain e where "exec s c = (s, Err e)" by blast
  with Cons show ?case by simp
qed simp

locale fail_closed =
  fixes exec :: "'s \<Rightarrow> 'c \<Rightarrow> 's \<times> ('r, 'e) result"
  assumes rejected_keeps_state: "exec s c = (s', Err e) \<Longrightarrow> s' = s"
begin

lemma exec_cases: "fst (exec s c) = s \<or> (\<exists>r. exec s c = (fst (exec s c), Ok r))"
  by (metis prod.collapse rejected_keeps_state result.exhaust)

text \<open>Rejected commands can be dropped from a history without changing where it ends.\<close>

lemma run_accepted: "run exec s (accepted exec s cs) = run exec s cs"
proof (induction cs arbitrary: s)
  case (Cons c cs)
  show ?case
  proof (cases "exec s c")
    case (Pair s' r)
    with Cons show ?thesis
      by (cases r) (auto dest: rejected_keeps_state)
  qed
qed simp

text \<open>A reflexive and transitive relation that accepted commands keep relates the ends of a run.\<close>

lemma run_related:
  assumes refl: "\<And>x. R x x" and trans: "\<And>x y z. R x y \<Longrightarrow> R y z \<Longrightarrow> R x z"
    and step: "\<And>x c y r. exec x c = (y, Ok r) \<Longrightarrow> R x y"
  shows "R s (run exec s cs)"
proof (induction cs arbitrary: s)
  case Nil
  then show ?case using refl by simp
next
  case (Cons c cs)
  have "R s (fst (exec s c))"
    using exec_cases [of s c] refl step by metis
  with Cons.IH [of "fst (exec s c)"] show ?case using trans by simp
qed

text \<open>A relation between the state reached and the accepted commands that led there.\<close>

lemma run_history:
  assumes "P s []"
    and step: "\<And>x h c y r. P x h \<Longrightarrow> exec x c = (y, Ok r) \<Longrightarrow> P y (h @ [c])"
  shows "P (run exec s cs) (accepted exec s cs)"
proof -
  have "P s h \<Longrightarrow> P (run exec s cs) (h @ accepted exec s cs)" for h
  proof (induction cs arbitrary: s h)
    case (Cons c cs)
    show ?case
    proof (cases "exec s c")
      case (Pair s' r)
      show ?thesis
      proof (cases r)
        case (Ok x)
        with Pair Cons.prems have "P s' (h @ [c])" by (auto intro: step)
        with Cons.IH [of s' "h @ [c]"] Pair Ok show ?thesis by simp
      next
        case (Err e)
        with Pair rejected_keeps_state [of s c s' e] Cons show ?thesis by simp
      qed
    qed
  qed simp
  from this [of "[]"] assms(1) show ?thesis by simp
qed

text \<open>A quantity that every accepted command changes by a fixed amount.\<close>

lemma run_accumulates:
  assumes "\<And>x c y r. exec x c = (y, Ok r) \<Longrightarrow> f y = f x + g c"
  shows "f (run exec s cs) = f s + (\<Sum>c\<leftarrow>accepted exec s cs. g c :: nat)"
proof (induction cs arbitrary: s)
  case (Cons c cs)
  show ?case
  proof (cases "exec s c")
    case (Pair s' r)
    with Cons show ?thesis
      by (cases r) (auto dest: rejected_keeps_state assms)
  qed
qed simp

end

text \<open>A fail-closed machine whose accepted commands keep an invariant keeps it along every run.\<close>

locale invariant_machine = fail_closed exec
  for exec :: "'s \<Rightarrow> 'c \<Rightarrow> 's \<times> ('r, 'e) result" +
  fixes inv :: "'s \<Rightarrow> bool"
  assumes accepted_keeps_inv: "inv s \<Longrightarrow> exec s c = (s', Ok r) \<Longrightarrow> inv s'"
begin

lemma exec_keeps_inv: "inv s \<Longrightarrow> inv (fst (exec s c))"
  using exec_cases [of s c] accepted_keeps_inv by metis

lemma run_keeps_inv: "inv s \<Longrightarrow> inv (run exec s cs)"
  by (induction cs arbitrary: s) (auto intro: exec_keeps_inv)

text \<open>A rank that every accepted command raises bounds the number of accepted commands.\<close>

lemma run_ranked:
  assumes "inv s" and step: "\<And>x c y r. inv x \<Longrightarrow> exec x c = (y, Ok r) \<Longrightarrow> rank x < (rank y :: nat)"
  shows "rank s + length (accepted exec s cs) \<le> rank (run exec s cs)"
  using assms(1)
proof (induction cs arbitrary: s)
  case (Cons c cs)
  obtain y r where y: "exec s c = (y, r)" by fastforce
  show ?case
  proof (cases r)
    case (Ok x)
    with y Cons.prems step [of s c y x] accepted_keeps_inv Cons.IH [of y] show ?thesis by fastforce
  next
    case (Err e)
    with y rejected_keeps_state have "y = s" by blast
    with y Err Cons show ?thesis by simp
  qed
qed simp

end

end
