(* ===== verification/Ordered_Map.thy ===== *)
theory Ordered_Map
  imports Prelude
begin

text \<open>
  The finite maps of the standard library. A map is its list of entries in ascending key
  order, the order \<open>BTreeMap\<close> iterates in; \<open>HashMap\<close> is modelled by the same type, its
  iteration order being observed nowhere in the sources. The interface \<open>finite_map\<close> states
  the laws the components rely on and derives the sums over the values of a map; the type
  \<open>btree\<close> implements it.
\<close>

section \<open>Operations\<close>

fun upd_entries :: "'k::linorder \<Rightarrow> 'v \<Rightarrow> ('k \<times> 'v) list \<Rightarrow> ('k \<times> 'v) list" where
  "upd_entries k v [] = [(k, v)]"
| "upd_entries k v ((k', v') # es) =
     (if k < k' then (k, v) # (k', v') # es
      else if k = k' then (k, v) # es
      else (k', v') # upd_entries k v es)"

definition del_entries :: "'k \<Rightarrow> ('k \<times> 'v) list \<Rightarrow> ('k \<times> 'v) list" where
  "del_entries k es = filter (\<lambda>e. fst e \<noteq> k) es"

lemma keys_upd_entries: "fst ` set (upd_entries k v es) = insert k (fst ` set es)"
  by (induction k v es rule: upd_entries.induct) auto

lemma sorted_upd_entries:
  "sorted_wrt (<) (map fst es) \<Longrightarrow> sorted_wrt (<) (map fst (upd_entries k v es))"
proof (induction k v es rule: upd_entries.induct)
  case (2 k v k' v' es)
  consider "k < k'" | "k = k'" | "k' < k" by fastforce
  then show ?case
  proof cases
    case 3
    with 2 have "sorted_wrt (<) (map fst (upd_entries k v es))" by auto
    moreover have "\<forall>x \<in> fst ` set (upd_entries k v es). k' < x"
      using 2 3 by (auto simp: keys_upd_entries)
    ultimately show ?thesis using 3 by auto
  qed (use 2 in \<open>auto dest: less_trans\<close>)
qed simp

lemma sorted_del_entries:
  "sorted_wrt (<) (map fst es) \<Longrightarrow> sorted_wrt (<) (map fst (del_entries k es))"
  by (induction es) (auto simp: del_entries_def)

lemma map_of_upd_entries: "map_of (upd_entries k v es) = (map_of es)(k \<mapsto> v)"
  by (induction k v es rule: upd_entries.induct) (auto simp: fun_upd_twist)

lemma map_of_del_entries: "map_of (del_entries k es) = (map_of es)(k := None)"
  by (induction es) (auto simp: del_entries_def)

typedef (overloaded) ('k::linorder, 'v) btree =
  "{es :: ('k \<times> 'v) list. sorted_wrt (<) (map fst es)}"
  morphisms entries Btree
  by (rule exI [of _ "[]"]) simp

setup_lifting type_definition_btree

lift_definition bt_empty :: "('k::linorder, 'v) btree" is "[]"
  by simp

lift_definition bt_get :: "('k::linorder, 'v) btree \<Rightarrow> 'k \<Rightarrow> 'v option" is "map_of" .

lift_definition bt_insert :: "'k::linorder \<Rightarrow> 'v \<Rightarrow> ('k, 'v) btree \<Rightarrow> ('k, 'v) btree" is "upd_entries"
  by (rule sorted_upd_entries)

lift_definition bt_remove :: "'k::linorder \<Rightarrow> ('k, 'v) btree \<Rightarrow> ('k, 'v) btree" is "del_entries"
  by (rule sorted_del_entries)

definition bt_values :: "('k::linorder, 'v) btree \<Rightarrow> 'v list" where
  "bt_values m = map snd (entries m)"

definition bt_contains :: "('k::linorder, 'v) btree \<Rightarrow> 'k \<Rightarrow> bool" where
  "bt_contains m k \<longleftrightarrow> bt_get m k \<noteq> None"

text \<open>Inserting the entries of a list from left to right: \<open>collect::<BTreeMap<_, _>>\<close>.\<close>

definition bt_of_list :: "('k::linorder \<times> 'v) list \<Rightarrow> ('k, 'v) btree" where
  "bt_of_list es = fold (\<lambda>(k, v). bt_insert k v) es bt_empty"

text \<open>The sum of a measure over the values of a map.\<close>

definition bt_total :: "('v \<Rightarrow> nat) \<Rightarrow> ('k::linorder, 'v) btree \<Rightarrow> nat" where
  "bt_total f m = (\<Sum>v\<leftarrow>bt_values m. f v)"

section \<open>The interface\<close>

locale finite_map =
  fixes empty :: "'m"
    and get :: "'m \<Rightarrow> 'k \<Rightarrow> 'v option"
    and ins :: "'k \<Rightarrow> 'v \<Rightarrow> 'm \<Rightarrow> 'm"
    and rem :: "'k \<Rightarrow> 'm \<Rightarrow> 'm"
    and iter :: "'m \<Rightarrow> ('k \<times> 'v) list"
  assumes iter_empty: "iter empty = []"
    and get_ins: "get (ins k v m) = (get m)(k \<mapsto> v)"
    and get_rem: "get (rem k m) = (get m)(k := None)"
    and get_iter: "get m = map_of (iter m)"
    and iter_distinct: "distinct (map fst (iter m))"
begin

definition total :: "('v \<Rightarrow> nat) \<Rightarrow> 'm \<Rightarrow> nat" where
  "total f m = (\<Sum>e\<leftarrow>iter m. f (snd e))"

lemma finite_dom_get: "finite (dom (get m))"
  by (simp add: get_iter finite_dom_map_of)

lemma total_sum: "total f m = (\<Sum>k\<in>dom (get m). f (the (get m k)))"
proof -
  have "total f m = (\<Sum>e\<in>set (iter m). f (snd e))"
    unfolding total_def using iter_distinct [of m]
    by (simp add: sum_list_distinct_conv_sum_set distinct_map)
  also have "\<dots> = (\<Sum>e\<in>set (iter m). f (the (get m (fst e))))"
    using iter_distinct [of m] by (intro sum.cong) (auto simp: get_iter)
  also have "\<dots> = (\<Sum>k\<in>fst ` set (iter m). f (the (get m k)))"
    using iter_distinct [of m] by (simp add: sum.reindex distinct_map comp_def)
  finally show ?thesis by (simp add: get_iter dom_map_of_conv_image_fst)
qed

lemma total_empty: "total f empty = 0"
  by (simp add: total_def iter_empty)

lemma total_ins_new: "get m k = None \<Longrightarrow> total f (ins k v m) = f v + total f m"
proof -
  assume new: "get m k = None"
  then have "k \<notin> dom (get m)" by auto
  with finite_dom_get [of m] have
    "total f (ins k v m) = f v + (\<Sum>x\<in>dom (get m). f (the (((get m)(k \<mapsto> v)) x)))"
    by (simp add: total_sum get_ins)
  also have "(\<Sum>x\<in>dom (get m). f (the (((get m)(k \<mapsto> v)) x))) = total f m"
    unfolding total_sum using new by (intro sum.cong) auto
  finally show ?thesis .
qed

lemma total_rem: "get m k = Some w \<Longrightarrow> total f (rem k m) + f w = total f m"
proof -
  assume old: "get m k = Some w"
  then have k: "k \<in> dom (get m)" by auto
  have "total f (rem k m) = (\<Sum>x\<in>dom (get m) - {k}. f (the (get m x)))"
    by (auto simp: total_sum get_rem intro!: sum.cong)
  with finite_dom_get [of m] k old show ?thesis
    by (simp add: total_sum sum.remove add.commute)
qed

lemma total_ins_old: "get m k = Some w \<Longrightarrow> total f (ins k v m) + f w = total f m + f v"
proof -
  assume old: "get m k = Some w"
  then have k: "k \<in> dom (get m)" by auto
  have "total f (ins k v m) = f v + (\<Sum>x\<in>dom (get m) - {k}. f (the (((get m)(k \<mapsto> v)) x)))"
    using finite_dom_get [of m] by (simp add: total_sum get_ins sum.insert_remove)
  also have "(\<Sum>x\<in>dom (get m) - {k}. f (the (((get m)(k \<mapsto> v)) x))) =
      (\<Sum>x\<in>dom (get m) - {k}. f (the (get m x)))"
    by (intro sum.cong) auto
  finally show ?thesis
    using finite_dom_get [of m] k old by (simp add: total_sum sum.remove)
qed

lemma get_le_total: "get m k = Some w \<Longrightarrow> f w \<le> total f m"
  using total_rem [of m k w f] by simp

text \<open>The balance reading: an absent key counts as \<open>z\<close> with measure 0.\<close>

lemma total_ins_default:
  assumes "f z = 0"
  shows "total f (ins k v m) + f (case get m k of None \<Rightarrow> z | Some w \<Rightarrow> w) = total f m + f v"
  using assms by (cases "get m k") (simp_all add: total_ins_new total_ins_old)

end

section \<open>The interface implemented\<close>

interpretation bt: finite_map bt_empty bt_get bt_insert bt_remove entries
proof unfold_locales
  show "entries bt_empty = []" by transfer simp
  show "bt_get (bt_insert k v m) = (bt_get m)(k \<mapsto> v)" for k :: 'a and v :: 'b and m
    by transfer (rule map_of_upd_entries)
  show "bt_get (bt_remove k m) = (bt_get m)(k := None)" for k :: 'a and m :: "('a, 'b) btree"
    by transfer (rule map_of_del_entries)
  show "bt_get m = map_of (entries m)" for m :: "('a, 'b) btree"
    by transfer simp
  show "distinct (map fst (entries m))" for m :: "('a, 'b) btree"
    by transfer (simp add: strict_sorted_iff)
qed

lemma bt_get_simps [simp]:
  "bt_get bt_empty k = None"
  "bt_get (bt_insert k v m) k' = (if k' = k then Some v else bt_get m k')"
  "bt_get (bt_remove k m) k' = (if k' = k then None else bt_get m k')"
  by (simp_all add: bt.get_ins bt.get_rem) (simp add: bt.get_iter bt.iter_empty)

lemma bt_entries_simps [simp]:
  "entries bt_empty = []"
  "entries (bt_insert k v m) = upd_entries k v (entries m)"
  "entries (bt_remove k m) = del_entries k (entries m)"
  by (transfer, simp)+

lemma bt_values_empty [simp]: "bt_values bt_empty = []"
  by (simp add: bt_values_def)

lemma entries_sorted: "sorted_wrt (<) (map fst (entries m))"
  by transfer simp

lemma entries_get: "(i, y) \<in> set (entries m) \<longleftrightarrow> bt_get m i = Some y"
  using bt.iter_distinct [of m] by (simp add: bt.get_iter)

lemma bt_contains_iff: "bt_contains m k \<longleftrightarrow> (\<exists>v. bt_get m k = Some v)"
  by (auto simp: bt_contains_def)

lemma entries_of_keys: "entries m = map (\<lambda>k. (k, the (bt_get m k))) (map fst (entries m))"
  using bt.iter_distinct [of m] by (auto simp: bt.get_iter comp_def intro!: map_idI [symmetric])

lemma bt_ext: "(\<And>k. bt_get m k = bt_get m' k) \<Longrightarrow> m = m'"
proof -
  assume *: "\<And>k. bt_get m k = bt_get m' k"
  then have eq: "bt_get m = bt_get m'" by (rule ext)
  then have "fst ` set (entries m) = fst ` set (entries m')"
    by (metis bt.get_iter dom_map_of_conv_image_fst)
  then have keys: "map fst (entries m) = map fst (entries m')"
    using entries_sorted [of m] entries_sorted [of m']
    by (simp add: strict_sorted_equal)
  with eq have "entries m = entries m'"
    by (metis entries_of_keys)
  then show ?thesis by (simp add: entries_inject)
qed

lemma bt_values_mem: "v \<in> set (bt_values m) \<longleftrightarrow> (\<exists>k. bt_get m k = Some v)"
  using bt.iter_distinct [of m]
  by (force simp: bt_values_def bt.get_iter dest: map_of_SomeD intro: map_of_is_SomeI)

lemma bt_total_def': "bt_total f m = bt.total f m"
  by (simp add: bt_total_def bt_values_def bt.total_def comp_def)

lemmas bt_total_simps =
  bt.total_ins_new [folded bt_total_def'] bt.total_ins_old [folded bt_total_def']
  bt.total_rem [folded bt_total_def']

lemmas bt_total_default = bt.total_ins_default [folded bt_total_def']

lemmas bt_get_le_total = bt.get_le_total [folded bt_total_def']

lemma bt_total_empty [simp]: "bt_total f bt_empty = 0"
  by (simp add: bt_total_def)

lemma bt_insert_same: "bt_get m k = Some v \<Longrightarrow> bt_insert k v m = m"
  by (rule bt_ext) auto

end
