(* ===== verification/Audit_Events.thy ===== *)
theory Audit_Events
  imports Prelude
begin

text \<open>
  The normalized audit record shared by the business contracts (crate trnm-audit-events):
  the struct \<open>AuditEvent\<close> and its builder methods.
\<close>

record AuditEvent =
  ae_source :: string
  ae_event_type :: string
  ae_actor :: "string option"
  ae_object_id :: "string option"
  ae_related_id :: "string option"
  ae_amount :: "u128 option"
  ae_reason :: "string option"
  ae_note :: "string option"

definition AuditEvent_new :: "string \<Rightarrow> string \<Rightarrow> AuditEvent" where
  "AuditEvent_new src ty =
     \<lparr>ae_source = src, ae_event_type = ty, ae_actor = None, ae_object_id = None, ae_related_id = None,
      ae_amount = None, ae_reason = None, ae_note = None\<rparr>"

definition with_actor :: "string \<Rightarrow> AuditEvent \<Rightarrow> AuditEvent" where
  "with_actor a e = e\<lparr>ae_actor := Some a\<rparr>"

definition with_object_id :: "string \<Rightarrow> AuditEvent \<Rightarrow> AuditEvent" where
  "with_object_id i e = e\<lparr>ae_object_id := Some i\<rparr>"

definition with_related_id :: "string \<Rightarrow> AuditEvent \<Rightarrow> AuditEvent" where
  "with_related_id i e = e\<lparr>ae_related_id := Some i\<rparr>"

definition with_amount :: "u128 \<Rightarrow> AuditEvent \<Rightarrow> AuditEvent" where
  "with_amount n e = e\<lparr>ae_amount := Some n\<rparr>"

definition with_reason :: "string \<Rightarrow> AuditEvent \<Rightarrow> AuditEvent" where
  "with_reason r e = e\<lparr>ae_reason := Some r\<rparr>"

definition with_note :: "string \<Rightarrow> AuditEvent \<Rightarrow> AuditEvent" where
  "with_note n e = e\<lparr>ae_note := Some n\<rparr>"

end
