(* ===== verification/Escrow_Vault.thy ===== *)
theory Escrow_Vault
  imports Ordered_Map Audit_Events
begin

text \<open>
  The settlement vault (crate trnm-escrow-vault): an owner-operated ledger of balances and
  one-shot escrow locks. The first part transcribes the state, its operations and the
  normalization of its audit log. The second part gives the abstract ledger the vault
  implements and shows conservation, fail-closed behaviour, the lock life cycle and that the
  audit log replays to the ledger.
\<close>

section \<open>State\<close>

datatype VaultError =
    Unauthorized | Paused | AlreadyPaused | NotPaused | InvalidAmount | InvalidBeneficiary
  | InvalidRequestId | InsufficientBalance | DuplicateRequest | RequestNotFound
  | InvalidStateTransition | BalanceOverflow

datatype LockStatus = Locked | Released | Slashed

datatype VaultEvent =
    EvDeposited string string u128
  | EvLocked string string string u128
  | EvReleased string string string u128
  | EvSlashed string string string string u128
  | EvTransferred string string string u128
  | EvPaused string
  | EvUnpaused string

record LockRecord =
  lk_account :: string
  lk_amount :: u128
  lk_status :: LockStatus

record SettlementVault =
  owner :: string
  paused :: bool
  balances :: "(string, u128) btree"
  locks :: "(string, LockRecord) btree"
  audit_log :: "VaultEvent list"

section \<open>Operations\<close>

definition vault_new :: "string \<Rightarrow> SettlementVault" where
  "vault_new own =
     \<lparr>owner = own, paused = False, balances = bt_empty, locks = bt_empty, audit_log = []\<rparr>"

definition balance_of :: "SettlementVault \<Rightarrow> string \<Rightarrow> u128" where
  "balance_of v acct = (case bt_get (balances v) acct of None \<Rightarrow> 0 | Some b \<Rightarrow> b)"

definition lock_record :: "SettlementVault \<Rightarrow> string \<Rightarrow> LockRecord option" where
  "lock_record v rid = bt_get (locks v) rid"

definition consume_audit_log :: "SettlementVault \<Rightarrow> SettlementVault \<times> VaultEvent list" where
  "consume_audit_log v = (v\<lparr>audit_log := []\<rparr>, audit_log v)"

fun normalize_audit_event :: "VaultEvent \<Rightarrow> AuditEvent" where
  "normalize_audit_event (EvDeposited caller acct amt) =
     (AuditEvent_new ''settlement-vault'' ''vault.deposited'')
       \<lparr>ae_actor := Some caller, ae_object_id := Some acct, ae_amount := Some amt\<rparr>"
| "normalize_audit_event (EvLocked caller rid acct amt) =
     (AuditEvent_new ''settlement-vault'' ''vault.locked'')
       \<lparr>ae_actor := Some caller, ae_object_id := Some rid, ae_related_id := Some acct, ae_amount := Some amt\<rparr>"
| "normalize_audit_event (EvReleased caller rid acct amt) =
     (AuditEvent_new ''settlement-vault'' ''vault.released'')
       \<lparr>ae_actor := Some caller, ae_object_id := Some rid, ae_related_id := Some acct, ae_amount := Some amt\<rparr>"
| "normalize_audit_event (EvSlashed caller rid acct beneficiary amt) =
     (AuditEvent_new ''settlement-vault'' ''vault.slashed'')
       \<lparr>ae_actor := Some caller, ae_object_id := Some rid, ae_related_id := Some acct, ae_amount := Some amt,
        ae_note := Some (''beneficiary='' @ beneficiary)\<rparr>"
| "normalize_audit_event (EvTransferred caller src dst amt) =
     (AuditEvent_new ''settlement-vault'' ''vault.transferred'')
       \<lparr>ae_actor := Some caller, ae_object_id := Some src, ae_related_id := Some dst, ae_amount := Some amt\<rparr>"
| "normalize_audit_event (EvPaused caller) =
     (AuditEvent_new ''settlement-vault'' ''vault.paused'')\<lparr>ae_actor := Some caller\<rparr>"
| "normalize_audit_event (EvUnpaused caller) =
     (AuditEvent_new ''settlement-vault'' ''vault.unpaused'')\<lparr>ae_actor := Some caller\<rparr>"

definition normalized_audit_log :: "SettlementVault \<Rightarrow> AuditEvent list" where
  "normalized_audit_log v = map normalize_audit_event (audit_log v)"

definition ensure_owner :: "SettlementVault \<Rightarrow> string \<Rightarrow> (unit, VaultError) result" where
  "ensure_owner v caller = (if caller \<noteq> owner v then Err Unauthorized else Ok ())"

definition ensure_not_paused :: "SettlementVault \<Rightarrow> (unit, VaultError) result" where
  "ensure_not_paused v = (if paused v then Err Paused else Ok ())"

definition ensure_request_id :: "string \<Rightarrow> (unit, VaultError) result" where
  "ensure_request_id rid = (if trim rid = [] \<or> rid \<noteq> trim rid then Err InvalidRequestId else Ok ())"

definition ensure_creditable_balance :: "SettlementVault \<Rightarrow> string \<Rightarrow> u128 \<Rightarrow> (unit, VaultError) result" where
  "ensure_creditable_balance v acct amt =
     (case checked_add (balance_of v acct) amt of None \<Rightarrow> Err BalanceOverflow | Some _ \<Rightarrow> Ok ())"

text \<open>\<open>entry(account).or_insert(0)\<close> writes before the checked addition can fail.\<close>

definition credit_balance :: "SettlementVault \<Rightarrow> string \<Rightarrow> u128 \<Rightarrow> SettlementVault \<times> (unit, VaultError) result" where
  "credit_balance v acct amt =
     (let entry = (case bt_get (balances v) acct of Some b \<Rightarrow> b | None \<Rightarrow> 0);
          v' = v\<lparr>balances := bt_insert acct entry (balances v)\<rparr>
      in case checked_add entry amt of
           None \<Rightarrow> (v', Err BalanceOverflow)
         | Some b \<Rightarrow> (v'\<lparr>balances := bt_insert acct b (balances v')\<rparr>, Ok ()))"

definition prune_zero_balance :: "SettlementVault \<Rightarrow> string \<Rightarrow> SettlementVault" where
  "prune_zero_balance v acct =
     (if balance_of v acct = 0 then v\<lparr>balances := bt_remove acct (balances v)\<rparr> else v)"

definition push_event :: "VaultEvent \<Rightarrow> SettlementVault \<Rightarrow> SettlementVault" where
  "push_event e v = v\<lparr>audit_log := audit_log v @ [e]\<rparr>"

definition deposit :: "SettlementVault \<Rightarrow> string \<Rightarrow> string \<Rightarrow> u128 \<Rightarrow> SettlementVault \<times> (unit, VaultError) result" where
  "deposit v caller acct amt =
     tryS v (ensure_owner v caller) (\<lambda>_.
     tryS v (ensure_not_paused v) (\<lambda>_.
     if amt = 0 then (v, Err InvalidAmount)
     else tryM (credit_balance v acct amt) (\<lambda>v' _.
       (push_event (EvDeposited caller acct amt) v', Ok ()))))"

definition lock :: "SettlementVault \<Rightarrow> string \<Rightarrow> string \<Rightarrow> string \<Rightarrow> u128 \<Rightarrow> SettlementVault \<times> (unit, VaultError) result" where
  "lock v caller rid acct amt =
     tryS v (ensure_owner v caller) (\<lambda>_.
     tryS v (ensure_not_paused v) (\<lambda>_.
     tryS v (ensure_request_id rid) (\<lambda>_.
     if amt = 0 then (v, Err InvalidAmount)
     else if bt_contains (locks v) rid then (v, Err DuplicateRequest)
     else if balance_of v acct < amt then (v, Err InsufficientBalance)
     else (case bt_get (balances v) acct of
             None \<Rightarrow> (v, Err InsufficientBalance)
           | Some b \<Rightarrow>
               (let v1 = v\<lparr>balances := bt_insert acct (b - amt) (balances v)\<rparr>;
                    v2 = prune_zero_balance v1 acct;
                    v3 = v2\<lparr>locks := bt_insert rid
                           \<lparr>lk_account = acct, lk_amount = amt, lk_status = Locked\<rparr> (locks v2)\<rparr>
                in (push_event (EvLocked caller rid acct amt) v3, Ok ()))))))"

definition release :: "SettlementVault \<Rightarrow> string \<Rightarrow> string \<Rightarrow> SettlementVault \<times> (unit, VaultError) result" where
  "release v caller rid =
     tryS v (ensure_owner v caller) (\<lambda>_.
     tryS v (ensure_not_paused v) (\<lambda>_.
     tryS v (ensure_request_id rid) (\<lambda>_.
     tryS v (ok_or (bt_get (locks v) rid) RequestNotFound) (\<lambda>lk.
     if lk_status lk \<noteq> Locked then (v, Err InvalidStateTransition)
     else
       tryS v (ensure_creditable_balance v (lk_account lk) (lk_amount lk)) (\<lambda>_.
       tryS v (ok_or (bt_get (locks v) rid) RequestNotFound) (\<lambda>lk'.
       (let v1 = v\<lparr>locks := bt_insert rid (lk'\<lparr>lk_status := Released\<rparr>) (locks v)\<rparr>
        in tryM (credit_balance v1 (lk_account lk) (lk_amount lk)) (\<lambda>v2 _.
             (push_event (EvReleased caller rid (lk_account lk) (lk_amount lk)) v2, Ok ())))))))))"

definition slash :: "SettlementVault \<Rightarrow> string \<Rightarrow> string \<Rightarrow> string \<Rightarrow> SettlementVault \<times> (unit, VaultError) result" where
  "slash v caller rid beneficiary =
     tryS v (ensure_owner v caller) (\<lambda>_.
     tryS v (ensure_not_paused v) (\<lambda>_.
     tryS v (ensure_request_id rid) (\<lambda>_.
     tryS v (ok_or (bt_get (locks v) rid) RequestNotFound) (\<lambda>lk.
     if lk_status lk \<noteq> Locked then (v, Err InvalidStateTransition)
     else if trim beneficiary = [] \<or> beneficiary = lk_account lk then (v, Err InvalidBeneficiary)
     else
       tryS v (ensure_creditable_balance v beneficiary (lk_amount lk)) (\<lambda>_.
       tryS v (ok_or (bt_get (locks v) rid) RequestNotFound) (\<lambda>lk'.
       (let v1 = v\<lparr>locks := bt_insert rid (lk'\<lparr>lk_status := Slashed\<rparr>) (locks v)\<rparr>
        in tryM (credit_balance v1 beneficiary (lk_amount lk)) (\<lambda>v2 _.
             (push_event (EvSlashed caller rid (lk_account lk) beneficiary (lk_amount lk)) v2,
              Ok ())))))))))"

definition transfer :: "SettlementVault \<Rightarrow> string \<Rightarrow> string \<Rightarrow> string \<Rightarrow> u128 \<Rightarrow> SettlementVault \<times> (unit, VaultError) result" where
  "transfer v caller src dst amt =
     tryS v (ensure_owner v caller) (\<lambda>_.
     tryS v (ensure_not_paused v) (\<lambda>_.
     if amt = 0 then (v, Err InvalidAmount)
     else if trim dst = [] then (v, Err InvalidBeneficiary)
     else if balance_of v src < amt then (v, Err InsufficientBalance)
     else if src = dst then (push_event (EvTransferred caller src dst amt) v, Ok ())
     else
       tryS v (ensure_creditable_balance v dst amt) (\<lambda>_.
       (let entry = (case bt_get (balances v) src of None \<Rightarrow> 0 | Some b \<Rightarrow> b);
            v1 = v\<lparr>balances := bt_insert src (entry - amt) (balances v)\<rparr>;
            v2 = prune_zero_balance v1 src
        in tryM (credit_balance v2 dst amt) (\<lambda>v3 _.
             (push_event (EvTransferred caller src dst amt) v3, Ok ()))))))"

definition pause :: "SettlementVault \<Rightarrow> string \<Rightarrow> SettlementVault \<times> (unit, VaultError) result" where
  "pause v caller =
     tryS v (ensure_owner v caller) (\<lambda>_.
     if paused v then (v, Err AlreadyPaused)
     else (push_event (EvPaused caller) (v\<lparr>paused := True\<rparr>), Ok ()))"

definition unpause :: "SettlementVault \<Rightarrow> string \<Rightarrow> SettlementVault \<times> (unit, VaultError) result" where
  "unpause v caller =
     tryS v (ensure_owner v caller) (\<lambda>_.
     if \<not> paused v then (v, Err NotPaused)
     else (push_event (EvUnpaused caller) (v\<lparr>paused := False\<rparr>), Ok ()))"

text \<open>The public interface as one command type.\<close>

datatype VaultCall =
    CallDeposit string string u128
  | CallLock string string string u128
  | CallRelease string string
  | CallSlash string string string
  | CallTransfer string string string u128
  | CallPause string
  | CallUnpause string
  | CallConsumeAuditLog

fun vault_exec :: "SettlementVault \<Rightarrow> VaultCall \<Rightarrow> SettlementVault \<times> (unit, VaultError) result" where
  "vault_exec v (CallDeposit caller acct amt) = deposit v caller acct amt"
| "vault_exec v (CallLock caller rid acct amt) = lock v caller rid acct amt"
| "vault_exec v (CallRelease caller rid) = release v caller rid"
| "vault_exec v (CallSlash caller rid beneficiary) = slash v caller rid beneficiary"
| "vault_exec v (CallTransfer caller src dst amt) = transfer v caller src dst amt"
| "vault_exec v (CallPause caller) = pause v caller"
| "vault_exec v (CallUnpause caller) = unpause v caller"
| "vault_exec v CallConsumeAuditLog = (fst (consume_audit_log v), Ok ())"

section \<open>The abstract ledger\<close>

text \<open>
  What the vault promises its clients: natural-number balances, the recorded locks and the
  pause flag. An audit event says how the ledger moves.
\<close>

record ledger =
  l_balance :: "string \<Rightarrow> nat"
  l_locks :: "string \<Rightarrow> LockRecord option"
  l_paused :: bool

fun apply_event :: "VaultEvent \<Rightarrow> ledger \<Rightarrow> ledger" where
  "apply_event (EvDeposited _ a n) l = l\<lparr>l_balance := (l_balance l)(a := l_balance l a + unat n)\<rparr>"
| "apply_event (EvLocked _ r a n) l =
     l\<lparr>l_balance := (l_balance l)(a := l_balance l a - unat n),
       l_locks := (l_locks l)(r \<mapsto> \<lparr>lk_account = a, lk_amount = n, lk_status = Locked\<rparr>)\<rparr>"
| "apply_event (EvReleased _ r a n) l =
     l\<lparr>l_balance := (l_balance l)(a := l_balance l a + unat n),
       l_locks := (l_locks l)(r \<mapsto> \<lparr>lk_account = a, lk_amount = n, lk_status = Released\<rparr>)\<rparr>"
| "apply_event (EvSlashed _ r a b n) l =
     l\<lparr>l_balance := (l_balance l)(b := l_balance l b + unat n),
       l_locks := (l_locks l)(r \<mapsto> \<lparr>lk_account = a, lk_amount = n, lk_status = Slashed\<rparr>)\<rparr>"
| "apply_event (EvTransferred _ s d n) l =
     (let paid = (l_balance l)(s := l_balance l s - unat n)
      in l\<lparr>l_balance := paid(d := paid d + unat n)\<rparr>)"
| "apply_event (EvPaused _) l = l\<lparr>l_paused := True\<rparr>"
| "apply_event (EvUnpaused _) l = l\<lparr>l_paused := False\<rparr>"

definition abs_ledger :: "SettlementVault \<Rightarrow> ledger" where
  "abs_ledger v = \<lparr>l_balance = (\<lambda>a. unat (balance_of v a)), l_locks = bt_get (locks v), l_paused = paused v\<rparr>"

text \<open>The events a history appends to the audit log, whether or not the log is consumed.\<close>

fun vault_trace :: "SettlementVault \<Rightarrow> VaultCall list \<Rightarrow> VaultEvent list" where
  "vault_trace v [] = []"
| "vault_trace v (c # cs) =
     drop (length (audit_log v)) (audit_log (fst (vault_exec v c))) @ vault_trace (fst (vault_exec v c)) cs"

text \<open>Value held by the vault: balances plus the locks that are still open.\<close>

definition open_amount :: "LockRecord \<Rightarrow> nat" where
  "open_amount lk = (if lk_status lk = Locked then unat (lk_amount lk) else 0)"

definition held :: "SettlementVault \<Rightarrow> nat" where
  "held v = bt_total unat (balances v) + bt_total open_amount (locks v)"

fun deposit_amount :: "VaultCall \<Rightarrow> nat" where
  "deposit_amount (CallDeposit _ _ n) = unat n"
| "deposit_amount _ = 0"

definition vault_inv :: "SettlementVault \<Rightarrow> bool" where
  "vault_inv v \<longleftrightarrow> (\<forall>a. bt_get (balances v) a \<noteq> Some 0) \<and>
     (\<forall>r lk. bt_get (locks v) r = Some lk \<longrightarrow> lk_amount lk \<noteq> 0)"

definition emits :: "SettlementVault \<Rightarrow> VaultEvent \<Rightarrow> SettlementVault \<Rightarrow> bool" where
  "emits v e v' \<longleftrightarrow>
     owner v' = owner v \<and> audit_log v' = audit_log v @ [e] \<and> abs_ledger v' = apply_event e (abs_ledger v)"

section \<open>Helper facts\<close>

lemma bt_insert_twice: "bt_insert k w (bt_insert k v m) = bt_insert k w m"
  by (rule bt_ext) simp

lemma guard_simps:
  "ensure_owner v c = Ok u \<longleftrightarrow> c = owner v"
  "ensure_not_paused v = Ok u \<longleftrightarrow> \<not> paused v"
  "ensure_request_id r = Ok u \<longleftrightarrow> trim r \<noteq> [] \<and> r = trim r"
  "ensure_creditable_balance v a n = Ok u \<longleftrightarrow> checked_add (balance_of v a) n \<noteq> None"
  by (auto simp: ensure_owner_def ensure_not_paused_def ensure_request_id_def
      ensure_creditable_balance_def split: option.splits)

lemma balance_of_insert:
  "balance_of (v\<lparr>balances := bt_insert a b m\<rparr>) x =
     (if x = a then b else balance_of (v\<lparr>balances := m\<rparr>) x)"
  by (simp add: balance_of_def)

lemma credit_balance_cases:
  "credit_balance v a n =
     (case checked_add (balance_of v a) n of
        None \<Rightarrow> (v, Err BalanceOverflow)
      | Some b \<Rightarrow> (v\<lparr>balances := bt_insert a b (balances v)\<rparr>, Ok ()))"
proof (cases "bt_get (balances v) a")
  case None
  have "checked_add 0 n = Some n" by (simp add: checked_simps)
  with None show ?thesis
    by (simp add: credit_balance_def balance_of_def bt_insert_twice Let_def)
next
  case (Some b)
  then show ?thesis
    by (simp add: credit_balance_def balance_of_def bt_insert_twice bt_insert_same Let_def
        split: option.splits)
qed

lemma balance_of_prune [simp]: "balance_of (prune_zero_balance v a) x = balance_of v x"
  by (auto simp: prune_zero_balance_def balance_of_def split: option.splits)

lemma prune_fields [simp]:
  "owner (prune_zero_balance v a) = owner v" "paused (prune_zero_balance v a) = paused v"
  "locks (prune_zero_balance v a) = locks v" "audit_log (prune_zero_balance v a) = audit_log v"
  by (simp_all add: prune_zero_balance_def)

lemma total_prune: "bt_total unat (balances (prune_zero_balance v a)) = bt_total unat (balances v)"
proof (cases "bt_get (balances v) a")
  case None
  then have "bt_remove a (balances v) = balances v"
    by (intro bt_ext) simp
  then show ?thesis by (simp add: prune_zero_balance_def)
next
  case (Some b)
  then show ?thesis
    using bt_total_simps(3) [OF Some, of unat] by (auto simp: prune_zero_balance_def balance_of_def)
qed

lemma total_set_balance:
  "bt_total unat (bt_insert a b (balances v)) + unat (balance_of v a) = bt_total unat (balances v) + unat b"
  using bt_total_default [of unat "0 :: u128" a b "balances v"]
  by (simp add: balance_of_def option.case_eq_if split: option.splits)

lemmas vault_op_defs = deposit_def lock_def release_def slash_def transfer_def pause_def unpause_def

section \<open>Every call fails closed\<close>

lemma tryS_rejected:
  assumes "tryS s r k = (s', Err e)" and "\<And>x. r = Ok x \<Longrightarrow> k x = (s', Err e) \<Longrightarrow> s' = s"
  shows "s' = s"
  using assms by (cases r) auto

lemma vault_rejected: "vault_exec v c = (v', Err e) \<Longrightarrow> v' = v"
  by (cases c)
    (auto simp: vault_op_defs credit_balance_cases guard_simps tryS_eq_Err balance_of_insert
        ensure_creditable_balance_def balance_of_def prune_zero_balance_def Let_def
        split: if_splits option.splits)

section \<open>Accepted calls follow the abstract ledger\<close>

lemma abs_ledger_simps [simp]:
  "l_balance (abs_ledger v) = (\<lambda>a. unat (balance_of v a))"
  "l_locks (abs_ledger v) = bt_get (locks v)"
  "l_paused (abs_ledger v) = paused v"
  by (simp_all add: abs_ledger_def)

lemma ledger_eqI:
  "\<lbrakk>\<And>a. l_balance x a = l_balance y a; \<And>r. l_locks x r = l_locks y r; l_paused x = l_paused y\<rbrakk>
     \<Longrightarrow> x = (y :: ledger)"
  by (cases x, cases y) auto

lemma vault_bookkeeping [simp]:
  "owner (push_event e v) = owner v" "paused (push_event e v) = paused v"
  "balances (push_event e v) = balances v" "locks (push_event e v) = locks v"
  "audit_log (push_event e v) = audit_log v @ [e]"
  "balance_of (push_event e v) = balance_of v"
  "balance_of (v\<lparr>locks := ls\<rparr>) = balance_of v"
  "balance_of (v\<lparr>paused := b\<rparr>) = balance_of v"
  by (simp_all add: push_event_def balance_of_def fun_eq_iff)

lemma lock_eqI: "lk_account lk = a \<Longrightarrow> lk_amount lk = n \<Longrightarrow> lk\<lparr>lk_status := s\<rparr> = \<lparr>lk_account = a, lk_amount = n, lk_status = s\<rparr>"
  by (cases lk) auto

lemma deposit_accepted:
  assumes "deposit v caller acct amt = (v', Ok u)"
  shows "caller = owner v" "\<not> paused v" "emits v (EvDeposited caller acct amt) v'"
    "held v' = held v + unat amt" "vault_inv v \<Longrightarrow> vault_inv v'" "locks v' = locks v"
proof -
  from assms obtain b where amt: "amt \<noteq> 0" and who: "caller = owner v" "\<not> paused v"
    and b: "unat b = unat (balance_of v acct) + unat amt"
    and v': "v' = push_event (EvDeposited caller acct amt) (v\<lparr>balances := bt_insert acct b (balances v)\<rparr>)"
    by (auto simp: deposit_def result_simps guard_simps credit_balance_cases checked_simps
        split: if_splits option.splits)
  from b amt have "b \<noteq> 0" by (auto simp: unat_eq_0)
  with b v' who total_set_balance [of acct b v]
  show "caller = owner v" "\<not> paused v" "emits v (EvDeposited caller acct amt) v'"
    "held v' = held v + unat amt" "vault_inv v \<Longrightarrow> vault_inv v'" "locks v' = locks v"
    by (auto simp: emits_def held_def vault_inv_def balance_of_insert intro!: ledger_eqI)
qed

lemma lock_accepted:
  assumes "lock v caller rid acct amt = (v', Ok u)"
  shows "caller = owner v" "\<not> paused v" "emits v (EvLocked caller rid acct amt) v'"
    "held v' = held v" "vault_inv v \<Longrightarrow> vault_inv v'"
    "bt_get (locks v) rid = None"
    "bt_get (locks v') = (bt_get (locks v))(rid \<mapsto> \<lparr>lk_account = acct, lk_amount = amt, lk_status = Locked\<rparr>)"
proof -
  from assms obtain b where amt: "amt \<noteq> 0" and who: "caller = owner v" "\<not> paused v"
    and new: "bt_get (locks v) rid = None" and le: "amt \<le> balance_of v acct"
    and b: "bt_get (balances v) acct = Some b"
    and v': "v' = (let v2 = prune_zero_balance (v\<lparr>balances := bt_insert acct (b - amt) (balances v)\<rparr>) acct
       in push_event (EvLocked caller rid acct amt)
            (v2\<lparr>locks := bt_insert rid \<lparr>lk_account = acct, lk_amount = amt, lk_status = Locked\<rparr> (locks v2)\<rparr>))"
    by (auto simp: lock_def result_simps guard_simps bt_contains_def Let_def not_less
        split: if_splits option.splits)
  have bal: "balance_of v acct = b" using b by (simp add: balance_of_def)
  with le have sub: "unat (b - amt) = unat b - unat amt" "unat amt \<le> unat b"
    by (simp_all add: unat_sub word_le_nat_alt)
  show "caller = owner v" "\<not> paused v" "bt_get (locks v) rid = None" by (fact who new)+
  show "bt_get (locks v') = (bt_get (locks v))(rid \<mapsto> \<lparr>lk_account = acct, lk_amount = amt, lk_status = Locked\<rparr>)"
    by (simp add: v' Let_def fun_eq_iff)
  show "emits v (EvLocked caller rid acct amt) v'"
    using bal sub by (auto simp: v' Let_def emits_def balance_of_insert intro!: ledger_eqI)
  show "held v' = held v"
    using total_set_balance [of acct "b - amt" v] bal sub
      bt_total_simps(1) [OF new, of open_amount "\<lparr>lk_account = acct, lk_amount = amt, lk_status = Locked\<rparr>"]
    by (simp add: v' Let_def held_def total_prune open_amount_def)
  show "vault_inv v \<Longrightarrow> vault_inv v'"
    using amt by (auto simp: v' Let_def vault_inv_def prune_zero_balance_def balance_of_insert split: if_splits)
qed

text \<open>Release and slash both close an open lock and credit its amount to somebody.\<close>

definition close_lock :: "SettlementVault \<Rightarrow> string \<Rightarrow> LockRecord \<Rightarrow> LockStatus \<Rightarrow> string \<Rightarrow> u128 \<Rightarrow> SettlementVault" where
  "close_lock v rid lk st payee b =
     v\<lparr>locks := bt_insert rid (lk\<lparr>lk_status := st\<rparr>) (locks v), balances := bt_insert payee b (balances v)\<rparr>"

lemma close_lock_facts:
  assumes lk: "bt_get (locks v) rid = Some lk" "lk_status lk = Locked" and st: "st \<noteq> Locked"
    and b: "unat b = unat (balance_of v payee) + unat (lk_amount lk)"
  shows "held (close_lock v rid lk st payee b) = held v"
    and "vault_inv v \<Longrightarrow> vault_inv (close_lock v rid lk st payee b)"
proof -
  show "held (close_lock v rid lk st payee b) = held v"
    using total_set_balance [of payee b v] b st lk(2)
      bt_total_simps(2) [OF lk(1), of open_amount "lk\<lparr>lk_status := st\<rparr>"]
    by (simp add: held_def close_lock_def open_amount_def)
  assume inv: "vault_inv v"
  then have "lk_amount lk \<noteq> 0" using lk(1) by (auto simp: vault_inv_def)
  with b have "b \<noteq> 0" by (auto simp: unat_eq_0)
  with inv lk(1) show "vault_inv (close_lock v rid lk st payee b)"
    by (auto simp: vault_inv_def close_lock_def)
qed

lemma release_accepted:
  assumes "release v caller rid = (v', Ok u)"
  obtains lk b where "caller = owner v" "\<not> paused v"
    "bt_get (locks v) rid = Some lk" "lk_status lk = Locked"
    "unat b = unat (balance_of v (lk_account lk)) + unat (lk_amount lk)"
    "v' = push_event (EvReleased caller rid (lk_account lk) (lk_amount lk))
            (close_lock v rid lk Released (lk_account lk) b)"
  using assms
  by (auto simp: release_def result_simps guard_simps credit_balance_cases checked_simps close_lock_def
      Let_def split: if_splits option.splits)

lemma slash_accepted:
  assumes "slash v caller rid payee = (v', Ok u)"
  obtains lk b where "caller = owner v" "\<not> paused v"
    "bt_get (locks v) rid = Some lk" "lk_status lk = Locked" "payee \<noteq> lk_account lk"
    "unat b = unat (balance_of v payee) + unat (lk_amount lk)"
    "v' = push_event (EvSlashed caller rid (lk_account lk) payee (lk_amount lk))
            (close_lock v rid lk Slashed payee b)"
  using assms
  by (auto simp: slash_def result_simps guard_simps credit_balance_cases checked_simps close_lock_def
      Let_def split: if_splits option.splits)

lemma close_lock_emits:
  assumes "bt_get (locks v) rid = Some lk"
    and "unat b = unat (balance_of v payee) + unat (lk_amount lk)"
  shows "payee = lk_account lk \<Longrightarrow>
      emits v (EvReleased c rid (lk_account lk) (lk_amount lk))
        (push_event (EvReleased c rid (lk_account lk) (lk_amount lk)) (close_lock v rid lk Released payee b))"
    and "emits v (EvSlashed c rid (lk_account lk) payee (lk_amount lk))
        (push_event (EvSlashed c rid (lk_account lk) payee (lk_amount lk)) (close_lock v rid lk Slashed payee b))"
  using assms
  by (auto simp: emits_def close_lock_def balance_of_insert lock_eqI intro!: ledger_eqI)

lemma transfer_accepted:
  assumes "transfer v caller src dst amt = (v', Ok u)"
  shows "caller = owner v" "\<not> paused v" "emits v (EvTransferred caller src dst amt) v'"
    "held v' = held v" "vault_inv v \<Longrightarrow> vault_inv v'" "locks v' = locks v"
proof -
  from assms have who: "caller = owner v" "\<not> paused v" and amt: "amt \<noteq> 0"
    and le: "amt \<le> balance_of v src"
    by (auto simp: transfer_def result_simps guard_simps not_less split: if_splits)
  let ?e = "EvTransferred caller src dst amt"
  define v2 where "v2 = prune_zero_balance (v\<lparr>balances := bt_insert src (balance_of v src - amt) (balances v)\<rparr>) src"
  have bal2: "unat (balance_of v2 a) = (if a = src then unat (balance_of v src) - unat amt else unat (balance_of v a))" for a
    using le by (simp add: v2_def balance_of_insert unat_sub word_le_nat_alt)
  have v2: "owner v2 = owner v" "paused v2 = paused v" "locks v2 = locks v" "audit_log v2 = audit_log v"
    by (simp_all add: v2_def)
  have inv2: "vault_inv v \<Longrightarrow> vault_inv v2"
    by (auto simp: v2_def vault_inv_def prune_zero_balance_def balance_of_insert split: if_splits)
  have tot2: "bt_total unat (balances v2) + unat amt = bt_total unat (balances v)"
    using total_set_balance [of src "balance_of v src - amt" v] le
    by (simp add: v2_def total_prune unat_sub word_le_nat_alt)
  have dst2: "src \<noteq> dst \<Longrightarrow> balance_of v2 dst = balance_of v dst"
    by (simp add: v2_def balance_of_insert)
  consider "src = dst" "v' = push_event ?e v" |
    b where "src \<noteq> dst" "unat b = unat (balance_of v2 dst) + unat amt"
      "v' = push_event ?e (v2\<lparr>balances := bt_insert dst b (balances v2)\<rparr>)"
    using assms that
    by (auto simp: transfer_def result_simps guard_simps credit_balance_cases checked_simps Let_def dst2
        balance_of_insert
        balance_of_def [symmetric] v2_def [symmetric] split: if_splits option.splits)
  then have *: "emits v ?e v' \<and> held v' = held v \<and> (vault_inv v \<longrightarrow> vault_inv v') \<and> locks v' = locks v"
  proof cases
    case 1
    with le show ?thesis
      by (auto simp: emits_def held_def vault_inv_def Let_def word_le_nat_alt intro!: ledger_eqI)
  next
    case 2
    from 2(2) amt have "b \<noteq> 0" by (auto simp: unat_eq_0)
    with inv2 have "vault_inv v \<longrightarrow> vault_inv v'"
      by (auto simp: 2(3) vault_inv_def v2)
    moreover have "held v' = held v"
      using total_set_balance [of dst b v2] tot2 2(2) by (simp add: 2(3) held_def v2)
    moreover have "emits v ?e v'"
      using 2(1,2) bal2 by (auto simp: 2(3) emits_def v2 balance_of_insert Let_def intro!: ledger_eqI)
    ultimately show ?thesis by (simp add: 2(3) v2)
  qed
  with who show "caller = owner v" "\<not> paused v" "emits v ?e v'" "held v' = held v"
    "vault_inv v \<Longrightarrow> vault_inv v'" "locks v' = locks v" by auto
qed

lemma pause_accepted:
  "pause v caller = (v', Ok u) \<Longrightarrow> caller = owner v \<and> emits v (EvPaused caller) v' \<and>
     locks v' = locks v \<and> balances v' = balances v"
  "unpause v caller = (v', Ok u) \<Longrightarrow> caller = owner v \<and> emits v (EvUnpaused caller) v' \<and>
     locks v' = locks v \<and> balances v' = balances v"
  by (auto simp: pause_def unpause_def result_simps guard_simps emits_def intro!: ledger_eqI split: if_splits)

section \<open>The interface contract\<close>

lemma push_keeps: "held (push_event e v) = held v" "vault_inv (push_event e v) \<longleftrightarrow> vault_inv v"
  by (simp_all add: held_def vault_inv_def)

text \<open>One accepted call: what it may emit, and what it keeps.\<close>

lemma vault_accepted:
  assumes "vault_exec v c = (v', Ok u)"
  shows "(\<exists>e. emits v e v') \<or> (c = CallConsumeAuditLog \<and> v' = v\<lparr>audit_log := []\<rparr>)"
    and "held v' = held v + deposit_amount c"
    and "vault_inv v \<Longrightarrow> vault_inv v'"
proof -
  have "((\<exists>e. emits v e v') \<or> (c = CallConsumeAuditLog \<and> v' = v\<lparr>audit_log := []\<rparr>)) \<and>
      held v' = held v + deposit_amount c \<and> (vault_inv v \<longrightarrow> vault_inv v')"
  proof (cases c)
    case (CallRelease caller rid)
    with assms have "release v caller rid = (v', Ok u)" by simp
    then show ?thesis
      by (rule release_accepted) (use close_lock_emits(1) close_lock_facts CallRelease in \<open>fastforce simp: push_keeps\<close>)
  next
    case (CallSlash caller rid payee)
    with assms have "slash v caller rid payee = (v', Ok u)" by simp
    then show ?thesis
      by (rule slash_accepted) (use close_lock_emits(2) close_lock_facts CallSlash in \<open>fastforce simp: push_keeps\<close>)
  qed (use assms in \<open>auto dest: deposit_accepted lock_accepted transfer_accepted pause_accepted
      simp: consume_audit_log_def held_def vault_inv_def\<close>)
  then show "(\<exists>e. emits v e v') \<or> (c = CallConsumeAuditLog \<and> v' = v\<lparr>audit_log := []\<rparr>)"
    "held v' = held v + deposit_amount c" "vault_inv v \<Longrightarrow> vault_inv v'" by auto
qed

text \<open>How one call may change the recorded locks.\<close>

definition locks_extend :: "SettlementVault \<Rightarrow> SettlementVault \<Rightarrow> bool" where
  "locks_extend v v' \<longleftrightarrow>
     (\<forall>r lk. bt_get (locks v) r = Some lk \<longrightarrow>
        (\<exists>lk'. bt_get (locks v') r = Some lk' \<and> lk_account lk' = lk_account lk \<and>
           lk_amount lk' = lk_amount lk \<and> (lk_status lk \<noteq> Locked \<longrightarrow> lk' = lk)))"

lemma locks_extend_refl: "locks_extend v v"
  by (auto simp: locks_extend_def)

lemma locks_extend_trans: "locks_extend u v \<Longrightarrow> locks_extend v w \<Longrightarrow> locks_extend u w"
  unfolding locks_extend_def by fastforce

lemma vault_locks_extend: "vault_exec v c = (v', Ok u) \<Longrightarrow> locks_extend v v'"
proof (cases c)
  case (CallRelease caller rid)
  moreover assume "vault_exec v c = (v', Ok u)"
  ultimately have "release v caller rid = (v', Ok u)" by simp
  then show ?thesis
    by (rule release_accepted) (auto simp: locks_extend_def close_lock_def)
next
  case (CallSlash caller rid payee)
  moreover assume "vault_exec v c = (v', Ok u)"
  ultimately have "slash v caller rid payee = (v', Ok u)" by simp
  then show ?thesis
    by (rule slash_accepted) (auto simp: locks_extend_def close_lock_def)
next
  case (CallLock caller rid acct amt)
  moreover assume "vault_exec v c = (v', Ok u)"
  ultimately have "lock v caller rid acct amt = (v', Ok u)" by simp
  from lock_accepted(6,7) [OF this] show ?thesis
    by (auto simp: locks_extend_def)
qed (auto dest: deposit_accepted transfer_accepted pause_accepted
    simp: consume_audit_log_def locks_extend_def)

interpretation vault: invariant_machine vault_exec vault_inv
  by unfold_locales (auto dest: vault_rejected intro: vault_accepted)

lemma vault_inv_new: "vault_inv (vault_new own)"
  by (simp add: vault_inv_def vault_new_def)

fun caller_of :: "VaultCall \<Rightarrow> string option" where
  "caller_of (CallDeposit caller _ _) = Some caller"
| "caller_of (CallLock caller _ _ _) = Some caller"
| "caller_of (CallRelease caller _) = Some caller"
| "caller_of (CallSlash caller _ _) = Some caller"
| "caller_of (CallTransfer caller _ _ _) = Some caller"
| "caller_of (CallPause caller) = Some caller"
| "caller_of (CallUnpause caller) = Some caller"
| "caller_of CallConsumeAuditLog = None"

lemma vault_trace_step:
  "abs_ledger (fst (vault_exec v c)) =
     fold apply_event (drop (length (audit_log v)) (audit_log (fst (vault_exec v c)))) (abs_ledger v)"
proof (cases "vault_exec v c")
  case (Pair v' r)
  show ?thesis
  proof (cases r)
    case (Ok u)
    with Pair vault_accepted(1) [of v c v' u]
    consider e where "emits v e v'" | "v' = v\<lparr>audit_log := []\<rparr>" by auto
    then show ?thesis
      by cases (auto simp: Pair emits_def abs_ledger_def balance_of_def)
  next
    case (Err e)
    with Pair vault_rejected [of v c v' e] show ?thesis by simp
  qed
qed

section \<open>Properties\<close>

text \<open>
  C2. Conservation. Whatever sequence of calls is made on a fresh vault, the balances plus the
  amounts of the locks that are still open add up to exactly the accepted deposits: locks,
  releases, slashes and transfers only move value.
\<close>

theorem vault_conservation:
  "held (run vault_exec (vault_new own) cs) =
     (\<Sum>c\<leftarrow>accepted vault_exec (vault_new own) cs. deposit_amount c)"
proof -
  have "held (vault_new own) = 0"
    by (simp add: held_def vault_new_def)
  with vault.run_accumulates [of held deposit_amount, OF vault_accepted(2)] show ?thesis by simp
qed

text \<open>
  C22. The audit log is a complete account of the ledger: replaying the events a history of
  calls emits, by the abstract rules of \<open>apply_event\<close>, gives the balances, locks and pause flag
  the vault ends with, even if the log is consumed on the way.
\<close>

theorem vault_audit_refines:
  "abs_ledger (run vault_exec v cs) = fold apply_event (vault_trace v cs) (abs_ledger v)"
  by (induction cs arbitrary: v) (simp_all add: vault_trace_step)

text \<open>
  A rejected call changes nothing: not a balance, not a lock, not the pause flag and not
  the audit log.
\<close>

lemma vault_fail_closed: "vault_exec v c = (v', Err e) \<Longrightarrow> v' = v"
  by (rule vault.rejected_keeps_state)

text \<open>
  C16. The life of a lock. Along any history a recorded lock keeps its account and amount, one
  that has been released or slashed never changes again, and its request id can never be
  locked a second time.
\<close>

theorem vault_lock_lifecycle:
  assumes "bt_get (locks v) rid = Some lk"
  shows "(\<exists>lk'. bt_get (locks (run vault_exec v cs)) rid = Some lk' \<and>
           lk_account lk' = lk_account lk \<and> lk_amount lk' = lk_amount lk \<and>
           (lk_status lk \<noteq> Locked \<longrightarrow> lk' = lk)) \<and>
         \<not> is_ok (snd (lock (run vault_exec v cs) caller rid acct amt))"
proof -
  have "locks_extend v (run vault_exec v cs)"
    by (rule vault.run_related [of locks_extend, OF locks_extend_refl locks_extend_trans vault_locks_extend])
  with assms have *: "\<exists>lk'. bt_get (locks (run vault_exec v cs)) rid = Some lk' \<and>
      lk_account lk' = lk_account lk \<and> lk_amount lk' = lk_amount lk \<and>
      (lk_status lk \<noteq> Locked \<longrightarrow> lk' = lk)"
    by (auto simp: locks_extend_def)
  moreover have "\<not> is_ok (snd (lock (run vault_exec v cs) caller rid acct amt))"
    using * lock_accepted(6) [of "run vault_exec v cs" caller rid acct amt]
    by (cases "lock (run vault_exec v cs) caller rid acct amt") (auto simp: is_ok_def split: result.splits)
  ultimately show ?thesis ..
qed

definition sample_vault :: SettlementVault where
  "sample_vault = run vault_exec (vault_new ''owner'')
     [CallDeposit ''owner'' ''alice'' 100, CallLock ''owner'' ''req-1'' ''alice'' 60,
      CallLock ''owner'' ''req-2'' ''alice'' 15, CallRelease ''owner'' ''req-1'']"

lemma sample_trims: "trim ''req-1'' = ''req-1''" "trim ''req-2'' = ''req-2''" "trim ''treasury'' = ''treasury''"
  by code_simp+

lemmas vault_eval = vault_op_defs ensure_owner_def ensure_not_paused_def ensure_request_id_def
  ensure_creditable_balance_def credit_balance_def prune_zero_balance_def balance_of_def push_event_def
  vault_new_def checked_add_def bt_contains_def Let_def sample_vault_def sample_trims

theorem vault_lock_lifecycle_witness:
  "bt_get (locks (run vault_exec sample_vault [CallSlash ''owner'' ''req-1'' ''bob'', CallSlash ''owner'' ''req-2'' ''bob'']))
     ''req-1'' = Some \<lparr>lk_account = ''alice'', lk_amount = 60, lk_status = Released\<rparr>"
proof -
  have h: "bt_get (locks sample_vault) ''req-1'' = Some \<lparr>lk_account = ''alice'', lk_amount = 60, lk_status = Released\<rparr>"
    by (simp add: vault_eval)
  from vault_lock_lifecycle [OF h, of "[CallSlash ''owner'' ''req-1'' ''bob'', CallSlash ''owner'' ''req-2'' ''bob'']"]
  show ?thesis by auto
qed

text \<open>
  Authority. An accepted call comes from the owner (draining the audit log takes no caller),
  and while the vault is paused the only call that moves anything is the owner's unpause.
\<close>

lemma vault_authority:
  assumes "is_ok (snd (vault_exec v c))"
  shows "(caller_of c = Some (owner v) \<or> c = CallConsumeAuditLog) \<and>
         (paused v \<longrightarrow> c = CallUnpause (owner v) \<or> c = CallConsumeAuditLog)"
proof -
  from assms obtain v' u where ok: "vault_exec v c = (v', Ok u)"
    by (cases "vault_exec v c") (auto simp: is_ok_def split: result.splits)
  show ?thesis
  proof (cases c)
    case (CallRelease caller rid)
    with ok have "release v caller rid = (v', Ok u)" by simp
    then show ?thesis by (rule release_accepted) (simp add: CallRelease)
  next
    case (CallSlash caller rid payee)
    with ok have "slash v caller rid payee = (v', Ok u)" by simp
    then show ?thesis by (rule slash_accepted) (simp add: CallSlash)
  next
    case (CallPause caller)
    with ok show ?thesis by (auto simp: pause_def result_simps guard_simps split: if_splits)
  next
    case (CallUnpause caller)
    with ok show ?thesis by (auto simp: unpause_def result_simps guard_simps split: if_splits)
  qed (use ok in \<open>auto dest: deposit_accepted(1,2) lock_accepted(1,2) transfer_accepted(1,2)\<close>)
qed

end
