(* ===== verification/Governance_Guard.thy ===== *)
theory Governance_Guard
  imports Ordered_Map Audit_Events
begin

text \<open>
  The governance guard (crate trnm-governance-guard): proposals behind a timelock, separated
  proposer, executor and guardian roles, optimistic version checks on parameters and an
  emergency pause that guardians set and a non-guardian executor lifts. The first part
  transcribes state and operations, the second shows what every history of calls keeps.
\<close>

section \<open>State\<close>

datatype ProposalStatus = Pending | Queued | Executed | Cancelled

datatype ProposalKind = ParamChange | EmergencyUnpause

record Proposal =
  pr_id :: u64
  pr_kind :: ProposalKind
  pr_proposer :: string
  pr_executor :: "string option"
  pr_eta :: u64
  pr_param_key :: string
  pr_old_value :: string
  pr_new_value :: string
  pr_base_version :: "u64 option"
  pr_reason_hash :: string
  pr_status :: ProposalStatus
  pr_executed_at :: "u64 option"

record GovernanceBridgeState =
  gov_params :: "(string, string) btree"
  param_versions :: "(string, u64) btree"
  emergency_paused :: bool

datatype GovernanceEvent =
    ProposalProposed u64 string ProposalKind "string option" u64
  | ProposalQueued u64 string
  | ProposalExecuted u64 string ProposalKind "string option" "string option" "string option"
      "u64 option" "u64 option"
  | ProposalCancelled u64 string
  | PauseSet string bool bool string
  | PauseRestoreScheduled u64 string u64 string
  | PauseRestoreExecuted u64 string string
  | AuditLogCleared

datatype GovError =
    GovUnauthorized | InvalidEta | InvalidParamKey | ProposalNotFound | NotQueued | NotReady
  | AlreadyFinalized | WrongProposalKind | SelfExecutionForbidden | PauseNotActive
  | GuardianExecutorConflict | WrongProposer | CurrentValueMismatch | ParamVersionMismatch
  | PauseRestoreAlreadyScheduled

record GovernanceGuard =
  admin :: string
  min_timelock_delay_secs :: u64
  nonce :: u64
  proposals :: "(u64, Proposal) btree"
  allowed_param_keys :: "string set"
  proposers :: "string set"
  executors :: "string set"
  guardians :: "string set"
  bridge :: GovernanceBridgeState
  gov_audit_log :: "GovernanceEvent list"

type_synonym 'a gov_result = "GovernanceGuard \<times> ('a, GovError) result"

section \<open>Operations\<close>

definition gov_new :: "string \<Rightarrow> string \<Rightarrow> u64 \<Rightarrow> GovernanceGuard" where
  "gov_new adm guardian delay =
     \<lparr>admin = adm, min_timelock_delay_secs = delay, nonce = 1, proposals = bt_empty,
      allowed_param_keys = {}, proposers = {}, executors = {}, guardians = {guardian},
      bridge = \<lparr>gov_params = bt_empty, param_versions = bt_empty, emergency_paused = False\<rparr>,
      gov_audit_log = []\<rparr>"

definition require_admin :: "GovernanceGuard \<Rightarrow> string \<Rightarrow> (unit, GovError) result" where
  "require_admin g caller = (if caller = admin g then Ok () else Err GovUnauthorized)"

definition require_proposer :: "GovernanceGuard \<Rightarrow> string \<Rightarrow> (unit, GovError) result" where
  "require_proposer g caller = (if caller \<in> proposers g then Ok () else Err GovUnauthorized)"

definition require_executor :: "GovernanceGuard \<Rightarrow> string \<Rightarrow> (unit, GovError) result" where
  "require_executor g caller = (if caller \<in> executors g then Ok () else Err GovUnauthorized)"

definition require_guardian :: "GovernanceGuard \<Rightarrow> string \<Rightarrow> (unit, GovError) result" where
  "require_guardian g caller = (if caller \<in> guardians g then Ok () else Err GovUnauthorized)"

definition proposal_mut :: "GovernanceGuard \<Rightarrow> u64 \<Rightarrow> (Proposal, GovError) result" where
  "proposal_mut g i = ok_or (bt_get (proposals g) i) ProposalNotFound"

text \<open>Writing through the reference \<open>proposal_mut\<close> returns.\<close>

definition put_proposal :: "u64 \<Rightarrow> Proposal \<Rightarrow> GovernanceGuard \<Rightarrow> GovernanceGuard" where
  "put_proposal i p g = g\<lparr>proposals := bt_insert i p (proposals g)\<rparr>"

definition push_gov_event :: "GovernanceEvent \<Rightarrow> GovernanceGuard \<Rightarrow> GovernanceGuard" where
  "push_gov_event e g = g\<lparr>gov_audit_log := gov_audit_log g @ [e]\<rparr>"

definition next_id :: "GovernanceGuard \<Rightarrow> GovernanceGuard \<times> u64" where
  "next_id g = (g\<lparr>nonce := saturating_add (nonce g) 1\<rparr>, nonce g)"

definition set_membership :: "string set \<Rightarrow> string \<Rightarrow> bool \<Rightarrow> string set" where
  "set_membership A x enabled = (if enabled then insert x A else A - {x})"

definition set_role :: "GovernanceGuard \<Rightarrow> string \<Rightarrow> string \<Rightarrow> bool \<Rightarrow> bool \<Rightarrow> unit gov_result" where
  "set_role g caller who can_propose can_execute =
     tryS g (require_admin g caller) (\<lambda>_.
       (g\<lparr>proposers := set_membership (proposers g) who can_propose,
          executors := set_membership (executors g) who can_execute\<rparr>, Ok ()))"

definition set_guardian :: "GovernanceGuard \<Rightarrow> string \<Rightarrow> string \<Rightarrow> bool \<Rightarrow> unit gov_result" where
  "set_guardian g caller who enabled =
     tryS g (require_admin g caller) (\<lambda>_.
       (g\<lparr>guardians := set_membership (guardians g) who enabled\<rparr>, Ok ()))"

definition set_allowed_param_key :: "GovernanceGuard \<Rightarrow> string \<Rightarrow> string \<Rightarrow> bool \<Rightarrow> unit gov_result" where
  "set_allowed_param_key g caller key enabled =
     tryS g (require_admin g caller) (\<lambda>_.
       (g\<lparr>allowed_param_keys := set_membership (allowed_param_keys g) key enabled\<rparr>, Ok ()))"

definition param_version :: "GovernanceGuard \<Rightarrow> string \<Rightarrow> u64" where
  "param_version g key = (case bt_get (param_versions (bridge g)) key of None \<Rightarrow> 0 | Some n \<Rightarrow> n)"

definition param_value :: "GovernanceGuard \<Rightarrow> string \<Rightarrow> string" where
  "param_value g key = (case bt_get (gov_params (bridge g)) key of None \<Rightarrow> [] | Some x \<Rightarrow> x)"

definition propose :: "GovernanceGuard \<Rightarrow> string \<Rightarrow> string \<Rightarrow> string \<Rightarrow> string \<Rightarrow> u64 \<Rightarrow> string \<Rightarrow> u64 \<Rightarrow> u64 gov_result" where
  "propose g caller key old_v new_v eta reason now =
     tryS g (require_proposer g caller) (\<lambda>_.
     if eta < saturating_add now (min_timelock_delay_secs g) then (g, Err InvalidEta)
     else if key \<notin> allowed_param_keys g then (g, Err InvalidParamKey)
     else
       (let (g1, i) = next_id g;
            p = \<lparr>pr_id = i, pr_kind = ParamChange, pr_proposer = caller, pr_executor = None,
                 pr_eta = eta, pr_param_key = key, pr_old_value = old_v, pr_new_value = new_v,
                 pr_base_version = Some (param_version g1 key), pr_reason_hash = reason,
                 pr_status = Pending, pr_executed_at = None\<rparr>
        in (push_gov_event (ProposalProposed i caller ParamChange (Some key) eta) (put_proposal i p g1),
            Ok i)))"

definition queue :: "GovernanceGuard \<Rightarrow> string \<Rightarrow> u64 \<Rightarrow> unit gov_result" where
  "queue g caller i =
     tryS g (require_proposer g caller) (\<lambda>_.
     tryS g (proposal_mut g i) (\<lambda>p.
     if pr_status p = Executed \<or> pr_status p = Cancelled then (g, Err AlreadyFinalized)
     else if pr_proposer p \<noteq> caller then (g, Err WrongProposer)
     else if pr_kind p \<noteq> ParamChange then (g, Err WrongProposalKind)
     else if pr_status p = Queued then (g, Ok ())
     else if pr_status p \<noteq> Pending then (g, Err NotQueued)
     else (push_gov_event (ProposalQueued i caller) (put_proposal i (p\<lparr>pr_status := Queued\<rparr>) g), Ok ())))"

definition execute :: "GovernanceGuard \<Rightarrow> string \<Rightarrow> u64 \<Rightarrow> u64 \<Rightarrow> unit gov_result" where
  "execute g caller i now =
     tryS g (require_executor g caller) (\<lambda>_.
     tryS g (proposal_mut g i) (\<lambda>p.
     if pr_kind p \<noteq> ParamChange then (g, Err WrongProposalKind)
     else if pr_status p = Executed \<or> pr_status p = Cancelled then (g, Err AlreadyFinalized)
     else if pr_status p \<noteq> Queued then (g, Err NotQueued)
     else if now < pr_eta p then (g, Err NotReady)
     else if pr_param_key p \<notin> allowed_param_keys g then (g, Err InvalidParamKey)
     else
       (let key = pr_param_key p; version = param_version g key
        in if pr_base_version p \<noteq> Some version then (g, Err ParamVersionMismatch)
           else if param_value g key \<noteq> pr_old_value p then (g, Err CurrentValueMismatch)
           else
             (let next_version = saturating_add version 1;
                  g1 = g\<lparr>bridge := (bridge g)
                         \<lparr>gov_params := bt_insert key (pr_new_value p) (gov_params (bridge g)),
                          param_versions := bt_insert key next_version (param_versions (bridge g))\<rparr>\<rparr>
              in tryS g1 (proposal_mut g1 i) (\<lambda>p'.
                   (push_gov_event (ProposalExecuted i caller ParamChange (Some key)
                        (Some (pr_old_value p)) (Some (pr_new_value p)) (Some version) (Some next_version))
                      (put_proposal i (p'\<lparr>pr_status := Executed, pr_executor := Some caller,
                         pr_executed_at := Some now\<rparr>) g1), Ok ()))))))"

definition cancel :: "GovernanceGuard \<Rightarrow> string \<Rightarrow> u64 \<Rightarrow> unit gov_result" where
  "cancel g caller i =
     tryS g (proposal_mut g i) (\<lambda>p.
     if pr_status p = Executed \<or> pr_status p = Cancelled then (g, Err AlreadyFinalized)
     else
       (let authorized =
              (if caller \<in> guardians g then True
               else if pr_proposer p = caller then
                 (case pr_kind p of
                    ParamChange \<Rightarrow> caller \<in> proposers g
                  | EmergencyUnpause \<Rightarrow> caller \<in> guardians g)
               else False)
        in if \<not> authorized then (g, Err GovUnauthorized)
           else tryS g (proposal_mut g i) (\<lambda>p'.
             if pr_status p' \<noteq> pr_status p then (g, Err AlreadyFinalized)
             else (push_gov_event (ProposalCancelled i caller)
                     (put_proposal i (p'\<lparr>pr_status := Cancelled\<rparr>) g), Ok ()))))"

definition emergency_pause :: "GovernanceGuard \<Rightarrow> string \<Rightarrow> string \<Rightarrow> unit gov_result" where
  "emergency_pause g caller reason =
     tryS g (require_guardian g caller) (\<lambda>_.
     if emergency_paused (bridge g) then (g, Ok ())
     else (push_gov_event (PauseSet caller (emergency_paused (bridge g)) True reason)
             (g\<lparr>bridge := (bridge g)\<lparr>emergency_paused := True\<rparr>\<rparr>), Ok ()))"

definition active_unpause :: "Proposal \<Rightarrow> bool" where
  "active_unpause p \<longleftrightarrow> pr_kind p = EmergencyUnpause \<and> (pr_status p = Pending \<or> pr_status p = Queued)"

definition schedule_unpause :: "GovernanceGuard \<Rightarrow> string \<Rightarrow> u64 \<Rightarrow> string \<Rightarrow> u64 \<Rightarrow> u64 gov_result" where
  "schedule_unpause g caller eta reason now =
     tryS g (require_guardian g caller) (\<lambda>_.
     if \<not> emergency_paused (bridge g) then (g, Err PauseNotActive)
     else if eta < saturating_add now (min_timelock_delay_secs g) then (g, Err InvalidEta)
     else if list_ex active_unpause (bt_values (proposals g)) then (g, Err PauseRestoreAlreadyScheduled)
     else
       (let (g1, i) = next_id g;
            p = \<lparr>pr_id = i, pr_kind = EmergencyUnpause, pr_proposer = caller, pr_executor = None,
                 pr_eta = eta, pr_param_key = ''emergency_pause'', pr_old_value = ''true'',
                 pr_new_value = ''false'', pr_base_version = None, pr_reason_hash = reason,
                 pr_status = Queued, pr_executed_at = None\<rparr>
        in (push_gov_event (PauseRestoreScheduled i caller eta reason) (put_proposal i p g1), Ok i)))"

definition execute_unpause :: "GovernanceGuard \<Rightarrow> string \<Rightarrow> u64 \<Rightarrow> u64 \<Rightarrow> unit gov_result" where
  "execute_unpause g caller i now =
     tryS g (require_executor g caller) (\<lambda>_.
     if caller \<in> guardians g then (g, Err GuardianExecutorConflict)
     else tryS g (proposal_mut g i) (\<lambda>p.
     if pr_kind p \<noteq> EmergencyUnpause then (g, Err WrongProposalKind)
     else if pr_status p = Executed \<or> pr_status p = Cancelled then (g, Err AlreadyFinalized)
     else if pr_status p \<noteq> Queued then (g, Err NotQueued)
     else if now < pr_eta p then (g, Err NotReady)
     else if pr_proposer p \<notin> guardians g then (g, Err GovUnauthorized)
     else if pr_proposer p = caller then (g, Err SelfExecutionForbidden)
     else if \<not> emergency_paused (bridge g) then (g, Err PauseNotActive)
     else
       (let g1 = g\<lparr>bridge := (bridge g)\<lparr>emergency_paused := False\<rparr>\<rparr>
        in tryS g1 (proposal_mut g1 i) (\<lambda>p'.
             (push_gov_event (ProposalExecuted i caller EmergencyUnpause (Some ''emergency_pause'')
                  (Some ''true'') (Some ''false'') None None)
                (push_gov_event (PauseRestoreExecuted i caller (pr_reason_hash p'))
                  (put_proposal i (p'\<lparr>pr_status := Executed, pr_executor := Some caller,
                     pr_executed_at := Some now\<rparr>) g1)), Ok ())))))"

definition gov_consume_audit_log :: "GovernanceGuard \<Rightarrow> GovernanceGuard \<times> GovernanceEvent list" where
  "gov_consume_audit_log g = (g\<lparr>gov_audit_log := []\<rparr>, gov_audit_log g @ [AuditLogCleared])"

subsection \<open>Normalized audit log\<close>

fun show_kind :: "ProposalKind \<Rightarrow> string" where
  "show_kind ParamChange = ''ParamChange''"
| "show_kind EmergencyUnpause = ''EmergencyUnpause''"

definition apply_normalized_proposal_context :: "GovernanceGuard \<Rightarrow> u64 \<Rightarrow> AuditEvent \<Rightarrow> AuditEvent" where
  "apply_normalized_proposal_context g i n =
     (case bt_get (proposals g) i of
        None \<Rightarrow> n
      | Some p \<Rightarrow>
          (let n1 = n\<lparr>ae_reason := Some (''kind='' @ show_kind (pr_kind p))\<rparr>
           in if pr_param_key p \<noteq> [] then n1\<lparr>ae_related_id := Some (pr_param_key p)\<rparr> else n1))"

fun gov_normalize_audit_event :: "GovernanceGuard \<Rightarrow> GovernanceEvent \<Rightarrow> AuditEvent" where
  "gov_normalize_audit_event g (ProposalProposed i proposer kind key eta) =
     (let n = (AuditEvent_new ''governance-guard'' ''governance.proposal_proposed'')
            \<lparr>ae_actor := Some proposer, ae_object_id := Some (show_word i),
             ae_reason := Some (''kind='' @ show_kind kind)\<rparr>;
          n1 = (case key of None \<Rightarrow> n | Some k \<Rightarrow> n\<lparr>ae_related_id := Some k\<rparr>)
      in n1\<lparr>ae_note := Some (''eta='' @ show_word eta)\<rparr>)"
| "gov_normalize_audit_event g (ProposalQueued i act) =
     apply_normalized_proposal_context g i
       ((AuditEvent_new ''governance-guard'' ''governance.proposal_queued'')
          \<lparr>ae_actor := Some act, ae_object_id := Some (show_word i)\<rparr>)"
| "gov_normalize_audit_event g (ProposalExecuted i act kind key old_v new_v before after) =
     (let n = (AuditEvent_new ''governance-guard'' ''governance.proposal_executed'')
            \<lparr>ae_actor := Some act, ae_object_id := Some (show_word i),
             ae_reason := Some (''kind='' @ show_kind kind)\<rparr>;
          n1 = (case key of None \<Rightarrow> n | Some k \<Rightarrow> n\<lparr>ae_related_id := Some k\<rparr>);
          n2 = (case (before, after) of
                  (Some b, Some a) \<Rightarrow>
                    n1\<lparr>ae_amount := Some (ucast (a - b)),
                       ae_note := Some (''version='' @ show_word b @ ''->'' @ show_word a)\<rparr>
                | _ \<Rightarrow> n1)
      in case (old_v, new_v) of
           (Some x, Some y) \<Rightarrow>
             n2\<lparr>ae_note := Some (case ae_note n2 of
                Some existing \<Rightarrow> ''value='' @ x @ ''->'' @ y @ '', '' @ existing
              | None \<Rightarrow> ''value='' @ x @ ''->'' @ y)\<rparr>
         | _ \<Rightarrow> n2)"
| "gov_normalize_audit_event g (ProposalCancelled i act) =
     apply_normalized_proposal_context g i
       ((AuditEvent_new ''governance-guard'' ''governance.proposal_cancelled'')
          \<lparr>ae_actor := Some act, ae_object_id := Some (show_word i)\<rparr>)"
| "gov_normalize_audit_event g (PauseSet act prev nxt reason) =
     (AuditEvent_new ''governance-guard'' ''governance.pause_set'')
       \<lparr>ae_actor := Some act, ae_object_id := Some ''emergency_pause'',
        ae_related_id := Some ''pause_state'', ae_reason := Some ''pause_activation'',
        ae_note := Some (''state='' @ show_bool prev @ ''->'' @ show_bool nxt @ '', reason_hash='' @ reason)\<rparr>"
| "gov_normalize_audit_event g (PauseRestoreScheduled i proposer eta reason) =
     (AuditEvent_new ''governance-guard'' ''governance.pause_restore_scheduled'')
       \<lparr>ae_actor := Some proposer, ae_object_id := Some ''emergency_pause'',
        ae_related_id := Some (show_word i), ae_reason := Some ''pause_restore_schedule'',
        ae_note := Some (''eta='' @ show_word eta @ '', reason_hash='' @ reason)\<rparr>"
| "gov_normalize_audit_event g (PauseRestoreExecuted i act reason) =
     (AuditEvent_new ''governance-guard'' ''governance.pause_restore_executed'')
       \<lparr>ae_actor := Some act, ae_object_id := Some ''emergency_pause'',
        ae_related_id := Some (show_word i), ae_reason := Some ''pause_restore_execution'',
        ae_note := Some (''reason_hash='' @ reason)\<rparr>"
| "gov_normalize_audit_event g AuditLogCleared =
     AuditEvent_new ''governance-guard'' ''governance.audit_log_cleared''"

definition gov_normalized_audit_log :: "GovernanceGuard \<Rightarrow> AuditEvent list" where
  "gov_normalized_audit_log g = map (gov_normalize_audit_event g) (gov_audit_log g)"

subsection \<open>The public interface as one command type\<close>

datatype GovCall =
    CallSetRole string string bool bool
  | CallSetGuardian string string bool
  | CallSetAllowedParamKey string string bool
  | CallPropose string string string string u64 string u64
  | CallQueue string u64
  | CallExecute string u64 u64
  | CallCancel string u64
  | CallEmergencyPause string string
  | CallScheduleUnpause string u64 string u64
  | CallExecuteUnpause string u64 u64
  | CallGovConsumeAuditLog

definition discard :: "'a gov_result \<Rightarrow> unit gov_result" where
  "discard m = (fst m, case snd m of Ok _ \<Rightarrow> Ok () | Err e \<Rightarrow> Err e)"

fun gov_exec :: "GovernanceGuard \<Rightarrow> GovCall \<Rightarrow> unit gov_result" where
  "gov_exec g (CallSetRole caller who p x) = set_role g caller who p x"
| "gov_exec g (CallSetGuardian caller who b) = set_guardian g caller who b"
| "gov_exec g (CallSetAllowedParamKey caller key b) = set_allowed_param_key g caller key b"
| "gov_exec g (CallPropose caller key old_v new_v eta reason now) =
     discard (propose g caller key old_v new_v eta reason now)"
| "gov_exec g (CallQueue caller i) = queue g caller i"
| "gov_exec g (CallExecute caller i now) = execute g caller i now"
| "gov_exec g (CallCancel caller i) = cancel g caller i"
| "gov_exec g (CallEmergencyPause caller reason) = emergency_pause g caller reason"
| "gov_exec g (CallScheduleUnpause caller eta reason now) = discard (schedule_unpause g caller eta reason now)"
| "gov_exec g (CallExecuteUnpause caller i now) = execute_unpause g caller i now"
| "gov_exec g CallGovConsumeAuditLog = (fst (gov_consume_audit_log g), Ok ())"

section \<open>Helper facts\<close>

lemma discard_eq:
  "discard m = (g', Ok u) \<longleftrightarrow> (\<exists>x. m = (g', Ok x))"
  "discard m = (g', Err e) \<longleftrightarrow> m = (g', Err e)"
  by (cases m; cases "snd m"; auto simp: discard_def)+

lemma gov_guard_simps:
  "require_admin g c = Ok u \<longleftrightarrow> c = admin g"
  "require_proposer g c = Ok u \<longleftrightarrow> c \<in> proposers g"
  "require_executor g c = Ok u \<longleftrightarrow> c \<in> executors g"
  "require_guardian g c = Ok u \<longleftrightarrow> c \<in> guardians g"
  "proposal_mut g i = Ok p \<longleftrightarrow> bt_get (proposals g) i = Some p"
  by (auto simp: require_admin_def require_proposer_def require_executor_def require_guardian_def
      proposal_mut_def result_simps)

lemmas gov_op_defs = set_role_def set_guardian_def set_allowed_param_key_def propose_def queue_def
  execute_def cancel_def emergency_pause_def schedule_unpause_def execute_unpause_def
  gov_consume_audit_log_def

lemmas gov_frame_defs = put_proposal_def push_gov_event_def next_id_def

text \<open>What an accepted call does to one proposal record.\<close>

inductive proposal_create :: "GovernanceGuard \<Rightarrow> GovCall \<Rightarrow> Proposal \<Rightarrow> bool" for g where
  proposed: "\<lbrakk>caller \<in> proposers g; saturating_add now (min_timelock_delay_secs g) \<le> eta; key \<in> allowed_param_keys g\<rbrakk> \<Longrightarrow>
     proposal_create g (CallPropose caller key old_v new_v eta reason now)
       \<lparr>pr_id = nonce g, pr_kind = ParamChange, pr_proposer = caller, pr_executor = None,
        pr_eta = eta, pr_param_key = key, pr_old_value = old_v, pr_new_value = new_v,
        pr_base_version = Some (param_version g key), pr_reason_hash = reason,
        pr_status = Pending, pr_executed_at = None\<rparr>"
| scheduled: "\<lbrakk>caller \<in> guardians g; emergency_paused (bridge g);
      saturating_add now (min_timelock_delay_secs g) \<le> eta;
      \<forall>j q. bt_get (proposals g) j = Some q \<longrightarrow> \<not> active_unpause q\<rbrakk> \<Longrightarrow>
     proposal_create g (CallScheduleUnpause caller eta reason now)
       \<lparr>pr_id = nonce g, pr_kind = EmergencyUnpause, pr_proposer = caller, pr_executor = None,
        pr_eta = eta, pr_param_key = ''emergency_pause'', pr_old_value = ''true'',
        pr_new_value = ''false'', pr_base_version = None, pr_reason_hash = reason,
        pr_status = Queued, pr_executed_at = None\<rparr>"

inductive proposal_move :: "GovernanceGuard \<Rightarrow> GovCall \<Rightarrow> u64 \<Rightarrow> Proposal \<Rightarrow> Proposal \<Rightarrow> bool" for g where
  queued: "\<lbrakk>pr_status p = Pending; pr_kind p = ParamChange; pr_proposer p = caller; caller \<in> proposers g\<rbrakk> \<Longrightarrow>
     proposal_move g (CallQueue caller i) i p (p\<lparr>pr_status := Queued\<rparr>)"
| executed: "\<lbrakk>caller \<in> executors g; pr_status p = Queued; pr_kind p = ParamChange; pr_eta p \<le> now;
      pr_param_key p \<in> allowed_param_keys g; pr_base_version p = Some (param_version g (pr_param_key p));
      param_value g (pr_param_key p) = pr_old_value p\<rbrakk> \<Longrightarrow>
     proposal_move g (CallExecute caller i now) i p
       (p\<lparr>pr_status := Executed, pr_executor := Some caller, pr_executed_at := Some now\<rparr>)"
| cancelled: "\<lbrakk>pr_status p = Pending \<or> pr_status p = Queued;
      caller \<in> guardians g \<or> (pr_proposer p = caller \<and> pr_kind p = ParamChange \<and> caller \<in> proposers g)\<rbrakk> \<Longrightarrow>
     proposal_move g (CallCancel caller i) i p (p\<lparr>pr_status := Cancelled\<rparr>)"
| unpaused: "\<lbrakk>caller \<in> executors g; caller \<notin> guardians g; pr_status p = Queued; pr_kind p = EmergencyUnpause;
      pr_eta p \<le> now; pr_proposer p \<in> guardians g; pr_proposer p \<noteq> caller; emergency_paused (bridge g)\<rbrakk> \<Longrightarrow>
     proposal_move g (CallExecuteUnpause caller i now) i p
       (p\<lparr>pr_status := Executed, pr_executor := Some caller, pr_executed_at := Some now\<rparr>)"

lemma status_not_final: "s \<noteq> Executed \<Longrightarrow> s \<noteq> Cancelled \<Longrightarrow> s = Pending \<or> s = Queued"
  by (cases s) auto

subsection \<open>Accepted calls\<close>

lemma propose_accepted:
  assumes "propose g caller key old_v new_v eta reason now = (g', Ok i)"
  shows "\<exists>p. proposal_create g (CallPropose caller key old_v new_v eta reason now) p \<and>
    i = nonce g \<and>
    g' = push_gov_event (ProposalProposed i caller ParamChange (Some key) eta)
           (put_proposal i p (g\<lparr>nonce := saturating_add (nonce g) 1\<rparr>))"
  using assms
  by (auto simp: propose_def result_simps gov_guard_simps next_id_def not_less param_version_def Let_def
      intro!: exI proposal_create.proposed [unfolded param_version_def] split: if_splits)

lemma schedule_unpause_accepted:
  assumes "schedule_unpause g caller eta reason now = (g', Ok i)"
  shows "\<exists>p. proposal_create g (CallScheduleUnpause caller eta reason now) p \<and>
    i = nonce g \<and>
    g' = push_gov_event (PauseRestoreScheduled i caller eta reason)
           (put_proposal i p (g\<lparr>nonce := saturating_add (nonce g) 1\<rparr>))"
  using assms
  by (auto simp: schedule_unpause_def result_simps gov_guard_simps next_id_def not_less Let_def
      list_ex_iff bt_values_mem intro!: exI proposal_create.scheduled split: if_splits)

lemma queue_accepted:
  assumes "queue g caller i = (g', Ok u)"
  shows "g' = g \<or> (\<exists>p q. bt_get (proposals g) i = Some p \<and>
    proposal_move g (CallQueue caller i) i p q \<and>
    g' = push_gov_event (ProposalQueued i caller) (put_proposal i q g))"
proof -
  from assms consider "g' = g" | p where "bt_get (proposals g) i = Some p" "pr_status p = Pending"
      "pr_kind p = ParamChange" "pr_proposer p = caller" "caller \<in> proposers g"
      "g' = push_gov_event (ProposalQueued i caller) (put_proposal i (p\<lparr>pr_status := Queued\<rparr>) g)"
    by (auto simp: queue_def result_simps gov_guard_simps split: if_splits)
  then show ?thesis
  proof cases
    case 2
    from proposal_move.queued [OF 2(2-5)] 2(1,6) show ?thesis by auto
  qed simp
qed

lemma execute_accepted:
  assumes "execute g caller i now = (g', Ok u)"
  shows "\<exists>p q. bt_get (proposals g) i = Some p \<and>
    proposal_move g (CallExecute caller i now) i p q \<and>
    g' = push_gov_event (ProposalExecuted i caller ParamChange (Some (pr_param_key p))
             (Some (pr_old_value p)) (Some (pr_new_value p)) (Some (param_version g (pr_param_key p)))
             (Some (saturating_add (param_version g (pr_param_key p)) 1)))
           (put_proposal i q (g\<lparr>bridge := (bridge g)
              \<lparr>gov_params := bt_insert (pr_param_key p) (pr_new_value p) (gov_params (bridge g)),
               param_versions := bt_insert (pr_param_key p)
                 (saturating_add (param_version g (pr_param_key p)) 1) (param_versions (bridge g))\<rparr>\<rparr>))"
proof -
  from assms obtain p where p: "bt_get (proposals g) i = Some p"
    and pre: "caller \<in> executors g" "pr_status p = Queued" "pr_kind p = ParamChange" "pr_eta p \<le> now"
      "pr_param_key p \<in> allowed_param_keys g"
      "pr_base_version p = Some (param_version g (pr_param_key p))"
      "param_value g (pr_param_key p) = pr_old_value p"
    and g': "g' = push_gov_event (ProposalExecuted i caller ParamChange (Some (pr_param_key p))
             (Some (pr_old_value p)) (Some (pr_new_value p)) (Some (param_version g (pr_param_key p)))
             (Some (saturating_add (param_version g (pr_param_key p)) 1)))
           (put_proposal i (p\<lparr>pr_status := Executed, pr_executor := Some caller, pr_executed_at := Some now\<rparr>)
             (g\<lparr>bridge := (bridge g)
              \<lparr>gov_params := bt_insert (pr_param_key p) (pr_new_value p) (gov_params (bridge g)),
               param_versions := bt_insert (pr_param_key p)
                 (saturating_add (param_version g (pr_param_key p)) 1) (param_versions (bridge g))\<rparr>\<rparr>))"
    by (auto simp: execute_def result_simps gov_guard_simps Let_def not_less)
  from p g' proposal_move.executed [OF pre] show ?thesis by blast
qed

lemma cancel_accepted:
  assumes "cancel g caller i = (g', Ok u)"
  shows "\<exists>p q. bt_get (proposals g) i = Some p \<and> proposal_move g (CallCancel caller i) i p q \<and>
    g' = push_gov_event (ProposalCancelled i caller) (put_proposal i q g)"
proof -
  from assms obtain p where p: "bt_get (proposals g) i = Some p"
    "pr_status p \<noteq> Executed" "pr_status p \<noteq> Cancelled"
    "caller \<in> guardians g \<or> (pr_proposer p = caller \<and> pr_kind p = ParamChange \<and> caller \<in> proposers g)"
    and g': "g' = push_gov_event (ProposalCancelled i caller) (put_proposal i (p\<lparr>pr_status := Cancelled\<rparr>) g)"
    by (auto simp: cancel_def result_simps gov_guard_simps Let_def split: if_splits ProposalKind.splits)
  then have "proposal_move g (CallCancel caller i) i p (p\<lparr>pr_status := Cancelled\<rparr>)"
    by (intro proposal_move.cancelled status_not_final) auto
  with p(1) g' show ?thesis by auto
qed

lemma execute_unpause_accepted:
  assumes "execute_unpause g caller i now = (g', Ok u)"
  shows "\<exists>p q. bt_get (proposals g) i = Some p \<and>
    proposal_move g (CallExecuteUnpause caller i now) i p q \<and>
    g' = push_gov_event (ProposalExecuted i caller EmergencyUnpause (Some ''emergency_pause'')
             (Some ''true'') (Some ''false'') None None)
           (push_gov_event (PauseRestoreExecuted i caller (pr_reason_hash p))
             (put_proposal i q (g\<lparr>bridge := (bridge g)\<lparr>emergency_paused := False\<rparr>\<rparr>)))"
proof -
  from assms obtain p where p: "bt_get (proposals g) i = Some p"
    and pre: "caller \<in> executors g" "caller \<notin> guardians g" "pr_status p = Queued"
      "pr_kind p = EmergencyUnpause" "pr_eta p \<le> now" "pr_proposer p \<in> guardians g"
      "pr_proposer p \<noteq> caller" "emergency_paused (bridge g)"
    and g': "g' = push_gov_event (ProposalExecuted i caller EmergencyUnpause (Some ''emergency_pause'')
             (Some ''true'') (Some ''false'') None None)
           (push_gov_event (PauseRestoreExecuted i caller (pr_reason_hash p))
             (put_proposal i (p\<lparr>pr_status := Executed, pr_executor := Some caller, pr_executed_at := Some now\<rparr>)
               (g\<lparr>bridge := (bridge g)\<lparr>emergency_paused := False\<rparr>\<rparr>)))"
    by (auto simp: execute_unpause_def result_simps gov_guard_simps Let_def not_less)
  from p g' proposal_move.unpaused [OF pre] show ?thesis by blast
qed

lemma gov_rejected: "gov_exec g c = (g', Err e) \<Longrightarrow> g' = g"
proof (cases c)
  case (CallExecute caller i now)
  moreover assume "gov_exec g c = (g', Err e)"
  ultimately show ?thesis
    by (auto simp: execute_def tryS_eq_Err gov_guard_simps proposal_mut_def Let_def ok_or_def
        split: if_splits option.splits)
next
  case (CallExecuteUnpause caller i now)
  moreover assume "gov_exec g c = (g', Err e)"
  ultimately show ?thesis
    by (auto simp: execute_unpause_def tryS_eq_Err gov_guard_simps proposal_mut_def Let_def ok_or_def
        split: if_splits option.splits)
next
  case (CallCancel caller i)
  moreover assume "gov_exec g c = (g', Err e)"
  ultimately show ?thesis
    by (auto simp: cancel_def tryS_eq_Err gov_guard_simps Let_def split: if_splits)
qed (auto simp: set_role_def set_guardian_def set_allowed_param_key_def propose_def queue_def
    emergency_pause_def schedule_unpause_def gov_consume_audit_log_def discard_eq tryS_eq_Err next_id_def
    Let_def split: if_splits)

lemma gov_frame_simps [simp]:
  "proposals (push_gov_event e g) = proposals g" "nonce (push_gov_event e g) = nonce g"
  "bridge (push_gov_event e g) = bridge g"
  "min_timelock_delay_secs (push_gov_event e g) = min_timelock_delay_secs g"
  "proposals (put_proposal i p g) = bt_insert i p (proposals g)" "nonce (put_proposal i p g) = nonce g"
  "bridge (put_proposal i p g) = bridge g"
  "min_timelock_delay_secs (put_proposal i p g) = min_timelock_delay_secs g"
  by (simp_all add: push_gov_event_def put_proposal_def)

text \<open>The calls that touch no proposal.\<close>

lemma gov_config_accepted:
  "set_role g caller who pp px = (g', Ok u) \<Longrightarrow> proposals g' = proposals g \<and> nonce g' = nonce g"
  "set_guardian g caller who en = (g', Ok u) \<Longrightarrow> proposals g' = proposals g \<and> nonce g' = nonce g"
  "set_allowed_param_key g caller key en = (g', Ok u) \<Longrightarrow> proposals g' = proposals g \<and> nonce g' = nonce g"
  "emergency_pause g caller reason = (g', Ok u) \<Longrightarrow> proposals g' = proposals g \<and> nonce g' = nonce g"
  "proposals (fst (gov_consume_audit_log g)) = proposals g" "nonce (fst (gov_consume_audit_log g)) = nonce g"
  by (auto simp: set_role_def set_guardian_def set_allowed_param_key_def emergency_pause_def
      gov_consume_audit_log_def result_simps push_gov_event_def split: if_splits)

text \<open>An accepted call leaves every proposal alone, moves one on, or creates the next one.\<close>

lemma gov_accepted:
  assumes "gov_exec g c = (g', Ok u)"
  obtains (keep) "proposals g' = proposals g" "nonce g' = nonce g"
  | (move) i p q where "bt_get (proposals g) i = Some p" "proposal_move g c i p q"
      "proposals g' = bt_insert i q (proposals g)" "nonce g' = nonce g"
  | (create) q where "proposal_create g c q"
      "proposals g' = bt_insert (nonce g) q (proposals g)" "nonce g' = saturating_add (nonce g) 1"
proof (cases c)
  case (CallPropose caller key old_v new_v eta reason now)
  with assms obtain i where "propose g caller key old_v new_v eta reason now = (g', Ok i)"
    by (auto simp: discard_eq)
  from propose_accepted [OF this] show ?thesis by (auto simp: CallPropose intro: create)
next
  case (CallScheduleUnpause caller eta reason now)
  with assms obtain i where "schedule_unpause g caller eta reason now = (g', Ok i)"
    by (auto simp: discard_eq)
  from schedule_unpause_accepted [OF this] show ?thesis by (auto simp: CallScheduleUnpause intro: create)
next
  case (CallQueue caller i)
  with assms have "queue g caller i = (g', Ok u)" by simp
  from queue_accepted [OF this] show ?thesis
    by (auto simp: CallQueue intro: keep move)
next
  case (CallExecute caller i now)
  with assms have "execute g caller i now = (g', Ok u)" by simp
  from execute_accepted [OF this] show ?thesis by (auto simp: CallExecute intro: move)
next
  case (CallCancel caller i)
  with assms have "cancel g caller i = (g', Ok u)" by simp
  from cancel_accepted [OF this] show ?thesis
    by (auto simp: CallCancel intro: move)
next
  case (CallExecuteUnpause caller i now)
  with assms have "execute_unpause g caller i now = (g', Ok u)" by simp
  from execute_unpause_accepted [OF this] show ?thesis by (auto simp: CallExecuteUnpause intro: move)
qed (use assms gov_config_accepted in \<open>force intro: keep\<close>)+

section \<open>The invariant\<close>

definition gov_inv :: "GovernanceGuard \<Rightarrow> bool" where
  "gov_inv g \<longleftrightarrow>
     (\<forall>i p. bt_get (proposals g) i = Some p \<longrightarrow>
        pr_id p = i \<and> (i < nonce g \<or> i = - 1 \<and> nonce g = - 1) \<and>
        (pr_status p = Executed \<longrightarrow> (\<exists>t. pr_executed_at p = Some t \<and> pr_eta p \<le> t))) \<and>
     (\<forall>i j p q. bt_get (proposals g) i = Some p \<longrightarrow> bt_get (proposals g) j = Some q \<longrightarrow>
        active_unpause p \<longrightarrow> active_unpause q \<longrightarrow> i = j)"

lemma gov_invI:
  assumes "\<And>i p. bt_get (proposals g) i = Some p \<Longrightarrow> pr_id p = i"
    and "\<And>i p. bt_get (proposals g) i = Some p \<Longrightarrow> i < nonce g \<or> i = - 1 \<and> nonce g = - 1"
    and "\<And>i p. bt_get (proposals g) i = Some p \<Longrightarrow> pr_status p = Executed \<Longrightarrow>
           \<exists>t. pr_executed_at p = Some t \<and> pr_eta p \<le> t"
    and "\<And>i j p q. bt_get (proposals g) i = Some p \<Longrightarrow> bt_get (proposals g) j = Some q \<Longrightarrow>
           active_unpause p \<Longrightarrow> active_unpause q \<Longrightarrow> i = j"
  shows "gov_inv g"
  using assms unfolding gov_inv_def by blast

lemma gov_invD:
  assumes "gov_inv g"
  shows "bt_get (proposals g) i = Some p \<Longrightarrow> pr_id p = i"
    and "bt_get (proposals g) i = Some p \<Longrightarrow> i < nonce g \<or> i = - 1 \<and> nonce g = - 1"
    and "bt_get (proposals g) i = Some p \<Longrightarrow> pr_status p = Executed \<Longrightarrow>
           \<exists>t. pr_executed_at p = Some t \<and> pr_eta p \<le> t"
    and "bt_get (proposals g) i = Some p \<Longrightarrow> bt_get (proposals g) j = Some q \<Longrightarrow>
           active_unpause p \<Longrightarrow> active_unpause q \<Longrightarrow> i = j"
  using assms unfolding gov_inv_def by blast+

lemma nonce_step: "(n :: u64) < saturating_add n 1 \<or> n = - 1 \<and> saturating_add n 1 = - 1"
proof (cases "n = - 1")
  case True
  have "unat (- 1 :: u64) + unat (1 :: u64) = 2 ^ 64"
    by (simp add: unat_max_word)
  with True show ?thesis by (simp add: saturating_add_def)
next
  case False
  then show ?thesis by (simp add: word_less_nat_alt saturating_add_Suc)
qed

text \<open>One step keeps what identifies a proposal, and a stored proposal only becomes final or queued.\<close>

lemma proposal_move_facts:
  assumes "proposal_move g c i p q"
  shows "pr_id q = pr_id p" "pr_kind q = pr_kind p" "pr_proposer q = pr_proposer p" "pr_eta q = pr_eta p"
    "pr_param_key q = pr_param_key p" "pr_old_value q = pr_old_value p" "pr_new_value q = pr_new_value p"
    "pr_base_version q = pr_base_version p" "pr_reason_hash q = pr_reason_hash p"
    "pr_status p = Pending \<or> pr_status p = Queued"
    "active_unpause q \<Longrightarrow> active_unpause p"
    "pr_status q = Executed \<Longrightarrow> \<exists>t. pr_executed_at q = Some t \<and> pr_eta q \<le> t"
  using assms by (auto elim!: proposal_move.cases simp: active_unpause_def)

lemma proposal_create_facts:
  assumes "proposal_create g c q"
  shows "pr_id q = nonce g" "pr_status q = Pending \<or> pr_status q = Queued"
    "active_unpause q \<Longrightarrow> bt_get (proposals g) j = Some r \<Longrightarrow> \<not> active_unpause r"
  using assms by (auto elim!: proposal_create.cases simp: active_unpause_def)

lemma gov_accepted_inv:
  assumes inv: "gov_inv g" and ok: "gov_exec g c = (g', Ok u)"
  shows "gov_inv g'"
  using ok
proof (cases rule: gov_accepted)
  case keep
  with inv show ?thesis by (simp add: gov_inv_def)
next
  case (move i p q)
  note q = proposal_move_facts [OF move(2)] and old = gov_invD [OF inv]
  show ?thesis
    by (rule gov_invI)
      (use move(1,3,4) q old(1,2,3) in \<open>auto split: if_splits\<close>,
        use move(1,3) q(11) old(4) in \<open>auto split: if_splits\<close>)
next
  case (create q)
  note q = proposal_create_facts [OF create(1)] and old = gov_invD [OF inv]
  have grow: "i < nonce g \<or> i = - 1 \<and> nonce g = - 1 \<Longrightarrow> i < nonce g' \<or> i = - 1 \<and> nonce g' = - 1" for i
    using nonce_step [of "nonce g"] create(3) by auto
  show ?thesis
  proof (rule gov_invI)
    fix i p assume p: "bt_get (proposals g') i = Some p"
    with create(2) consider "i = nonce g" "p = q" | "i \<noteq> nonce g" "bt_get (proposals g) i = Some p"
      by (auto split: if_splits)
    note cs = this
    from cs show "pr_id p = i" by cases (use q(1) old(1) in auto)
    from cs show "i < nonce g' \<or> i = - 1 \<and> nonce g' = - 1"
      by cases (use nonce_step [of "nonce g"] create(3) old(2) grow in auto)
    show "\<exists>t. pr_executed_at p = Some t \<and> pr_eta p \<le> t" if "pr_status p = Executed"
      using cs that by cases (use q(2) old(3) in auto)
  next
    fix i j p r
    assume "bt_get (proposals g') i = Some p" "bt_get (proposals g') j = Some r"
      "active_unpause p" "active_unpause r"
    with create(2) q(3) old(4) show "i = j" by (auto split: if_splits)
  qed
qed

interpretation gov: invariant_machine gov_exec gov_inv
  by unfold_locales (auto dest: gov_rejected intro: gov_accepted_inv)

lemma gov_inv_new: "gov_inv (gov_new adm guardian delay)"
  by (simp add: gov_inv_def gov_new_def)

section \<open>Where proposals come from\<close>

fun created_by :: "u64 \<Rightarrow> GovCall \<Rightarrow> Proposal \<Rightarrow> bool" where
  "created_by delay (CallPropose caller key old_v new_v eta reason now) p \<longleftrightarrow>
     pr_kind p = ParamChange \<and> pr_proposer p = caller \<and> pr_param_key p = key \<and>
     pr_old_value p = old_v \<and> pr_new_value p = new_v \<and> pr_eta p = eta \<and> pr_reason_hash p = reason \<and>
     saturating_add now delay \<le> pr_eta p"
| "created_by delay (CallScheduleUnpause caller eta reason now) p \<longleftrightarrow>
     pr_kind p = EmergencyUnpause \<and> pr_proposer p = caller \<and> pr_eta p = eta \<and> pr_reason_hash p = reason \<and>
     saturating_add now delay \<le> pr_eta p"
| "created_by delay _ p \<longleftrightarrow> False"

lemma gov_delay_constant:
  assumes "gov_exec g c = (g', Ok u)"
  shows "min_timelock_delay_secs g' = min_timelock_delay_secs g"
proof (cases c)
  case (CallExecute caller i now)
  with assms execute_accepted [of g caller i now g' u] show ?thesis by auto
next
  case (CallExecuteUnpause caller i now)
  with assms execute_unpause_accepted [of g caller i now g' u] show ?thesis by auto
next
  case (CallCancel caller i)
  with assms cancel_accepted [of g caller i g' u] show ?thesis by auto
next
  case (CallQueue caller i)
  with assms queue_accepted [of g caller i g' u] show ?thesis by auto
next
  case (CallPropose caller key old_v new_v eta reason now)
  with assms show ?thesis by (auto simp: discard_eq dest!: propose_accepted)
next
  case (CallScheduleUnpause caller eta reason now)
  with assms show ?thesis by (auto simp: discard_eq dest!: schedule_unpause_accepted)
qed (use assms in \<open>auto simp: set_role_def set_guardian_def set_allowed_param_key_def emergency_pause_def
    gov_consume_audit_log_def result_simps push_gov_event_def split: if_splits\<close>)

lemma created_by_moved:
  "created_by d c p \<Longrightarrow> proposal_move g c' i p q \<Longrightarrow> created_by d c q"
  by (cases c) (auto simp: proposal_move_facts)

lemma gov_history:
  "bt_get (proposals (run gov_exec (gov_new adm gd delay) cs)) i = Some p \<Longrightarrow>
     \<exists>c \<in> set (accepted gov_exec (gov_new adm gd delay) cs). created_by delay c p"
proof -
  let ?P = "\<lambda>g h. min_timelock_delay_secs g = delay \<and>
    (\<forall>i p. bt_get (proposals g) i = Some p \<longrightarrow> (\<exists>c \<in> set h. created_by delay c p))"
  have "?P (run gov_exec (gov_new adm gd delay) cs) (accepted gov_exec (gov_new adm gd delay) cs)"
  proof (rule gov.run_history)
    show "?P (gov_new adm gd delay) []" by (simp add: gov_new_def)
  next
    fix g h c g' u
    assume old: "?P g h" and ok: "gov_exec g c = (g', Ok u)"
    from ok have "\<forall>i p. bt_get (proposals g') i = Some p \<longrightarrow> (\<exists>c \<in> set (h @ [c]). created_by delay c p)"
    proof (cases rule: gov_accepted)
      case (move i p q)
      from old move(1) obtain c0 where c0: "c0 \<in> set h" "created_by delay c0 p" by blast
      with created_by_moved [OF _ move(2)] have "created_by delay c0 q" by blast
      with c0(1) move(3) old show ?thesis by (auto simp: Bex_def)
    next
      case (create q)
      then have "created_by delay c q" using old by (auto elim!: proposal_create.cases)
      with create(2) old show ?thesis by auto
    qed (use old in auto)
    with old gov_delay_constant [OF ok] show "?P g' (h @ [c])" by simp
  qed
  then show "bt_get (proposals (run gov_exec (gov_new adm gd delay) cs)) i = Some p \<Longrightarrow>
     \<exists>c \<in> set (accepted gov_exec (gov_new adm gd delay) cs). created_by delay c p" by blast
qed

section \<open>How the guard evolves\<close>

text \<open>
  Along a history a stored proposal keeps everything that was proposed, a final one never
  changes, and parameter versions never go back. The id \<open>u64::MAX\<close> is excluded: the counter
  saturates there, and a later proposal would reuse it.
\<close>

definition evolves :: "GovernanceGuard \<Rightarrow> GovernanceGuard \<Rightarrow> bool" where
  "evolves g g' \<longleftrightarrow> (gov_inv g \<longrightarrow>
     gov_inv g' \<and> (\<forall>k. param_version g k \<le> param_version g' k) \<and>
     (\<forall>i p. bt_get (proposals g) i = Some p \<longrightarrow> i \<noteq> - 1 \<longrightarrow>
        (\<exists>q. bt_get (proposals g') i = Some q \<and> pr_param_key q = pr_param_key p \<and>
           pr_base_version q = pr_base_version p \<and>
           (pr_status p = Executed \<or> pr_status p = Cancelled \<longrightarrow> q = p))))"

lemma evolvesD:
  assumes "evolves g g'" "gov_inv g" "bt_get (proposals g) i = Some p" "i \<noteq> - 1"
  shows "\<exists>q. bt_get (proposals g') i = Some q \<and> pr_param_key q = pr_param_key p \<and>
    pr_base_version q = pr_base_version p \<and> (pr_status p = Executed \<or> pr_status p = Cancelled \<longrightarrow> q = p) \<and>
    param_version g (pr_param_key p) \<le> param_version g' (pr_param_key p)"
  using assms by (simp add: evolves_def)

lemma evolves_refl: "evolves g g"
  by (simp add: evolves_def)

lemma evolves_trans: "evolves f g \<Longrightarrow> evolves g h \<Longrightarrow> evolves f h"
proof -
  assume fg: "evolves f g" and gh: "evolves g h"
  have "\<exists>r. bt_get (proposals h) i = Some r \<and> pr_param_key r = pr_param_key p \<and>
      pr_base_version r = pr_base_version p \<and> (pr_status p = Executed \<or> pr_status p = Cancelled \<longrightarrow> r = p)"
    if inv: "gov_inv f" and p: "bt_get (proposals f) i = Some p" "i \<noteq> - 1" for i p
  proof -
    from fg inv p obtain q where q: "bt_get (proposals g) i = Some q" "gov_inv g"
      "pr_param_key q = pr_param_key p" "pr_base_version q = pr_base_version p"
      "pr_status p = Executed \<or> pr_status p = Cancelled \<longrightarrow> q = p"
      unfolding evolves_def by blast
    with gh p(2) obtain r where "bt_get (proposals h) i = Some r" 
      "pr_param_key r = pr_param_key q" "pr_base_version r = pr_base_version q"
      "pr_status q = Executed \<or> pr_status q = Cancelled \<longrightarrow> r = q"
      unfolding evolves_def by blast
    with q show ?thesis by auto
  qed
  with fg gh show ?thesis unfolding evolves_def by (blast intro: order_trans)
qed

text \<open>Only an accepted execution touches the parameters, only an accepted unpause lifts the pause.\<close>

lemma gov_bridge_cases:
  assumes "gov_exec g c = (g', Ok u)"
  obtains (keep) "gov_params (bridge g') = gov_params (bridge g)"
      "param_versions (bridge g') = param_versions (bridge g)"
      "emergency_paused (bridge g) \<Longrightarrow> emergency_paused (bridge g')"
  | (param) caller i now p q where "c = CallExecute caller i now" "bt_get (proposals g) i = Some p"
      "proposal_move g c i p q" "emergency_paused (bridge g') = emergency_paused (bridge g)"
      "gov_params (bridge g') = bt_insert (pr_param_key p) (pr_new_value p) (gov_params (bridge g))"
      "param_versions (bridge g') = bt_insert (pr_param_key p)
         (saturating_add (param_version g (pr_param_key p)) 1) (param_versions (bridge g))"
  | (unpause) caller i now p q where "c = CallExecuteUnpause caller i now" "bt_get (proposals g) i = Some p"
      "proposal_move g c i p q" "gov_params (bridge g') = gov_params (bridge g)"
      "param_versions (bridge g') = param_versions (bridge g)" "\<not> emergency_paused (bridge g')"
proof (cases c)
  case (CallExecute caller i now)
  with assms have "execute g caller i now = (g', Ok u)" by simp
  from execute_accepted [OF this] obtain p q where *: "bt_get (proposals g) i = Some p"
    "proposal_move g (CallExecute caller i now) i p q" "emergency_paused (bridge g') = emergency_paused (bridge g)"
      "gov_params (bridge g') = bt_insert (pr_param_key p) (pr_new_value p) (gov_params (bridge g))"
      "param_versions (bridge g') = bt_insert (pr_param_key p)
         (saturating_add (param_version g (pr_param_key p)) 1) (param_versions (bridge g))"
    by auto
  from param [OF CallExecute *(1) *(2) [folded CallExecute] *(3-5)] show ?thesis .
next
  case (CallExecuteUnpause caller i now)
  with assms have "execute_unpause g caller i now = (g', Ok u)" by simp
  from execute_unpause_accepted [OF this] obtain p q where *: "bt_get (proposals g) i = Some p"
    "proposal_move g (CallExecuteUnpause caller i now) i p q" "gov_params (bridge g') = gov_params (bridge g)"
      "param_versions (bridge g') = param_versions (bridge g)" "\<not> emergency_paused (bridge g')"
    by auto
  from unpause [OF CallExecuteUnpause *(1) *(2) [folded CallExecuteUnpause] *(3-5)] show ?thesis .
next
  case (CallCancel caller i)
  with assms have "cancel g caller i = (g', Ok u)" by simp
  from cancel_accepted [OF this] have "bridge g' = bridge g" by auto
  then show ?thesis by (simp add: keep)
next
  case (CallQueue caller i)
  with assms have "queue g caller i = (g', Ok u)" by simp
  from queue_accepted [OF this] have "bridge g' = bridge g" by auto
  then show ?thesis by (simp add: keep)
next
  case (CallPropose caller key old_v new_v eta reason now)
  with assms obtain i where "propose g caller key old_v new_v eta reason now = (g', Ok i)"
    by (auto simp: discard_eq)
  from propose_accepted [OF this] have "bridge g' = bridge g" by auto
  then show ?thesis by (simp add: keep)
next
  case (CallScheduleUnpause caller eta reason now)
  with assms obtain i where "schedule_unpause g caller eta reason now = (g', Ok i)"
    by (auto simp: discard_eq)
  from schedule_unpause_accepted [OF this] have "bridge g' = bridge g" by auto
  then show ?thesis by (simp add: keep)
qed (rule keep; use assms in \<open>auto simp: set_role_def set_guardian_def set_allowed_param_key_def
    emergency_pause_def gov_consume_audit_log_def result_simps push_gov_event_def split: if_splits\<close>)+

lemma le_saturating_add: "(a :: u64) \<le> saturating_add a b"
  using unat_bound [of a] by (simp add: word_le_nat_alt unat_saturating_add)

lemma param_version_mono:
  assumes "gov_exec g c = (g', Ok u)"
  shows "param_version g k \<le> param_version g' k"
  using assms
proof (cases rule: gov_bridge_cases)
  case (param caller i now p q)
  then show ?thesis
    by (auto simp: param_version_def le_saturating_add)
qed (simp_all add: param_version_def)

lemma gov_step_evolves:
  assumes ok: "gov_exec g c = (g', Ok u)"
  shows "evolves g g'"
proof -
  have "\<exists>q. bt_get (proposals g') i = Some q \<and> pr_param_key q = pr_param_key p \<and>
      pr_base_version q = pr_base_version p \<and> (pr_status p = Executed \<or> pr_status p = Cancelled \<longrightarrow> q = p)"
    if inv: "gov_inv g" and p: "bt_get (proposals g) i = Some p" and i: "i \<noteq> - 1" for i p
    using ok
  proof (cases rule: gov_accepted)
    case (move j p' q)
    with p proposal_move_facts [OF move(2)] show ?thesis by auto
  next
    case (create q)
    from gov_invD(2) [OF inv p] i have "i \<noteq> nonce g" by auto
    with create(2) p show ?thesis by simp
  qed (use p in simp)
  with gov_accepted_inv [OF _ ok] param_version_mono [OF ok] show ?thesis
    unfolding evolves_def by blast
qed

lemma gov_run_evolves: "evolves g (run gov_exec g cs)"
  by (rule gov.run_related [of evolves, OF evolves_refl evolves_trans gov_step_evolves])

section \<open>A sample history\<close>

abbreviation sample_root :: GovernanceGuard where
  "sample_root \<equiv> gov_new ''root'' ''guard'' 10"

definition sample_calls :: "GovCall list" where
  "sample_calls =
     [CallSetRole ''root'' ''alice'' True True, CallSetAllowedParamKey ''root'' ''fee'' True,
      CallPropose ''alice'' ''fee'' [] ''5'' 20 ''r'' 10, CallPropose ''alice'' ''fee'' [] ''7'' 25 ''r'' 10,
      CallQueue ''alice'' 1, CallQueue ''alice'' 2]"

definition sample_calls' :: "GovCall list" where
  "sample_calls' = sample_calls @
     [CallExecute ''alice'' 1 20, CallEmergencyPause ''guard'' ''r'', CallScheduleUnpause ''guard'' 40 ''r'' 30]"

lemmas gov_eval = gov_op_defs gov_frame_defs gov_new_def require_admin_def require_proposer_def
  require_executor_def require_guardian_def proposal_mut_def set_membership_def saturating_add_def
  discard_def param_version_def param_value_def active_unpause_def ok_or_def Let_def
  bt_values_def sample_calls_def sample_calls'_def

section \<open>Properties\<close>

text \<open>
  C6. Timelock. In every state the guard can reach, each stored proposal goes back to an accepted
  \<open>propose\<close> or \<open>schedule_unpause\<close> call with the same content whose eta lies at least the
  configured delay after the time of that call; and a proposal that has been executed was
  executed at or after its eta.
\<close>

theorem gov_timelock:
  assumes "bt_get (proposals (run gov_exec (gov_new adm gd delay) cs)) i = Some p"
  shows "(\<exists>c \<in> set (accepted gov_exec (gov_new adm gd delay) cs). created_by delay c p) \<and>
    (pr_status p = Executed \<longrightarrow> (\<exists>t. pr_executed_at p = Some t \<and> pr_eta p \<le> t))"
  using gov_history [OF assms] gov_invD(3) [OF gov.run_keeps_inv [OF gov_inv_new] assms] by blast

theorem gov_timelock_witness:
  "\<exists>t. pr_executed_at (the (bt_get (proposals (run gov_exec sample_root sample_calls')) 1)) = Some t \<and> 20 \<le> t"
proof -
  obtain p where p: "bt_get (proposals (run gov_exec sample_root sample_calls')) 1 = Some p"
    "pr_status p = Executed" "pr_eta p = 20"
    by (simp add: gov_eval)
  from gov_timelock [OF p(1)] p show ?thesis by simp
qed

text \<open>
  C30. Lifting the emergency pause. If a call takes the guard from paused to running, it is an
  \<open>execute_unpause\<close> of a queued unpause proposal whose eta has passed, scheduled by someone who is
  still a guardian, and executed by an executor who is not a guardian.
\<close>

theorem gov_unpause_authority:
  assumes "gov_exec g c = (g', r)" and "emergency_paused (bridge g)" and "\<not> emergency_paused (bridge g')"
  shows "\<exists>caller i now p. c = CallExecuteUnpause caller i now \<and> bt_get (proposals g) i = Some p \<and>
    pr_kind p = EmergencyUnpause \<and> pr_status p = Queued \<and> pr_eta p \<le> now \<and>
    pr_proposer p \<in> guardians g \<and> caller \<in> executors g \<and> caller \<notin> guardians g"
proof (cases r)
  case (Ok u)
  with assms(1) have "gov_exec g c = (g', Ok u)" by simp
  then show ?thesis
  proof (cases rule: gov_bridge_cases)
    case (unpause caller i now p q)
    then show ?thesis by (auto elim: proposal_move.cases)
  qed (use assms in auto)
next
  case (Err e)
  with assms gov_rejected show ?thesis by blast
qed

theorem gov_unpause_authority_witness:
  "\<exists>p. bt_get (proposals (run gov_exec sample_root sample_calls')) 3 = Some p \<and>
     pr_eta p \<le> 40 \<and> pr_proposer p \<in> guardians (run gov_exec sample_root sample_calls')"
proof -
  let ?g = "run gov_exec sample_root sample_calls'" and ?c = "CallExecuteUnpause ''alice'' 3 40"
  have "emergency_paused (bridge ?g)" "\<not> emergency_paused (bridge (fst (gov_exec ?g ?c)))"
    by (simp_all add: gov_eval)
  from gov_unpause_authority [OF prod.collapse [symmetric] this] show ?thesis by auto
qed

text \<open>
  C15. Parameters change by compare-and-swap only. If a call changes the value or the version of a
  parameter, it is an \<open>execute\<close> of a queued and matured proposal for that allowed parameter whose
  recorded old value and base version are the current ones; the value becomes the proposed one
  and the version goes up by one.
\<close>

theorem gov_param_cas:
  assumes "gov_exec g c = (g', r)"
    and "param_value g' k \<noteq> param_value g k \<or> param_version g' k \<noteq> param_version g k"
  shows "\<exists>caller i now p. c = CallExecute caller i now \<and> caller \<in> executors g \<and>
    bt_get (proposals g) i = Some p \<and> pr_status p = Queued \<and> pr_eta p \<le> now \<and>
    pr_param_key p = k \<and> k \<in> allowed_param_keys g \<and>
    pr_old_value p = param_value g k \<and> pr_base_version p = Some (param_version g k) \<and>
    param_value g' k = pr_new_value p \<and> param_version g' k = saturating_add (param_version g k) 1"
proof (cases r)
  case (Ok u)
  with assms(1) have "gov_exec g c = (g', Ok u)" by simp
  then show ?thesis
  proof (cases rule: gov_bridge_cases)
    case (param caller i now p q)
    with assms(2) have "pr_param_key p = k"
      by (auto simp: param_value_def param_version_def split: if_splits)
    with param show ?thesis
      by (auto elim!: proposal_move.cases simp: param_value_def param_version_def)
  qed (use assms in \<open>auto simp: param_value_def param_version_def\<close>)
next
  case (Err e)
  with assms gov_rejected show ?thesis by blast
qed

theorem gov_param_cas_witness:
  "\<exists>p. bt_get (proposals (run gov_exec sample_root sample_calls)) 1 = Some p \<and>
     pr_base_version p = Some (param_version (run gov_exec sample_root sample_calls) ''fee'') \<and>
     param_value (fst (gov_exec (run gov_exec sample_root sample_calls) (CallExecute ''alice'' 1 20))) ''fee'' =
       pr_new_value p"
proof -
  let ?g = "run gov_exec sample_root sample_calls" and ?c = "CallExecute ''alice'' 1 20"
  have "param_value (fst (gov_exec ?g ?c)) ''fee'' \<noteq> param_value ?g ''fee'' \<or>
      param_version (fst (gov_exec ?g ?c)) ''fee'' \<noteq> param_version ?g ''fee''"
    by (simp add: gov_eval)
  from gov_param_cas [OF prod.collapse [symmetric] this] show ?thesis by auto
qed

text \<open>
  Finality. In a reachable state, a proposal that is executed or cancelled stays exactly as it
  is whatever calls follow (ids below \<open>u64::MAX\<close>, where the id counter saturates).
\<close>

lemma gov_finality:
  assumes "bt_get (proposals (run gov_exec (gov_new adm gd delay) cs)) i = Some p" and "i \<noteq> - 1"
    and "pr_status p = Executed \<or> pr_status p = Cancelled"
  shows "bt_get (proposals (run gov_exec (gov_new adm gd delay) (cs @ ds))) i = Some p"
proof -
  have "evolves (run gov_exec (gov_new adm gd delay) cs) (run gov_exec (gov_new adm gd delay) (cs @ ds))"
    by (simp add: run_append gov_run_evolves)
  from evolvesD [OF this gov.run_keeps_inv [OF gov_inv_new] assms(1,2)] assms(3) show ?thesis by auto
qed

text \<open>
  A proposal made against an older version of its parameter can never be executed: once the
  version has moved past the proposal's base version, every later \<open>execute\<close> of it is rejected.
\<close>

lemma gov_stale_never_executes:
  assumes "bt_get (proposals (run gov_exec (gov_new adm gd delay) cs)) i = Some p" and "i \<noteq> - 1"
    and "pr_base_version p = Some v"
    and "v < param_version (run gov_exec (gov_new adm gd delay) cs) (pr_param_key p)"
  shows "\<not> is_ok (snd (execute (run gov_exec (gov_new adm gd delay) (cs @ ds)) caller i now))"
proof -
  let ?g = "run gov_exec (gov_new adm gd delay) cs" and ?h = "run gov_exec (gov_new adm gd delay) (cs @ ds)"
  have "evolves ?g ?h" by (simp add: run_append gov_run_evolves)
  from evolvesD [OF this gov.run_keeps_inv [OF gov_inv_new] assms(1,2)] obtain q
    where q: "bt_get (proposals ?h) i = Some q" "pr_param_key q = pr_param_key p" "pr_base_version q = Some v"
      "v < param_version ?h (pr_param_key q)"
    using assms(3,4) by (auto intro: order_less_le_trans)
  have "False" if "execute ?h caller i now = (g', Ok u)" for g' u
    using execute_accepted [OF that] q by (auto elim!: proposal_move.cases)
  then show ?thesis
    by (cases "execute ?h caller i now") (auto simp: is_ok_def split: result.splits)
qed

text \<open>
  At any time at most one unpause proposal is open.
\<close>

lemma gov_single_unpause:
  assumes "bt_get (proposals (run gov_exec (gov_new adm gd delay) cs)) i = Some p"
    and "bt_get (proposals (run gov_exec (gov_new adm gd delay) cs)) j = Some q"
    and "active_unpause p" and "active_unpause q"
  shows "i = j"
  using gov_invD(4) [OF gov.run_keeps_inv [OF gov_inv_new] assms] .

end
