(* ===== verification/Byte_Encoding.thy ===== *)
theory Byte_Encoding
  imports Prelude
begin

text \<open>
  Bytes: \<open>to_be_bytes\<close>, byte string literals, and the length-prefixed frames every digest of the
  code is computed over (\<open>hash_frame\<close>, \<open>put_len_prefixed\<close>). The hash function itself is a
  parameter of the definitions that use it. The lemmas show that the framing is unambiguous: equal
  framed byte strings have equal parts, so two different values can only share a digest through a
  collision of the hash function.
\<close>

section \<open>Machine words as bytes\<close>

text \<open>\<open>to_be_bytes\<close> of an n-byte value.\<close>

definition be_bytes :: "nat \<Rightarrow> 'a::len word \<Rightarrow> u8 list" where
  "be_bytes n w = map (\<lambda>i. ucast (drop_bit (8 * i) w)) (rev [0..<n])"

definition le_bytes :: "nat \<Rightarrow> 'a::len word \<Rightarrow> u8 list" where
  "le_bytes n w = map (\<lambda>i. ucast (drop_bit (8 * i) w)) [0..<n]"

abbreviation u16_bytes :: "u16 \<Rightarrow> u8 list" where "u16_bytes \<equiv> be_bytes 2"
abbreviation u32_bytes :: "u32 \<Rightarrow> u8 list" where "u32_bytes \<equiv> be_bytes 4"
abbreviation u64_bytes :: "u64 \<Rightarrow> u8 list" where "u64_bytes \<equiv> be_bytes 8"
abbreviation u128_bytes :: "u128 \<Rightarrow> u8 list" where "u128_bytes \<equiv> be_bytes 16"
abbreviation hash_bytes :: "hash32 \<Rightarrow> u8 list" where "hash_bytes \<equiv> be_bytes 32"

lemma length_be_bytes [simp]: "length (be_bytes n w) = n"
  by (simp add: be_bytes_def)

lemma length_le_bytes [simp]: "length (le_bytes n w) = n"
  by (simp add: le_bytes_def)

lemma be_bytes_rev: "be_bytes n w = rev (le_bytes n w)"
  by (simp add: be_bytes_def le_bytes_def rev_map)

lemma le_bytes_inject:
  fixes v w :: "'a::len word"
  assumes "LENGTH('a) \<le> 8 * n"
  shows "le_bytes n v = le_bytes n w \<longleftrightarrow> v = w"
proof
  assume eq: "le_bytes n v = le_bytes n w"
  show "v = w"
  proof (rule bit_word_eqI)
    fix k assume k: "k < LENGTH('a)"
    then have "k div 8 < n" using assms by auto
    then have "(ucast (drop_bit (8 * (k div 8)) v) :: u8) = ucast (drop_bit (8 * (k div 8)) w)"
      using eq by (simp add: le_bytes_def map_eq_conv)
    then have "bit (ucast (drop_bit (8 * (k div 8)) v) :: u8) (k mod 8) =
        bit (ucast (drop_bit (8 * (k div 8)) w) :: u8) (k mod 8)" by simp
    then show "bit v k = bit w k"
      by (simp add: bit_simps)
  qed
qed simp

lemma be_bytes_inject:
  fixes v w :: "'a::len word"
  shows "LENGTH('a) \<le> 8 * n \<Longrightarrow> be_bytes n v = be_bytes n w \<longleftrightarrow> v = w"
  by (simp add: be_bytes_rev le_bytes_inject)

lemma word_bytes_inject [simp]:
  "u16_bytes a = u16_bytes a' \<longleftrightarrow> a = a'"
  "u32_bytes b = u32_bytes b' \<longleftrightarrow> b = b'"
  "u64_bytes c = u64_bytes c' \<longleftrightarrow> c = c'"
  "u128_bytes d = u128_bytes d' \<longleftrightarrow> d = d'"
  "hash_bytes h = hash_bytes h' \<longleftrightarrow> h = h'"
  by (simp_all add: be_bytes_inject)

text \<open>A byte string literal, and \<open>str::as_bytes\<close>.\<close>

definition ascii :: "string \<Rightarrow> u8 list" where
  "ascii s = map of_char s"

section \<open>Frames\<close>

definition frame :: "u8 list \<Rightarrow> u8 list" where
  "frame v = u64_bytes (word_of_nat (length v)) @ v"

definition frames :: "u8 list list \<Rightarrow> u8 list" where
  "frames vs = concat (map frame vs)"

lemma frames_simps [simp]:
  "frames [] = []" "frames (v # vs) = frame v @ frames vs"
  by (simp_all add: frames_def)

lemma frame_append_inject:
  assumes "length v < 2 ^ 64" "length w < 2 ^ 64"
  shows "frame v @ xs = frame w @ ys \<longleftrightarrow> v = w \<and> xs = ys"
proof
  assume eq: "frame v @ xs = frame w @ ys"
  then have "u64_bytes (word_of_nat (length v)) = u64_bytes (word_of_nat (length w))"
    by (simp add: frame_def)
  then have "unat (word_of_nat (length v) :: u64) = unat (word_of_nat (length w) :: u64)" by simp
  with assms have "length v = length w"
    by (simp add: unat_of_nat take_bit_nat_eq_self)
  with eq show "v = w \<and> xs = ys" by (simp add: frame_def)
qed simp

text \<open>The framing of a list of byte strings is unambiguous.\<close>

lemma frames_inject:
  assumes "\<forall>v \<in> set vs. length v < 2 ^ 64" "\<forall>w \<in> set ws. length w < 2 ^ 64"
  shows "frames vs = frames ws \<longleftrightarrow> vs = ws"
  using assms
proof (induction vs arbitrary: ws)
  case Nil
  then show ?case by (cases ws) (auto simp: frame_def be_bytes_def)
next
  case (Cons v vs)
  show ?case
  proof (cases ws)
    case Nil
    then show ?thesis by (auto simp: frame_def be_bytes_def)
  next
    case (Cons w ws')
    with Cons.prems Cons.IH [of ws'] show ?thesis by (auto simp: frame_append_inject)
  qed
qed

end
