(* ===== verification/Verification_Profiles.thy ===== *)
theory Verification_Profiles
  imports Ordered_Map Byte_Encoding
begin

text \<open>
  The crate \<open>trnm-verification-profiles\<close>: the closed registry of verification profiles, exact
  resolution and evidence binding before the backend is called, and the lifecycle of challenges
  against a result. The hash function (crate \<open>sha2\<close>) is the parameter \<open>sha\<close>; the backend, a trait
  with a mutable receiver, is a function on a backend state.
\<close>

section \<open>Profiles and the registry\<close>

datatype VerificationProfileKind =
    DeterministicReexecution
  | ReproducibleMachineLearning
  | ZeroKnowledge
  | TrustedExecutionEnvironment
  | Optimistic
  | Subjective

definition all_kinds :: "VerificationProfileKind list" where
  "all_kinds = [DeterministicReexecution, ReproducibleMachineLearning, ZeroKnowledge,
     TrustedExecutionEnvironment, Optimistic, Subjective]"

fun kind_tag :: "VerificationProfileKind \<Rightarrow> u8" where
  "kind_tag DeterministicReexecution = 0"
| "kind_tag ReproducibleMachineLearning = 1"
| "kind_tag ZeroKnowledge = 2"
| "kind_tag TrustedExecutionEnvironment = 3"
| "kind_tag Optimistic = 5"
| "kind_tag Subjective = 6"

datatype ProfileError =
    ZeroIdentifier | ZeroVersion | InvalidHeightRange | DuplicateKind | DuplicateProfileIdentity
  | IncompleteRegistry | ProfileNotFound | ProfileHashMismatch | ProfileDisabled
  | ProfileNotYetValid | ProfileExpired | ProfileRevoked | SubjectiveAuthorityEscalation
  | MalformedStatement | EvidenceBindingMismatch | EvidenceWindowClosed | BackendUnavailable
  | ArithmeticOverflow | DuplicateChallenge | ChallengeNotFound | InvalidChallengePhase
  | ChallengeDeadlineMissed | AppealAlreadyUsed

record VerificationProfile =
  vp_profile_id :: hash32
  vp_version :: u32
  vp_profile_hash :: hash32
  vp_kind :: VerificationProfileKind
  vp_enabled :: bool
  vp_valid_from_height :: u64
  vp_expires_at_height :: "u64 option"
  vp_revoked_at_height :: "u64 option"
  vp_objective_settlement_allowed :: bool

text \<open>\<open>Option::is_some_and\<close>.\<close>

definition is_some_and :: "'a option \<Rightarrow> ('a \<Rightarrow> bool) \<Rightarrow> bool" where
  "is_some_and x p = (case x of None \<Rightarrow> False | Some y \<Rightarrow> p y)"

definition require_nonzero :: "hash32 \<Rightarrow> (unit, ProfileError) result" where
  "require_nonzero h = (if h = 0 then Err ZeroIdentifier else Ok ())"

definition profile_validate :: "VerificationProfile \<Rightarrow> (VerificationProfile, ProfileError) result" where
  "profile_validate p =
     tryR (require_nonzero (vp_profile_id p)) (\<lambda>_.
     tryR (require_nonzero (vp_profile_hash p)) (\<lambda>_.
     if vp_version p = 0 then Err ZeroVersion
     else if is_some_and (vp_expires_at_height p) (\<lambda>h. h < vp_valid_from_height p) \<or>
             is_some_and (vp_revoked_at_height p) (\<lambda>h. h < vp_valid_from_height p)
     then Err InvalidHeightRange
     else if vp_kind p = Subjective \<and> vp_objective_settlement_allowed p
     then Err SubjectiveAuthorityEscalation
     else Ok p))"

type_synonym registry = "(hash32 \<times> u32, VerificationProfile) btree"

text \<open>The loop body of \<open>closed\<close>, over the kinds seen and the map built so far.\<close>

definition register :: "VerificationProfileKind set \<times> registry \<Rightarrow> VerificationProfile \<Rightarrow>
    (VerificationProfileKind set \<times> registry, ProfileError) result" where
  "register acc p =
     tryR (profile_validate p) (\<lambda>p.
     if vp_kind p \<in> fst acc then Err DuplicateKind
     else if bt_contains (snd acc) (vp_profile_id p, vp_version p) then Err DuplicateProfileIdentity
     else Ok (insert (vp_kind p) (fst acc), bt_insert (vp_profile_id p, vp_version p) p (snd acc)))"

definition closed :: "VerificationProfile list \<Rightarrow> (registry, ProfileError) result" where
  "closed ps =
     tryR (try_fold register ({}, bt_empty) ps) (\<lambda>(kinds, by_identity).
     if kinds \<noteq> set all_kinds then Err IncompleteRegistry else Ok by_identity)"

definition resolve_exact :: "registry \<Rightarrow> hash32 \<Rightarrow> u32 \<Rightarrow> hash32 \<Rightarrow> u64 \<Rightarrow> (VerificationProfile, ProfileError) result" where
  "resolve_exact reg pid ver expected_hash height =
     tryR (ok_or (bt_get reg (pid, ver)) ProfileNotFound) (\<lambda>p.
     if vp_profile_hash p \<noteq> expected_hash then Err ProfileHashMismatch
     else if \<not> vp_enabled p then Err ProfileDisabled
     else if height < vp_valid_from_height p then Err ProfileNotYetValid
     else if is_some_and (vp_expires_at_height p) (\<lambda>expiry. height > expiry) then Err ProfileExpired
     else if is_some_and (vp_revoked_at_height p) (\<lambda>revocation. height \<ge> revocation) then Err ProfileRevoked
     else Ok p)"

section \<open>Statements and evidence\<close>

record VerificationStatement =
  vs_task_id :: hash32
  vs_lease_id :: hash32
  vs_execution_receipt_id :: hash32
  vs_profile_id :: hash32
  vs_profile_version :: u32
  vs_profile_hash :: hash32
  vs_artifact_evidence_digest :: hash32
  vs_availability_certificate_digest :: hash32
  vs_evidence_window_start :: u64
  vs_evidence_window_end :: u64
  vs_submitted_height :: u64
  vs_statement_digest :: hash32

definition validate_shape :: "VerificationStatement \<Rightarrow> (unit, ProfileError) result" where
  "validate_shape s =
     tryR (try_fold (\<lambda>_ h. require_nonzero h) ()
       [vs_task_id s, vs_lease_id s, vs_execution_receipt_id s, vs_profile_id s, vs_profile_hash s,
        vs_artifact_evidence_digest s, vs_availability_certificate_digest s]) (\<lambda>_.
     if vs_profile_version s = 0 \<or> vs_evidence_window_start s > vs_evidence_window_end s \<or>
        vs_submitted_height s < vs_evidence_window_start s \<or>
        vs_submitted_height s > vs_evidence_window_end s
     then Err MalformedStatement else Ok ())"

definition STATEMENT_DOMAIN :: "u8 list" where
  "STATEMENT_DOMAIN = ascii ''trnm.g2c.verification-statement.v1'' @ [0]"

definition DECISION_DOMAIN :: "u8 list" where
  "DECISION_DOMAIN = ascii ''trnm.g2c.verification-decision.v1'' @ [0]"

definition CHALLENGE_DOMAIN :: "u8 list" where
  "CHALLENGE_DOMAIN = ascii ''trnm.g2c.challenge-record.v1'' @ [0]"

definition statement_parts :: "VerificationStatement \<Rightarrow> u8 list list" where
  "statement_parts s =
     [STATEMENT_DOMAIN, hash_bytes (vs_task_id s), hash_bytes (vs_lease_id s),
      hash_bytes (vs_execution_receipt_id s), hash_bytes (vs_profile_id s),
      u32_bytes (vs_profile_version s), hash_bytes (vs_profile_hash s),
      hash_bytes (vs_artifact_evidence_digest s), hash_bytes (vs_availability_certificate_digest s),
      u64_bytes (vs_evidence_window_start s), u64_bytes (vs_evidence_window_end s),
      u64_bytes (vs_submitted_height s)]"

definition recompute_digest :: "(u8 list \<Rightarrow> hash32) \<Rightarrow> VerificationStatement \<Rightarrow> hash32" where
  "recompute_digest sha s = sha (frames (statement_parts s))"

text \<open>\<open>[1; 32]\<close>, the placeholder digest.\<close>

definition ones32 :: hash32 where
  "ones32 = 0x0101010101010101010101010101010101010101010101010101010101010101"

definition statement_new :: "(u8 list \<Rightarrow> hash32) \<Rightarrow> hash32 \<Rightarrow> hash32 \<Rightarrow> hash32 \<Rightarrow> hash32 \<Rightarrow> u32 \<Rightarrow>
    hash32 \<Rightarrow> hash32 \<Rightarrow> hash32 \<Rightarrow> u64 \<Rightarrow> u64 \<Rightarrow> u64 \<Rightarrow> (VerificationStatement, ProfileError) result" where
  "statement_new sha task lease receipt pid ver phash artifact avail wstart wend submitted =
     (let v = \<lparr>vs_task_id = task, vs_lease_id = lease, vs_execution_receipt_id = receipt,
               vs_profile_id = pid, vs_profile_version = ver, vs_profile_hash = phash,
               vs_artifact_evidence_digest = artifact, vs_availability_certificate_digest = avail,
               vs_evidence_window_start = wstart, vs_evidence_window_end = wend,
               vs_submitted_height = submitted, vs_statement_digest = ones32\<rparr>
      in tryR (validate_shape v) (\<lambda>_. Ok (v\<lparr>vs_statement_digest := recompute_digest sha v\<rparr>)))"

definition validate_digest :: "(u8 list \<Rightarrow> hash32) \<Rightarrow> VerificationStatement \<Rightarrow> (unit, ProfileError) result" where
  "validate_digest sha s =
     tryR (validate_shape s) (\<lambda>_.
     if vs_statement_digest s \<noteq> recompute_digest sha s then Err MalformedStatement else Ok ())"

record VerificationEvidence =
  ve_task_id :: hash32
  ve_lease_id :: hash32
  ve_execution_receipt_id :: hash32
  ve_artifact_evidence_digest :: hash32
  ve_availability_certificate_digest :: hash32
  ve_backend_payload_digest :: hash32

definition validate_bound_to :: "VerificationEvidence \<Rightarrow> VerificationStatement \<Rightarrow> (unit, ProfileError) result" where
  "validate_bound_to e s =
     tryR (try_fold (\<lambda>_ h. require_nonzero h) ()
       [ve_task_id e, ve_lease_id e, ve_execution_receipt_id e, ve_artifact_evidence_digest e,
        ve_availability_certificate_digest e, ve_backend_payload_digest e]) (\<lambda>_.
     if ve_task_id e \<noteq> vs_task_id s \<or> ve_lease_id e \<noteq> vs_lease_id s \<or>
        ve_execution_receipt_id e \<noteq> vs_execution_receipt_id s \<or>
        ve_artifact_evidence_digest e \<noteq> vs_artifact_evidence_digest s \<or>
        ve_availability_certificate_digest e \<noteq> vs_availability_certificate_digest s
     then Err EvidenceBindingMismatch else Ok ())"

datatype BackendResult = BackendVerified | BackendRejected | BackendUnreachable

datatype DecisionStatus = DecisionVerified | DecisionRejected | DecisionUnavailable

record VerificationDecision =
  vd_status :: DecisionStatus
  vd_profile_kind :: VerificationProfileKind
  vd_statement_digest :: hash32
  vd_decision_digest :: hash32
  vd_economic_authority :: bool
  vd_order_reorg_authority :: bool

fun decision_status :: "BackendResult \<Rightarrow> DecisionStatus" where
  "decision_status BackendVerified = DecisionVerified"
| "decision_status BackendRejected = DecisionRejected"
| "decision_status BackendUnreachable = DecisionUnavailable"

fun status_byte :: "DecisionStatus \<Rightarrow> u8" where
  "status_byte DecisionVerified = 0"
| "status_byte DecisionRejected = 1"
| "status_byte DecisionUnavailable = 2"

text \<open>
  The backend is called on its own state \<open>b\<close>, which is returned with the decision: a call that is
  rejected before the backend returns \<open>b\<close> itself.
\<close>

definition verify_statement :: "(u8 list \<Rightarrow> hash32) \<Rightarrow>
    ('b \<Rightarrow> VerificationProfile \<Rightarrow> VerificationStatement \<Rightarrow> VerificationEvidence \<Rightarrow> 'b \<times> BackendResult) \<Rightarrow>
    registry \<Rightarrow> VerificationStatement \<Rightarrow> VerificationEvidence \<Rightarrow> u64 \<Rightarrow> 'b \<Rightarrow>
    'b \<times> (VerificationDecision, ProfileError) result" where
  "verify_statement sha backend reg s e current_height b =
     tryS b (validate_digest sha s) (\<lambda>_.
     tryS b (resolve_exact reg (vs_profile_id s) (vs_profile_version s) (vs_profile_hash s) current_height) (\<lambda>p.
     tryS b (validate_bound_to e s) (\<lambda>_.
     if current_height < vs_evidence_window_start s \<or> current_height > vs_evidence_window_end s
     then (b, Err EvidenceWindowClosed)
     else
       (let (b', answer) = backend b p s e;
            status = decision_status answer
        in (b', Ok \<lparr>vd_status = status, vd_profile_kind = vp_kind p,
                    vd_statement_digest = vs_statement_digest s,
                    vd_decision_digest = sha (frames [DECISION_DOMAIN, hash_bytes (vs_statement_digest s),
                      [kind_tag (vp_kind p)], [status_byte status], hash_bytes (ve_backend_payload_digest e)]),
                    vd_economic_authority = False, vd_order_reorg_authority = False\<rparr>)))))"

section \<open>Challenges\<close>

datatype ChallengePhase =
    Opened | EvidencePeriod | ResponsePeriod | DecisionPending | PhaseUpheld | PhaseRejected
  | AppealPending | Final

datatype ChallengeOutcome = Upheld | Rejected | Withdrawn | Expired

record ChallengeRecord =
  cr_challenge_id :: hash32
  cr_result_id :: hash32
  cr_challenger :: hash32
  cr_phase :: ChallengePhase
  cr_opened_height :: u64
  cr_evidence_deadline :: u64
  cr_response_deadline :: u64
  cr_decision_deadline :: u64
  cr_appeal_deadline :: u64
  cr_appeal_used :: bool
  cr_final_outcome :: "ChallengeOutcome option"
  cr_record_digest :: hash32
  cr_economic_authority :: bool
  cr_order_reorg :: bool

type_synonym challenge_result = "ChallengeRecord \<times> (unit, ProfileError) result"

text \<open>\<open>phase as u8\<close>: the position of the variant.\<close>

fun phase_byte :: "ChallengePhase \<Rightarrow> u8" where
  "phase_byte Opened = 0"
| "phase_byte EvidencePeriod = 1"
| "phase_byte ResponsePeriod = 2"
| "phase_byte DecisionPending = 3"
| "phase_byte PhaseUpheld = 4"
| "phase_byte PhaseRejected = 5"
| "phase_byte AppealPending = 6"
| "phase_byte Final = 7"

fun outcome_byte :: "ChallengeOutcome option \<Rightarrow> u8" where
  "outcome_byte None = 0"
| "outcome_byte (Some Upheld) = 1"
| "outcome_byte (Some Rejected) = 2"
| "outcome_byte (Some Withdrawn) = 3"
| "outcome_byte (Some Expired) = 4"

definition challenge_parts :: "ChallengeRecord \<Rightarrow> u8 list list" where
  "challenge_parts r =
     [CHALLENGE_DOMAIN, hash_bytes (cr_challenge_id r), hash_bytes (cr_result_id r),
      hash_bytes (cr_challenger r), [phase_byte (cr_phase r)], u64_bytes (cr_opened_height r),
      u64_bytes (cr_evidence_deadline r), u64_bytes (cr_response_deadline r),
      u64_bytes (cr_decision_deadline r), u64_bytes (cr_appeal_deadline r),
      [if cr_appeal_used r then 1 else 0], [outcome_byte (cr_final_outcome r)]]"

definition refresh_digest :: "(u8 list \<Rightarrow> hash32) \<Rightarrow> ChallengeRecord \<Rightarrow> ChallengeRecord" where
  "refresh_digest sha r = r\<lparr>cr_record_digest := sha (frames (challenge_parts r))\<rparr>"

definition require_phase :: "ChallengeRecord \<Rightarrow> ChallengePhase \<Rightarrow> (unit, ProfileError) result" where
  "require_phase r ph = (if cr_phase r \<noteq> ph then Err InvalidChallengePhase else Ok ())"

definition require_at_or_before :: "u64 \<Rightarrow> u64 \<Rightarrow> (unit, ProfileError) result" where
  "require_at_or_before height deadline = (if height > deadline then Err ChallengeDeadlineMissed else Ok ())"

definition challenge_open :: "(u8 list \<Rightarrow> hash32) \<Rightarrow> hash32 \<Rightarrow> hash32 \<Rightarrow> hash32 \<Rightarrow> u64 \<Rightarrow> u64 \<Rightarrow> u64 \<Rightarrow> u64 \<Rightarrow>
    u64 \<Rightarrow> u64 \<Rightarrow> (ChallengeRecord, ProfileError) result" where
  "challenge_open sha cid rid challenger opened window_end evidence response decision appeal =
     tryR (require_nonzero cid) (\<lambda>_.
     tryR (require_nonzero rid) (\<lambda>_.
     tryR (require_nonzero challenger) (\<lambda>_.
     if opened > window_end \<or> evidence < opened \<or> response < evidence \<or> decision < response \<or>
        appeal < decision
     then Err ChallengeDeadlineMissed
     else Ok (refresh_digest sha
       \<lparr>cr_challenge_id = cid, cr_result_id = rid, cr_challenger = challenger, cr_phase = Opened,
        cr_opened_height = opened, cr_evidence_deadline = evidence, cr_response_deadline = response,
        cr_decision_deadline = decision, cr_appeal_deadline = appeal, cr_appeal_used = False,
        cr_final_outcome = None, cr_record_digest = ones32, cr_economic_authority = False,
        cr_order_reorg = False\<rparr>))))"

definition submit_evidence :: "(u8 list \<Rightarrow> hash32) \<Rightarrow> ChallengeRecord \<Rightarrow> u64 \<Rightarrow> challenge_result" where
  "submit_evidence sha r height =
     tryS r (require_phase r Opened) (\<lambda>_.
     tryS r (require_at_or_before height (cr_evidence_deadline r)) (\<lambda>_.
     (refresh_digest sha (r\<lparr>cr_phase := EvidencePeriod\<rparr>), Ok ())))"

definition begin_response :: "(u8 list \<Rightarrow> hash32) \<Rightarrow> ChallengeRecord \<Rightarrow> u64 \<Rightarrow> challenge_result" where
  "begin_response sha r height =
     tryS r (require_phase r EvidencePeriod) (\<lambda>_.
     tryS r (require_at_or_before height (cr_response_deadline r)) (\<lambda>_.
     (refresh_digest sha (r\<lparr>cr_phase := ResponsePeriod\<rparr>), Ok ())))"

definition submit_response :: "(u8 list \<Rightarrow> hash32) \<Rightarrow> ChallengeRecord \<Rightarrow> u64 \<Rightarrow> challenge_result" where
  "submit_response sha r height =
     tryS r (require_phase r ResponsePeriod) (\<lambda>_.
     tryS r (require_at_or_before height (cr_response_deadline r)) (\<lambda>_.
     (refresh_digest sha (r\<lparr>cr_phase := DecisionPending\<rparr>), Ok ())))"

definition decide :: "(u8 list \<Rightarrow> hash32) \<Rightarrow> ChallengeRecord \<Rightarrow> u64 \<Rightarrow> ChallengeOutcome \<Rightarrow> challenge_result" where
  "decide sha r height outcome =
     (if cr_phase r \<notin> {DecisionPending, AppealPending} \<or> outcome \<notin> {Upheld, Rejected}
      then (r, Err InvalidChallengePhase)
      else tryS r (require_at_or_before height (cr_decision_deadline r)) (\<lambda>_.
        tryS r (case outcome of
                  Upheld \<Rightarrow> Ok PhaseUpheld
                | Rejected \<Rightarrow> Ok PhaseRejected
                | Withdrawn \<Rightarrow> Err InvalidChallengePhase
                | Expired \<Rightarrow> Err InvalidChallengePhase) (\<lambda>ph.
        (refresh_digest sha (r\<lparr>cr_phase := ph, cr_final_outcome := Some outcome\<rparr>), Ok ()))))"

definition appeal :: "(u8 list \<Rightarrow> hash32) \<Rightarrow> ChallengeRecord \<Rightarrow> u64 \<Rightarrow> u64 \<Rightarrow> challenge_result" where
  "appeal sha r height appeal_decision_deadline =
     (if cr_appeal_used r then (r, Err AppealAlreadyUsed)
      else if cr_phase r \<notin> {PhaseUpheld, PhaseRejected} then (r, Err InvalidChallengePhase)
      else tryS r (require_at_or_before height (cr_appeal_deadline r)) (\<lambda>_.
        if appeal_decision_deadline < height then (r, Err ChallengeDeadlineMissed)
        else (refresh_digest sha
                (r\<lparr>cr_appeal_used := True, cr_phase := AppealPending, cr_final_outcome := None,
                   cr_decision_deadline := appeal_decision_deadline,
                   cr_appeal_deadline := appeal_decision_deadline\<rparr>), Ok ())))"

definition finalize :: "(u8 list \<Rightarrow> hash32) \<Rightarrow> ChallengeRecord \<Rightarrow> u64 \<Rightarrow> challenge_result" where
  "finalize sha r height =
     (if cr_phase r \<notin> {PhaseUpheld, PhaseRejected} \<or> height \<le> cr_appeal_deadline r
      then (r, Err InvalidChallengePhase)
      else (refresh_digest sha (r\<lparr>cr_phase := Final\<rparr>), Ok ()))"

definition withdraw :: "(u8 list \<Rightarrow> hash32) \<Rightarrow> ChallengeRecord \<Rightarrow> challenge_result" where
  "withdraw sha r =
     (if cr_phase r \<in> {PhaseUpheld, PhaseRejected, Final, AppealPending}
      then (r, Err InvalidChallengePhase)
      else (refresh_digest sha (r\<lparr>cr_phase := Final, cr_final_outcome := Some Withdrawn\<rparr>), Ok ()))"

definition expire_deadline :: "ChallengeRecord \<Rightarrow> (u64, ProfileError) result" where
  "expire_deadline r =
     (case cr_phase r of
        Opened \<Rightarrow> Ok (cr_evidence_deadline r)
      | EvidencePeriod \<Rightarrow> Ok (cr_evidence_deadline r)
      | ResponsePeriod \<Rightarrow> Ok (cr_response_deadline r)
      | DecisionPending \<Rightarrow> Ok (cr_decision_deadline r)
      | AppealPending \<Rightarrow> Ok (cr_decision_deadline r)
      | PhaseUpheld \<Rightarrow> Err InvalidChallengePhase
      | PhaseRejected \<Rightarrow> Err InvalidChallengePhase
      | Final \<Rightarrow> Err InvalidChallengePhase)"

definition expire :: "(u8 list \<Rightarrow> hash32) \<Rightarrow> ChallengeRecord \<Rightarrow> u64 \<Rightarrow> challenge_result" where
  "expire sha r height =
     tryS r (expire_deadline r) (\<lambda>deadline.
     if height \<le> deadline then (r, Err ChallengeDeadlineMissed)
     else (refresh_digest sha (r\<lparr>cr_phase := Final, cr_final_outcome := Some Expired\<rparr>), Ok ()))"

datatype ChallengeCall =
    SubmitEvidence u64
  | BeginResponse u64
  | SubmitResponse u64
  | Decide u64 ChallengeOutcome
  | Appeal u64 u64
  | Finalize u64
  | Withdraw
  | Expire u64

fun challenge_exec :: "(u8 list \<Rightarrow> hash32) \<Rightarrow> ChallengeRecord \<Rightarrow> ChallengeCall \<Rightarrow> challenge_result" where
  "challenge_exec sha r (SubmitEvidence h) = submit_evidence sha r h"
| "challenge_exec sha r (BeginResponse h) = begin_response sha r h"
| "challenge_exec sha r (SubmitResponse h) = submit_response sha r h"
| "challenge_exec sha r (Decide h out) = decide sha r h out"
| "challenge_exec sha r (Appeal h d) = appeal sha r h d"
| "challenge_exec sha r (Finalize h) = finalize sha r h"
| "challenge_exec sha r Withdraw = withdraw sha r"
| "challenge_exec sha r (Expire h) = expire sha r h"

section \<open>The challenge book\<close>

type_synonym ChallengeBook = "(hash32, ChallengeRecord) btree"

definition book_open :: "(u8 list \<Rightarrow> hash32) \<Rightarrow> ChallengeBook \<Rightarrow> hash32 \<Rightarrow> hash32 \<Rightarrow> hash32 \<Rightarrow> u64 \<Rightarrow> u64 \<Rightarrow>
    u64 \<Rightarrow> u64 \<Rightarrow> u64 \<Rightarrow> u64 \<Rightarrow> ChallengeBook \<times> (ChallengeRecord, ProfileError) result" where
  "book_open sha b cid rid challenger opened window_end evidence response decision appeal_dl =
     (if bt_contains b rid then (b, Err DuplicateChallenge)
      else tryS b (challenge_open sha cid rid challenger opened window_end evidence response decision appeal_dl) (\<lambda>r.
        (let b' = bt_insert rid r b in (b', ok_or (bt_get b' rid) ChallengeNotFound))))"

definition book_get_mut :: "ChallengeBook \<Rightarrow> hash32 \<Rightarrow> (ChallengeRecord, ProfileError) result" where
  "book_get_mut b rid = ok_or (bt_get b rid) ChallengeNotFound"

datatype BookCall =
    OpenChallenge hash32 hash32 hash32 u64 u64 u64 u64 u64 u64
  | OnChallenge hash32 ChallengeCall

text \<open>A client opens a challenge, or takes the record of a result and calls one of its methods.\<close>

fun book_exec :: "(u8 list \<Rightarrow> hash32) \<Rightarrow> ChallengeBook \<Rightarrow> BookCall \<Rightarrow> ChallengeBook \<times> (unit, ProfileError) result" where
  "book_exec sha b (OpenChallenge cid rid challenger opened window_end evidence response decision appeal_dl) =
     (case book_open sha b cid rid challenger opened window_end evidence response decision appeal_dl of
        (b', r) \<Rightarrow> (b', tryR r (\<lambda>_. Ok ())))"
| "book_exec sha b (OnChallenge rid c) =
     tryS b (book_get_mut b rid) (\<lambda>r.
       (case challenge_exec sha r c of (r', res) \<Rightarrow> (bt_insert rid r' b, res)))"

section \<open>The registry is closed\<close>

lemma profile_nonzero [result_simps]: "require_nonzero h = Ok u \<longleftrightarrow> h \<noteq> 0"
  by (simp add: require_nonzero_def)

definition profile_valid :: "VerificationProfile \<Rightarrow> bool" where
  "profile_valid p \<longleftrightarrow> vp_profile_id p \<noteq> 0 \<and> vp_profile_hash p \<noteq> 0 \<and> vp_version p \<noteq> 0 \<and>
     (case vp_expires_at_height p of None \<Rightarrow> True | Some h \<Rightarrow> vp_valid_from_height p \<le> h) \<and>
     (case vp_revoked_at_height p of None \<Rightarrow> True | Some h \<Rightarrow> vp_valid_from_height p \<le> h) \<and>
     \<not> (vp_kind p = Subjective \<and> vp_objective_settlement_allowed p)"

lemma profile_validate_eq: "profile_validate p = Ok q \<longleftrightarrow> profile_valid p \<and> q = p"
  by (auto simp: profile_validate_def profile_valid_def is_some_and_def result_simps not_less
      split: option.splits)

definition identity :: "VerificationProfile \<Rightarrow> hash32 \<times> u32" where
  "identity p = (vp_profile_id p, vp_version p)"

lemma register_eq:
  "register (ks, m) p = Ok (ks', m') \<longleftrightarrow> profile_valid p \<and> vp_kind p \<notin> ks \<and> bt_get m (identity p) = None \<and>
     ks' = insert (vp_kind p) ks \<and> m' = bt_insert (identity p) p m"
  by (auto simp: register_def result_simps profile_validate_eq bt_contains_def identity_def)

lemma register_all:
  "try_fold register (ks, m) ps = Ok (ks', m') \<longleftrightarrow>
     list_all profile_valid ps \<and> distinct (map vp_kind ps) \<and> distinct (map identity ps) \<and>
     (\<forall>p \<in> set ps. vp_kind p \<notin> ks \<and> bt_get m (identity p) = None) \<and>
     ks' = ks \<union> vp_kind ` set ps \<and> m' = fold (\<lambda>p. bt_insert (identity p) p) ps m"
proof (induction ps arbitrary: ks m)
  case (Cons p ps)
  have get: "bt_get (bt_insert (identity p) p m) i = None \<longleftrightarrow> i \<noteq> identity p \<and> bt_get m i = None" for i
    by simp
  have "try_fold register (ks, m) (p # ps) = Ok (ks', m') \<longleftrightarrow>
      profile_valid p \<and> vp_kind p \<notin> ks \<and> bt_get m (identity p) = None \<and>
      try_fold register (insert (vp_kind p) ks, bt_insert (identity p) p m) ps = Ok (ks', m')"
    by (simp add: tryR_eq_Ok register_eq)
  also have "\<dots> \<longleftrightarrow> profile_valid p \<and> vp_kind p \<notin> ks \<and> bt_get m (identity p) = None \<and>
      list_all profile_valid ps \<and> distinct (map vp_kind ps) \<and> distinct (map identity ps) \<and>
      (\<forall>q \<in> set ps. vp_kind q \<noteq> vp_kind p \<and> vp_kind q \<notin> ks \<and> identity q \<noteq> identity p \<and>
         bt_get m (identity q) = None) \<and>
      ks' = insert (vp_kind p) ks \<union> vp_kind ` set ps \<and>
      m' = fold (\<lambda>p. bt_insert (identity p) p) ps (bt_insert (identity p) p m)"
    by (simp only: Cons.IH get insert_iff de_Morgan_disj conj_assoc)
  also have "\<dots> \<longleftrightarrow> list_all profile_valid (p # ps) \<and> distinct (map vp_kind (p # ps)) \<and>
      distinct (map identity (p # ps)) \<and>
      (\<forall>q \<in> set (p # ps). vp_kind q \<notin> ks \<and> bt_get m (identity q) = None) \<and>
      ks' = ks \<union> vp_kind ` set (p # ps) \<and> m' = fold (\<lambda>p. bt_insert (identity p) p) (p # ps) m"
    by (simp add: image_iff ball_conj_distrib) (safe; metis)
  finally show ?case .
qed auto

lemma fold_insert_get:
  "distinct (map identity ps) \<Longrightarrow>
     bt_get (fold (\<lambda>p. bt_insert (identity p) p) ps m) i =
       (case find (\<lambda>p. identity p = i) ps of Some p \<Rightarrow> Some p | None \<Rightarrow> bt_get m i)"
proof (induction ps arbitrary: m)
  case (Cons p ps)
  have "find (\<lambda>q. identity q = identity p) ps = None" if "identity p \<notin> identity ` set ps"
    using that by (simp add: find_None_iff image_iff) metis
  with Cons show ?case by (auto split: option.splits)
qed simp

lemma UNIV_kinds: "UNIV = set all_kinds"
  by (auto simp: all_kinds_def intro: VerificationProfileKind.exhaust)

lemma closed_eq:
  "closed ps = Ok reg \<longleftrightarrow>
     list_all profile_valid ps \<and> distinct (map vp_kind ps) \<and> distinct (map identity ps) \<and>
     vp_kind ` set ps = UNIV \<and> reg = fold (\<lambda>p. bt_insert (identity p) p) ps bt_empty"
  by (auto simp: closed_def result_simps register_all UNIV_kinds split: if_splits)

lemma closed_get:
  assumes "closed ps = Ok reg"
  shows "bt_get reg i = Some p \<longleftrightarrow> p \<in> set ps \<and> identity p = i"
proof -
  from assms have d: "distinct (map identity ps)" and r: "reg = fold (\<lambda>p. bt_insert (identity p) p) ps bt_empty"
    by (simp_all add: closed_eq)
  have "find (\<lambda>p. identity p = i) ps = Some p \<longleftrightarrow> p \<in> set ps \<and> identity p = i"
    using d by (induction ps) auto
  moreover have "find (\<lambda>p. identity p = i) ps = None \<Longrightarrow> p \<in> set ps \<Longrightarrow> identity p \<noteq> i"
    by (auto simp: find_None_iff)
  ultimately show ?thesis using d by (auto simp: r fold_insert_get split: option.splits)
qed

section \<open>The backend gate\<close>

lemma require_all_nonzero [result_simps]:
  "try_fold (\<lambda>_ h. require_nonzero h) u hs = Ok v \<longleftrightarrow> 0 \<notin> set hs"
  by (induction hs) (auto simp: result_simps)

definition profile_active :: "VerificationProfile \<Rightarrow> u64 \<Rightarrow> bool" where
  "profile_active p h \<longleftrightarrow> vp_enabled p \<and> vp_valid_from_height p \<le> h \<and>
     (case vp_expires_at_height p of None \<Rightarrow> True | Some e \<Rightarrow> h \<le> e) \<and>
     (case vp_revoked_at_height p of None \<Rightarrow> True | Some r \<Rightarrow> h < r)"

lemma resolve_exact_eq:
  "resolve_exact reg pid ver hash h = Ok p \<longleftrightarrow>
     bt_get reg (pid, ver) = Some p \<and> vp_profile_hash p = hash \<and> profile_active p h"
  by (auto simp: resolve_exact_def profile_active_def is_some_and_def result_simps not_less not_le
      split: option.splits)

definition statement_bound :: "(u8 list \<Rightarrow> hash32) \<Rightarrow> VerificationStatement \<Rightarrow> VerificationEvidence \<Rightarrow> bool" where
  "statement_bound sha s e \<longleftrightarrow>
     vs_statement_digest s = sha (frames (statement_parts s)) \<and>
     ve_task_id e = vs_task_id s \<and> ve_lease_id e = vs_lease_id s \<and>
     ve_execution_receipt_id e = vs_execution_receipt_id s \<and>
     ve_artifact_evidence_digest e = vs_artifact_evidence_digest s \<and>
     ve_availability_certificate_digest e = vs_availability_certificate_digest s"

lemma validate_digest_eq:
  "validate_digest sha s = Ok u \<longleftrightarrow> validate_shape s = Ok () \<and> vs_statement_digest s = recompute_digest sha s"
  by (auto simp: validate_digest_def result_simps)

lemma statement_parts_inject:
  assumes "frames (statement_parts s) = frames (statement_parts t)"
    and "vs_statement_digest s = vs_statement_digest t"
  shows "s = (t :: VerificationStatement)"
proof -
  have "\<forall>v \<in> set (statement_parts u). length v < 2 ^ 64" for u
    by (simp add: statement_parts_def STATEMENT_DOMAIN_def ascii_def)
  with assms(1) have "statement_parts s = statement_parts t"
    by (simp add: frames_inject)
  with assms(2) show ?thesis by (simp add: statement_parts_def)
qed

section \<open>The challenge lifecycle\<close>

definition challenge_inv :: "(u8 list \<Rightarrow> hash32) \<Rightarrow> ChallengeRecord \<Rightarrow> bool" where
  "challenge_inv sha r \<longleftrightarrow>
     (case cr_phase r of
        PhaseUpheld \<Rightarrow> cr_final_outcome r = Some Upheld
      | PhaseRejected \<Rightarrow> cr_final_outcome r = Some Rejected
      | Final \<Rightarrow> cr_final_outcome r \<noteq> None
      | AppealPending \<Rightarrow> cr_final_outcome r = None \<and> cr_appeal_used r
      | _ \<Rightarrow> cr_final_outcome r = None \<and> \<not> cr_appeal_used r) \<and>
     cr_record_digest r = sha (frames (challenge_parts r)) \<and>
     \<not> cr_economic_authority r \<and> \<not> cr_order_reorg r"

fun rank :: "ChallengeRecord \<Rightarrow> nat" where
  "rank r = (case cr_phase r of Opened \<Rightarrow> 0 | EvidencePeriod \<Rightarrow> 1 | ResponsePeriod \<Rightarrow> 2 | DecisionPending \<Rightarrow> 3
     | PhaseUpheld \<Rightarrow> if cr_appeal_used r then 6 else 4
     | PhaseRejected \<Rightarrow> if cr_appeal_used r then 6 else 4
     | AppealPending \<Rightarrow> 5 | Final \<Rightarrow> 7)"

declare rank.simps [simp del]

lemmas challenge_op_defs = submit_evidence_def begin_response_def submit_response_def decide_def appeal_def
  finalize_def withdraw_def expire_def expire_deadline_def

lemma challenge_check_simps [result_simps]:
  "require_phase r ph = Ok u \<longleftrightarrow> cr_phase r = ph"
  "require_at_or_before h d = Ok u \<longleftrightarrow> h \<le> d"
  by (auto simp: require_phase_def require_at_or_before_def not_less)

lemma challenge_parts_digest [simp]:
  "challenge_parts (r\<lparr>cr_record_digest := d\<rparr>) = challenge_parts r"
  by (simp add: challenge_parts_def)

lemma refresh_simps [simp]:
  "cr_phase (refresh_digest sha r) = cr_phase r" "cr_appeal_used (refresh_digest sha r) = cr_appeal_used r"
  "cr_final_outcome (refresh_digest sha r) = cr_final_outcome r"
  "cr_challenge_id (refresh_digest sha r) = cr_challenge_id r"
  "cr_result_id (refresh_digest sha r) = cr_result_id r"
  "cr_challenger (refresh_digest sha r) = cr_challenger r"
  "cr_economic_authority (refresh_digest sha r) = cr_economic_authority r"
  "cr_order_reorg (refresh_digest sha r) = cr_order_reorg r"
  "cr_record_digest (refresh_digest sha r) = sha (frames (challenge_parts (refresh_digest sha r)))"
  by (simp_all add: refresh_digest_def)

text \<open>The transitions of the phase diagram, with the deadlines that guard them.\<close>

inductive challenge_step :: "ChallengeRecord \<Rightarrow> ChallengeCall \<Rightarrow> ChallengeRecord \<Rightarrow> bool" where
  evidence: "cr_phase r = Opened \<Longrightarrow> h \<le> cr_evidence_deadline r \<Longrightarrow>
     challenge_step r (SubmitEvidence h) (r\<lparr>cr_phase := EvidencePeriod\<rparr>)"
| respond: "cr_phase r = EvidencePeriod \<Longrightarrow> h \<le> cr_response_deadline r \<Longrightarrow>
     challenge_step r (BeginResponse h) (r\<lparr>cr_phase := ResponsePeriod\<rparr>)"
| response: "cr_phase r = ResponsePeriod \<Longrightarrow> h \<le> cr_response_deadline r \<Longrightarrow>
     challenge_step r (SubmitResponse h) (r\<lparr>cr_phase := DecisionPending\<rparr>)"
| uphold: "cr_phase r = DecisionPending \<or> cr_phase r = AppealPending \<Longrightarrow> h \<le> cr_decision_deadline r \<Longrightarrow>
     challenge_step r (Decide h Upheld) (r\<lparr>cr_phase := PhaseUpheld, cr_final_outcome := Some Upheld\<rparr>)"
| reject: "cr_phase r = DecisionPending \<or> cr_phase r = AppealPending \<Longrightarrow> h \<le> cr_decision_deadline r \<Longrightarrow>
     challenge_step r (Decide h Rejected) (r\<lparr>cr_phase := PhaseRejected, cr_final_outcome := Some Rejected\<rparr>)"
| appealed: "\<not> cr_appeal_used r \<Longrightarrow> cr_phase r = PhaseUpheld \<or> cr_phase r = PhaseRejected \<Longrightarrow>
     h \<le> cr_appeal_deadline r \<Longrightarrow> h \<le> d \<Longrightarrow>
     challenge_step r (Appeal h d)
       (r\<lparr>cr_appeal_used := True, cr_phase := AppealPending, cr_final_outcome := None,
          cr_decision_deadline := d, cr_appeal_deadline := d\<rparr>)"
| finalized: "cr_phase r = PhaseUpheld \<or> cr_phase r = PhaseRejected \<Longrightarrow> cr_appeal_deadline r < h \<Longrightarrow>
     challenge_step r (Finalize h) (r\<lparr>cr_phase := Final\<rparr>)"
| withdrawn: "cr_phase r \<in> {Opened, EvidencePeriod, ResponsePeriod, DecisionPending} \<Longrightarrow>
     challenge_step r Withdraw (r\<lparr>cr_phase := Final, cr_final_outcome := Some Withdrawn\<rparr>)"
| expired: "expire_deadline r = Ok d \<Longrightarrow> d < h \<Longrightarrow>
     challenge_step r (Expire h) (r\<lparr>cr_phase := Final, cr_final_outcome := Some Expired\<rparr>)"

inductive_simps challenge_step_simps:
  "challenge_step r (SubmitEvidence h) r'" "challenge_step r (BeginResponse h) r'"
  "challenge_step r (SubmitResponse h) r'" "challenge_step r (Decide h out) r'" "challenge_step r (Appeal h d) r'"
  "challenge_step r (Finalize h) r'" "challenge_step r Withdraw r'" "challenge_step r (Expire h) r'"

lemma challenge_exec_step:
  "challenge_exec sha r c = (r', Ok u) \<longleftrightarrow> (\<exists>q. challenge_step r c q \<and> r' = refresh_digest sha q)"
proof (cases c)
  case (Decide h out)
  then show ?thesis
    by (cases out) (auto simp: decide_def challenge_step_simps result_simps)
next
  case Withdraw
  then show ?thesis by (cases "cr_phase r") (auto simp: withdraw_def challenge_step_simps)
qed (auto simp: submit_evidence_def begin_response_def submit_response_def appeal_def finalize_def expire_def
    challenge_step_simps result_simps not_le not_less split: if_splits)

lemma challenge_rejected: "challenge_exec sha r c = (r', Err e) \<Longrightarrow> r' = r"
  by (cases c) (auto simp: submit_evidence_def begin_response_def submit_response_def decide_def appeal_def
      finalize_def withdraw_def expire_def tryS_eq_Err split: if_splits)

lemma challenge_accepted:
  assumes inv: "challenge_inv sha r" and ok: "challenge_exec sha r c = (r', Ok u)"
  shows "challenge_inv sha r'" and "rank r < rank r'"
proof -
  from ok obtain q where st: "challenge_step r c q" and r': "r' = refresh_digest sha q"
    by (auto simp: challenge_exec_step)
  from st inv show "challenge_inv sha r'"
    unfolding r' by cases (auto simp: challenge_inv_def)
  from st inv show "rank r < rank r'"
    unfolding r' by cases (auto simp: challenge_inv_def rank.simps expire_deadline_def split: ChallengePhase.splits)
qed

interpretation challenge: invariant_machine "challenge_exec sha" "challenge_inv sha" for sha
  by unfold_locales (auto dest: challenge_rejected intro: challenge_accepted(1))

lemma challenge_open_inv:
  assumes "challenge_open sha cid rid who opened wend ev re de ap = Ok r"
  shows "challenge_inv sha r" "rank r = 0" "cr_phase r = Opened"
    "cr_challenge_id r = cid" "cr_result_id r = rid" "cr_challenger r = who" "\<not> cr_appeal_used r"
    "cr_final_outcome r = None"
  using assms by (auto simp: challenge_open_def result_simps challenge_inv_def rank.simps)

lemma rank_bound: "rank r \<le> 7"
  by (simp add: rank.simps split: ChallengePhase.splits)

lemma rank_final: "rank r = 7 \<longleftrightarrow> cr_phase r = Final"
  by (auto simp: rank.simps split: ChallengePhase.splits)

lemma challenge_bound:
  assumes "challenge_inv sha r"
  shows "rank r + length (accepted (challenge_exec sha) r cs) \<le> 7"
proof -
  have "rank r + length (accepted (challenge_exec sha) r cs) \<le> rank (run (challenge_exec sha) r cs)"
    by (rule challenge.run_ranked [OF assms]) (rule challenge_accepted(2))
  also note rank_bound
  finally show ?thesis .
qed

section \<open>Deadlines along a history\<close>

fun appeal_deadlines :: "ChallengeCall list \<Rightarrow> u64 list" where
  "appeal_deadlines [] = []"
| "appeal_deadlines (Appeal h d # cs) = d # appeal_deadlines cs"
| "appeal_deadlines (_ # cs) = appeal_deadlines cs"

lemma appeal_deadlines_append: "appeal_deadlines (cs @ ds) = appeal_deadlines cs @ appeal_deadlines ds"
  by (induction cs rule: appeal_deadlines.induct) simp_all

text \<open>Deadlines are those of the opening until the one appeal replaces the last two.\<close>

definition deadlines_ok :: "u64 \<Rightarrow> u64 \<Rightarrow> u64 \<Rightarrow> u64 \<Rightarrow> ChallengeRecord \<Rightarrow> ChallengeCall list \<Rightarrow> bool" where
  "deadlines_ok ev re de ap r cs \<longleftrightarrow>
     cr_evidence_deadline r = ev \<and> cr_response_deadline r = re \<and>
     (case appeal_deadlines cs of
        [] \<Rightarrow> \<not> cr_appeal_used r \<and> cr_decision_deadline r = de \<and> cr_appeal_deadline r = ap \<and> cr_phase r \<noteq> AppealPending
      | d # ds \<Rightarrow> ds = [] \<and> cr_appeal_used r \<and> cr_decision_deadline r = d \<and> cr_appeal_deadline r = d \<and>
          cr_phase r \<in> {AppealPending, PhaseUpheld, PhaseRejected, Final})"

lemma refresh_digest_deadlines [simp]:
  "cr_evidence_deadline (refresh_digest sha r) = cr_evidence_deadline r" "cr_response_deadline (refresh_digest sha r) = cr_response_deadline r"
  "cr_decision_deadline (refresh_digest sha r) = cr_decision_deadline r" "cr_appeal_deadline (refresh_digest sha r) = cr_appeal_deadline r"
  by (simp_all add: refresh_digest_def)

lemma deadlines_ok_open:
  assumes "challenge_open sha cid rid who opened wend ev re de ap = Ok r0"
  shows "deadlines_ok ev re de ap r0 []"
  using assms by (auto simp: challenge_open_def result_simps deadlines_ok_def)

lemma deadlines_ok_step:
  assumes ok: "deadlines_ok ev re de ap r cs" and step: "challenge_exec sha r c = (r', Ok u)"
  shows "deadlines_ok ev re de ap r' (cs @ [c])"
proof -
  from step obtain q where "challenge_step r c q" and r': "r' = refresh_digest sha q"
    by (auto simp: challenge_exec_step)
  then show ?thesis
    using ok unfolding r' by cases (auto simp: deadlines_ok_def appeal_deadlines_append split: list.splits)
qed

section \<open>The challenge book, challenge by challenge\<close>

text \<open>The calls of a history that concern one result.\<close>

fun calls_on :: "hash32 \<Rightarrow> BookCall list \<Rightarrow> ChallengeCall list" where
  "calls_on rid [] = []"
| "calls_on rid (OnChallenge rid' c # cs) = (if rid' = rid then c # calls_on rid cs else calls_on rid cs)"
| "calls_on rid (_ # cs) = calls_on rid cs"

lemma book_exec_on:
  assumes "bt_get b rid = Some r"
  shows "bt_get (fst (book_exec sha b c)) rid =
    Some (case c of OnChallenge rid' d \<Rightarrow> if rid' = rid then fst (challenge_exec sha r d) else r | _ \<Rightarrow> r)"
proof (cases c)
  case (OpenChallenge cid rid' who opened wend ev re de ap)
  with assms show ?thesis
    by (cases "challenge_open sha cid rid' who opened wend ev re de ap")
      (auto simp: book_open_def bt_contains_def tryS_def Let_def)
next
  case (OnChallenge rid' d)
  with assms show ?thesis
    by (cases "bt_get b rid'") (auto simp: book_get_mut_def ok_or_def tryS_def split: prod.splits)
qed

section \<open>A sample registry and statement\<close>

definition sample_profile :: "VerificationProfileKind \<Rightarrow> VerificationProfile" where
  "sample_profile k =
     \<lparr>vp_profile_id = ucast (kind_tag k) + 1, vp_version = 1, vp_profile_hash = 9, vp_kind = k, vp_enabled = True,
      vp_valid_from_height = 0, vp_expires_at_height = Some 100, vp_revoked_at_height = None,
      vp_objective_settlement_allowed = False\<rparr>"

definition sample_registry :: registry where
  "sample_registry = ok_of (closed (map sample_profile all_kinds))"

lemma sample_registry: "closed (map sample_profile all_kinds) = Ok sample_registry"
  unfolding sample_registry_def
  by (simp add: closed_def all_kinds_def sample_profile_def register_def profile_validate_def
      require_nonzero_def is_some_and_def tryR_def bt_contains_def insert_commute)

definition sample_statement :: "(u8 list \<Rightarrow> hash32) \<Rightarrow> VerificationStatement" where
  "sample_statement sha = ok_of (statement_new sha 1 2 3 3 1 9 4 5 10 20 10)"

definition sample_evidence :: VerificationEvidence where
  "sample_evidence = \<lparr>ve_task_id = 1, ve_lease_id = 2, ve_execution_receipt_id = 3,
     ve_artifact_evidence_digest = 4, ve_availability_certificate_digest = 5, ve_backend_payload_digest = 6\<rparr>"

lemma sample_get: "bt_get sample_registry (3, 1) = Some (sample_profile ZeroKnowledge)"
  by (simp add: closed_get [OF sample_registry] all_kinds_def identity_def sample_profile_def)

lemmas sample_eval = sample_statement_def sample_evidence_def statement_new_def validate_digest_def
  validate_shape_def recompute_digest_def require_nonzero_def tryR_def tryS_def resolve_exact_def ok_or_def
  sample_profile_def is_some_and_def validate_bound_to_def Let_def

definition sample_challenge :: ChallengeRecord where
  "sample_challenge = ok_of (challenge_open (\<lambda>_. 7) 1 2 3 10 20 30 40 50 60)"

lemma sample_challenge: "challenge_open (\<lambda>_. 7) 1 2 3 10 20 30 40 50 60 = Ok sample_challenge"
  by (simp add: sample_challenge_def challenge_open_def require_nonzero_def tryR_def)

lemmas challenge_eval = sample_challenge_def challenge_open_def refresh_digest_def challenge_op_defs
  require_nonzero_def tryR_def tryS_def require_phase_def require_at_or_before_def

section \<open>Properties\<close>

text \<open>
  The registry is closed. A registry that \<open>closed\<close> builds has, for every profile kind, exactly one
  registered profile of that kind; every entry is stored under its own identity, is one of
  the given profiles and passed validation (in particular a subjective profile never has
  objective settlement authority), and none of the given profiles is missing.
\<close>

lemma registry_closed:
  assumes "closed ps = Ok reg"
  shows "(\<forall>k. \<exists>!p. bt_get reg (identity p) = Some p \<and> vp_kind p = k) \<and>
    (\<forall>i p. bt_get reg i = Some p \<longleftrightarrow> p \<in> set ps \<and> identity p = i) \<and> list_all profile_valid ps"
proof -
  from assms have *: "list_all profile_valid ps" "distinct (map vp_kind ps)" "vp_kind ` set ps = UNIV"
    by (simp_all add: closed_eq)
  have "\<exists>!p. bt_get reg (identity p) = Some p \<and> vp_kind p = k" for k
  proof -
    from *(3) obtain p where "p \<in> set ps" "vp_kind p = k" by (metis UNIV_I image_iff)
    with *(2) show ?thesis by (auto simp: closed_get [OF assms] distinct_map inj_on_def)
  qed
  with * closed_get [OF assms] show ?thesis by blast
qed

text \<open>
  C7. The backend gate. A call of \<open>verify_statement\<close> either is rejected with the backend untouched, or
  the statement's digest is its own, the evidence names the same task, lease, receipt, artifact
  and certificate, the height lies in the evidence window, the registry holds the exact profile
  version with the stated hash and that profile is enabled and valid at this height; only then
  is the backend consulted, its answer is the status of the decision, and the decision carries
  neither economic nor reorganisation authority.
\<close>

theorem verify_statement_gate:
  assumes "verify_statement sha backend reg s e h b = (b', r)"
  shows "(b' = b \<and> (\<exists>err. r = Err err)) \<or>
    (\<exists>p answer d. statement_bound sha s e \<and>
       bt_get reg (vs_profile_id s, vs_profile_version s) = Some p \<and>
       vp_profile_hash p = vs_profile_hash s \<and> profile_active p h \<and>
       vs_evidence_window_start s \<le> h \<and> h \<le> vs_evidence_window_end s \<and>
       backend b p s e = (b', answer) \<and> r = Ok d \<and> vd_status d = decision_status answer \<and>
       vd_profile_kind d = vp_kind p \<and> vd_statement_digest d = vs_statement_digest s \<and>
       \<not> vd_economic_authority d \<and> \<not> vd_order_reorg_authority d)"
proof (cases r)
  case (Err err)
  with assms show ?thesis
    by (auto simp: verify_statement_def tryS_eq_Err Let_def split_beta split: if_splits)
next
  case (Ok d)
  with assms show ?thesis
    by (auto simp: verify_statement_def result_simps validate_digest_eq resolve_exact_eq validate_bound_to_def
        statement_bound_def recompute_digest_def not_less Let_def split_beta) (metis prod.collapse)
qed

theorem verify_statement_gate_witness:
  "\<exists>p d. verify_statement (\<lambda>_. 7) (\<lambda>n p s e. (Suc n, BackendVerified)) sample_registry
       (sample_statement (\<lambda>_. 7)) sample_evidence 15 0 = (1, Ok d) \<and>
     bt_get sample_registry (3, 1) = Some p \<and> profile_active p 15 \<and>
     statement_bound (\<lambda>_. 7) (sample_statement (\<lambda>_. 7)) sample_evidence"
proof -
  let ?v = "verify_statement (\<lambda>_. 7) (\<lambda>n p s e. (Suc n, BackendVerified)) sample_registry
       (sample_statement (\<lambda>_. 7)) sample_evidence 15 0"
  have "fst ?v = 1"
    by (simp add: verify_statement_def sample_eval sample_get)
  then have "?v = (1, snd ?v)" by (metis prod.collapse)
  from verify_statement_gate [OF this] this show ?thesis
    by (auto simp: sample_eval) 
qed

text \<open>
  C20. The statement digest binds. Two different statements that both validate under one digest exhibit
  a collision of the hash function: the framed encoding itself never confuses two statements.
\<close>

theorem statement_digest_binds:
  assumes "validate_digest sha s = Ok ()" and "validate_digest sha t = Ok ()"
    and "vs_statement_digest s = vs_statement_digest t" and "s \<noteq> t"
  shows "frames (statement_parts s) \<noteq> frames (statement_parts t) \<and>
    sha (frames (statement_parts s)) = sha (frames (statement_parts t))"
  using assms statement_parts_inject [of s t] by (auto simp: validate_digest_eq recompute_digest_def)

theorem statement_digest_binds_witness:
  "\<exists>s t. frames (statement_parts s) \<noteq> frames (statement_parts t)"
proof -
  let ?s = "sample_statement (\<lambda>_. 7)"
  let ?t = "?s\<lparr>vs_task_id := 8\<rparr>"
  have "validate_digest (\<lambda>_. 7) ?s = Ok ()" "validate_digest (\<lambda>_. 7) ?t = Ok ()"
    "vs_statement_digest ?s = vs_statement_digest ?t" "?s \<noteq> ?t"
    by (simp_all add: sample_eval)
  from statement_digest_binds [OF this] show ?thesis by blast
qed

text \<open>
  C28. A challenge terminates. Whatever calls are made on a freshly opened challenge, at most seven
  of them are accepted.
\<close>

theorem challenge_terminates:
  assumes "challenge_open sha cid rid who opened wend ev re de ap = Ok r"
  shows "length (accepted (challenge_exec sha) r cs) \<le> 7"
  using challenge_bound [OF challenge_open_inv(1) [OF assms], of cs] by simp

theorem challenge_terminates_witness:
  "length (accepted (challenge_exec (\<lambda>_. 7)) sample_challenge
     [SubmitEvidence 20, BeginResponse 35, SubmitResponse 40, Decide 50 Upheld, Appeal 60 80, Decide 80 Rejected,
      Finalize 81, Withdraw, Expire 90]) = 7"
proof -
  let ?cs = "[SubmitEvidence 20, BeginResponse 35, SubmitResponse 40, Decide 50 Upheld, Appeal 60 80, Decide 80 Rejected,
      Finalize 81, Withdraw, Expire 90]"
  have "7 \<le> length (accepted (challenge_exec (\<lambda>_. 7)) sample_challenge ?cs)"
    by (simp add: challenge_eval)
  with challenge_terminates [OF sample_challenge, of ?cs] show ?thesis by (rule antisym)
qed

text \<open>
  Finality. Once a challenge is final it has an outcome and no later call changes the record.
\<close>

lemma challenge_final:
  assumes "challenge_open sha cid rid who opened wend ev re de ap = Ok r"
    and "cr_phase (run (challenge_exec sha) r cs) = Final"
  shows "cr_final_outcome (run (challenge_exec sha) r cs) \<noteq> None \<and>
    run (challenge_exec sha) r (cs @ ds) = run (challenge_exec sha) r cs"
proof -
  let ?r = "run (challenge_exec sha) r cs"
  have inv: "challenge_inv sha ?r"
    using challenge.run_keeps_inv challenge_open_inv(1) [OF assms(1)] by blast
  have "rank ?r + length (accepted (challenge_exec sha) ?r ds) \<le> 7"
    using inv by (rule challenge_bound)
  with assms(2) have "accepted (challenge_exec sha) ?r ds = []"
    using rank_final [of ?r] by auto
  with challenge.run_accepted [of sha ?r ds] have "run (challenge_exec sha) ?r ds = ?r" by simp
  with inv assms(2) show ?thesis by (simp add: challenge_inv_def run_append)
qed

text \<open>
  C34. When time ends a challenge. Whatever calls have been made on an opened challenge, as long as it is not final, \<open>expire\<close> or \<open>finalize\<close> at a
  height is accepted and makes it final exactly when the height is past the deadline of its phase: the evidence deadline it was
  opened with before a response begins, then the response deadline, then the decision deadline, and after a decision the
  appeal deadline, or the deadline set by the accepted appeal. So only a deadline of \<open>u64::MAX\<close> keeps a challenge from
  ending by time.
\<close>

theorem challenge_live:
  assumes "challenge_open sha cid rid who opened wend ev re de ap = Ok r0"
    and "r = run (challenge_exec sha) r0 cs" and "cr_phase r \<noteq> Final"
  shows "(\<exists>c \<in> {Expire h, Finalize h}. snd (challenge_exec sha r c) = Ok () \<and> cr_phase (fst (challenge_exec sha r c)) = Final) \<longleftrightarrow>
    (case cr_phase r of
       Opened \<Rightarrow> ev | EvidencePeriod \<Rightarrow> ev | ResponsePeriod \<Rightarrow> re | DecisionPending \<Rightarrow> de
     | _ \<Rightarrow> last (ap # appeal_deadlines (accepted (challenge_exec sha) r0 cs))) < h"
proof -
  have "deadlines_ok ev re de ap (run (challenge_exec sha) r0 cs) (accepted (challenge_exec sha) r0 cs)"
    by (rule challenge.run_history) (auto intro: deadlines_ok_open [OF assms(1)] deadlines_ok_step)
  moreover have "(\<exists>c \<in> {Expire h, Finalize h}. snd (challenge_exec sha r c) = Ok () \<and> cr_phase (fst (challenge_exec sha r c)) = Final) \<longleftrightarrow>
      (case cr_phase r of
         Opened \<Rightarrow> cr_evidence_deadline r | EvidencePeriod \<Rightarrow> cr_evidence_deadline r | ResponsePeriod \<Rightarrow> cr_response_deadline r
       | DecisionPending \<Rightarrow> cr_decision_deadline r | AppealPending \<Rightarrow> cr_decision_deadline r
       | _ \<Rightarrow> cr_appeal_deadline r) < h"
    using assms(3)
    by (cases "cr_phase r") (auto simp: expire_def expire_deadline_def finalize_def not_le)
  ultimately show ?thesis
    using assms(3) unfolding assms(2) by (auto simp: deadlines_ok_def split: ChallengePhase.splits list.splits)
qed

theorem challenge_live_witness:
  "\<exists>c \<in> {Expire 31, Finalize 31}. snd (challenge_exec (\<lambda>_. 7) sample_challenge c) = Ok () \<and>
    cr_phase (fst (challenge_exec (\<lambda>_. 7) sample_challenge c)) = Final"
proof -
  have "cr_phase sample_challenge = Opened" by (simp add: challenge_eval)
  with challenge_live [OF sample_challenge, of sample_challenge "[]" 31] show ?thesis by simp
qed

text \<open>
  C36. A result has one challenge. Once the book holds a challenge for a result, whatever happens to
  the book, that record evolves exactly by the calls made on it and no second challenge of the
  result can be opened.
\<close>

theorem book_one_challenge:
  assumes "bt_get b rid = Some r"
  shows "bt_get (run (book_exec sha) b cs) rid = Some (run (challenge_exec sha) r (calls_on rid cs)) \<and>
    snd (book_open sha (run (book_exec sha) b cs) cid rid who opened wend ev re de ap) = Err DuplicateChallenge"
proof -
  have *: "bt_get (run (book_exec sha) b cs) rid = Some (run (challenge_exec sha) r (calls_on rid cs))"
    using assms
  proof (induction cs arbitrary: b r)
    case (Cons c cs)
    from Cons.IH [OF book_exec_on [OF Cons.prems, of sha c]] show ?case
      by (cases c) (simp_all del: book_exec.simps)
  qed simp
  then show ?thesis by (simp add: book_open_def bt_contains_def)
qed

theorem book_one_challenge_witness:
  "snd (book_open (\<lambda>_. 7) (run (book_exec (\<lambda>_. 7)) (bt_insert 2 sample_challenge bt_empty) [OnChallenge 2 Withdraw])
     9 2 9 10 20 30 40 50 60) = Err DuplicateChallenge"
proof -
  have "bt_get (bt_insert 2 sample_challenge bt_empty) 2 = Some sample_challenge" by simp
  from book_one_challenge [OF this] show ?thesis by blast
qed

end
