(* ===== verification/Pon_Work.thy ===== *)
theory Pon_Work
  imports Byte_Encoding
begin

text \<open>
  The module \<open>pon_work\<close> of \<open>trnm-crypto-primitives\<close>: a matrix product over the field of the prime
  \<open>Q\<close>, computed block by block on noise-encoded matrices with every intermediate value bound into a
  transcript digest, and the check of such a proof. Values are \<open>u32\<close> words and sums \<open>u128\<close> words; the
  lemmas show that no sum overflows. SHA-256 is the parameter \<open>sha\<close>.
\<close>

section \<open>Definitions\<close>

definition N :: nat where "N = 64"

definition R :: nat where "R = 8"

definition Q :: u128 where "Q = 4294967291"

definition CELLS :: nat where "CELLS = N * N"

definition PROOF_BYTES :: nat where "PROOF_BYTES = 4 + 3 * CELLS * 4 + 32"

datatype WorkError =
  WorkLength | WorkVersion | WorkField | WorkTask | WorkTranscript | WorkProduct | WorkTarget | NoiseBudget

record VerifiedWork =
  vw_challenge :: hash32
  vw_task :: hash32
  vw_ticket :: hash32
  vw_product :: "u32 list"

definition pon_hash :: "(u8 list \<Rightarrow> hash32) \<Rightarrow> u8 list \<Rightarrow> u8 list list \<Rightarrow> hash32" where
  "pon_hash sha tag parts =
     sha (ascii ''TRNM-PON1'' @ [0] @ le_bytes 2 (word_of_nat (length tag) :: u16) @ tag @
          concat (map (\<lambda>p. le_bytes 4 (word_of_nat (length p) :: u32) @ p) parts))"

definition field_bytes :: "u32 list \<Rightarrow> u8 list" where
  "field_bytes vs = concat (map (le_bytes 4) vs)"

definition validate :: "u32 list \<Rightarrow> (unit, WorkError) result" where
  "validate vs =
     (if length vs \<noteq> CELLS then Err WorkLength
      else if list_ex (\<lambda>v. ucast v \<ge> Q) vs then Err WorkField
      else Ok ())"

definition task_id :: "(u8 list \<Rightarrow> hash32) \<Rightarrow> u32 list \<Rightarrow> u32 list \<Rightarrow> (hash32, WorkError) result" where
  "task_id sha a b =
     tryR (validate a) (\<lambda>_. tryR (validate b) (\<lambda>_.
     Ok (pon_hash sha (ascii ''task'') [field_bytes a, field_bytes b])))"

text \<open>\<open>chunks_exact(4)\<close> with \<open>u32::from_le_bytes\<close>.\<close>

definition from_le4 :: "u8 \<Rightarrow> u8 \<Rightarrow> u8 \<Rightarrow> u8 \<Rightarrow> u32" where
  "from_le4 a b c d = ucast a + 2 ^ 8 * ucast b + 2 ^ 16 * ucast c + 2 ^ 24 * ucast d"

fun words_le :: "u8 list \<Rightarrow> u32 list" where
  "words_le (a # b # c # d # rest) = from_le4 a b c d # words_le rest"
| "words_le _ = []"

text \<open>The inner loop of \<open>expand\<close>: push the field elements of one digest until \<open>len\<close> is reached.\<close>

fun push_noise :: "nat \<Rightarrow> u32 list \<Rightarrow> u32 list \<Rightarrow> u32 list" where
  "push_noise len out [] = out"
| "push_noise len out (v # vs) =
     (if ucast v < Q then
        (let out' = out @ [v] in if length out' = len then out' else push_noise len out' vs)
      else push_noise len out vs)"

function expand_loop :: "(u8 list \<Rightarrow> hash32) \<Rightarrow> hash32 \<Rightarrow> u8 \<Rightarrow> nat \<Rightarrow> nat \<Rightarrow> u32 list \<Rightarrow> (u32 list, WorkError) result" where
  "expand_loop sha challenge label len counter out =
     (if length out < len then
        (if counter \<ge> 128 then Err NoiseBudget
         else expand_loop sha challenge label len (counter + 1)
           (push_noise len out (words_le (hash_bytes (pon_hash sha (ascii ''noise'')
              [hash_bytes challenge, [label], le_bytes 4 (word_of_nat counter :: u32)])))))
      else Ok out)"
  by pat_completeness auto
termination by (relation "measure (\<lambda>(sha, challenge, label, len, counter, out). 128 - counter)") auto

declare expand_loop.simps [simp del]

definition expand :: "(u8 list \<Rightarrow> hash32) \<Rightarrow> hash32 \<Rightarrow> u8 \<Rightarrow> nat \<Rightarrow> (u32 list, WorkError) result" where
  "expand sha challenge label len = expand_loop sha challenge label len 0 []"

text \<open>\<open>for k in ks { sum += u128::from(f k) * u128::from(g k) }\<close>, and \<open>(sum % Q) as u32\<close>.\<close>

definition acc_sum :: "u128 \<Rightarrow> nat list \<Rightarrow> (nat \<Rightarrow> u32) \<Rightarrow> (nat \<Rightarrow> u32) \<Rightarrow> u128" where
  "acc_sum s ks f g = fold (\<lambda>k s. s + ucast (f k) * ucast (g k)) ks s"

definition red :: "u128 \<Rightarrow> u32" where
  "red s = ucast (s mod Q)"

definition mul :: "u32 list \<Rightarrow> u32 list \<Rightarrow> nat \<Rightarrow> nat \<Rightarrow> nat \<Rightarrow> u32 list" where
  "mul a b rows inner cols =
     map (\<lambda>c. red (acc_sum 0 [0..<inner] (\<lambda>k. a ! (c div cols * inner + k)) (\<lambda>k. b ! (k * cols + c mod cols))))
       [0..<rows * cols]"

text \<open>The order of the five nested loops over blocks and cells, as (bk, i, j).\<close>

definition schedule :: "(nat \<times> nat \<times> nat) list" where
  "schedule =
     concat (map (\<lambda>bi. concat (map (\<lambda>bj. concat (map (\<lambda>bk.
       concat (map (\<lambda>i. map (\<lambda>j. (bk, i, j)) [bj * R..<(bj + 1) * R]) [bi * R..<(bi + 1) * R]))
       [0..<N div R])) [0..<N div R])) [0..<N div R])"

definition cell_step :: "u32 list \<Rightarrow> u32 list \<Rightarrow> u32 list \<times> u8 list \<Rightarrow> nat \<times> nat \<times> nat \<Rightarrow> u32 list \<times> u8 list" where
  "cell_step ap bp st s =
     (case (st, s) of ((cp, transcript), (bk, i, j)) \<Rightarrow>
       (let v = red (acc_sum (ucast (cp ! (i * N + j))) [bk * R..<(bk + 1) * R]
                  (\<lambda>k. ap ! (i * N + k)) (\<lambda>k. bp ! (k * N + j)))
        in (cp[i * N + j := v], transcript @ le_bytes 4 v)))"

definition add_mod :: "u32 list \<Rightarrow> u32 list \<Rightarrow> u32 list" where
  "add_mod xs ys = map (\<lambda>(x, y). red (ucast x + ucast y)) (zip xs ys)"

definition evaluate :: "(u8 list \<Rightarrow> hash32) \<Rightarrow> hash32 \<Rightarrow> u32 list \<Rightarrow> u32 list \<Rightarrow> (u32 list \<times> hash32, WorkError) result" where
  "evaluate sha challenge a b =
     tryR (validate a) (\<lambda>_.
     tryR (validate b) (\<lambda>_.
     tryR (expand sha challenge 0 (N * R)) (\<lambda>el.
     tryR (expand sha challenge 1 (R * N)) (\<lambda>er.
     tryR (expand sha challenge 2 (N * R)) (\<lambda>fl.
     tryR (expand sha challenge 3 (R * N)) (\<lambda>fr.
       let e = mul el er N R N;
           f = mul fl fr N R N;
           ap = add_mod a e;
           bp = add_mod b f;
           (cp, transcript) = foldl (cell_step ap bp)
             (replicate CELLS 0, ascii ''TRNM-PON-TRACE1'' @ [0] @ hash_bytes challenge) schedule;
           correction1 = mul (mul a fl N N R) fr N R N;
           correction2 = mul el (mul er bp R N N) N R N;
           product = map (\<lambda>((x, y), z). red (ucast x + 2 * Q - ucast y - ucast z))
             (zip (zip cp correction1) correction2)
       in Ok (product, sha transcript)))))))"

definition PNW1 :: "u8 list" where "PNW1 = ascii ''PNW1''"

definition prove :: "(u8 list \<Rightarrow> hash32) \<Rightarrow> hash32 \<Rightarrow> u32 list \<Rightarrow> u32 list \<Rightarrow> (u8 list, WorkError) result" where
  "prove sha challenge a b =
     tryR (evaluate sha challenge a b) (\<lambda>(product, trace).
     Ok (PNW1 @ concat (map field_bytes [a, b, product]) @ hash_bytes trace))"

definition verify :: "(u8 list \<Rightarrow> hash32) \<Rightarrow> hash32 \<Rightarrow> hash32 \<Rightarrow> hash32 \<Rightarrow> u8 list \<Rightarrow> (VerifiedWork, WorkError) result" where
  "verify sha challenge expected_task target bytes =
     (if length bytes \<noteq> PROOF_BYTES then Err WorkLength
      else if take 4 bytes \<noteq> PNW1 then Err WorkVersion
      else if target = 0 then Err WorkTarget
      else
        let matrices = words_le (take (3 * CELLS * 4) (drop 4 bytes));
            a = take CELLS matrices;
            tail = drop CELLS matrices;
            b = take CELLS tail;
            claimed = drop CELLS tail
        in tryR (validate claimed) (\<lambda>_.
           tryR (task_id sha a b) (\<lambda>actual_task.
           if actual_task \<noteq> expected_task then Err WorkTask
           else
             let trace_claim = drop (4 + 3 * CELLS * 4) bytes;
                 ticket = pon_hash sha (ascii ''ticket'') [hash_bytes challenge, trace_claim]
             in if ticket > target then Err WorkTarget
                else tryR (evaluate sha challenge a b) (\<lambda>(product, trace).
                  if hash_bytes trace \<noteq> trace_claim then Err WorkTranscript
                  else if product \<noteq> claimed then Err WorkProduct
                  else Ok \<lparr>vw_challenge = challenge, vw_task = actual_task, vw_ticket = ticket,
                           vw_product = product\<rparr>))))"

section \<open>Field arithmetic without overflow\<close>

definition q :: nat where "q = 4294967291"

lemma q_facts: "unat Q = q" "0 < q" "q < 2 ^ 32"
  by (simp_all add: Q_def q_def)

lemma unat_red: "unat (red s) = unat s mod q"
proof -
  have "unat (s mod Q) = unat s mod q" by (simp add: unat_mod q_facts)
  moreover have "unat s mod q < 2 ^ 32" using q_facts by (meson mod_less_divisor order_less_trans)
  ultimately show ?thesis
    by (simp add: red_def unsigned_ucast_eq take_bit_nat_eq_self)
qed

lemma unat_up: "unat (ucast (v :: u32) :: u128) = unat v"
  using unat_bound [of v] by (simp add: unsigned_ucast_eq take_bit_nat_eq_self)

lemma unat_acc_sum:
  "unat s + length ks * 2 ^ 64 < 2 ^ 128 \<Longrightarrow>
     unat (acc_sum s ks f g) = unat s + (\<Sum>k\<leftarrow>ks. unat (f k) * unat (g k))"
proof (induction ks arbitrary: s)
  case (Cons k ks)
  have "unat (f k) * unat (g k) \<le> 2 ^ 32 * 2 ^ 32"
    using unat_bound [of "f k"] unat_bound [of "g k"] by (intro mult_mono) auto
  then have p: "unat (f k) * unat (g k) \<le> 2 ^ 64" by simp
  with Cons.prems have "unat (ucast (f k) * ucast (g k) :: u128) = unat (f k) * unat (g k)"
    by (simp add: unat_word_ariths unat_up)
  with p Cons.prems have s: "unat (s + ucast (f k) * ucast (g k)) = unat s + unat (f k) * unat (g k)"
    by (simp add: unat_word_ariths)
  with p Cons.prems Cons.IH [of "s + ucast (f k) * ucast (g k)"] show ?case
    by (simp add: acc_sum_def)
qed (simp add: acc_sum_def)

section \<open>Matrix products modulo q\<close>

text \<open>Congruence modulo q, over the integers.\<close>

definition eqm :: "int \<Rightarrow> int \<Rightarrow> bool" where
  "eqm x y \<longleftrightarrow> x mod int q = y mod int q"

lemma eqm_refl [simp]: "eqm x x"
  by (simp add: eqm_def)

lemma eqm_trans [trans]: "eqm x y \<Longrightarrow> eqm y z \<Longrightarrow> eqm x z"
  by (simp add: eqm_def)

lemma eqm_sym: "eqm x y \<Longrightarrow> eqm y x"
  by (simp add: eqm_def)

lemma eqm_arith:
  "eqm x x' \<Longrightarrow> eqm y y' \<Longrightarrow> eqm (x + y) (x' + y')"
  "eqm x x' \<Longrightarrow> eqm y y' \<Longrightarrow> eqm (x - y) (x' - y')"
  "eqm x x' \<Longrightarrow> eqm y y' \<Longrightarrow> eqm (x * y) (x' * y')"
  unfolding eqm_def by (auto intro: mod_add_cong mod_diff_cong mod_mult_cong)

lemma eqm_sum: "(\<And>k. k < (n :: nat) \<Longrightarrow> eqm (f k) (g k)) \<Longrightarrow> eqm (\<Sum>k<n. f k) (\<Sum>k<n. g k)"
  by (induction n) (auto intro: eqm_arith)

lemma eqm_of_mod: "unat v = n mod q \<Longrightarrow> eqm (int (unat v)) (int n)"
  by (simp add: eqm_def zmod_int)

text \<open>A matrix stored row by row, and the product of two of them.\<close>

definition ent :: "u32 list \<Rightarrow> nat \<Rightarrow> nat \<Rightarrow> nat \<Rightarrow> int" where
  "ent m w i j = int (unat (m ! (i * w + j)))"

definition mm :: "nat \<Rightarrow> (nat \<Rightarrow> nat \<Rightarrow> int) \<Rightarrow> (nat \<Rightarrow> nat \<Rightarrow> int) \<Rightarrow> nat \<Rightarrow> nat \<Rightarrow> int" where
  "mm n f g i j = (\<Sum>k<n. f i k * g k j)"

lemma mm_cong:
  "(\<And>k. k < n \<Longrightarrow> eqm (f i k) (f' i k)) \<Longrightarrow> (\<And>k. k < n \<Longrightarrow> eqm (g k j) (g' k j)) \<Longrightarrow>
     eqm (mm n f g i j) (mm n f' g' i j)"
  unfolding mm_def by (intro eqm_sum eqm_arith) auto

lemma mm_assoc: "mm n (mm m f g) h i j = mm m f (mm n g h) i j"
  unfolding mm_def by (simp add: sum_distrib_left sum_distrib_right mult.assoc) (rule sum.swap)

lemma mm_add_left: "mm n (\<lambda>i k. f i k + f' i k) g i j = mm n f g i j + mm n f' g i j"
  by (simp add: mm_def algebra_simps sum.distrib)

lemma mm_add_right: "mm n f (\<lambda>k j. g k j + g' k j) i j = mm n f g i j + mm n f g' i j"
  by (simp add: mm_def algebra_simps sum.distrib)

lemma sum_list_upt: "(\<Sum>k\<leftarrow>[0..<n]. f k) = (\<Sum>k<n. f k :: nat)"
  by (simp add: interv_sum_list_conv_sum_set_nat lessThan_atLeast0)

lemma cell_lt: "i < (m :: nat) \<Longrightarrow> j < w \<Longrightarrow> i * w + j < m * w"
  using mult_le_mono1 [of "Suc i" m w] by simp

lemma length_mul [simp]: "length (mul a b rows inner cols) = rows * cols"
  by (simp add: mul_def)

lemma mul_ent:
  assumes "inner \<le> 64" "i < rows" "j < cols"
  shows "eqm (ent (mul a b rows inner cols) cols i j) (mm inner (ent a inner) (ent b cols) i j)"
proof -
  have "inner * 2 ^ 64 \<le> 64 * 2 ^ (64 :: nat)" using assms by simp
  also have "\<dots> < 2 ^ 128" by simp
  finally have "unat (mul a b rows inner cols ! (i * cols + j)) =
      (\<Sum>k<inner. unat (a ! (i * inner + k)) * unat (b ! (k * cols + j))) mod q"
    using assms by (simp add: mul_def cell_lt unat_red unat_acc_sum sum_list_upt)
  from eqm_of_mod [OF this] show ?thesis by (simp add: ent_def mm_def)
qed

section \<open>The block schedule\<close>

lemma N_facts: "N div R * R = N" "0 < R" "R \<le> N" "N \<le> 64" "R \<le> 64"
  by (simp_all add: N_def R_def)

lemma fst_cells:
  "fst (foldl (cell_step ap bp) st ss) =
     foldl (\<lambda>cp (bk, i, j). cp[i * N + j := red (acc_sum (ucast (cp ! (i * N + j))) [bk * R..<(bk + 1) * R]
        (\<lambda>k. ap ! (i * N + k)) (\<lambda>k. bp ! (k * N + j)))]) (fst st) ss"
  by (induction ss arbitrary: st) (auto simp: cell_step_def Let_def split: prod.splits)

lemma cell_inject: "j < N \<Longrightarrow> j' < N \<Longrightarrow> i * N + j = i' * N + j' \<longleftrightarrow> i = i' \<and> j = j'"
  by (metis add.commute div_mult_self3 mod_mult_self3 div_less mod_less add.right_neutral less_nat_zero_code neq0_conv)

text \<open>A cell only depends on the steps that address it.\<close>

lemma foldl_cell:
  assumes "length cp = CELLS" "i < N" "j < N" "\<forall>(bk, i', j') \<in> set ss. i' < N \<and> j' < N"
  shows "foldl (\<lambda>cp (bk, i, j). cp[i * N + j := f bk i j (cp ! (i * N + j))]) cp ss ! (i * N + j) =
    foldl (\<lambda>v (bk, i', j'). f bk i j v) (cp ! (i * N + j)) (filter (\<lambda>(bk, i', j'). i' = i \<and> j' = j) ss)"
  using assms
proof (induction ss arbitrary: cp)
  case (Cons s ss)
  obtain bk i' j' where s: "s = (bk, i', j')" by (cases s) auto
  have "i * N + j < CELLS" using assms by (simp add: CELLS_def cell_lt)
  with Cons s show ?case by (auto simp: cell_inject)
qed simp

lemma concat_pick:
  "concat (map (\<lambda>x. if x = a then f x else []) [m..<n]) = (if m \<le> a \<and> a < n then f (a :: nat) else [])"
  by (induction n) auto

lemma filter_block:
  "filter (\<lambda>(bk, i', j'). i' = i \<and> j' = j)
     (concat (map (\<lambda>i. map (\<lambda>j. (bk, i, j)) [c..<d]) [a..<b])) =
   (if a \<le> i \<and> i < b \<and> c \<le> j \<and> j < d then [(bk, i, j)] else [])"
proof -
  have inner: "filter (\<lambda>(bk, i', j'). i' = i \<and> j' = j) (map (\<lambda>j. (bk, i', j)) [c..<d]) =
      (if i' = i then (if c \<le> j \<and> j < d then [(bk, i, j)] else []) else [])" for i'
    using concat_pick [of j "\<lambda>j. [(bk, i, j)]" c d]
    by (induction d) auto
  show ?thesis
    by (simp add: filter_concat comp_def inner concat_pick)
qed

lemma block_of: "b * R \<le> i \<and> i < (b + 1) * R \<longleftrightarrow> b = i div R"
  using N_facts(2) by (metis Suc_eq_plus1 div_less_iff_less_mult less_Suc_eq_le less_eq_div_iff_mult_less_eq order_antisym order_refl)

lemma filter_row:
  "filter (\<lambda>(bk, i', j'). i' = i \<and> j' = j)
     (concat (map (\<lambda>bj. concat (map (\<lambda>bk.
        concat (map (\<lambda>i. map (\<lambda>j. (bk, i, j)) [bj * R..<(bj + 1) * R]) [bi * R..<(bi + 1) * R])) ks)) bjs)) =
   (if bi = i div R then concat (map (\<lambda>bj. if bj = j div R then map (\<lambda>bk. (bk, i, j)) ks else []) bjs) else [])"
proof -
  have cell: "filter (\<lambda>(bk, i', j'). i' = i \<and> j' = j)
      (concat (map (\<lambda>i. map (\<lambda>j. (bk, i, j)) [bj * R..<(bj + 1) * R]) [bi * R..<(bi + 1) * R])) =
      (if bi = i div R \<and> bj = j div R then [(bk, i, j)] else [])" for bk bj
    unfolding filter_block using block_of [of bi i] block_of [of bj j] by auto
  have ks: "filter (\<lambda>(bk, i', j'). i' = i \<and> j' = j)
      (concat (map (\<lambda>bk. concat (map (\<lambda>i. map (\<lambda>j. (bk, i, j)) [bj * R..<(bj + 1) * R])
         [bi * R..<(bi + 1) * R])) ks)) =
      (if bi = i div R \<and> bj = j div R then map (\<lambda>bk. (bk, i, j)) ks else [])" for bj
    by (induction ks) (auto simp only: list.map concat.simps filter_append cell append_Cons append_Nil filter.simps split: if_splits)
  show ?thesis
    by (induction bjs) (auto simp only: list.map concat.simps filter_append ks append_Nil filter.simps split: if_splits)
qed

lemma filter_concat_map: "filter P (concat (map g [0..<n])) = concat (map (\<lambda>x. filter P (g x)) [0..<n])"
  by (induction n) auto

lemma filter_schedule:
  assumes "i < N" "j < N"
  shows "filter (\<lambda>(bk, i', j'). i' = i \<and> j' = j) schedule = map (\<lambda>bk. (bk, i, j)) [0..<N div R]"
proof -
  have "i div R < N div R" "j div R < N div R"
    using assms N_facts by (metis div_less_iff_less_mult)+
  then show ?thesis
    unfolding schedule_def by (subst filter_concat_map, simp only: filter_row concat_pick) simp
qed

lemma schedule_range: "\<forall>(bk, i', j') \<in> set schedule. i' < N \<and> j' < N"
proof -
  have "x < N" if "b < N div R" "x < (b + 1) * R" for b x
  proof -
    from that(1) have "(b + 1) * R \<le> N div R * R" by (intro mult_le_mono1) simp
    with that(2) show ?thesis by (simp add: N_facts(1))
  qed
  then show ?thesis by (fastforce simp: schedule_def)
qed

text \<open>The block loop computes the matrix product.\<close>

lemma blocks_sum:
  "unat (foldl (\<lambda>v bk. red (acc_sum (ucast v) [bk * R..<(bk + 1) * R] f g)) 0 [0..<m]) =
     (\<Sum>k<m * R. unat (f k) * unat (g k)) mod q"
proof (induction m)
  case (Suc m)
  let ?v = "foldl (\<lambda>v bk. red (acc_sum (ucast v) [bk * R..<(bk + 1) * R] f g)) 0 [0..<m]"
  have "unat ?v + R * 2 ^ 64 < 2 ^ 128"
    using unat_bound [of ?v] by (simp add: R_def)
  then have "unat (red (acc_sum (ucast ?v) [m * R..<(m + 1) * R] f g)) =
      (unat ?v + (\<Sum>k\<leftarrow>[m * R..<(m + 1) * R]. unat (f k) * unat (g k))) mod q"
    by (simp add: unat_red unat_acc_sum unat_up)
  also have "\<dots> = ((\<Sum>k<m * R. unat (f k) * unat (g k)) + (\<Sum>k\<in>{m * R..<(m + 1) * R}. unat (f k) * unat (g k))) mod q"
    by (simp only: Suc.IH interv_sum_list_conv_sum_set_nat set_upt mod_add_left_eq)
  also have "(\<Sum>k<m * R. unat (f k) * unat (g k)) + (\<Sum>k\<in>{m * R..<(m + 1) * R}. unat (f k) * unat (g k)) =
      (\<Sum>k<Suc m * R. unat (f k) * unat (g k))"
    unfolding lessThan_atLeast0 by (subst sum.atLeastLessThan_concat) simp_all
  finally show ?case by simp
qed simp

lemma length_cells: "length (foldl (\<lambda>cp (bk, i, j). cp[i * N + j := f bk i j cp]) cp ss) = length cp"
  by (induction ss arbitrary: cp) (auto split: prod.splits)

lemma cells_ent:
  assumes "i < N" "j < N"
  shows "eqm (ent (fst (foldl (cell_step ap bp) (replicate CELLS 0, tr) schedule)) N i j)
    (mm N (ent ap N) (ent bp N) i j)"
proof -
  have "i * N + j < CELLS" using assms by (simp add: CELLS_def cell_lt)
  then have "unat (fst (foldl (cell_step ap bp) (replicate CELLS 0, tr) schedule) ! (i * N + j)) =
      (\<Sum>k<N div R * R. unat (ap ! (i * N + k)) * unat (bp ! (k * N + j))) mod q"
    using blocks_sum [of "\<lambda>k. ap ! (i * N + k)" "\<lambda>k. bp ! (k * N + j)" "N div R"]
      foldl_cell [where f = "\<lambda>bk i j v. red (acc_sum (ucast v) [bk * R..<(bk + 1) * R]
        (\<lambda>k. ap ! (i * N + k)) (\<lambda>k. bp ! (k * N + j)))", OF _ assms schedule_range, of "replicate CELLS 0"]
    by (simp only: fst_cells length_replicate fst_conv filter_schedule [OF assms] foldl_map split_conv nth_replicate)
  from eqm_of_mod [OF this] show ?thesis by (simp add: N_facts(1) ent_def mm_def)
qed

section \<open>The noise cancels\<close>

lemma validate_eq: "validate vs = Ok u \<longleftrightarrow> length vs = CELLS \<and> (\<forall>v \<in> set vs. unat v < q)"
proof -
  have "(ucast v :: u128) \<ge> Q \<longleftrightarrow> \<not> unat v < q" for v :: u32
    by (simp add: word_le_nat_alt unat_up q_facts not_less)
  then show ?thesis by (auto simp: validate_def list_ex_iff)
qed

lemma nth_lt_q: "\<forall>v \<in> set vs. unat v < q \<Longrightarrow> c < length vs \<Longrightarrow> unat (vs ! c) < q"
  by simp

lemma mul_lt_q: "c < rows * cols \<Longrightarrow> unat (mul a b rows inner cols ! c) < q"
  by (simp add: mul_def unat_red q_facts)

lemma add_mod_ent:
  assumes "length xs = CELLS" "length ys = CELLS" "i < N" "j < N"
  shows "eqm (ent (add_mod xs ys) N i j) (ent xs N i j + ent ys N i j)"
proof -
  have c: "i * N + j < CELLS" using assms by (simp add: CELLS_def cell_lt)
  have "unat (ucast x + ucast y :: u128) = unat x + unat y" for x y :: u32
    using unat_bound [of x] unat_bound [of y] by (simp add: unat_word_ariths unat_up)
  with c assms have "unat (add_mod xs ys ! (i * N + j)) = (unat (xs ! (i * N + j)) + unat (ys ! (i * N + j))) mod q"
    by (simp add: add_mod_def unat_red)
  from eqm_of_mod [OF this] show ?thesis by (simp add: ent_def)
qed

lemma sub_red:
  fixes x y z :: u32
  assumes "unat y < q" "unat z < q"
  shows "unat (red (ucast x + 2 * Q - ucast y - ucast z)) =
    nat ((int (unat x) - int (unat y) - int (unat z)) mod int q)"
proof -
  have u: "unat (ucast x + 2 * Q) = unat x + 2 * q"
  proof -
    have "unat (2 * Q) = 2 * q" by (simp add: Q_def q_def)
    moreover have "unat x + 2 * q < 2 ^ 128"
    proof -
      have "unat x + 2 * q < 2 ^ 32 + 2 * q" using unat_bound [of x] by (simp del: unsigned_less)
      also have "\<dots> < 2 ^ 128" by (simp add: q_def)
      finally show ?thesis .
    qed
    ultimately show ?thesis by (simp add: unat_word_ariths(1) unat_up)
  qed
  then have "unat (ucast x + 2 * Q - ucast y) = unat x + 2 * q - unat y"
    using assms by (subst unat_sub) (simp_all add: word_le_nat_alt unat_up)
  then have "unat (ucast x + 2 * Q - ucast y - ucast z) = unat x + 2 * q - unat y - unat z"
    using assms by (subst unat_sub) (simp_all add: word_le_nat_alt unat_up)
  then have "int (unat (red (ucast x + 2 * Q - ucast y - ucast z))) =
      (int (unat x) - int (unat y) - int (unat z) + 2 * int q) mod int q"
    using assms by (simp add: unat_red zmod_int of_nat_diff algebra_simps)
  also have "\<dots> = (int (unat x) - int (unat y) - int (unat z)) mod int q"
    by (metis mod_mult_self2 mult.commute)
  finally show ?thesis by linarith
qed

text \<open>The reference: the matrix product over the integers, reduced once.\<close>

definition matmul :: "u32 list \<Rightarrow> u32 list \<Rightarrow> u32 list" where
  "matmul a b = map (\<lambda>c. word_of_nat ((\<Sum>k<N. unat (a ! (c div N * N + k)) * unat (b ! (k * N + c mod N))) mod q))
     [0..<CELLS]"

lemma cancel:
  assumes ap: "\<And>i j. i < N \<Longrightarrow> j < N \<Longrightarrow> eqm (AP i j) (A i j + mm R EL ER i j)"
    and bp: "\<And>i j. i < N \<Longrightarrow> j < N \<Longrightarrow> eqm (BP i j) (B i j + mm R FL FR i j)"
    and ij: "i < N" "j < N"
  shows "eqm (mm N AP BP i j - mm R (mm N A FL) FR i j - mm R EL (mm N ER BP) i j) (mm N A B i j)"
proof -
  have "eqm (mm N AP BP i j) (mm N (\<lambda>i k. A i k + mm R EL ER i k) BP i j)"
    using ap ij by (intro mm_cong) auto
  also have "mm N (\<lambda>i k. A i k + mm R EL ER i k) BP i j = mm N A BP i j + mm R EL (mm N ER BP) i j"
    by (simp add: mm_add_left mm_assoc)
  finally have 1: "eqm (mm N AP BP i j) (mm N A BP i j + mm R EL (mm N ER BP) i j)" .
  have "eqm (mm N A BP i j) (mm N A (\<lambda>k j. B k j + mm R FL FR k j) i j)"
    using bp ij by (intro mm_cong) auto
  also have "mm N A (\<lambda>k j. B k j + mm R FL FR k j) i j = mm N A B i j + mm R (mm N A FL) FR i j"
    by (simp add: mm_add_right mm_assoc)
  finally have "eqm (mm N A BP i j) (mm N A B i j + mm R (mm N A FL) FR i j)" .
  from eqm_arith(1) [OF this eqm_refl [of "mm R EL (mm N ER BP) i j"]] 1
  have "eqm (mm N AP BP i j) (mm N A B i j + mm R (mm N A FL) FR i j + mm R EL (mm N ER BP) i j)"
    using eqm_trans by blast
  from eqm_arith(2) [OF this eqm_refl [of "mm R (mm N A FL) FR i j + mm R EL (mm N ER BP) i j"]]
  show ?thesis by (simp add: algebra_simps)
qed

lemma mul_mul_ent:
  assumes "i < N" "j < N"
  shows "eqm (ent (mul (mul a fl N N R) fr N R N) N i j) (mm R (mm N (ent a N) (ent fl R)) (ent fr N) i j)"
    and "eqm (ent (mul el (mul er bp R N N) N R N) N i j) (mm R (ent el R) (mm N (ent er N) (ent bp N)) i j)"
proof -
  have "eqm (ent (mul (mul a fl N N R) fr N R N) N i j) (mm R (ent (mul a fl N N R) R) (ent fr N) i j)"
    using assms N_facts by (intro mul_ent) auto
  also have "eqm \<dots> (mm R (mm N (ent a N) (ent fl R)) (ent fr N) i j)"
    using assms N_facts by (intro mm_cong mul_ent) auto
  finally show "eqm (ent (mul (mul a fl N N R) fr N R N) N i j) (mm R (mm N (ent a N) (ent fl R)) (ent fr N) i j)" .
  have "eqm (ent (mul el (mul er bp R N N) N R N) N i j) (mm R (ent el R) (ent (mul er bp R N N) N) i j)"
    using assms N_facts by (intro mul_ent) auto
  also have "eqm \<dots> (mm R (ent el R) (mm N (ent er N) (ent bp N)) i j)"
    using assms N_facts by (intro mm_cong mul_ent) auto
  finally show "eqm (ent (mul el (mul er bp R N N) N R N) N i j) (mm R (ent el R) (mm N (ent er N) (ent bp N)) i j)" .
qed

lemma masked_ent:
  assumes "length m = CELLS" "i < N" "j < N"
  shows "eqm (ent (add_mod m (mul l r N R N)) N i j) (ent m N i j + mm R (ent l R) (ent r N) i j)"
proof -
  have "eqm (ent (add_mod m (mul l r N R N)) N i j) (ent m N i j + ent (mul l r N R N) N i j)"
    using assms by (intro add_mod_ent) (simp_all add: CELLS_def)
  also have "eqm \<dots> (ent m N i j + mm R (ent l R) (ent r N) i j)"
    using assms N_facts by (intro eqm_arith(1) mul_ent) auto
  finally show ?thesis .
qed

lemma word_of_nat_unat: "word_of_nat (unat w) = (w :: u32)"
  by (simp add: of_nat_unat)

lemma evaluate_eq:
  assumes "evaluate sha ch a b = Ok (p, t)"
  shows "validate a = Ok () \<and> validate b = Ok () \<and> p = matmul a b"
proof -
  from assms obtain el er fl fr cp ap bp where v: "validate a = Ok ()" "validate b = Ok ()"
    and ap: "ap = add_mod a (mul el er N R N)" and bp: "bp = add_mod b (mul fl fr N R N)"
    and cp': "cp = fst (foldl (cell_step ap bp)
             (replicate CELLS 0, ascii ''TRNM-PON-TRACE1'' @ [0] @ hash_bytes ch) schedule)"
    and p: "p = map (\<lambda>((x, y), z). red (ucast x + 2 * Q - ucast y - ucast z))
             (zip (zip cp (mul (mul a fl N N R) fr N R N)) (mul el (mul er bp R N N) N R N))"
    unfolding evaluate_def Let_def split_beta tryR_eq_Ok by auto
  from v have len: "length a = CELLS" "length b = CELLS" by (simp_all add: validate_eq)
  from cp' have lcp: "length cp = CELLS" by (simp add: fst_cells length_cells)
  have "p ! c = matmul a b ! c" if c: "c < CELLS" for c
  proof -
    define i j where ij: "i = c div N" "j = c mod N"
    have lt: "i < N" "j < N" and ce: "c = i * N + j"
      using c N_facts by (simp_all add: ij CELLS_def div_less_iff_less_mult)
    let ?x = "cp ! c" and ?y = "mul (mul a fl N N R) fr N R N ! c" and ?z = "mul el (mul er bp R N N) N R N ! c"
    have "eqm (int (unat ?x)) (mm N (ent ap N) (ent bp N) i j)"
      using cells_ent [OF lt, of ap bp] by (simp add: cp' ent_def ce)
    moreover have "eqm (int (unat ?y)) (mm R (mm N (ent a N) (ent fl R)) (ent fr N) i j)"
      "eqm (int (unat ?z)) (mm R (ent el R) (mm N (ent er N) (ent bp N)) i j)"
      using mul_mul_ent [OF lt] by (simp_all add: ent_def ce)
    ultimately have "eqm (int (unat ?x) - int (unat ?y) - int (unat ?z))
        (mm N (ent ap N) (ent bp N) i j - mm R (mm N (ent a N) (ent fl R)) (ent fr N) i j -
         mm R (ent el R) (mm N (ent er N) (ent bp N)) i j)"
      by (intro eqm_arith(2))
    also have "eqm \<dots> (mm N (ent a N) (ent b N) i j)"
      unfolding ap bp using lt by (intro cancel masked_ent len)
    finally have "eqm (int (unat ?x) - int (unat ?y) - int (unat ?z)) (mm N (ent a N) (ent b N) i j)" .
    moreover have "mm N (ent a N) (ent b N) i j =
        int (\<Sum>k<N. unat (a ! (i * N + k)) * unat (b ! (k * N + j)))"
      by (simp add: mm_def ent_def)
    ultimately have "nat ((int (unat ?x) - int (unat ?y) - int (unat ?z)) mod int q) =
        (\<Sum>k<N. unat (a ! (i * N + k)) * unat (b ! (k * N + j))) mod q"
      by (simp only: eqm_def zmod_int [symmetric] nat_int)
    moreover have "unat ?y < q" "unat ?z < q"
      using c by (simp_all add: mul_lt_q CELLS_def)
    ultimately have "unat (p ! c) = (\<Sum>k<N. unat (a ! (i * N + k)) * unat (b ! (k * N + j))) mod q"
      using c lcp by (simp add: p CELLS_def sub_red)
    then have "p ! c = word_of_nat ((\<Sum>k<N. unat (a ! (i * N + k)) * unat (b ! (k * N + j))) mod q)"
      using word_of_nat_unat [of "p ! c"] by metis
    with c show ?thesis by (simp add: matmul_def ij)
  qed
  moreover have "length p = CELLS" using lcp by (simp add: p CELLS_def)
  ultimately have "p = matmul a b" by (intro nth_equalityI) (auto simp: matmul_def)
  with v show ?thesis by simp
qed

section \<open>Encoding of proofs\<close>

lemma length_field_bytes [simp]: "length (field_bytes vs) = 4 * length vs"
  by (induction vs) (simp_all add: field_bytes_def)

lemma unat_from_le4:
  "unat (from_le4 a b c d) = unat a + 2 ^ 8 * unat b + 2 ^ 16 * unat c + 2 ^ 24 * unat d"
proof -
  have b: "unat x < 2 ^ 8" for x :: u8 using unat_bound [of x] by simp
  have u: "unat (ucast x :: u32) = unat x" for x :: u8
    using b [of x] by (simp add: unsigned_ucast_eq take_bit_nat_eq_self)
  show ?thesis
    using b [of a] b [of b] b [of c] b [of d]
    by (simp add: from_le4_def unat_word_ariths u)
qed

lemma byte_of: "unat (ucast (drop_bit n v) :: u8) = unat v div 2 ^ n mod 2 ^ 8"
  by (simp add: unsigned_ucast_eq unat_drop_bit_eq take_bit_eq_mod drop_bit_eq_div [where 'a = nat])

lemma le_bytes4: "le_bytes 4 v = [ucast v, ucast (drop_bit 8 v), ucast (drop_bit 16 v), ucast (drop_bit 24 v)]"
  by (simp add: le_bytes_def upt_rec)

lemma four_bytes:
  assumes "(n :: nat) < 2 ^ 32"
  shows "n mod 2 ^ 8 + 2 ^ 8 * (n div 2 ^ 8 mod 2 ^ 8) + 2 ^ 16 * (n div 2 ^ 16 mod 2 ^ 8) +
    2 ^ 24 * (n div 2 ^ 24 mod 2 ^ 8) = n"
proof -
  have top: "n div 16777216 mod 256 = n div 16777216" using assms by (simp add: less_mult_imp_div_less)
  moreover have "n div 65536 = 256 * (n div 16777216) + n div 65536 mod 256"
    using div_mult2_eq [of n 65536 256] mult_div_mod_eq [of 256 "n div 65536"] by simp
  moreover have "n div 256 = 256 * (n div 65536) + n div 256 mod 256"
    using div_mult2_eq [of n 256 256] mult_div_mod_eq [of 256 "n div 256"] by simp
  moreover have "n = 256 * (n div 256) + n mod 256" by simp
  ultimately have "n mod 256 + 256 * (n div 256 mod 256) + 65536 * (n div 65536 mod 256) +
      16777216 * (n div 16777216) = n" by linarith
  with top show ?thesis by simp
qed

lemma from_le4_bytes: "from_le4 (ucast v) (ucast (drop_bit 8 v)) (ucast (drop_bit 16 v)) (ucast (drop_bit 24 v)) = v"
proof -
  have "unat (ucast v :: u8) = unat v mod 2 ^ 8" using byte_of [of 0 v] by simp
  then have "unat (from_le4 (ucast v) (ucast (drop_bit 8 v)) (ucast (drop_bit 16 v)) (ucast (drop_bit 24 v))) = unat v"
    using four_bytes [of "unat v"] unat_bound [of v] by (simp only: unat_from_le4 byte_of) simp
  then show ?thesis by (simp only: word_unat_eq_iff)
qed

lemma words_le_field_bytes: "words_le (field_bytes vs) = vs"
  by (induction vs) (simp_all add: field_bytes_def le_bytes4 from_le4_bytes)

lemma digit:
  assumes "(x :: nat) < 2 ^ 8"
  shows "(x + 2 ^ 8 * y) mod 2 ^ 8 = x" "(x + 2 ^ 8 * y) div 2 ^ 8 = y"
  using assms by auto

lemma le_bytes_from_le4: "le_bytes 4 (from_le4 a b c d) = [a, b, c, d]"
proof -
  let ?v = "from_le4 a b c d"
  have lt: "unat x < 2 ^ 8" for x :: u8 using unat_bound [of x] by simp
  have n: "unat ?v = unat a + 2 ^ 8 * (unat b + 2 ^ 8 * (unat c + 2 ^ 8 * unat d))"
    by (simp add: unat_from_le4)
  have 8: "unat ?v div 2 ^ 8 = unat b + 2 ^ 8 * (unat c + 2 ^ 8 * unat d)"
    unfolding n by (rule digit [OF lt])
  have 16: "unat ?v div 2 ^ 16 = unat c + 2 ^ 8 * unat d"
    using div_mult2_eq [of "unat ?v" "2 ^ 8" "2 ^ 8"] digit(2) [OF lt [of b], of "unat c + 2 ^ 8 * unat d"]
    by (simp add: 8 [simplified])
  have 24: "unat ?v div 2 ^ 24 = unat d + 2 ^ 8 * 0"
    using div_mult2_eq [of "unat ?v" "2 ^ 16" "2 ^ 8"] digit(2) [OF lt [of c], of "unat d"]
    by (simp add: 16 [simplified])
  have "unat (ucast ?v :: u8) = unat a"
    using byte_of [of 0 ?v] digit(1) [OF lt [of a], of "unat b + 2 ^ 8 * (unat c + 2 ^ 8 * unat d)"]
    by (simp add: n)
  moreover have "unat (ucast (drop_bit 8 ?v) :: u8) = unat b" "unat (ucast (drop_bit 16 ?v) :: u8) = unat c"
    "unat (ucast (drop_bit 24 ?v) :: u8) = unat d"
    unfolding byte_of 8 16 24 by (rule digit(1) [OF lt])+
  ultimately show ?thesis by (simp add: le_bytes4 word_unat_eq_iff)
qed

lemma field_bytes_words_le: "length xs = 4 * n \<Longrightarrow> field_bytes (words_le xs) = xs \<and> length (words_le xs) = n"
proof (induction n arbitrary: xs)
  case (Suc n)
  then obtain a b c d ys where "xs = a # b # c # d # ys" "length ys = 4 * n"
    by (auto simp: length_Suc_conv numeral_eq_Suc)
  with Suc.IH [of ys] show ?case by (simp add: field_bytes_def le_bytes_from_le4)
qed (simp add: field_bytes_def)

lemma field_bytes_append: "field_bytes (xs @ ys) = field_bytes xs @ field_bytes ys"
  by (simp add: field_bytes_def)

lemma PROOF_BYTES_eq: "PROOF_BYTES = 4 + (4 * CELLS + (4 * CELLS + (4 * CELLS + 32)))"
  by (simp add: PROOF_BYTES_def)

text \<open>A byte string of the right length splits into the magic, three matrices and the trace.\<close>

lemma proof_split:
  assumes "length bytes = PROOF_BYTES" "take 4 bytes = PNW1"
  defines "m \<equiv> words_le (take (3 * CELLS * 4) (drop 4 bytes))"
  shows "bytes = PNW1 @ concat (map field_bytes [take CELLS m, take CELLS (drop CELLS m), drop CELLS (drop CELLS m)]) @
      drop (4 + 3 * CELLS * 4) bytes"
    and "length (drop (4 + 3 * CELLS * 4) bytes) = 32"
proof -
  let ?t = "take (3 * CELLS * 4) (drop 4 bytes)"
  have "length ?t = 4 * (3 * CELLS)" using assms(1) by (simp add: PROOF_BYTES_def)
  then have "field_bytes m = ?t" unfolding m_def using field_bytes_words_le by blast
  moreover have "field_bytes m = concat (map field_bytes [take CELLS m, take CELLS (drop CELLS m), drop CELLS (drop CELLS m)])"
    using field_bytes_append [of "take CELLS m" "drop CELLS m"]
      field_bytes_append [of "take CELLS (drop CELLS m)" "drop CELLS (drop CELLS m)"]
    by (simp only: append_take_drop_id list.map concat.simps append_Nil2)
  moreover have "bytes = take 4 bytes @ ?t @ drop (4 + 3 * CELLS * 4) bytes"
    by (metis append_take_drop_id drop_drop add.commute)
  ultimately show "bytes = PNW1 @ concat (map field_bytes [take CELLS m, take CELLS (drop CELLS m), drop CELLS (drop CELLS m)]) @
      drop (4 + 3 * CELLS * 4) bytes"
    using assms(2) by simp
  show "length (drop (4 + 3 * CELLS * 4) bytes) = 32"
    using assms(1) by (simp add: PROOF_BYTES_def)
qed

lemma PNW1_len: "length PNW1 = 4"
  by (simp add: PNW1_def ascii_def)

lemma proof_parts:
  assumes len: "length a = CELLS" "length b = CELLS" "length p = CELLS" "length t = 32"
    and bytes: "bytes = PNW1 @ concat (map field_bytes [a, b, p]) @ t"
  shows "length bytes = PROOF_BYTES" "take 4 bytes = PNW1"
    "words_le (take (3 * CELLS * 4) (drop 4 bytes)) = a @ b @ p"
    "drop (4 + 3 * CELLS * 4) bytes = t"
proof -
  define x where "x = concat (map field_bytes [a, b, p])"
  have c: "length x = 3 * CELLS * 4" using len by (simp add: x_def)
  have b: "bytes = PNW1 @ x @ t" by (simp add: bytes x_def)
  show "length bytes = PROOF_BYTES" using len c by (simp add: b PROOF_BYTES_def PNW1_len)
  show "take 4 bytes = PNW1" by (simp add: bytes PNW1_len)
  have "x = field_bytes (a @ b @ p)" by (simp add: x_def field_bytes_append)
  with c show "words_le (take (3 * CELLS * 4) (drop 4 bytes)) = a @ b @ p"
    by (simp add: b PNW1_len words_le_field_bytes)
  from c show "drop (4 + 3 * CELLS * 4) bytes = t"
    by (simp add: b PNW1_len)
qed

lemma task_id_eq: "task_id sha a b = Ok h \<longleftrightarrow> validate a = Ok () \<and> validate b = Ok () \<and>
    h = pon_hash sha (ascii ''task'') [field_bytes a, field_bytes b]"
  by (auto simp: task_id_def result_simps)

lemma validate_matmul: "validate (matmul a b) = Ok ()"
proof -
  have "unat (word_of_nat (n mod q) :: u32) < q" for n
    using q_facts by (simp add: unat_of_nat) (meson mod_less_divisor mod_less_eq_dividend order_le_less_trans)
  then show ?thesis by (auto simp: validate_eq matmul_def)
qed

definition ticket_of :: "(u8 list \<Rightarrow> hash32) \<Rightarrow> hash32 \<Rightarrow> hash32 \<Rightarrow> hash32" where
  "ticket_of sha challenge trace = pon_hash sha (ascii ''ticket'') [hash_bytes challenge, hash_bytes trace]"

lemma verify_sound:
  assumes "verify sha ch task target bytes = Ok w"
  shows "target \<noteq> 0 \<and> (\<exists>a b trace. evaluate sha ch a b = Ok (matmul a b, trace) \<and> task_id sha a b = Ok task \<and>
      prove sha ch a b = Ok bytes \<and> ticket_of sha ch trace \<le> target \<and>
      w = \<lparr>vw_challenge = ch, vw_task = task, vw_ticket = ticket_of sha ch trace, vw_product = matmul a b\<rparr>)"
proof -
  define m where "m = words_le (take (3 * CELLS * 4) (drop 4 bytes))"
  define a b p where ab: "a = take CELLS m" "b = take CELLS (drop CELLS m)" "p = drop CELLS (drop CELLS m)"
  from assms obtain trace where len: "length bytes = PROOF_BYTES" "take 4 bytes = PNW1" and t0: "target \<noteq> 0"
    and task: "task_id sha a b = Ok task" and ev: "evaluate sha ch a b = Ok (p, trace)"
    and tr: "hash_bytes trace = drop (4 + 3 * CELLS * 4) bytes"
    and le: "ticket_of sha ch trace \<le> target"
    and w: "w = \<lparr>vw_challenge = ch, vw_task = task, vw_ticket = ticket_of sha ch trace, vw_product = p\<rparr>"
    unfolding verify_def ab m_def ticket_of_def Let_def
    by (auto simp: result_simps split_beta not_less)
  from evaluate_eq [OF ev] have p: "p = matmul a b" by simp
  have "prove sha ch a b = Ok bytes"
  proof -
    have "prove sha ch a b = Ok (PNW1 @ concat (map field_bytes [a, b, p]) @ drop (4 + 3 * CELLS * 4) bytes)"
      by (simp add: prove_def ev tryR_def tr)
    with proof_split(1) [OF len, folded m_def, folded ab] show ?thesis by metis
  qed
  with t0 task ev le w p show ?thesis by blast
qed

lemma verify_complete:
  assumes "target \<noteq> 0" "evaluate sha ch a b = Ok (p, trace)" "task_id sha a b = Ok task"
    "prove sha ch a b = Ok bytes" "ticket_of sha ch trace \<le> target"
  shows "verify sha ch task target bytes =
    Ok \<lparr>vw_challenge = ch, vw_task = task, vw_ticket = ticket_of sha ch trace, vw_product = p\<rparr>"
proof -
  from evaluate_eq [OF assms(2)] have p: "p = matmul a b" and v: "validate a = Ok ()" "validate b = Ok ()" by auto
  then have len: "length a = CELLS" "length b = CELLS" "length p = CELLS"
    by (simp_all add: validate_eq matmul_def)
  have bytes: "bytes = PNW1 @ concat (map field_bytes [a, b, p]) @ hash_bytes trace"
    using assms(2,4) by (simp add: prove_def tryR_def)
  note parts = proof_parts [OF len _ bytes, simplified]
  from p have "validate p = Ok ()" by (simp add: validate_matmul)
  with assms len show ?thesis
    by (simp add: verify_def parts Let_def tryR_def ticket_of_def not_less)
qed

section \<open>Noise expansion\<close>

lemma push_noise_facts:
  assumes "length out < len"
  shows "length out \<le> length (push_noise len out vs)" "length (push_noise len out vs) \<le> len"
    "\<forall>v \<in> set out. unat v < q \<Longrightarrow> \<forall>v \<in> set (push_noise len out vs). unat v < q"
  using assms
proof (induction vs arbitrary: out)
  case (Cons v vs)
  have lt: "(ucast v :: u128) < Q \<longleftrightarrow> unat v < q"
    by (simp add: word_less_nat_alt unat_up q_facts)
  { case 1 with Cons.IH(1) [of "out @ [v]"] Cons.IH(1) [of out] show ?case by (auto simp: Let_def) }
  { case 2 with Cons.IH(2) [of "out @ [v]"] Cons.IH(2) [of out] show ?case by (auto simp: Let_def) }
  { case 3 with Cons.IH(3) [of "out @ [v]"] Cons.IH(3) [of out] show ?case by (auto simp: Let_def lt) }
qed auto

lemma expand_loop_facts:
  assumes "expand_loop sha ch l len c out = Ok r" "length out \<le> len" "\<forall>v \<in> set out. unat v < q"
  shows "length r = len \<and> (\<forall>v \<in> set r. unat v < q)"
  using assms
proof (induction sha ch l len c out rule: expand_loop.induct)
  case (1 sha ch l len c out)
  show ?case
  proof (cases "length out < len")
    case True
    with 1(2) have c: "\<not> 128 \<le> c" by (subst (asm) expand_loop.simps) (simp split: if_splits)
    with True 1(2) show ?thesis
      by (intro 1(1) [OF True c])
        (use push_noise_facts [OF True] 1(4) in \<open>auto simp: expand_loop.simps [of sha ch l len c out]\<close>)
  next
    case False
    with 1 show ?thesis by (simp add: expand_loop.simps)
  qed
qed

lemma expand_loop_err: "expand_loop sha ch l len c out = Err e \<Longrightarrow> e = NoiseBudget"
proof (induction sha ch l len c out rule: expand_loop.induct)
  case (1 sha ch l len c out)
  then show ?case by (subst (asm) expand_loop.simps) (auto split: if_splits)
qed

text \<open>A hash that is all zeros yields eight field elements per digest, enough noise after 64 digests.\<close>

lemma zero_digest: "words_le (hash_bytes 0) = replicate 8 0"
  by (simp add: be_bytes_def upt_rec from_le4_def numeral_eq_Suc)

lemma push_zeros:
  "length out < len \<Longrightarrow> push_noise len out (replicate n 0) = out @ replicate (min n (len - length out)) 0"
proof (induction n arbitrary: out)
  case (Suc n)
  have "(0 :: u128) < Q" by (simp add: Q_def)
  with Suc.prems Suc.IH [of "out @ [0]"] show ?case
    by (auto simp: Let_def min_def Suc_diff_le) (metis Suc_diff_Suc replicate_Suc)
qed simp

lemma expand_zeros:
  "length out \<le> len \<Longrightarrow> len \<le> length out + 8 * (128 - c) \<Longrightarrow> \<exists>r. expand_loop (\<lambda>_. 0) ch l len c out = Ok r"
proof (induction "128 - c" arbitrary: c out)
  case 0
  then show ?case by (simp add: expand_loop.simps)
next
  case (Suc n)
  show ?case
  proof (cases "length out < len")
    case True
    let ?o = "push_noise len out (replicate 8 0)"
    have "length ?o = length out + min 8 (len - length out)" using True by (simp add: push_zeros)
    with Suc True have "\<exists>r. expand_loop (\<lambda>_. 0) ch l len (c + 1) ?o = Ok r"
      by (intro Suc.hyps(1)) auto
    with True Suc.hyps(2) show ?thesis
      by (subst expand_loop.simps) (simp add: pon_hash_def zero_digest)
  next
    case False
    then show ?thesis by (simp add: expand_loop.simps)
  qed
qed

definition sample_matrix :: "u32 list" where
  "sample_matrix = replicate CELLS 2"

lemma sample_evaluate: "\<exists>p t. evaluate (\<lambda>_. 0) 5 sample_matrix sample_matrix = Ok (p, t)"
proof -
  have "validate sample_matrix = Ok ()" by (simp add: validate_eq sample_matrix_def q_def)
  moreover have "\<exists>r. expand (\<lambda>_. 0) 5 l (N * R) = Ok r" "\<exists>r. expand (\<lambda>_. 0) 5 l (R * N) = Ok r" for l
    unfolding expand_def by (rule expand_zeros; simp add: N_def R_def)+
  ultimately show ?thesis
    by (auto simp: evaluate_def tryR_def Let_def split_beta split: result.splits)
      (metis result.distinct(1))+
qed

section \<open>Properties\<close>

text \<open>
  C19. The useful work is exact. For every challenge and whatever noise the hash function yields, an
  accepted evaluation returns the matrix product of its inputs modulo \<open>Q\<close>: the noise cancels and no
  machine sum overflows on the way.
\<close>

theorem pon_product:
  assumes "evaluate sha challenge a b = Ok (p, t)"
  shows "p = matmul a b"
  using evaluate_eq [OF assms] by simp

theorem pon_product_witness:
  "\<exists>t. evaluate (\<lambda>_. 0) 5 sample_matrix sample_matrix = Ok (matmul sample_matrix sample_matrix, t)"
proof -
  obtain p t where e: "evaluate (\<lambda>_. 0) 5 sample_matrix sample_matrix = Ok (p, t)"
    using sample_evaluate by blast
  with pon_product [OF e] show ?thesis by auto
qed

text \<open>
  C5. Verification accepts exactly the prover's proofs. A byte string verifies for a challenge, a task and
  a target if and only if it is what \<open>prove\<close> outputs on two matrices with that task id, and the
  ticket derived from its transcript meets the (nonzero) target; the verified work then carries
  that ticket and the product of the two matrices.
\<close>

theorem pon_verify_iff:
  "verify sha challenge task target bytes = Ok w \<longleftrightarrow>
     target \<noteq> 0 \<and>
     (\<exists>a b trace. evaluate sha challenge a b = Ok (matmul a b, trace) \<and> task_id sha a b = Ok task \<and>
        prove sha challenge a b = Ok bytes \<and> ticket_of sha challenge trace \<le> target \<and>
        w = \<lparr>vw_challenge = challenge, vw_task = task, vw_ticket = ticket_of sha challenge trace,
             vw_product = matmul a b\<rparr>)"
  using verify_sound [of sha challenge task target bytes w] verify_complete by blast

text \<open>
  Noise expansion ends within 128 digests, with exactly the number of field elements asked for or
  with the budget error.
\<close>

lemma pon_expand:
  "expand sha challenge label len = Err NoiseBudget \<or>
   (\<exists>vs. expand sha challenge label len = Ok vs \<and> length vs = len \<and> list_all (\<lambda>v. unat v < q) vs)"
proof (cases "expand sha challenge label len")
  case (Ok vs)
  with expand_loop_facts [of sha challenge label len 0 "[]" vs] show ?thesis
    by (auto simp: expand_def list_all_iff)
next
  case (Err e)
  with expand_loop_err show ?thesis by (auto simp: expand_def)
qed

end
