(* ===== verification/Canonical_Encoding.thy ===== *)
theory Canonical_Encoding
  imports Byte_Encoding
begin

text \<open>
  Canonical values. The crates digest Borsh encodings of their structures; the Borsh library is not
  part of the repository, so a structure is mapped to the tree of the values its derived
  serializer visits (fields in declaration order, enum variants by position) and the byte
  encoding of such a tree is a parameter, as are SHA-256 and Ed25519.
\<close>

datatype bval =
    BU8 u8
  | BU16 u16
  | BU32 u32
  | BU64 u64
  | BU128 u128
  | BBool bool
  | BHash hash32
  | BVec "bval list"
  | BNone
  | BSome bval
  | BTuple "bval list"
  | BEnum u8 "bval list"

text \<open>
  The external libraries: the digest, the serializer (which may fail with an I/O error), whether
  32 bytes are a valid Ed25519 key, and strict signature verification of a message.
\<close>

record crypto =
  sha256 :: "u8 list \<Rightarrow> hash32"
  borsh_to_vec :: "bval \<Rightarrow> u8 list option"
  valid_key :: "hash32 \<Rightarrow> bool"
  verify_strict :: "hash32 \<Rightarrow> hash32 \<Rightarrow> u8 list \<Rightarrow> bool"

definition enc_bytes :: "u8 list \<Rightarrow> bval" where
  "enc_bytes bs = BVec (map BU8 bs)"

definition enc_option :: "('a \<Rightarrow> bval) \<Rightarrow> 'a option \<Rightarrow> bval" where
  "enc_option f x = (case x of None \<Rightarrow> BNone | Some v \<Rightarrow> BSome (f v))"

definition enc_list :: "('a \<Rightarrow> bval) \<Rightarrow> 'a list \<Rightarrow> bval" where
  "enc_list f xs = BVec (map f xs)"

text \<open>\<open>str::is_ascii\<close>; what the digests hash is the length, the domain and the encoding.\<close>

definition is_ascii :: "string \<Rightarrow> bool" where
  "is_ascii s = list_all (\<lambda>b. b < 128) (ascii s)"

definition digest_preimage :: "string \<Rightarrow> u8 list \<Rightarrow> u8 list" where
  "digest_preimage domain bytes = le_bytes 4 (word_of_nat (length domain) :: u32) @ ascii domain @ bytes"

text \<open>\<open>values.windows(2).any(|w| key(w[0]) >= key(w[1]))\<close>, negated.\<close>

definition strictly_sorted_by :: "('a \<Rightarrow> 'k::linorder) \<Rightarrow> 'a list \<Rightarrow> bool" where
  "strictly_sorted_by key xs = strictly_sorted (map key xs)"

end
