(* ===== verification/Mvcc_Types.thy ===== *)
theory Mvcc_Types
  imports Ordered_Map Canonical_Encoding
begin

text \<open>
  The data of the crate \<open>trnm-mvcc-fee\<close> (module \<open>types\<close>), its error codes, its codec, and the
  value tree every structure is serialized as. A \<open>TypedObjectIdV1\<close> is the pair of its fields, so
  that its derived order is the lexicographic order of pairs.
\<close>

section \<open>Errors and constants\<close>

text \<open>The codes of the error type, and \<open>Panicked\<close> for a failed \<open>expect\<close>, index or division.\<close>

datatype MvccError =
    InvalidContext | InvalidBounds | NonCanonical | IdentifierMismatch | InvalidState | StaleParent
  | UndeclaredAccess | DuplicateAccess | InsufficientFunds | FeeLimitExceeded | ArithmeticOverflow
  | ConservationViolation | NotFound | StoreFailure | SchemaMismatch | TamperDetected
  | SidecarPresent | CommitUncertain | ThirdStateFenced
  | Panicked

definition SCHEMA_VERSION :: u16 where "SCHEMA_VERSION = 1"
definition RESOURCE_ORDERED_BYTES :: u16 where "RESOURCE_ORDERED_BYTES = 0"
definition RESOURCE_STATE_READ_BYTES :: u16 where "RESOURCE_STATE_READ_BYTES = 2"
definition RESOURCE_STATE_WRITE_BYTES :: u16 where "RESOURCE_STATE_WRITE_BYTES = 3"
definition RESOURCE_COMPUTE_UNITS :: u16 where "RESOURCE_COMPUTE_UNITS = 7"
definition UNIT_BYTE :: u16 where "UNIT_BYTE = 1"
definition UNIT_COMPUTE :: u16 where "UNIT_COMPUTE = 3"

section \<open>Structures\<close>

type_synonym TypedObjectId = "u16 \<times> hash32"

record ProtocolContext =
  pc_chain_id :: "u8 list"
  pc_genesis_hash :: hash32
  pc_protocol_id :: "u8 list"
  pc_protocol_version :: u32
  pc_profile_hash :: hash32

record ObjectState =
  os_schema_version :: u16
  os_object_id :: TypedObjectId
  os_version :: u64
  os_value :: u128
  os_closed :: bool

record ResourcePrice =
  rp_resource_class :: u16
  rp_resource_id :: "u8 list"
  rp_unit :: u16
  rp_price_numerator :: u128
  rp_price_denominator :: u128
  rp_minimum_charge :: u128
  rp_maximum_charge :: u128

record FeeDestinationSplit =
  fs_destination :: TypedObjectId
  fs_numerator :: u128
  fs_denominator :: u128

record MvccFeeGenesis =
  mg_schema_version :: u16
  mg_context :: ProtocolContext
  mg_store_id :: hash32
  mg_initial_height :: u64
  mg_initial_block_id :: hash32
  mg_initial_objects :: "ObjectState list"
  mg_resource_prices :: "ResourcePrice list"
  mg_destination_splits :: "FeeDestinationSplit list"
  mg_remainder_destination :: TypedObjectId

datatype ObjectProgram =
    Add TypedObjectId u128
  | Transfer TypedObjectId TypedObjectId u128
  | Revert u16

record MvccTransaction =
  tx_schema_version :: u16
  tx_transaction_id :: hash32
  tx_transaction_index :: u32
  tx_fee_payer :: TypedObjectId
  tx_declared_reads :: "TypedObjectId list"
  tx_declared_writes :: "TypedObjectId list"
  tx_compute_unit_limit :: u128
  tx_max_fee :: u128
  tx_program :: ObjectProgram

record MvccBlock =
  mb_schema_version :: u16
  mb_context :: ProtocolContext
  mb_block_id :: hash32
  mb_height :: u64
  mb_expected_parent_height :: u64
  mb_expected_parent_block_id :: hash32
  mb_expected_parent_state_root :: hash32
  mb_transactions :: "MvccTransaction list"

datatype ReceiptStatus = Success | Reverted | OutOfResource

record ReadSetEntry =
  re_object_id :: TypedObjectId
  re_observed_version :: u64
  re_observed_value_hash :: hash32

record WriteSetEntry =
  we_object_id :: TypedObjectId
  we_prior_version :: u64
  we_successor_version :: u64
  we_successor_value_hash :: hash32

record ResourceUsage =
  ru_resource_class :: u16
  ru_resource_id :: "u8 list"
  ru_meter_id :: "u8 list"
  ru_meter_version :: u32
  ru_amount :: u128
  ru_unit :: u16
  ru_measurement_commitment :: hash32

record FeeDelta =
  fd_source :: TypedObjectId
  fd_destination :: TypedObjectId
  fd_amount :: u128

record DestinationFeeCredit =
  fc_destination :: TypedObjectId
  fc_amount :: u128

record TransactionExecutionReceipt =
  tr_schema_version :: u16
  tr_transaction_id :: hash32
  tr_transaction_index :: u32
  tr_status :: ReceiptStatus
  tr_error_class :: "u16 option"
  tr_read_set :: "ReadSetEntry list"
  tr_write_set :: "WriteSetEntry list"
  tr_read_set_root :: hash32
  tr_write_set_root :: hash32
  tr_state_delta_root :: hash32
  tr_post_transaction_state_root :: hash32
  tr_resource_usage :: "ResourceUsage list"
  tr_fee_charged :: u128
  tr_refund_amount :: u128
  tr_fee_deltas :: "FeeDelta list"
  tr_conflict_set :: "TypedObjectId list"
  tr_retry_count :: u32

record MvccBlockReceipt =
  br_schema_version :: u16
  br_store_id :: hash32
  br_block_id :: hash32
  br_height :: u64
  br_parent_state_root :: hash32
  br_final_state_root :: hash32
  br_receipts_root :: hash32
  br_resource_totals_root :: hash32
  br_fee_deltas_root :: hash32
  br_mvcc_resolution_root :: hash32
  br_transaction_count :: u32
  br_receipts :: "TransactionExecutionReceipt list"
  br_resource_totals :: "ResourceUsage list"
  br_aggregated_fee_deltas :: "FeeDelta list"
  br_destination_credits :: "DestinationFeeCredit list"

section \<open>Derived serializers\<close>

definition enc_id :: "TypedObjectId \<Rightarrow> bval" where
  "enc_id i = BTuple [BU16 (fst i), BHash (snd i)]"

definition enc_context :: "ProtocolContext \<Rightarrow> bval" where
  "enc_context c = BTuple [enc_bytes (pc_chain_id c), BHash (pc_genesis_hash c), enc_bytes (pc_protocol_id c),
     BU32 (pc_protocol_version c), BHash (pc_profile_hash c)]"

definition enc_object :: "ObjectState \<Rightarrow> bval" where
  "enc_object x = BTuple [BU16 (os_schema_version x), enc_id (os_object_id x), BU64 (os_version x),
     BU128 (os_value x), BBool (os_closed x)]"

fun enc_program :: "ObjectProgram \<Rightarrow> bval" where
  "enc_program (Add target amount) = BEnum 0 [enc_id target, BU128 amount]"
| "enc_program (Transfer source destination amount) = BEnum 1 [enc_id source, enc_id destination, BU128 amount]"
| "enc_program (Revert error_class) = BEnum 2 [BU16 error_class]"

definition enc_transaction :: "MvccTransaction \<Rightarrow> bval" where
  "enc_transaction t = BTuple [BU16 (tx_schema_version t), BHash (tx_transaction_id t),
     BU32 (tx_transaction_index t), enc_id (tx_fee_payer t), enc_list enc_id (tx_declared_reads t),
     enc_list enc_id (tx_declared_writes t), BU128 (tx_compute_unit_limit t), BU128 (tx_max_fee t),
     enc_program (tx_program t)]"

fun enc_status :: "ReceiptStatus \<Rightarrow> bval" where
  "enc_status Success = BEnum 0 []"
| "enc_status Reverted = BEnum 1 []"
| "enc_status OutOfResource = BEnum 2 []"

definition enc_read :: "ReadSetEntry \<Rightarrow> bval" where
  "enc_read r = BTuple [enc_id (re_object_id r), BU64 (re_observed_version r), BHash (re_observed_value_hash r)]"

definition enc_write :: "WriteSetEntry \<Rightarrow> bval" where
  "enc_write w = BTuple [enc_id (we_object_id w), BU64 (we_prior_version w), BU64 (we_successor_version w),
     BHash (we_successor_value_hash w)]"

definition enc_usage :: "ResourceUsage \<Rightarrow> bval" where
  "enc_usage u = BTuple [BU16 (ru_resource_class u), enc_bytes (ru_resource_id u), enc_bytes (ru_meter_id u),
     BU32 (ru_meter_version u), BU128 (ru_amount u), BU16 (ru_unit u), BHash (ru_measurement_commitment u)]"

definition enc_delta :: "FeeDelta \<Rightarrow> bval" where
  "enc_delta d = BTuple [enc_id (fd_source d), enc_id (fd_destination d), BU128 (fd_amount d)]"

definition enc_credit :: "DestinationFeeCredit \<Rightarrow> bval" where
  "enc_credit c = BTuple [enc_id (fc_destination c), BU128 (fc_amount c)]"

definition enc_receipt :: "TransactionExecutionReceipt \<Rightarrow> bval" where
  "enc_receipt r = BTuple [BU16 (tr_schema_version r), BHash (tr_transaction_id r),
     BU32 (tr_transaction_index r), enc_status (tr_status r), enc_option BU16 (tr_error_class r),
     enc_list enc_read (tr_read_set r), enc_list enc_write (tr_write_set r), BHash (tr_read_set_root r),
     BHash (tr_write_set_root r), BHash (tr_state_delta_root r), BHash (tr_post_transaction_state_root r),
     enc_list enc_usage (tr_resource_usage r), BU128 (tr_fee_charged r), BU128 (tr_refund_amount r),
     enc_list enc_delta (tr_fee_deltas r), enc_list enc_id (tr_conflict_set r), BU32 (tr_retry_count r)]"

section \<open>The codec\<close>

definition canonical_bytes :: "crypto \<Rightarrow> bval \<Rightarrow> (u8 list, MvccError) result" where
  "canonical_bytes cr v = ok_or (borsh_to_vec cr v) NonCanonical"

definition digest_bytes :: "crypto \<Rightarrow> string \<Rightarrow> u8 list \<Rightarrow> (hash32, MvccError) result" where
  "digest_bytes cr domain bytes =
     (if domain = [] \<or> \<not> is_ascii domain then Err InvalidBounds
      else if length domain \<ge> 2 ^ 32 then Err ArithmeticOverflow
      else Ok (sha256 cr (digest_preimage domain bytes)))"

definition digest_value :: "crypto \<Rightarrow> string \<Rightarrow> bval \<Rightarrow> (hash32, MvccError) result" where
  "digest_value cr domain v = tryR (canonical_bytes cr v) (\<lambda>bytes. digest_bytes cr domain bytes)"

end
