(* ===== verification/Optimistic_Execution.thy ===== *)
theory Optimistic_Execution
  imports Ordered_Map
begin

text \<open>
  What the two parallel executors of \<open>trnm-mvcc-fee\<close> share: workers that visit every
  \<open>step\<close>-th transaction of the block and put their results into the slot of the transaction, and the
  argument that reusing a computation made on the parent state is as good as computing on the
  current state, provided the objects that were read have not been written since.
\<close>

section \<open>Workers\<close>

text \<open>The positions one worker visits: \<open>while position < len { ..; position += active_workers }\<close>.\<close>

function positions :: "nat \<Rightarrow> nat \<Rightarrow> nat \<Rightarrow> nat list" where
  "positions step n p = (if p < n \<and> 0 < step then p # positions step n (p + step) else [])"
  by pat_completeness auto
termination by (relation "measure (\<lambda>(step, n, p). n - p)") auto

declare positions.simps [simp del]

definition place_rows :: "'a option list \<Rightarrow> (nat \<times> 'a) list \<Rightarrow> 'a option list" where
  "place_rows slots rows = fold (\<lambda>(p, r) ss. ss[p := Some r]) rows slots"

lemma set_positions:
  "0 < step \<Longrightarrow> set (positions step n p) = {i. p \<le> i \<and> i < n \<and> i mod step = p mod step}"
proof (induction step n p rule: positions.induct)
  case (1 step n p)
  show ?case
  proof (cases "p < n")
    case True
    have "i = p \<or> p + step \<le> i" if "p \<le> i" "i mod step = p mod step" for i
    proof (rule ccontr)
      assume "\<not> (i = p \<or> p + step \<le> i)"
      with that have "0 < i - p" "i - p < step" by auto
      moreover from that have "(i - p) mod step = 0" by (metis mod_eq_dvd_iff_nat mod_0_imp_dvd dvd_imp_mod_0)
      ultimately show False by simp
    qed
    with True 1 show ?thesis by (subst positions.simps) auto
  next
    case False
    with 1 show ?thesis by (subst positions.simps) auto
  qed
qed

lemma length_place_rows [simp]: "length (place_rows slots rows) = length slots"
  unfolding place_rows_def by (induction rows arbitrary: slots) (auto split: prod.splits)

lemma nth_place_rows:
  assumes "q < length slots"
  shows "place_rows slots (map (\<lambda>p. (p, f p)) ps) ! q = (if q \<in> set ps then Some (f q) else slots ! q)"
  using assms unfolding place_rows_def
  by (induction ps arbitrary: slots) (auto simp: nth_list_update)

text \<open>Together the workers fill every slot, each with the result for its own position.\<close>

lemma place_all:
  assumes "0 < active"
  shows "fold (\<lambda>w slots. place_rows slots (map (\<lambda>p. (p, f p)) (positions active n w))) [0..<active] (replicate n None) =
    map (\<lambda>p. Some (f p)) [0..<n]"
proof -
  let ?F = "\<lambda>ws. fold (\<lambda>w slots. place_rows slots (map (\<lambda>p. (p, f p)) (positions active n w))) ws (replicate n None)"
  have len: "length (?F ws) = n" for ws
    by (induction ws rule: rev_induct) simp_all
  have nth: "?F ws ! q = (if \<exists>w \<in> set ws. q \<in> set (positions active n w) then Some (f q) else None)"
    if "q < n" for ws q
    using that by (induction ws rule: rev_induct) (simp_all add: nth_place_rows len)
  show ?thesis
  proof (rule nth_equalityI)
    show "length (?F [0..<active]) = length (map (\<lambda>p. Some (f p)) [0..<n])" by (simp add: len)
  next
    fix q assume "q < length (?F [0..<active])"
    then have q: "q < n" by (simp add: len)
    with assms have "q \<in> set (positions active n (q mod active))" "q mod active \<in> set [0..<active]"
      by (simp_all add: set_positions mod_less_eq_dividend)
    with q show "?F [0..<active] ! q = map (\<lambda>p. Some (f p)) [0..<n] ! q"
      by (auto simp: nth)
  qed
qed

section \<open>Versions\<close>

text \<open>Every entry of a map is as before, or has a higher version.\<close>

definition advances_by :: "('v \<Rightarrow> 'n::linorder) \<Rightarrow> ('k::linorder, 'v) btree \<Rightarrow> ('k, 'v) btree \<Rightarrow> bool" where
  "advances_by ver m0 m \<longleftrightarrow> (\<forall>i. bt_get m i = bt_get m0 i \<or>
     (\<exists>x y. bt_get m0 i = Some x \<and> bt_get m i = Some y \<and> ver x < ver y))"

lemma advances_byD: "advances_by ver m0 m \<Longrightarrow> bt_get m i = bt_get m0 i \<or>
     (\<exists>x y. bt_get m0 i = Some x \<and> bt_get m i = Some y \<and> ver x < ver y)"
  by (simp only: advances_by_def)

lemma advances_by_refl [simp]: "advances_by ver m m"
  by (simp add: advances_by_def)

lemma advances_by_trans:
  assumes "advances_by ver a b" "advances_by ver b c"
  shows "advances_by ver a c"
  unfolding advances_by_def
proof
  fix i
  show "bt_get c i = bt_get a i \<or> (\<exists>x y. bt_get a i = Some x \<and> bt_get c i = Some y \<and> ver x < ver y)"
    using advances_byD [OF assms(1), of i] advances_byD [OF assms(2), of i] by (auto dest: less_trans)
qed

lemma advances_by_insert: "bt_get m i = Some x \<Longrightarrow> ver x < ver y \<Longrightarrow> advances_by ver m (bt_insert i y m)"
  by (simp add: advances_by_def)

lemma advances_by_same_version:
  "advances_by ver m0 m \<Longrightarrow> map_option ver (bt_get m0 i) = map_option ver (bt_get m i) \<Longrightarrow> bt_get m0 i = bt_get m i"
  using advances_byD [of ver m0 m i] by auto

lemma advances_by_None: "advances_by ver m0 m \<Longrightarrow> bt_get m i = None \<longleftrightarrow> bt_get m0 i = None"
  using advances_byD [of ver m0 m i] by auto

section \<open>Reusing a speculative computation\<close>

text \<open>
  A state, the reads of a transaction on it, a computation from those reads, and its commit.
  \<open>advances s0 s\<close> says that s comes after s0 in the same block. The law \<open>clean_reuse\<close> is what makes
  speculation sound: reads that did not change give the same computation.
\<close>

locale optimistic =
  fixes reads :: "'s \<Rightarrow> 't \<Rightarrow> ('r, 'e) result"
    and clean :: "'r \<Rightarrow> 'r \<Rightarrow> bool"
    and compute :: "'s \<Rightarrow> 't \<Rightarrow> 'r \<Rightarrow> ('c, 'e) result"
    and commit :: "'s \<Rightarrow> 't \<Rightarrow> 'r \<Rightarrow> 'r \<Rightarrow> 'c \<Rightarrow> ('s, 'e) result"
    and advances :: "'s \<Rightarrow> 's \<Rightarrow> bool"
    and admissible :: "'t \<Rightarrow> bool"
  assumes advances_refl: "advances s s"
    and commit_advances: "\<lbrakk>advances s0 s; admissible t; reads s t = Ok r; compute s t r = Ok c;
      commit s t r0 r c = Ok s'\<rbrakk> \<Longrightarrow> advances s0 s'"
    and clean_reuse: "\<lbrakk>advances s0 s; admissible t; reads s0 t = Ok r0; reads s t = Ok r; clean r0 r\<rbrakk> \<Longrightarrow>
      compute s0 t r0 = compute s t r"
begin

definition sequential_step :: "'s \<Rightarrow> 't \<times> 'r \<Rightarrow> ('s, 'e) result" where
  "sequential_step s row = tryR (reads s (fst row)) (\<lambda>r.
     tryR (compute s (fst row) r) (\<lambda>c. commit s (fst row) (snd row) r c))"

definition reusing_step :: "'s \<Rightarrow> 't \<times> 'r \<times> ('c, 'e) result \<Rightarrow> ('s, 'e) result" where
  "reusing_step s row = (case row of (t, r0, c0) \<Rightarrow> tryR (reads s t) (\<lambda>r.
     tryR (if clean r0 r then c0 else compute s t r) (\<lambda>c. commit s t r0 r c)))"

lemma sequential_advances:
  "advances s0 s \<Longrightarrow> admissible (fst row) \<Longrightarrow> sequential_step s row = Ok s' \<Longrightarrow> advances s0 s'"
  by (auto simp: sequential_step_def result_simps intro: commit_advances)

lemma step_reuse:
  assumes "advances s0 s" "admissible t" "reads s0 t = Ok r0"
  shows "reusing_step s (t, r0, compute s0 t r0) = sequential_step s (t, r0)"
proof (cases "reads s t")
  case (Ok r)
  with clean_reuse [OF assms Ok] show ?thesis
    by (simp add: reusing_step_def sequential_step_def tryR_def)
qed (simp add: reusing_step_def sequential_step_def tryR_def)

lemma loop_reuse:
  assumes "advances s0 s" "\<forall>t \<in> set ts. admissible t" "list_all2 (\<lambda>t r0. reads s0 t = Ok r0) ts rs"
  shows "try_fold reusing_step s (map (\<lambda>(t, r0). (t, r0, compute s0 t r0)) (zip ts rs)) =
    try_fold sequential_step s (zip ts rs)"
  using assms(3,1,2)
proof (induction ts rs arbitrary: s rule: list_all2_induct)
  case (Cons t ts r0 rs)
  then have eq: "reusing_step s (t, r0, compute s0 t r0) = sequential_step s (t, r0)"
    by (intro step_reuse) auto
  show ?case
  proof (cases "sequential_step s (t, r0)")
    case (Ok s')
    with Cons.prems sequential_advances [of s0 s "(t, r0)" s'] have "advances s0 s'" by auto
    with Cons Ok eq show ?thesis by (simp add: tryR_def)
  next
    case (Err e)
    with eq show ?thesis by (simp add: tryR_def)
  qed
qed simp

end

end
