(* ===== verification/Mvcc_Engine.thy ===== *)
theory Mvcc_Engine
  imports Mvcc_Types Optimistic_Execution
begin

text \<open>
  The execution engine of \<open>trnm-mvcc-fee\<close> (module \<open>engine\<close>): validation of genesis and blocks, the
  computation of one transaction against a snapshot, its commit, the sequential block execution,
  and the execution by speculating workers. External libraries are in the parameter \<open>cr\<close>.
  A panic is the error \<open>Panicked\<close>.
\<close>

type_synonym ObjectMap = "(TypedObjectId, ObjectState) btree"
type_synonym PendingFees = "(TypedObjectId \<times> TypedObjectId, u128) btree"

section \<open>Identifiers and validation\<close>

definition MAX_TRANSACTIONS :: nat where "MAX_TRANSACTIONS = 256"
definition MAX_ACCESS_WIDTH :: nat where "MAX_ACCESS_WIDTH = 64"
definition MAX_EXECUTION_WORKERS :: nat where "MAX_EXECUTION_WORKERS = 64"

definition validate_worker_count :: "nat \<Rightarrow> (unit, MvccError) result" where
  "validate_worker_count workers =
     (if workers = 0 \<or> workers > MAX_EXECUTION_WORKERS then Err InvalidBounds else Ok ())"

definition derive_transaction_id :: "crypto \<Rightarrow> MvccTransaction \<Rightarrow> (hash32, MvccError) result" where
  "derive_transaction_id cr t =
     digest_value cr ''trnm.portable.v2.mvcc-transaction.candidate.v1''
       (BTuple [BU16 (tx_schema_version t), BU32 (tx_transaction_index t), enc_id (tx_fee_payer t),
          enc_list enc_id (tx_declared_reads t), enc_list enc_id (tx_declared_writes t),
          BU128 (tx_compute_unit_limit t), BU128 (tx_max_fee t), enc_program (tx_program t)])"

definition derive_block_id :: "crypto \<Rightarrow> MvccBlock \<Rightarrow> (hash32, MvccError) result" where
  "derive_block_id cr b =
     digest_value cr ''trnm.portable.v2.mvcc-block.candidate.v1''
       (BTuple [BU16 (mb_schema_version b), enc_context (mb_context b), BU64 (mb_height b),
          BU64 (mb_expected_parent_height b), BHash (mb_expected_parent_block_id b),
          BHash (mb_expected_parent_state_root b), enc_list enc_transaction (mb_transactions b)])"

definition require_strict :: "('a \<Rightarrow> 'k::linorder) \<Rightarrow> 'a list \<Rightarrow> (unit, MvccError) result" where
  "require_strict key xs = (if \<not> strictly_sorted_by key xs then Err NonCanonical else Ok ())"

definition expected_classes :: "(u16 \<times> u16) list" where
  "expected_classes = [(RESOURCE_ORDERED_BYTES, UNIT_BYTE), (RESOURCE_STATE_READ_BYTES, UNIT_BYTE),
     (RESOURCE_STATE_WRITE_BYTES, UNIT_BYTE), (RESOURCE_COMPUTE_UNITS, UNIT_COMPUTE)]"

definition validate_price :: "ResourcePrice \<times> (u16 \<times> u16) \<Rightarrow> (unit, MvccError) result" where
  "validate_price pe = (case pe of (p, expected) \<Rightarrow>
     if (rp_resource_class p, rp_unit p) \<noteq> expected \<or> rp_resource_id p \<noteq> [] \<or>
        rp_price_denominator p = 0 \<or> rp_minimum_charge p > rp_maximum_charge p
     then Err InvalidBounds else Ok ())"

definition validate_genesis :: "MvccFeeGenesis \<Rightarrow> (unit, MvccError) result" where
  "validate_genesis g =
     (if mg_schema_version g \<noteq> SCHEMA_VERSION \<or> pc_chain_id (mg_context g) = [] \<or>
         pc_protocol_id (mg_context g) \<noteq> ascii ''trnm-portable-application-v2'' \<or>
         pc_protocol_version (mg_context g) \<noteq> 1 \<or> pc_genesis_hash (mg_context g) = 0 \<or>
         pc_profile_hash (mg_context g) = 0 \<or> mg_store_id g = 0 \<or> mg_initial_block_id g = 0 \<or>
         mg_initial_objects g = [] \<or> length (mg_resource_prices g) \<noteq> 4 \<or> mg_destination_splits g = []
      then Err InvalidBounds
      else
        tryR (require_strict os_object_id (mg_initial_objects g)) (\<lambda>_.
        if list_ex (\<lambda>x. os_schema_version x \<noteq> SCHEMA_VERSION \<or> os_closed x) (mg_initial_objects g)
        then Err InvalidState
        else
          tryR (require_strict (\<lambda>p. (rp_resource_class p, rp_resource_id p, rp_unit p)) (mg_resource_prices g)) (\<lambda>_.
          tryR (try_fold (\<lambda>_ pe. validate_price pe) () (zip (mg_resource_prices g) expected_classes)) (\<lambda>_.
          tryR (require_strict fs_destination (mg_destination_splits g)) (\<lambda>_.
          (case mg_destination_splits g of [] \<Rightarrow> Err Panicked | first # _ \<Rightarrow>
             let denominator = fs_denominator first
             in if denominator = 0 \<or>
                   list_ex (\<lambda>s. fs_denominator s \<noteq> denominator \<or> fs_numerator s = 0) (mg_destination_splits g) \<or>
                   \<not> list_ex (\<lambda>s. fs_destination s = mg_remainder_destination g) (mg_destination_splits g)
                then Err InvalidBounds
                else
                  tryR (try_fold (\<lambda>sum s. ok_or (checked_add sum (fs_numerator s)) ArithmeticOverflow) 0
                          (mg_destination_splits g)) (\<lambda>numerator_sum.
                  if numerator_sum \<noteq> denominator then Err ConservationViolation
                  else if list_ex (\<lambda>s. fs_destination s \<notin> set (map os_object_id (mg_initial_objects g)))
                            (mg_destination_splits g)
                  then Err NotFound
                  else Ok ())))))))"

definition state_root :: "crypto \<Rightarrow> ObjectMap \<Rightarrow> (hash32, MvccError) result" where
  "state_root cr objects =
     digest_value cr ''trnm.portable.v2.mvcc-object-state-root.candidate.v1''
       (enc_list enc_object (bt_values objects))"

definition derive_state_root :: "crypto \<Rightarrow> ObjectState list \<Rightarrow> (hash32, MvccError) result" where
  "derive_state_root cr objects =
     tryR (require_strict os_object_id objects) (\<lambda>_.
     state_root cr (bt_of_list (map (\<lambda>x. (os_object_id x, x)) objects)))"

definition value_hash :: "crypto \<Rightarrow> ObjectState \<Rightarrow> (hash32, MvccError) result" where
  "value_hash cr x = digest_value cr ''trnm.portable.v2.mvcc-object-value.candidate.v1'' (enc_object x)"

definition accessed_ids :: "MvccTransaction \<Rightarrow> (TypedObjectId list, MvccError) result" where
  "accessed_ids t =
     (case tx_program t of
        Add target _ \<Rightarrow>
          if target = tx_fee_payer t then Err DuplicateAccess else Ok [tx_fee_payer t, target]
      | Transfer source destination _ \<Rightarrow>
          if source = destination \<or> source = tx_fee_payer t \<or> destination = tx_fee_payer t
          then Err DuplicateAccess else Ok [tx_fee_payer t, source, destination]
      | Revert _ \<Rightarrow> Ok [tx_fee_payer t])"

definition expected_access :: "MvccTransaction \<Rightarrow> (TypedObjectId list \<times> TypedObjectId list, MvccError) result" where
  "expected_access t = tryR (accessed_ids t) (\<lambda>ids. Ok (sort ids, sort ids))"

text \<open>The body of the loop of \<open>validate_block\<close>, over the ids seen so far.\<close>

definition validate_transaction :: "crypto \<Rightarrow> MvccFeeGenesis \<Rightarrow> hash32 set \<Rightarrow> nat \<times> MvccTransaction \<Rightarrow> (hash32 set, MvccError) result" where
  "validate_transaction cr g seen it = (case it of (i, t) \<Rightarrow>
     if i \<ge> 2 ^ 32 then Err ArithmeticOverflow
     else if tx_schema_version t \<noteq> SCHEMA_VERSION \<or> tx_transaction_index t \<noteq> word_of_nat i \<or> tx_transaction_id t = 0
     then Err InvalidBounds
     else
       tryR (derive_transaction_id cr t) (\<lambda>derived.
       if tx_transaction_id t \<noteq> derived \<or> tx_transaction_id t \<in> seen \<or> tx_compute_unit_limit t = 0 \<or>
          tx_max_fee t = 0 \<or> length (tx_declared_reads t) > MAX_ACCESS_WIDTH \<or>
          length (tx_declared_writes t) > MAX_ACCESS_WIDTH \<or>
          tx_fee_payer t \<in> set (map fs_destination (mg_destination_splits g))
       then Err InvalidBounds
       else
         tryR (require_strict id (tx_declared_reads t)) (\<lambda>_.
         tryR (require_strict id (tx_declared_writes t)) (\<lambda>_.
         tryR (expected_access t) (\<lambda>(reads, writes).
         if tx_declared_reads t \<noteq> reads \<or> tx_declared_writes t \<noteq> writes then Err UndeclaredAccess
         else Ok (insert (tx_transaction_id t) seen))))))"

definition validate_block :: "crypto \<Rightarrow> MvccFeeGenesis \<Rightarrow> ObjectMap \<Rightarrow> MvccBlock \<Rightarrow> (unit, MvccError) result" where
  "validate_block cr g parent b =
     (if mb_schema_version b \<noteq> SCHEMA_VERSION \<or> mb_context b \<noteq> mg_context g \<or> mb_block_id b = 0 \<or>
         mb_transactions b = [] \<or> length (mb_transactions b) > MAX_TRANSACTIONS
      then Err InvalidContext
      else
        tryR (state_root cr parent) (\<lambda>root.
        if mb_expected_parent_state_root b \<noteq> root then Err InvalidContext
        else
          tryR (derive_block_id cr b) (\<lambda>derived.
          if mb_block_id b \<noteq> derived then Err InvalidContext
          else
            tryR (try_fold (validate_transaction cr g) {} (enumerate 0 (mb_transactions b))) (\<lambda>_. Ok ()))))"

section \<open>Reads\<close>

definition read_entry :: "crypto \<Rightarrow> ObjectMap \<Rightarrow> TypedObjectId \<Rightarrow> (ReadSetEntry, MvccError) result" where
  "read_entry cr state i =
     tryR (ok_or (bt_get state i) NotFound) (\<lambda>x.
     if os_closed x then Err InvalidState
     else tryR (value_hash cr x) (\<lambda>h.
       Ok \<lparr>re_object_id = i, re_observed_version = os_version x, re_observed_value_hash = h\<rparr>))"

definition read_set :: "crypto \<Rightarrow> ObjectMap \<Rightarrow> MvccTransaction \<Rightarrow> (ReadSetEntry list, MvccError) result" where
  "read_set cr state t = collect (read_entry cr state) (tx_declared_reads t)"

definition conflicting_objects :: "ReadSetEntry list \<Rightarrow> ReadSetEntry list \<Rightarrow> TypedObjectId list" where
  "conflicting_objects initial current =
     map (\<lambda>(l, r). re_object_id r)
       (filter (\<lambda>(l, r). re_observed_version l \<noteq> re_observed_version r \<or>
                         re_observed_value_hash l \<noteq> re_observed_value_hash r) (zip initial current))"

section \<open>Fees\<close>

definition u128_of_len :: "nat \<Rightarrow> (u128, MvccError) result" where
  "u128_of_len n = (if n \<ge> 2 ^ 128 then Err ArithmeticOverflow else Ok (word_of_nat n))"

definition byte_len :: "crypto \<Rightarrow> bval \<Rightarrow> (u128, MvccError) result" where
  "byte_len cr v = tryR (canonical_bytes cr v) (\<lambda>bs. u128_of_len (length bs))"

text \<open>The charge of one resource: the rounded-up price, clamped; a zero denominator would panic.\<close>

definition resource_charge :: "ResourcePrice \<Rightarrow> ResourceUsage \<Rightarrow> (u128, MvccError) result" where
  "resource_charge p u =
     (if (rp_resource_class p, rp_resource_id p, rp_unit p) \<noteq> (ru_resource_class u, ru_resource_id u, ru_unit u)
      then Err InvalidState
      else
        tryR (ok_or (checked_mul (ru_amount u) (rp_price_numerator p)) ArithmeticOverflow) (\<lambda>numerator.
        if rp_price_denominator p = 0 then Err Panicked
        else
          tryR (ok_or (checked_add (numerator div rp_price_denominator p)
                  (if numerator mod rp_price_denominator p \<noteq> 0 then 1 else 0)) ArithmeticOverflow) (\<lambda>rounded.
          if rp_minimum_charge p > rp_maximum_charge p then Err Panicked
          else Ok (if rounded < rp_minimum_charge p then rp_minimum_charge p
                   else if rounded > rp_maximum_charge p then rp_maximum_charge p else rounded))))"

definition calculate_fee :: "ResourcePrice list \<Rightarrow> ResourceUsage list \<Rightarrow> (u128, MvccError) result" where
  "calculate_fee prices usage =
     try_fold (\<lambda>sum (p, u).
       tryR (resource_charge p u) (\<lambda>charge. ok_or (checked_add sum charge) ArithmeticOverflow))
       0 (zip prices usage)"

text \<open>The first loop of \<open>split_fee\<close>, then the remainder goes to its destination.\<close>

definition split_step :: "TypedObjectId \<Rightarrow> u128 \<Rightarrow> FeeDelta list \<times> u128 \<Rightarrow> FeeDestinationSplit \<Rightarrow>
    (FeeDelta list \<times> u128, MvccError) result" where
  "split_step source fee acc s = (case acc of (output, assigned) \<Rightarrow>
     tryR (ok_or (checked_mul fee (fs_numerator s)) ArithmeticOverflow) (\<lambda>prod.
     if fs_denominator s = 0 then Err Panicked
     else
       let amount = prod div fs_denominator s
       in tryR (ok_or (checked_add assigned amount) ArithmeticOverflow) (\<lambda>assigned'.
          Ok (output @ [\<lparr>fd_source = source, fd_destination = fs_destination s, fd_amount = amount\<rparr>], assigned'))))"

fun add_remainder :: "TypedObjectId \<Rightarrow> u128 \<Rightarrow> FeeDelta list \<Rightarrow> (FeeDelta list, MvccError) result" where
  "add_remainder dest r [] = Err InvalidState"
| "add_remainder dest r (d # ds) =
     (if fd_destination d = dest
      then tryR (ok_or (checked_add (fd_amount d) r) ArithmeticOverflow) (\<lambda>amount. Ok (d\<lparr>fd_amount := amount\<rparr> # ds))
      else tryR (add_remainder dest r ds) (\<lambda>ds'. Ok (d # ds')))"

definition split_fee :: "MvccFeeGenesis \<Rightarrow> TypedObjectId \<Rightarrow> u128 \<Rightarrow> (FeeDelta list, MvccError) result" where
  "split_fee g source fee =
     tryR (try_fold (split_step source fee) ([], 0) (mg_destination_splits g)) (\<lambda>(output, assigned).
     tryR (ok_or (checked_sub fee assigned) ConservationViolation) (\<lambda>remainder.
     tryR (add_remainder (mg_remainder_destination g) remainder output) (\<lambda>output'.
     tryR (try_fold (\<lambda>sum d. ok_or (checked_add sum (fd_amount d)) ArithmeticOverflow) 0 output') (\<lambda>total.
     if total \<noteq> fee then Err ConservationViolation else Ok output'))))"

section \<open>One transaction\<close>

record TransactionComputation =
  tc_successors :: ObjectMap
  tc_status :: ReceiptStatus
  tc_error_class :: "u16 option"
  tc_read_set :: "ReadSetEntry list"
  tc_write_set :: "WriteSetEntry list"
  tc_read_set_root :: hash32
  tc_write_set_root :: hash32
  tc_state_delta_root :: hash32
  tc_resource_usage :: "ResourceUsage list"
  tc_fee_charged :: u128
  tc_refund_amount :: u128
  tc_fee_deltas :: "FeeDelta list"

fun required_compute :: "ObjectProgram \<Rightarrow> u128" where
  "required_compute (Add _ _) = 10"
| "required_compute (Transfer _ _ _) = 20"
| "required_compute (Revert _) = 5"

definition program_outcome :: "MvccTransaction \<Rightarrow> ReceiptStatus \<times> u16 option \<times> u128" where
  "program_outcome t =
     (case tx_program t of
        Revert error_class \<Rightarrow> (Reverted, Some error_class, required_compute (tx_program t))
      | _ \<Rightarrow>
          if tx_compute_unit_limit t < required_compute (tx_program t)
          then (OutOfResource, Some 1, tx_compute_unit_limit t)
          else (Success, None, required_compute (tx_program t)))"

fun app_write_count :: "ObjectProgram \<Rightarrow> ReceiptStatus \<Rightarrow> nat" where
  "app_write_count (Add _ _) Success = 1"
| "app_write_count (Transfer _ _ _) Success = 2"
| "app_write_count _ _ = 0"

text \<open>The metered resources: ordered, read and written bytes, and compute units.\<close>

definition read_bytes :: "crypto \<Rightarrow> ObjectMap \<Rightarrow> ReadSetEntry list \<Rightarrow> (u128, MvccError) result" where
  "read_bytes cr state reads =
     try_fold (\<lambda>sum r.
       tryR (ok_or (bt_get state (re_object_id r)) Panicked) (\<lambda>x.
       tryR (byte_len cr (enc_object x)) (\<lambda>len. ok_or (checked_add sum len) ArithmeticOverflow))) 0 reads"

definition measure_usage :: "crypto \<Rightarrow> MvccTransaction \<Rightarrow> u16 \<times> u16 \<times> u128 \<Rightarrow> (ResourceUsage, MvccError) result" where
  "measure_usage cr t v = (case v of (class, unit, amount) \<Rightarrow>
     tryR (digest_value cr ''trnm.portable.v2.resource-measurement.candidate.v1''
       (BTuple [BHash (tx_transaction_id t), BU32 (tx_transaction_index t), BU16 class, BU128 amount, BU16 unit])) (\<lambda>commitment.
     Ok \<lparr>ru_resource_class = class, ru_resource_id = [], ru_meter_id = ascii ''trnm-reference-meter'',
         ru_meter_version = 1, ru_amount = amount, ru_unit = unit, ru_measurement_commitment = commitment\<rparr>))"

definition resource_usage :: "crypto \<Rightarrow> ObjectMap \<Rightarrow> MvccTransaction \<Rightarrow> ReadSetEntry list \<Rightarrow> (ResourceUsage list, MvccError) result" where
  "resource_usage cr state t reads =
     (let (status, error_class, charged_compute) = program_outcome t
      in tryR (read_bytes cr state reads) (\<lambda>rbytes.
         tryR (ok_or (bt_get state (tx_fee_payer t)) NotFound) (\<lambda>payer.
         tryR (byte_len cr (enc_object payer)) (\<lambda>object_size.
         tryR (ok_or (checked_mul object_size (word_of_nat (app_write_count (tx_program t) status + 1))) ArithmeticOverflow) (\<lambda>wbytes.
         tryR (byte_len cr (enc_transaction t)) (\<lambda>obytes.
         collect (measure_usage cr t)
           [(RESOURCE_ORDERED_BYTES, UNIT_BYTE, obytes), (RESOURCE_STATE_READ_BYTES, UNIT_BYTE, rbytes),
            (RESOURCE_STATE_WRITE_BYTES, UNIT_BYTE, wbytes), (RESOURCE_COMPUTE_UNITS, UNIT_COMPUTE, charged_compute)]))))))"

definition bump_version :: "ObjectState \<Rightarrow> (ObjectState, MvccError) result" where
  "bump_version x = tryR (ok_or (checked_add (os_version x) 1) ArithmeticOverflow) (\<lambda>n. Ok (x\<lparr>os_version := n\<rparr>))"

definition program_successors :: "ObjectMap \<Rightarrow> ObjectProgram \<Rightarrow> (ObjectMap, MvccError) result" where
  "program_successors state p =
     (case p of
        Add target amount \<Rightarrow>
          tryR (ok_or (bt_get state target) NotFound) (\<lambda>x.
          tryR (ok_or (checked_add (os_value x) amount) ArithmeticOverflow) (\<lambda>v.
          tryR (bump_version (x\<lparr>os_value := v\<rparr>)) (\<lambda>x'.
          Ok (bt_insert target x' bt_empty))))
      | Transfer source destination amount \<Rightarrow>
          tryR (ok_or (bt_get state source) NotFound) (\<lambda>from.
          tryR (ok_or (bt_get state destination) NotFound) (\<lambda>to.
          if os_value from < amount then Err InsufficientFunds
          else
            tryR (ok_or (checked_sub (os_value from) amount) ArithmeticOverflow) (\<lambda>vf.
            tryR (ok_or (checked_add (os_value to) amount) ArithmeticOverflow) (\<lambda>vt.
            tryR (bump_version (from\<lparr>os_value := vf\<rparr>)) (\<lambda>from'.
            tryR (bump_version (to\<lparr>os_value := vt\<rparr>)) (\<lambda>to'.
            Ok (bt_insert destination to' (bt_insert source from' bt_empty))))))))
      | Revert _ \<Rightarrow> Err Panicked)"

definition write_entry :: "crypto \<Rightarrow> ObjectMap \<Rightarrow> TypedObjectId \<times> ObjectState \<Rightarrow> (WriteSetEntry, MvccError) result" where
  "write_entry cr state e = (case e of (i, successor) \<Rightarrow>
     tryR (ok_or (bt_get state i) Panicked) (\<lambda>prior.
     tryR (value_hash cr successor) (\<lambda>h.
     Ok \<lparr>we_object_id = i, we_prior_version = os_version prior, we_successor_version = os_version successor,
         we_successor_value_hash = h\<rparr>)))"

definition compute_transaction :: "crypto \<Rightarrow> MvccFeeGenesis \<Rightarrow> ObjectMap \<Rightarrow> MvccTransaction \<Rightarrow> ReadSetEntry list \<Rightarrow>
    (TransactionComputation, MvccError) result" where
  "compute_transaction cr g state t reads =
     (let (status, error_class, _) = program_outcome t
      in tryR (resource_usage cr state t reads) (\<lambda>usage.
         tryR (calculate_fee (mg_resource_prices g) usage) (\<lambda>fee.
         if fee > tx_max_fee t then Err FeeLimitExceeded
         else
           tryR (ok_or (bt_get state (tx_fee_payer t)) NotFound) (\<lambda>payer.
           if os_value payer < fee then Err InsufficientFunds
           else
             tryR (if status = Success then program_successors state (tx_program t) else Ok bt_empty) (\<lambda>successors.
             tryR (ok_or (checked_sub (os_value payer) fee) ArithmeticOverflow) (\<lambda>pv.
             tryR (bump_version (payer\<lparr>os_value := pv\<rparr>)) (\<lambda>payer'.
               let successors' = bt_insert (tx_fee_payer t) payer' successors
               in tryR (collect (write_entry cr state) (entries successors')) (\<lambda>writes.
                  tryR (split_fee g (tx_fee_payer t) fee) (\<lambda>deltas.
                  tryR (digest_value cr ''trnm.portable.v2.read-set-root.candidate.v1'' (enc_list enc_read reads)) (\<lambda>rroot.
                  tryR (digest_value cr ''trnm.portable.v2.write-set-root.candidate.v1'' (enc_list enc_write writes)) (\<lambda>wroot.
                  tryR (digest_value cr ''trnm.portable.v2.state-delta-root.candidate.v1'' (enc_list enc_write writes)) (\<lambda>droot.
                  tryR (ok_or (checked_sub (tx_max_fee t) fee) ArithmeticOverflow) (\<lambda>refund.
                  Ok \<lparr>tc_successors = successors', tc_status = status, tc_error_class = error_class,
                      tc_read_set = reads, tc_write_set = writes, tc_read_set_root = rroot,
                      tc_write_set_root = wroot, tc_state_delta_root = droot, tc_resource_usage = usage,
                      tc_fee_charged = fee, tc_refund_amount = refund, tc_fee_deltas = deltas\<rparr>)))))))))))))"

text \<open>\<open>let slot = m.entry(k).or_default(); *slot = slot.checked_add(v)?\<close>\<close>

definition add_slot :: "'k::linorder \<Rightarrow> u128 \<Rightarrow> ('k, u128) btree \<Rightarrow> (('k, u128) btree, MvccError) result" where
  "add_slot k v m =
     tryR (ok_or (checked_add (case bt_get m k of None \<Rightarrow> 0 | Some x \<Rightarrow> x) v) ArithmeticOverflow) (\<lambda>s.
     Ok (bt_insert k s m))"

definition reduce_pending_fees :: "PendingFees \<Rightarrow> FeeDelta list" where
  "reduce_pending_fees pending =
     map (\<lambda>((source, destination), amount). \<lparr>fd_source = source, fd_destination = destination, fd_amount = amount\<rparr>)
       (entries pending)"

definition commit_computed_transaction :: "crypto \<Rightarrow> ObjectMap \<Rightarrow> PendingFees \<Rightarrow> MvccTransaction \<Rightarrow>
    TransactionComputation \<Rightarrow> TypedObjectId list \<Rightarrow>
    (ObjectMap \<times> PendingFees \<times> TransactionExecutionReceipt, MvccError) result" where
  "commit_computed_transaction cr state pending t c conflict_set =
     (let state' = fold (\<lambda>(i, x). bt_insert i x) (entries (tc_successors c)) state
      in tryR (try_fold (\<lambda>m d. add_slot (fd_source d, fd_destination d) (fd_amount d) m) pending (tc_fee_deltas c)) (\<lambda>pending'.
         tryR (digest_value cr ''trnm.portable.v2.mvcc-intermediate-state-root.candidate.v1''
                (BTuple [enc_list enc_object (bt_values state'), enc_list enc_delta (reduce_pending_fees pending')])) (\<lambda>root.
         Ok (state', pending',
           \<lparr>tr_schema_version = SCHEMA_VERSION, tr_transaction_id = tx_transaction_id t,
            tr_transaction_index = tx_transaction_index t, tr_status = tc_status c,
            tr_error_class = tc_error_class c, tr_read_set = tc_read_set c, tr_write_set = tc_write_set c,
            tr_read_set_root = tc_read_set_root c, tr_write_set_root = tc_write_set_root c,
            tr_state_delta_root = tc_state_delta_root c, tr_post_transaction_state_root = root,
            tr_resource_usage = tc_resource_usage c, tr_fee_charged = tc_fee_charged c,
            tr_refund_amount = tc_refund_amount c, tr_fee_deltas = tc_fee_deltas c,
            tr_conflict_set = conflict_set, tr_retry_count = (if conflict_set \<noteq> [] then 1 else 0)\<rparr>))))"

section \<open>A block\<close>

definition reduce_destination_credits :: "FeeDelta list \<Rightarrow> (DestinationFeeCredit list, MvccError) result" where
  "reduce_destination_credits deltas =
     tryR (try_fold (\<lambda>m d. add_slot (fd_destination d) (fd_amount d) m) bt_empty deltas) (\<lambda>credits.
     Ok (map (\<lambda>(destination, amount). \<lparr>fc_destination = destination, fc_amount = amount\<rparr>) (entries credits)))"

definition apply_credit :: "ObjectMap \<Rightarrow> DestinationFeeCredit \<Rightarrow> (ObjectMap, MvccError) result" where
  "apply_credit state c =
     tryR (ok_or (bt_get state (fc_destination c)) NotFound) (\<lambda>x.
     tryR (ok_or (checked_add (os_value x) (fc_amount c)) ArithmeticOverflow) (\<lambda>v.
     tryR (bump_version (x\<lparr>os_value := v\<rparr>)) (\<lambda>x'.
     Ok (bt_insert (fc_destination c) x' state))))"

definition apply_destination_credits :: "ObjectMap \<Rightarrow> DestinationFeeCredit list \<Rightarrow> (ObjectMap, MvccError) result" where
  "apply_destination_credits state credits = try_fold apply_credit state credits"

type_synonym ResourceAggregationKey = "u16 \<times> u8 list \<times> u8 list \<times> u32 \<times> u16"

definition resource_key :: "ResourceUsage \<Rightarrow> ResourceAggregationKey" where
  "resource_key u = (ru_resource_class u, ru_resource_id u, ru_meter_id u, ru_meter_version u, ru_unit u)"

definition resource_total :: "crypto \<Rightarrow> ResourceAggregationKey \<times> u128 \<Rightarrow> (ResourceUsage, MvccError) result" where
  "resource_total cr e = (case e of ((class, rid, meter, version, unit), amount) \<Rightarrow>
     tryR (digest_value cr ''trnm.portable.v2.block-resource-total.candidate.v1''
             (BTuple [BU16 class, BU128 amount, BU16 unit])) (\<lambda>commitment.
     Ok \<lparr>ru_resource_class = class, ru_resource_id = rid, ru_meter_id = meter, ru_meter_version = version,
         ru_amount = amount, ru_unit = unit, ru_measurement_commitment = commitment\<rparr>))"

definition aggregate_resources :: "crypto \<Rightarrow> TransactionExecutionReceipt list \<Rightarrow> (ResourceUsage list, MvccError) result" where
  "aggregate_resources cr receipts =
     tryR (try_fold (\<lambda>m u. add_slot (resource_key u) (ru_amount u) m) bt_empty
             (concat (map tr_resource_usage receipts))) (\<lambda>totals.
     collect (resource_total cr) (entries totals))"

definition finish_block :: "crypto \<Rightarrow> MvccFeeGenesis \<Rightarrow> MvccBlock \<Rightarrow> hash32 \<Rightarrow> ObjectMap \<Rightarrow> PendingFees \<Rightarrow>
    TransactionExecutionReceipt list \<Rightarrow> (ObjectMap \<times> MvccBlockReceipt, MvccError) result" where
  "finish_block cr g b parent_root current pending receipts =
     (let deltas = reduce_pending_fees pending
      in tryR (reduce_destination_credits deltas) (\<lambda>credits.
         tryR (apply_destination_credits current credits) (\<lambda>current'.
         tryR (state_root cr current') (\<lambda>final_root.
         tryR (aggregate_resources cr receipts) (\<lambda>totals.
         tryR (digest_value cr ''trnm.portable.v2.mvcc-receipts-root.candidate.v1'' (enc_list enc_receipt receipts)) (\<lambda>receipts_root.
         tryR (digest_value cr ''trnm.portable.v2.mvcc-resource-totals-root.candidate.v1'' (enc_list enc_usage totals)) (\<lambda>totals_root.
         tryR (digest_value cr ''trnm.portable.v2.mvcc-fee-deltas-root.candidate.v1''
                 (BTuple [enc_list enc_delta deltas, enc_list enc_credit credits])) (\<lambda>fees_root.
         tryR (digest_value cr ''trnm.portable.v2.mvcc-resolution-root.candidate.v1''
                 (enc_list (\<lambda>r. BTuple [BHash (tr_transaction_id r), enc_list enc_id (tr_conflict_set r),
                    BU32 (tr_retry_count r)]) receipts)) (\<lambda>resolution_root.
         if length receipts \<ge> 2 ^ 32 then Err ArithmeticOverflow
         else
           Ok (current',
             \<lparr>br_schema_version = SCHEMA_VERSION, br_store_id = mg_store_id g, br_block_id = mb_block_id b,
              br_height = mb_height b, br_parent_state_root = parent_root, br_final_state_root = final_root,
              br_receipts_root = receipts_root, br_resource_totals_root = totals_root,
              br_fee_deltas_root = fees_root, br_mvcc_resolution_root = resolution_root,
              br_transaction_count = word_of_nat (length receipts), br_receipts = receipts,
              br_resource_totals = totals, br_aggregated_fee_deltas = deltas,
              br_destination_credits = credits\<rparr>))))))))))"

type_synonym BlockState = "ObjectMap \<times> PendingFees \<times> TransactionExecutionReceipt list"

text \<open>The loop body of the sequential execution.\<close>

definition execute_step :: "crypto \<Rightarrow> MvccFeeGenesis \<Rightarrow> BlockState \<Rightarrow> MvccTransaction \<times> ReadSetEntry list \<Rightarrow> (BlockState, MvccError) result" where
  "execute_step cr g st row = (case (st, row) of ((current, pending, receipts), (t, initial_reads)) \<Rightarrow>
     tryR (read_set cr current t) (\<lambda>current_reads.
     tryR (compute_transaction cr g current t current_reads) (\<lambda>computed.
     tryR (commit_computed_transaction cr current pending t computed
             (conflicting_objects initial_reads current_reads)) (\<lambda>(current', pending', receipt).
     Ok (current', pending', receipts @ [receipt])))))"

definition execute_block :: "crypto \<Rightarrow> MvccFeeGenesis \<Rightarrow> ObjectMap \<Rightarrow> MvccBlock \<Rightarrow> (ObjectMap \<times> MvccBlockReceipt, MvccError) result" where
  "execute_block cr g parent b =
     tryR (validate_block cr g parent b) (\<lambda>_.
     tryR (state_root cr parent) (\<lambda>parent_root.
     tryR (collect (read_set cr parent) (mb_transactions b)) (\<lambda>parent_reads.
     tryR (try_fold (execute_step cr g) (parent, bt_empty, []) (zip (mb_transactions b) parent_reads)) (\<lambda>(current, pending, receipts).
     finish_block cr g b parent_root current pending receipts))))"

section \<open>Speculating workers\<close>

record SpeculativeTransaction =
  sp_parent_reads :: "ReadSetEntry list"
  sp_computed :: "(TransactionComputation, MvccError) result"

definition speculate :: "crypto \<Rightarrow> MvccFeeGenesis \<Rightarrow> ObjectMap \<Rightarrow> MvccTransaction \<Rightarrow> (SpeculativeTransaction, MvccError) result" where
  "speculate cr g parent t =
     tryR (read_set cr parent t) (\<lambda>reads.
     Ok \<lparr>sp_parent_reads = reads, sp_computed = compute_transaction cr g parent t reads\<rparr>)"

text \<open>A worker returns its rows, or None when one of its computations panics.\<close>

definition row_panics :: "(SpeculativeTransaction, MvccError) result \<Rightarrow> bool" where
  "row_panics r = (case r of Ok s \<Rightarrow> sp_computed s = Err Panicked | Err e \<Rightarrow> e = Panicked)"

definition worker_rows :: "crypto \<Rightarrow> MvccFeeGenesis \<Rightarrow> ObjectMap \<Rightarrow> MvccTransaction list \<Rightarrow> nat \<Rightarrow> nat \<Rightarrow>
    (nat \<times> (SpeculativeTransaction, MvccError) result) list option" where
  "worker_rows cr g parent ts active w =
     (let rows = map (\<lambda>p. (p, speculate cr g parent (ts ! p))) (positions active (length ts) w)
      in if list_ex (\<lambda>(p, r). row_panics r) rows then None else Some rows)"

definition parallel_speculative_transactions :: "crypto \<Rightarrow> MvccFeeGenesis \<Rightarrow> ObjectMap \<Rightarrow> MvccTransaction list \<Rightarrow> nat \<Rightarrow>
    (SpeculativeTransaction list, MvccError) result" where
  "parallel_speculative_transactions cr g parent ts worker_count =
     tryR (validate_worker_count worker_count) (\<lambda>_.
       let active = min worker_count (max (length ts) 1);
           handles = map (worker_rows cr g parent ts active) [0..<active];
           ordered = fold (\<lambda>h slots. case h of Some rows \<Rightarrow> place_rows slots rows | None \<Rightarrow> slots) handles
             (replicate (length ts) None)
       in if list_ex (\<lambda>h. h = None) handles then Err InvalidState
          else collect (\<lambda>slot. tryR (ok_or slot InvalidState) (\<lambda>row. row)) ordered)"

definition speculative_step :: "crypto \<Rightarrow> MvccFeeGenesis \<Rightarrow> BlockState \<Rightarrow> MvccTransaction \<times> SpeculativeTransaction \<Rightarrow> (BlockState, MvccError) result" where
  "speculative_step cr g st row = (case (st, row) of ((current, pending, receipts), (t, s)) \<Rightarrow>
     tryR (read_set cr current t) (\<lambda>current_reads.
       let conflicts = conflicting_objects (sp_parent_reads s) current_reads
       in tryR (if conflicts = [] then sp_computed s
                else compute_transaction cr g current t current_reads) (\<lambda>computed.
          tryR (commit_computed_transaction cr current pending t computed conflicts) (\<lambda>(current', pending', receipt).
          Ok (current', pending', receipts @ [receipt])))))"

definition execute_block_with_workers :: "crypto \<Rightarrow> MvccFeeGenesis \<Rightarrow> ObjectMap \<Rightarrow> MvccBlock \<Rightarrow> nat \<Rightarrow>
    (ObjectMap \<times> MvccBlockReceipt, MvccError) result" where
  "execute_block_with_workers cr g parent b worker_count =
     tryR (validate_worker_count worker_count) (\<lambda>_.
     tryR (validate_block cr g parent b) (\<lambda>_.
     tryR (state_root cr parent) (\<lambda>parent_root.
     tryR (parallel_speculative_transactions cr g parent (mb_transactions b) worker_count) (\<lambda>speculative.
     tryR (try_fold (speculative_step cr g) (parent, bt_empty, []) (zip (mb_transactions b) speculative)) (\<lambda>(current, pending, receipts).
     finish_block cr g b parent_root current pending receipts)))))"

end
