(* ===== verification/Mvcc_Serializability.thy ===== *)
theory Mvcc_Serializability
  imports Mvcc_Engine
begin

text \<open>
  Why speculation by any number of workers gives exactly the sequential result: a transaction's
  computation depends only on the objects it declares, and every commit raises the version of
  the objects it writes, so unchanged versions mean unchanged objects.
\<close>

section \<open>Declared access\<close>

definition admissible :: "MvccTransaction \<Rightarrow> bool" where
  "admissible t \<longleftrightarrow> expected_access t = Ok (tx_declared_reads t, tx_declared_writes t)"

lemma admissible_access:
  assumes "admissible t"
  shows "tx_fee_payer t \<in> set (tx_declared_reads t)"
    and "tx_program t = Add target amount \<Longrightarrow> target \<in> set (tx_declared_reads t) \<and> target \<noteq> tx_fee_payer t"
    and "tx_program t = Transfer source destination amount \<Longrightarrow>
      source \<in> set (tx_declared_reads t) \<and> destination \<in> set (tx_declared_reads t) \<and>
      source \<noteq> destination \<and> source \<noteq> tx_fee_payer t \<and> destination \<noteq> tx_fee_payer t"
proof -
  from assms obtain ids where ids: "accessed_ids t = Ok ids" and "sort ids = tx_declared_reads t"
    by (auto simp: admissible_def expected_access_def result_simps)
  then have reads: "set (tx_declared_reads t) = set ids" by (metis set_sort)
  show "tx_fee_payer t \<in> set (tx_declared_reads t)"
    using ids by (auto simp: reads accessed_ids_def result_simps split: ObjectProgram.splits)
  show "target \<in> set (tx_declared_reads t) \<and> target \<noteq> tx_fee_payer t" if "tx_program t = Add target amount"
    using ids that by (auto simp: reads accessed_ids_def result_simps)
  show "source \<in> set (tx_declared_reads t) \<and> destination \<in> set (tx_declared_reads t) \<and>
      source \<noteq> destination \<and> source \<noteq> tx_fee_payer t \<and> destination \<noteq> tx_fee_payer t"
    if "tx_program t = Transfer source destination amount"
    using ids that by (auto simp: reads accessed_ids_def result_simps)
qed

lemma validate_transaction_admissible: "validate_transaction cr g seen (i, t) = Ok seen' \<Longrightarrow> admissible t"
  by (auto simp: validate_transaction_def result_simps admissible_def)

lemma validate_block_admissible:
  assumes "validate_block cr g parent b = Ok u"
  shows "\<forall>t \<in> set (mb_transactions b). admissible t"
proof -
  have "try_fold (validate_transaction cr g) seen (enumerate n ts) = Ok r \<Longrightarrow> \<forall>t \<in> set ts. admissible t"
    for seen n ts r
    by (induction ts arbitrary: seen n) (auto simp: result_simps dest: validate_transaction_admissible)
  with assms show ?thesis by (auto simp: validate_block_def result_simps)
qed

section \<open>A computation depends on the declared objects only\<close>

definition agree :: "MvccTransaction \<Rightarrow> ObjectMap \<Rightarrow> ObjectMap \<Rightarrow> bool" where
  "agree t s s' \<longleftrightarrow> (\<forall>i \<in> set (tx_declared_reads t). bt_get s i = bt_get s' i)"

lemma read_set_agree: "agree t s s' \<Longrightarrow> read_set cr s t = read_set cr s' t"
  unfolding read_set_def agree_def by (intro collect_cong) (auto simp: read_entry_def)

lemma read_set_ids: "read_set cr s t = Ok rs \<Longrightarrow> map re_object_id rs = tx_declared_reads t"
proof -
  have "read_entry cr s i = Ok r \<Longrightarrow> re_object_id r = i" for i r
    by (auto simp: read_entry_def result_simps)
  then have "collect (read_entry cr s) is = Ok rs \<Longrightarrow> map re_object_id rs = is" for "is" rs
    by (induction "is" arbitrary: rs) (auto simp: result_simps)
  then show "read_set cr s t = Ok rs \<Longrightarrow> map re_object_id rs = tx_declared_reads t"
    by (simp add: read_set_def)
qed

lemma usage_agree:
  assumes "agree t s s'" "admissible t" "\<forall>r \<in> set rs. re_object_id r \<in> set (tx_declared_reads t)"
  shows "resource_usage cr s t rs = resource_usage cr s' t rs"
proof -
  have "read_bytes cr s rs = read_bytes cr s' rs"
    unfolding read_bytes_def using assms(1,3) by (intro try_fold_cong) (auto simp: agree_def)
  moreover have "bt_get s (tx_fee_payer t) = bt_get s' (tx_fee_payer t)"
    using assms(1) admissible_access(1) [OF assms(2)] by (simp add: agree_def)
  ultimately show ?thesis by (simp add: resource_usage_def)
qed

lemma successors_agree:
  assumes "agree t s s'" "admissible t"
  shows "program_successors s (tx_program t) = program_successors s' (tx_program t)"
  using assms admissible_access(2,3) [OF assms(2)]
  by (auto simp: program_successors_def agree_def split: ObjectProgram.splits)

lemma successors_keys:
  assumes "program_successors s (tx_program t) = Ok m" "admissible t" "bt_get m i = Some y"
  shows "i \<in> set (tx_declared_reads t)" "i \<noteq> tx_fee_payer t"
  using assms(1,3) admissible_access(2,3) [OF assms(2)]
  by (auto simp: program_successors_def result_simps split: ObjectProgram.splits if_splits)

lemma compute_agree:
  assumes a: "agree t s s'" and t: "admissible t" and r: "\<forall>r \<in> set rs. re_object_id r \<in> set (tx_declared_reads t)"
  shows "compute_transaction cr g s t rs = compute_transaction cr g s' t rs"
proof -
  have payer: "bt_get s (tx_fee_payer t) = bt_get s' (tx_fee_payer t)"
    using a admissible_access(1) [OF t] by (simp add: agree_def)
  have writes: "collect (write_entry cr s) (entries (bt_insert (tx_fee_payer t) p m)) =
      collect (write_entry cr s') (entries (bt_insert (tx_fee_payer t) p m))"
    if "(if st = Success then program_successors s' (tx_program t) else Ok bt_empty) = Ok m" for st m p
  proof (intro collect_cong refl)
    fix e assume "e \<in> set (entries (bt_insert (tx_fee_payer t) p m))"
    then have "bt_get (bt_insert (tx_fee_payer t) p m) (fst e) = Some (snd e)"
      by (simp only: entries_get [symmetric] prod.collapse)
    then have "fst e \<in> set (tx_declared_reads t)"
      using that successors_keys(1) [OF _ t, of s' m "fst e" "snd e"] admissible_access(1) [OF t]
      by (auto split: if_splits)
    with a show "write_entry cr s e = write_entry cr s' e"
      by (auto simp: write_entry_def agree_def split: prod.splits)
  qed
  show ?thesis
    unfolding compute_transaction_def usage_agree [OF a t r] payer successors_agree [OF a t] Let_def
    by (cases "program_outcome t") (auto intro!: tryR_cong simp: writes [of Success] writes [of Reverted] simp del: bt_entries_simps)
qed

section \<open>Versions only go up\<close>

abbreviation obj_advances :: "ObjectMap \<Rightarrow> ObjectMap \<Rightarrow> bool" where
  "obj_advances \<equiv> advances_by os_version"

lemma bump_versionD: "bump_version x = Ok y \<Longrightarrow> unat (os_version y) = unat (os_version x) + 1 \<and>
    os_value y = os_value x \<and> os_object_id y = os_object_id x \<and> os_closed y = os_closed x"
  by (auto simp: bump_version_def result_simps checked_simps)

lemma program_successors_get:
  assumes "program_successors s p = Ok m" "bt_get m i = Some y"
  shows "\<exists>x. bt_get s i = Some x \<and> unat (os_version y) = unat (os_version x) + 1"
  using assms
  by (cases p) (auto simp: program_successors_def result_simps split: if_splits dest!: bump_versionD)

lemma unat_sub_add: "b \<le> a \<Longrightarrow> unat (a - b) + unat b = unat (a :: 'a :: len word)"
  by (simp add: unat_sub word_le_nat_alt)

lemma compute_successors:
  assumes "compute_transaction cr g s t rs = Ok c"
  obtains status error_class units usage payer fee successors payer' where
    "program_outcome t = (status, error_class, units)" "resource_usage cr s t rs = Ok usage"
    "calculate_fee (mg_resource_prices g) usage = Ok fee" "fee \<le> tx_max_fee t"
    "bt_get s (tx_fee_payer t) = Some payer" "fee \<le> os_value payer"
    "(if status = Success then program_successors s (tx_program t) else Ok bt_empty) = Ok successors"
    "bump_version (payer\<lparr>os_value := os_value payer - fee\<rparr>) = Ok payer'"
    "tc_successors c = bt_insert (tx_fee_payer t) payer' successors"
    "split_fee g (tx_fee_payer t) fee = Ok (tc_fee_deltas c)"
    "tc_status c = status" "tc_fee_charged c = fee" "unat (tc_refund_amount c) + unat fee = unat (tx_max_fee t)"
    "tc_read_set c = rs" "tc_resource_usage c = usage"
proof -
  obtain status error_class units where o: "program_outcome t = (status, error_class, units)"
    by (cases "program_outcome t") auto
  with assms show ?thesis
    by (auto simp: compute_transaction_def Let_def result_simps not_less checked_sub_def unat_sub_add intro!: that [OF o]
        simp del: bt_entries_simps split: if_splits)
qed

lemma fold_insert_entries:
  "bt_get (fold (\<lambda>(i, x). bt_insert i x) (entries m) s) i =
     (case bt_get m i of Some y \<Rightarrow> Some y | None \<Rightarrow> bt_get s i)"
proof -
  have "distinct (map fst es) \<Longrightarrow> bt_get (fold (\<lambda>(i, x). bt_insert i x) es s) i =
      (case map_of es i of Some y \<Rightarrow> Some y | None \<Rightarrow> bt_get s i)" for es
  proof (induction es arbitrary: s)
    case (Cons e es)
    obtain k v where e: "e = (k, v)" by (cases e)
    have "map_of es k = None" if "k \<notin> fst ` set es" using that by (simp add: map_of_eq_None_iff)
    with Cons e show ?case by (auto split: option.splits)
  qed simp
  from this [OF bt.iter_distinct] show ?thesis by (simp add: bt.get_iter)
qed

lemma commit_state:
  assumes "commit_computed_transaction cr s pending t c conflicts = Ok (s', pending', receipt)"
  shows "s' = fold (\<lambda>(i, x). bt_insert i x) (entries (tc_successors c)) s"
    and "try_fold (\<lambda>m d. add_slot (fd_source d, fd_destination d) (fd_amount d) m) pending (tc_fee_deltas c) = Ok pending'"
    and "tr_status receipt = tc_status c" "tr_transaction_id receipt = tx_transaction_id t"
      "tr_fee_charged receipt = tc_fee_charged c" "tr_refund_amount receipt = tc_refund_amount c"
      "tr_transaction_index receipt = tx_transaction_index t" "tr_conflict_set receipt = conflicts"
      "tr_resource_usage receipt = tc_resource_usage c"
  using assms by (auto simp: commit_computed_transaction_def Let_def result_simps)

lemma commit_obj_advances:
  assumes adv: "obj_advances s0 s" and c: "compute_transaction cr g s t rs = Ok c"
    and k: "commit_computed_transaction cr s pending t c conflicts = Ok (s', pending', receipt)"
  shows "obj_advances s0 s'"
proof -
  have up: "\<exists>x. bt_get s i = Some x \<and> unat (os_version y) = unat (os_version x) + 1"
    if "bt_get (tc_successors c) i = Some y" for i y
    using c
  proof (rule compute_successors)
    fix status error_class units usage payer fee successors payer'
    assume "bt_get s (tx_fee_payer t) = Some payer"
      "(if status = Success then program_successors s (tx_program t) else Ok bt_empty) = Ok successors"
      "bump_version (payer\<lparr>os_value := os_value payer - fee\<rparr>) = Ok payer'"
      "tc_successors c = bt_insert (tx_fee_payer t) payer' successors"
    with that show ?thesis
      by (auto split: if_splits dest!: bump_versionD dest: program_successors_get)
  qed
  have "obj_advances s s'"
    unfolding advances_by_def
  proof
    fix i
    show "bt_get s' i = bt_get s i \<or> (\<exists>x y. bt_get s i = Some x \<and> bt_get s' i = Some y \<and> os_version x < os_version y)"
      using up [of i] by (cases "bt_get (tc_successors c) i")
        (auto simp: commit_state(1) [OF k] fold_insert_entries word_less_nat_alt)
  qed
  with adv show ?thesis by (rule advances_by_trans)
qed

lemma read_entryD: "read_entry cr s i = Ok r \<Longrightarrow> \<exists>x. bt_get s i = Some x \<and> \<not> os_closed x \<and> re_observed_version r = os_version x"
  by (auto simp: read_entry_def result_simps)

text \<open>No change of version, no change of the object.\<close>

lemma clean_agree:
  assumes adv: "obj_advances s0 s" and r0: "read_set cr s0 t = Ok r0" and r: "read_set cr s t = Ok r"
    and clean: "conflicting_objects r0 r = []"
  shows "agree t s0 s"
  unfolding agree_def
proof
  fix i assume "i \<in> set (tx_declared_reads t)"
  then obtain k where k: "k < length (tx_declared_reads t)" "tx_declared_reads t ! k = i"
    by (auto simp: in_set_conv_nth)
  have e0: "read_entry cr s0 i = Ok (r0 ! k)" and e: "read_entry cr s i = Ok (r ! k)"
    using collect_Ok_nth [OF r0 [unfolded read_set_def] k(1)] collect_Ok_nth [OF r [unfolded read_set_def] k(1)] k(2)
    by auto
  have "length r0 = length (tx_declared_reads t)" "length r = length (tx_declared_reads t)"
    using collect_Ok_length r0 r by (auto simp: read_set_def)
  with k have "(r0 ! k, r ! k) \<in> set (zip r0 r)" by (auto simp: set_zip)
  with clean have "re_observed_version (r0 ! k) = re_observed_version (r ! k)"
    by (auto simp: conflicting_objects_def filter_empty_conv)
  with read_entryD [OF e0] read_entryD [OF e] obtain x y
    where "bt_get s0 i = Some x" "bt_get s i = Some y" "os_version x = os_version y" by auto
  then show "bt_get s0 i = bt_get s i" by (intro advances_by_same_version [OF adv]) simp
qed

lemma read_ids_declared: "read_set cr s t = Ok rs \<Longrightarrow> \<forall>r \<in> set rs. re_object_id r \<in> set (tx_declared_reads t)"
  using read_set_ids [of cr s t rs] by (metis image_eqI image_set)

section \<open>Speculation is optimistic execution\<close>

interpretation mvcc: optimistic
  "\<lambda>(s :: BlockState) t. read_set cr (fst s) t"
  "\<lambda>r0 r. conflicting_objects r0 r = []"
  "\<lambda>(s :: BlockState) t r. compute_transaction cr g (fst s) t r"
  "\<lambda>(s :: BlockState) t r0 r c. tryR (commit_computed_transaction cr (fst s) (fst (snd s)) t c (conflicting_objects r0 r))
     (\<lambda>(current, pending, receipt). Ok (current, pending, snd (snd s) @ [receipt]))"
  "\<lambda>(s0 :: BlockState) s. obj_advances (fst s0) (fst s)"
  admissible for cr g
proof unfold_locales
  show "obj_advances (fst s) (fst s)" for s :: BlockState
    by simp
  show "obj_advances (fst s0) (fst s')"
    if "obj_advances (fst s0) (fst s)" "admissible t" "read_set cr (fst s) t = Ok r" "compute_transaction cr g (fst s) t r = Ok c"
      "tryR (commit_computed_transaction cr (fst s) (fst (snd s)) t c (conflicting_objects r0 r))
         (\<lambda>(current, pending, receipt). Ok (current, pending, snd (snd s) @ [receipt])) = Ok s'"
    for s0 s s' :: BlockState and t r r0 c
    using that by (auto simp: result_simps intro: commit_obj_advances)
  show "compute_transaction cr g (fst s0) t r0 = compute_transaction cr g (fst s) t r"
    if "obj_advances (fst s0) (fst s)" "admissible t" "read_set cr (fst s0) t = Ok r0"
      "read_set cr (fst s) t = Ok r" "conflicting_objects r0 r = []"
    for s0 s :: BlockState and t r r0
  proof -
    from clean_agree [OF that(1,3,4,5)] have a: "agree t (fst s0) (fst s)" .
    with read_set_agree [OF a, of cr] that(3,4) have "r0 = r" by simp
    with compute_agree [OF a that(2) read_ids_declared [OF that(3)]] show ?thesis by simp
  qed
qed

section \<open>No panic is reachable\<close>

definition safe :: "('a, MvccError) result \<Rightarrow> bool" where
  "safe r \<longleftrightarrow> r \<noteq> Err Panicked"

named_theorems safe_intros \<open>computations that do not panic\<close>

lemma safe_basic [safe_intros]:
  "safe (Ok x)" "e \<noteq> Panicked \<Longrightarrow> safe (Err e)" "e \<noteq> Panicked \<Longrightarrow> safe (ok_or v e)" "safe (ok_or (Some x) e)"
  by (cases v; simp add: safe_def)+

lemma safe_tryR [safe_intros]: "safe r \<Longrightarrow> (\<And>x. r = Ok x \<Longrightarrow> safe (k x)) \<Longrightarrow> safe (tryR r k)"
  by (cases r) (auto simp: safe_def)

lemma safe_present: "\<exists>x. v = Some x \<Longrightarrow> safe (ok_or v Panicked)"
  by (auto intro: safe_basic)

lemma safe_if [safe_intros]: "(b \<Longrightarrow> safe r) \<Longrightarrow> (\<not> b \<Longrightarrow> safe r') \<Longrightarrow> safe (if b then r else r')"
  by simp

lemma safe_collect: "(\<And>x. x \<in> set xs \<Longrightarrow> safe (f x)) \<Longrightarrow> safe (collect f xs)"
  by (induction xs) (auto intro!: safe_intros)

lemma safe_try_fold: "(\<And>a x. x \<in> set xs \<Longrightarrow> safe (f a x)) \<Longrightarrow> safe (try_fold f acc xs)"
  by (induction xs arbitrary: acc) (auto intro!: safe_intros)

lemma safe_codec [safe_intros]:
  "safe (digest_value cr d v)" "safe (byte_len cr v)" "safe (value_hash cr x)" "safe (state_root cr m)" "safe (bump_version x)"
  by (auto simp: digest_value_def digest_bytes_def canonical_bytes_def byte_len_def u128_of_len_def value_hash_def
      state_root_def bump_version_def intro!: safe_intros)

lemma safe_add_slot [safe_intros]: "safe (add_slot k v m)"
  by (auto simp: add_slot_def intro!: safe_intros)

lemma safe_read_set [safe_intros]: "safe (read_set cr s t)"
  by (auto simp: read_set_def read_entry_def intro!: safe_intros safe_collect)

lemma safe_require_strict [safe_intros]: "safe (require_strict key xs)"
  by (auto simp: require_strict_def intro!: safe_intros)

lemma safe_validate_block [safe_intros]: "safe (validate_block cr g parent b)"
proof -
  have "safe (expected_access t)" for t
    by (auto simp: expected_access_def accessed_ids_def intro!: safe_intros split: ObjectProgram.splits)
  then have "safe (validate_transaction cr g seen it)" for seen it
    by (cases it) (auto simp: validate_transaction_def derive_transaction_id_def simp del: split_paired_All intro!: safe_intros)
  then show ?thesis
    by (auto simp: validate_block_def derive_block_id_def intro!: safe_intros safe_try_fold)
qed

lemma safe_validate_genesis: "safe (validate_genesis g)"
proof -
  have "safe (validate_price pe)" for pe
    by (auto simp: validate_price_def intro!: safe_intros split: prod.splits)
  then show ?thesis
    by (cases "mg_destination_splits g")
      (auto simp: validate_genesis_def Let_def intro!: safe_intros safe_try_fold)
qed

lemma valid_prices:
  assumes "validate_genesis g = Ok ()" "p \<in> set (mg_resource_prices g)"
  shows "rp_price_denominator p \<noteq> 0" "rp_minimum_charge p \<le> rp_maximum_charge p"
proof -
  have v: "try_fold (\<lambda>_ pe. validate_price pe) () (zip (mg_resource_prices g) expected_classes) = Ok ()"
    and "length (mg_resource_prices g) = 4"
    using assms(1) by (auto simp: validate_genesis_def result_simps)
  then have len: "length (mg_resource_prices g) = length expected_classes"
    by (simp add: expected_classes_def)
  have each: "try_fold (\<lambda>_ pe. validate_price pe) () pes = Ok () \<Longrightarrow> pe \<in> set pes \<Longrightarrow> validate_price pe = Ok ()" for pes pe
    by (induction pes) (auto simp: result_simps)
  from assms(2) len obtain e where "(p, e) \<in> set (zip (mg_resource_prices g) expected_classes)"
    by (metis in_set_impl_in_set_zip1)
  from each [OF v this] show "rp_price_denominator p \<noteq> 0" "rp_minimum_charge p \<le> rp_maximum_charge p"
    by (auto simp: validate_price_def result_simps)
qed

lemma valid_splits:
  assumes "validate_genesis g = Ok ()"
  obtains d where "d \<noteq> 0" "\<forall>s \<in> set (mg_destination_splits g). fs_denominator s = d"
    "(\<Sum>s\<leftarrow>mg_destination_splits g. unat (fs_numerator s)) = unat d"
    "mg_remainder_destination g \<in> fs_destination ` set (mg_destination_splits g)"
    "distinct (map fs_destination (mg_destination_splits g))"
proof -
  have strict: "require_strict fs_destination (mg_destination_splits g) = Ok ()"
    using assms by (auto simp: validate_genesis_def result_simps)
  obtain first rest where c: "mg_destination_splits g = first # rest"
    using assms by (cases "mg_destination_splits g") (auto simp: validate_genesis_def)
  have d: "fs_denominator first \<noteq> 0"
      "\<not> list_ex (\<lambda>s. fs_denominator s \<noteq> fs_denominator first \<or> fs_numerator s = 0) (mg_destination_splits g)"
      "list_ex (\<lambda>s. fs_destination s = mg_remainder_destination g) (mg_destination_splits g)"
      "try_fold (\<lambda>sum s. ok_or (checked_add sum (fs_numerator s)) ArithmeticOverflow) 0 (mg_destination_splits g)
         = Ok (fs_denominator first)"
    using assms c [symmetric] unfolding validate_genesis_def c
    by (simp_all only: result_simps Let_def list.case de_Morgan_disj not_not) (simp_all add: c split: if_splits)
  have "distinct (map fs_destination (mg_destination_splits g))"
    using strict by (auto simp: require_strict_def strictly_sorted_by_def split: if_splits dest: strictly_sorted_distinct)
  moreover have "(\<Sum>s\<leftarrow>mg_destination_splits g. unat (fs_numerator s)) = unat (fs_denominator first)"
    using d(4) by (simp only: try_fold_checked_sum) simp
  moreover from d(3) have "mg_remainder_destination g \<in> fs_destination ` set (mg_destination_splits g)"
    unfolding list_ex_iff by force
  ultimately show ?thesis using d(1,2) by (intro that) (auto simp: list_ex_iff)
qed

lemma safe_calculate_fee [safe_intros]:
  assumes "validate_genesis g = Ok ()"
  shows "safe (calculate_fee (mg_resource_prices g) usage)"
proof -
  have "safe (resource_charge p v)" if "p \<in> set (mg_resource_prices g)" for p v
    using valid_prices [OF assms that] by (auto simp: resource_charge_def not_less intro!: safe_intros)
  then show ?thesis
    unfolding calculate_fee_def by (auto intro!: safe_try_fold safe_intros dest!: set_zip_leftD)
qed

lemma safe_add_remainder [safe_intros]: "safe (add_remainder dest r ds)"
  by (induction ds) (auto intro!: safe_intros)

lemma safe_split_fee [safe_intros]:
  assumes "validate_genesis g = Ok ()"
  shows "safe (split_fee g source fee)"
proof -
  obtain d where "d \<noteq> 0" "\<forall>s \<in> set (mg_destination_splits g). fs_denominator s = d"
    by (rule valid_splits [OF assms])
  then have "safe (split_step source fee acc s)" if "s \<in> set (mg_destination_splits g)" for acc s
    using that by (cases acc) (auto simp: split_step_def Let_def intro!: safe_intros)
  then show ?thesis
    unfolding split_fee_def by (auto intro!: safe_try_fold safe_intros)
qed

lemma read_set_present:
  assumes "read_set cr s t = Ok rs" "r \<in> set rs"
  shows "\<exists>x. bt_get s (re_object_id r) = Some x"
proof -
  from assms(2) obtain k where k: "k < length rs" "rs ! k = r" by (auto simp: in_set_conv_nth)
  with assms(1) have "k < length (tx_declared_reads t)" by (metis collect_Ok_length read_set_def)
  then have "read_entry cr s (tx_declared_reads t ! k) = Ok r"
    using collect_Ok_nth assms(1) k(2) by (auto simp: read_set_def)
  moreover from this have "re_object_id r = tx_declared_reads t ! k" by (auto simp: read_entry_def result_simps)
  ultimately show ?thesis using read_entryD by fastforce
qed

lemma safe_program_successors: "(\<And>e. p \<noteq> Revert e) \<Longrightarrow> safe (program_successors s p)"
  by (cases p) (auto simp: program_successors_def intro!: safe_intros)

lemma outcome_success: "program_outcome t = (Success, e, c) \<Longrightarrow> tx_program t \<noteq> Revert x"
  by (auto simp: program_outcome_def)

lemma compute_safe [safe_intros]:
  assumes g: "validate_genesis g = Ok ()" and rs: "read_set cr s t = Ok rs"
  shows "safe (compute_transaction cr g s t rs)"
proof -
  have "safe (measure_usage cr t v)" for v
    by (auto simp: measure_usage_def intro!: safe_intros split: prod.splits)
  moreover have "safe (read_bytes cr s rs)"
    unfolding read_bytes_def
    by (intro safe_try_fold safe_tryR safe_present read_set_present [OF rs] safe_codec) (auto intro: safe_basic)
  ultimately have usage: "safe (resource_usage cr s t rs)"
    unfolding resource_usage_def by (auto intro!: safe_intros safe_collect split: prod.splits)
  have writes: "safe (collect (write_entry cr s) (entries (bt_insert (tx_fee_payer t) p m)))"
    if "bt_get s (tx_fee_payer t) = Some q" "m = bt_empty \<or> program_successors s (tx_program t) = Ok m" for p m q
  proof (rule safe_collect)
    fix e assume "e \<in> set (entries (bt_insert (tx_fee_payer t) p m))"
    then have "bt_get (bt_insert (tx_fee_payer t) p m) (fst e) = Some (snd e)"
      by (simp only: entries_get [symmetric] prod.collapse)
    with that have "\<exists>x. bt_get s (fst e) = Some x"
      by (auto split: if_splits dest: program_successors_get)
    then show "safe (write_entry cr s e)"
      by (cases e) (auto simp: write_entry_def intro!: safe_tryR safe_present safe_codec intro: safe_basic)
  qed
  obtain st ec n where o: "program_outcome t = (st, ec, n)" by (cases "program_outcome t")
  have "safe (program_successors s (tx_program t))" if "st = Success"
    using o that by (auto intro!: safe_program_successors dest: outcome_success)
  then show ?thesis
    unfolding compute_transaction_def o Let_def prod.case
    by (intro safe_intros usage writes)
      (auto intro!: safe_intros simp: g result_simps simp del: bt_entries_simps split: if_splits)
qed

lemma safe_commit [safe_intros]: "safe (commit_computed_transaction cr s pending t c conflicts)"
  by (auto simp: commit_computed_transaction_def Let_def intro!: safe_intros safe_try_fold)

lemma safe_finish_block [safe_intros]: "safe (finish_block cr g b root current pending receipts)"
proof -
  have "safe (apply_credit s c)" for s c
    by (auto simp: apply_credit_def intro!: safe_intros)
  moreover have "safe (resource_total cr e)" for e
    by (auto simp: resource_total_def intro!: safe_intros split: prod.splits)
  ultimately show ?thesis
    by (auto simp: finish_block_def Let_def reduce_destination_credits_def apply_destination_credits_def
        aggregate_resources_def simp del: split_paired_All intro!: safe_intros safe_try_fold safe_collect)
qed

lemma safe_execute_step: "validate_genesis g = Ok () \<Longrightarrow> safe (execute_step cr g st row)"
  by (cases st, cases row) (auto simp: execute_step_def intro!: safe_intros)

lemma execute_block_safe: "validate_genesis g = Ok () \<Longrightarrow> safe (execute_block cr g parent b)"
  unfolding execute_block_def by (auto intro!: safe_intros safe_collect safe_try_fold safe_execute_step)

section \<open>Workers do not change the result\<close>

lemma execute_step_eq: "execute_step cr g st (t, r0) = mvcc.sequential_step cr g st (t, r0)"
  by (cases st) (simp add: execute_step_def mvcc.sequential_step_def)

lemma speculative_step_eq:
  "speculative_step cr g st (t, s) = mvcc.reusing_step cr g st (t, sp_parent_reads s, sp_computed s)"
  by (cases st) (simp add: speculative_step_def mvcc.reusing_step_def Let_def cong: if_cong)

lemma speculate_not_panics: "validate_genesis g = Ok () \<Longrightarrow> \<not> row_panics (speculate cr g parent t)"
  using safe_read_set [of cr parent t] compute_safe [of g cr parent t]
  by (cases "read_set cr parent t") (auto simp: row_panics_def speculate_def safe_def)

lemma parallel_speculative_eq:
  assumes g: "validate_genesis g = Ok ()" and w: "validate_worker_count w = Ok ()"
  shows "parallel_speculative_transactions cr g parent ts w = collect (speculate cr g parent) ts"
proof -
  define active where "active = min w (max (length ts) 1)"
  define row where "row = (\<lambda>p. speculate cr g parent (ts ! p))"
  have "0 < active"
    using w by (auto simp: active_def validate_worker_count_def split: if_splits)
  have rows: "worker_rows cr g parent ts active = (\<lambda>k. Some (map (\<lambda>p. (p, row p)) (positions active (length ts) k)))"
    using speculate_not_panics [OF g] by (auto simp: worker_rows_def row_def Let_def list_ex_iff)
  have place: "fold (\<lambda>h slots. case h of Some rows \<Rightarrow> place_rows slots rows | None \<Rightarrow> slots)
      (map (\<lambda>k. Some (map (\<lambda>p. (p, row p)) (positions active (length ts) k))) [0..<active]) (replicate (length ts) None) =
      map (\<lambda>p. Some (row p)) [0..<length ts]"
    using place_all [OF \<open>0 < active\<close>, of row "length ts"] by (simp add: fold_map comp_def)
  have "collect (\<lambda>slot. tryR (ok_or slot InvalidState) (\<lambda>row. row)) (map (\<lambda>p. Some (row p)) [0..<length ts]) =
      collect (speculate cr g parent) (map ((!) ts) [0..<length ts])"
    by (simp add: collect_map row_def)
  then show ?thesis
    unfolding parallel_speculative_transactions_def Let_def active_def [symmetric] rows place w
    by (auto simp: list_ex_iff map_nth)
qed

lemma collect_speculate:
  "collect (speculate cr g parent) ts = tryR (collect (read_set cr parent) ts)
     (\<lambda>rs. Ok (map (\<lambda>(t, r). \<lparr>sp_parent_reads = r, sp_computed = compute_transaction cr g parent t r\<rparr>) (zip ts rs)))"
proof (induction ts)
  case (Cons t ts)
  then show ?case
    by (cases "read_set cr parent t"; cases "collect (read_set cr parent) ts") (simp_all add: speculate_def)
qed simp

lemma speculative_loop_eq:
  assumes adm: "\<forall>t \<in> set ts. admissible t" and rs: "collect (read_set cr parent) ts = Ok rs"
  shows "try_fold (speculative_step cr g) (parent, bt_empty, []) (zip ts (map (\<lambda>(t, r).
      \<lparr>sp_parent_reads = r, sp_computed = compute_transaction cr g parent t r\<rparr>) (zip ts rs))) =
    try_fold (execute_step cr g) (parent, bt_empty, []) (zip ts rs)"
proof -
  let ?s = "(parent, bt_empty, []) :: BlockState"
  have len: "length rs = length ts" using rs by (rule collect_Ok_length)
  have z: "zip ts (map f (zip ts rs)) = map (\<lambda>(t, r). (t, f (t, r))) (zip ts rs)" for f :: "_ \<Rightarrow> SpeculativeTransaction"
    by (rule nth_equalityI) (simp_all add: len)
  have "try_fold (mvcc.reusing_step cr g) ?s (map (\<lambda>(t, r). (t, r, compute_transaction cr g parent t r)) (zip ts rs)) =
      try_fold (mvcc.sequential_step cr g) ?s (zip ts rs)"
    using mvcc.loop_reuse [of ?s ?s ts cr rs g] adm rs
    by (simp add: collect_eq_Ok)
  moreover have "(\<lambda>a x. speculative_step cr g a (case x of (t, r) \<Rightarrow> (t, \<lparr>sp_parent_reads = r, sp_computed = compute_transaction cr g parent t r\<rparr>)))
      = (\<lambda>a x. mvcc.reusing_step cr g a (case x of (t, r) \<Rightarrow> (t, r, compute_transaction cr g parent t r)))"
    by (intro ext) (simp add: speculative_step_eq split: prod.split)
  moreover have "execute_step cr g = mvcc.sequential_step cr g"
    by (intro ext) (simp add: execute_step_eq split_paired_all)
  ultimately show ?thesis by (simp add: z try_fold_map)
qed

lemma execute_workers_eq:
  assumes "validate_genesis g = Ok ()" "1 \<le> w" "w \<le> 64"
  shows "execute_block_with_workers cr g parent b w = execute_block cr g parent b"
proof -
  from assms have w: "validate_worker_count w = Ok ()"
    by (simp add: validate_worker_count_def MAX_EXECUTION_WORKERS_def)
  show ?thesis
    unfolding execute_block_with_workers_def execute_block_def w tryR_simps parallel_speculative_eq [OF assms(1) w]
      collect_speculate tryR_assoc
    by (intro tryR_cong refl) (simp add: speculative_loop_eq [OF validate_block_admissible])
qed

end
