(* ===== verification/Mvcc_Accounting.thy ===== *)
theory Mvcc_Accounting
  imports Mvcc_Serializability
begin

text \<open>
  The arithmetic of fees and the conservation of value: what one transaction is charged, how a
  fee is split over the destinations, what a transaction does to the values of the objects, and
  the sum of all values over a block.
\<close>

section \<open>Charges\<close>

text \<open>The charge of a resource over the naturals: the price rounded up, clamped to the schedule's bounds.\<close>

definition clamped_charge :: "ResourcePrice \<Rightarrow> ResourceUsage \<Rightarrow> nat" where
  "clamped_charge p u =
     (let n = unat (ru_amount u) * unat (rp_price_numerator p);
          d = unat (rp_price_denominator p);
          rounded = n div d + (if d dvd n then 0 else 1)
      in max (unat (rp_minimum_charge p)) (min (unat (rp_maximum_charge p)) rounded))"

definition chargeable :: "ResourcePrice \<Rightarrow> ResourceUsage \<Rightarrow> bool" where
  "chargeable p u \<longleftrightarrow>
     (rp_resource_class p, rp_resource_id p, rp_unit p) = (ru_resource_class u, ru_resource_id u, ru_unit u) \<and>
     unat (ru_amount u) * unat (rp_price_numerator p) < 2 ^ 128"

lemma round_up_le: "(n :: nat) div d + (if d dvd n then 0 else 1) \<le> n"
proof (cases "d dvd n")
  case False
  then have "d \<noteq> 1" by auto
  have "0 < n" using False by (cases n) auto
  show ?thesis
  proof (cases d)
    case (Suc k)
    with \<open>d \<noteq> 1\<close> \<open>0 < n\<close> have "n div d < n" by (intro div_less_dividend) auto
    then show ?thesis by simp
  qed (use False \<open>0 < n\<close> in simp)
qed simp

lemma resource_charge_exact:
  assumes "rp_price_denominator p \<noteq> 0" "rp_minimum_charge p \<le> rp_maximum_charge p"
  shows "resource_charge p u = Ok c \<longleftrightarrow> chargeable p u \<and> unat c = clamped_charge p u"
proof (cases "checked_mul (ru_amount u) (rp_price_numerator p)")
  case None
  then have "\<not> unat (ru_amount u) * unat (rp_price_numerator p) < 2 ^ 128"
    by (auto simp: checked_mul_def split: if_splits)
  with None show ?thesis by (simp add: resource_charge_def chargeable_def)
next
  case (Some n)
  then have n: "unat n = unat (ru_amount u) * unat (rp_price_numerator p)" by (simp add: checked_simps)
  then have fits: "unat (ru_amount u) * unat (rp_price_numerator p) < 2 ^ 128"
    using unat_bound [of n] by simp
  let ?d = "rp_price_denominator p"
  let ?r = "unat n div unat ?d + (if unat ?d dvd unat n then 0 else 1)"
  have "?r < 2 ^ 128" using round_up_le [of "unat n" "unat ?d"] unat_bound [of n] by simp
  moreover have "(n mod ?d \<noteq> 0) = (\<not> unat ?d dvd unat n)"
    by (simp add: word_unat_eq_iff unat_mod dvd_eq_mod_eq_0)
  ultimately obtain r where r: "checked_add (n div ?d) (if n mod ?d \<noteq> 0 then 1 else 0) = Some r" "unat r = ?r"
    by (auto simp: checked_add_def unat_div unat_word_ariths)
  have "resource_charge p u = Ok c \<longleftrightarrow>
      (rp_resource_class p, rp_resource_id p, rp_unit p) = (ru_resource_class u, ru_resource_id u, ru_unit u) \<and>
      c = (if r < rp_minimum_charge p then rp_minimum_charge p
           else if r > rp_maximum_charge p then rp_maximum_charge p else r)"
    using assms Some r(1) by (auto simp: resource_charge_def)
  then show ?thesis
    using assms(2) fits r(2)
    by (auto simp: chargeable_def clamped_charge_def Let_def n [symmetric] word_unat_eq_iff word_less_nat_alt word_le_nat_alt max_def min_def)
qed

lemma unat_small: "n < 2 ^ 128 \<Longrightarrow> unat (word_of_nat n :: u128) = n"
  by (simp add: unsigned_of_nat take_bit_nat_eq_self)

lemma unat_clamped_charge:
  "rp_minimum_charge p \<le> rp_maximum_charge p \<Longrightarrow> unat (word_of_nat (clamped_charge p u) :: u128) = clamped_charge p u"
proof -
  assume "rp_minimum_charge p \<le> rp_maximum_charge p"
  then have "clamped_charge p u \<le> unat (rp_maximum_charge p)"
    by (simp add: clamped_charge_def Let_def word_le_nat_alt)
  with unat_bound [of "rp_maximum_charge p"] show ?thesis by (simp add: unsigned_of_nat take_bit_nat_eq_self)
qed

lemma calculate_fee_sum:
  assumes "\<forall>p \<in> set prices. rp_price_denominator p \<noteq> 0 \<and> rp_minimum_charge p \<le> rp_maximum_charge p"
  shows "calculate_fee prices usage = Ok fee \<longleftrightarrow>
    (\<forall>(p, u) \<in> set (zip prices usage). chargeable p u) \<and>
    unat fee = (\<Sum>(p, u)\<leftarrow>zip prices usage. clamped_charge p u)"
proof -
  let ?f = "\<lambda>sum (p, u). tryR (resource_charge p u) (\<lambda>charge. ok_or (checked_add sum charge) ArithmeticOverflow)"
  have "try_fold ?f acc pus = Ok fee \<longleftrightarrow>
     (\<forall>(p, u) \<in> set pus. chargeable p u) \<and> unat fee = unat acc + (\<Sum>(p, u)\<leftarrow>pus. clamped_charge p u)"
    if "\<forall>(p, u) \<in> set pus. rp_price_denominator p \<noteq> 0 \<and> rp_minimum_charge p \<le> rp_maximum_charge p" for acc pus
    using that
  proof (induction pus arbitrary: acc)
    case Nil
    then show ?case by (auto simp: word_unat_eq_iff)
  next
    case (Cons pu pus)
    obtain p u where pu: "pu = (p, u)" by (cases pu)
    with Cons.prems have v: "rp_price_denominator p \<noteq> 0" "rp_minimum_charge p \<le> rp_maximum_charge p" by auto
    show ?case
    proof (cases "resource_charge p u")
      case (Err e)
      with resource_charge_exact [OF v, of u "word_of_nat (clamped_charge p u)"] have "\<not> chargeable p u"
        by (simp add: unat_clamped_charge [OF v(2)])
      with Err pu show ?thesis by simp
    next
      case (Ok c)
      with resource_charge_exact [OF v] have c: "chargeable p u" "unat c = clamped_charge p u" by auto
      show ?thesis
      proof (cases "checked_add acc c")
        case None
        then have "unat fee \<noteq> unat acc + (clamped_charge p u + x)" for x
          using unat_bound [of fee] c(2) by (simp add: checked_add_eq_None)
        with None Ok pu show ?thesis by simp
      next
        case (Some a)
        then have "unat a = unat acc + clamped_charge p u" by (simp add: checked_simps c(2))
        with Some Cons.IH [of a] Cons.prems Ok c(1) pu show ?thesis by (simp add: add.assoc)
      qed
    qed
  qed
  from this [of "zip prices usage" 0] assms show ?thesis
    unfolding calculate_fee_def by (auto dest: set_zip_leftD)
qed

section \<open>Splitting a fee\<close>

text \<open>The share of one destination over the naturals, rounded down; the rounding loss goes to one destination.\<close>

definition floor_share :: "u128 \<Rightarrow> FeeDestinationSplit \<Rightarrow> nat" where
  "floor_share fee s = unat fee * unat (fs_numerator s) div unat (fs_denominator s)"

definition fee_share :: "MvccFeeGenesis \<Rightarrow> u128 \<Rightarrow> FeeDestinationSplit \<Rightarrow> nat" where
  "fee_share g fee s = floor_share fee s +
     (if fs_destination s = mg_remainder_destination g
      then unat fee - (\<Sum>s\<leftarrow>mg_destination_splits g. floor_share fee s) else 0)"

definition share_delta :: "TypedObjectId \<Rightarrow> (FeeDestinationSplit \<Rightarrow> nat) \<Rightarrow> FeeDestinationSplit \<Rightarrow> FeeDelta" where
  "share_delta source f s = \<lparr>fd_source = source, fd_destination = fs_destination s, fd_amount = word_of_nat (f s)\<rparr>"

lemma floor_shares_le:
  assumes "d \<noteq> 0" "\<forall>s \<in> set ss. fs_denominator s = d"
  shows "(\<Sum>s\<leftarrow>ss. floor_share fee s) * unat d \<le> unat fee * (\<Sum>s\<leftarrow>ss. unat (fs_numerator s))"
  using assms(2)
proof (induction ss)
  case (Cons s ss)
  have "floor_share fee s * unat d \<le> unat fee * unat (fs_numerator s)"
    using Cons.prems by (simp add: floor_share_def)
  with Cons show ?case by (simp add: algebra_simps)
qed simp

lemma split_fold:
  assumes "\<forall>s \<in> set ss. fs_denominator s = d" "d \<noteq> 0" "unat a + (\<Sum>s\<leftarrow>ss. floor_share fee s) < 2 ^ 128"
  shows "try_fold (split_step source fee) (out, a) ss =
    (if \<forall>s \<in> set ss. unat fee * unat (fs_numerator s) < 2 ^ 128
     then Ok (out @ map (share_delta source (floor_share fee)) ss, a + word_of_nat (\<Sum>s\<leftarrow>ss. floor_share fee s))
     else Err ArithmeticOverflow)"
  using assms(1,3)
proof (induction ss arbitrary: out a)
  case (Cons s ss)
  have ds: "fs_denominator s = d" using Cons.prems by simp
  show ?case
  proof (cases "unat fee * unat (fs_numerator s) < 2 ^ 128")
    case True
    define amount where "amount = fee * fs_numerator s div d"
    have amount: "unat amount = floor_share fee s"
      using True ds by (simp add: amount_def floor_share_def unat_div unat_word_ariths)
    then have am: "amount = word_of_nat (floor_share fee s)" by (simp add: amount [symmetric])
    from Cons.prems amount have sum: "unat (a + amount) = unat a + unat amount" "unat a + unat amount < 2 ^ 128"
      by (auto simp: unat_word_ariths)
    have step: "split_step source fee (out, a) s = Ok (out @ [share_delta source (floor_share fee) s], a + amount)"
      using True sum(2) assms(2) ds by (simp add: split_step_def checked_mul_def checked_add_def Let_def amount_def [symmetric] share_delta_def am [symmetric])
    have "try_fold (split_step source fee) (out @ [share_delta source (floor_share fee) s], a + amount) ss =
       (if \<forall>s \<in> set ss. unat fee * unat (fs_numerator s) < 2 ^ 128
     then Ok ((out @ [share_delta source (floor_share fee) s]) @ map (share_delta source (floor_share fee)) ss,
       a + amount + word_of_nat (\<Sum>s\<leftarrow>ss. floor_share fee s))
     else Err ArithmeticOverflow)"
      using Cons.prems sum(1) amount by (intro Cons.IH) auto
    with step True show ?thesis by (simp add: am add.assoc)
  next
    case False
    then show ?thesis by (simp add: split_step_def checked_mul_def)
  qed
qed simp

lemma add_remainder_shares:
  assumes "distinct (map fs_destination ss)" "dest \<in> fs_destination ` set ss"
    "\<forall>s \<in> set ss. f s + r < 2 ^ 128"
  shows "add_remainder dest (word_of_nat r) (map (share_delta source f) ss) =
    Ok (map (share_delta source (\<lambda>s. f s + (if fs_destination s = dest then r else 0))) ss)"
  using assms
proof (induction ss)
  case (Cons s ss)
  show ?case
  proof (cases "fs_destination s = dest")
    case True
    with Cons.prems(1) have "x \<in> set ss \<Longrightarrow> fs_destination x \<noteq> dest" for x
      by (auto simp: image_iff)
    moreover have "unat (word_of_nat (f s) :: u128) = f s" "unat (word_of_nat r :: u128) = r"
      using Cons.prems(3) by (auto simp: unsigned_of_nat take_bit_nat_eq_self)
    ultimately show ?thesis using True Cons.prems(3)
      by (auto simp: share_delta_def checked_add_def)
  next
    case False
    with Cons have "add_remainder dest (word_of_nat r) (map (share_delta source f) ss) =
        Ok (map (share_delta source (\<lambda>s. f s + (if fs_destination s = dest then r else 0))) ss)"
      by auto
    moreover have "share_delta source (\<lambda>s. f s + (if fs_destination s = dest then r else 0)) s = share_delta source f s"
      "fd_destination (share_delta source f s) = fs_destination s"
      using False by (simp_all add: share_delta_def)
    ultimately show ?thesis using False by simp
  qed
qed simp

lemma fee_shares_sum:
  assumes "distinct (map fs_destination ss)" "dest \<in> fs_destination ` set ss"
  shows "(\<Sum>s\<leftarrow>ss. f s + (if fs_destination s = dest then r else 0 :: nat)) = (\<Sum>s\<leftarrow>ss. f s) + r"
  using assms
proof (induction ss)
  case (Cons s ss)
  show ?case
  proof (cases "fs_destination s = dest")
    case True
    with Cons.prems(1) have "\<forall>x \<in> set ss. fs_destination x \<noteq> dest"
      by (auto simp: image_iff)
    then have "map (\<lambda>s. f s + (if fs_destination s = dest then r else 0)) ss = map f ss"
      by (intro map_cong) auto
    then show ?thesis using True by (simp only: list.map sum_list.Cons) simp
  next
    case False
    with Cons show ?thesis by auto
  qed
qed simp

lemma split_fee_shares:
  assumes g: "validate_genesis g = Ok ()"
  shows "split_fee g source fee =
    (if \<forall>s \<in> set (mg_destination_splits g). unat fee * unat (fs_numerator s) < 2 ^ 128
     then Ok (map (share_delta source (fee_share g fee)) (mg_destination_splits g))
     else Err ArithmeticOverflow)"
proof -
  let ?ss = "mg_destination_splits g"
  define floors where "floors = (\<Sum>s\<leftarrow>?ss. floor_share fee s)"
  obtain d where d: "d \<noteq> 0" "\<forall>s \<in> set ?ss. fs_denominator s = d" "(\<Sum>s\<leftarrow>?ss. unat (fs_numerator s)) = unat d"
    "mg_remainder_destination g \<in> fs_destination ` set ?ss" "distinct (map fs_destination ?ss)"
    by (rule valid_splits [OF g])
  have "floors * unat d \<le> unat fee * unat d"
    using floor_shares_le [OF d(1,2)] d(3) by (simp add: floors_def)
  with d(1) have le: "floors \<le> unat fee" by (simp add: unat_gt_0)
  then have bound: "floors < 2 ^ 128" using unat_bound [of fee] by simp
  have fold: "try_fold (split_step source fee) ([], 0) ?ss =
    (if \<forall>s \<in> set ?ss. unat fee * unat (fs_numerator s) < 2 ^ 128
     then Ok (map (share_delta source (floor_share fee)) ?ss, word_of_nat floors) else Err ArithmeticOverflow)"
    using split_fold [OF d(2,1), of 0 fee source "[]"] bound by (simp add: floors_def)
  note uf = unat_small [OF bound]
  have small: "unat fee - floors < 2 ^ 128" using unat_bound [of fee] by simp
  have sub: "checked_sub fee (word_of_nat floors) = Some (word_of_nat (unat fee - floors))"
    unfolding checked_sub_eq_Some uf unat_small [OF small] using le by simp
  have each: "floor_share fee s + (unat fee - floors) \<le> unat fee" if "s \<in> set ?ss" for s
    using member_le_sum_list [of "floor_share fee s" "map (floor_share fee) ?ss"] that le by (simp add: floors_def)
  have fits: "x < 2 ^ 128" if "x \<le> unat fee" for x
    using that unat_bound [of fee] by simp
  have rem: "add_remainder (mg_remainder_destination g) (word_of_nat (unat fee - floors)) (map (share_delta source (floor_share fee)) ?ss)
      = Ok (map (share_delta source (fee_share g fee)) ?ss)"
    unfolding fee_share_def [abs_def] floors_def [symmetric] using each fits by (intro add_remainder_shares d(5,4)) blast
  have share: "fee_share g fee s \<le> unat fee" if "s \<in> set ?ss" for s
    using each [OF that] by (simp add: fee_share_def floors_def)
  have "(\<Sum>s\<leftarrow>?ss. unat (fd_amount (share_delta source (fee_share g fee) s))) = (\<Sum>s\<leftarrow>?ss. fee_share g fee s)"
    by (intro arg_cong [of _ _ sum_list] map_cong refl) (simp add: share_delta_def unat_small [OF fits [OF share]])
  also have "\<dots> = unat fee"
    using fee_shares_sum [OF d(5,4), of "floor_share fee" "unat fee - floors"] le
    unfolding fee_share_def floors_def [symmetric] by simp
  finally have total: "try_fold (\<lambda>sum d. ok_or (checked_add sum (fd_amount d)) ArithmeticOverflow) 0
      (map (share_delta source (fee_share g fee)) ?ss) = Ok fee"
    unfolding try_fold_checked_sum by (simp add: comp_def)
  show ?thesis by (simp add: split_fee_def fold sub rem total)
qed

section \<open>What a transaction does to the objects\<close>

text \<open>What leaves an object and what enters it: the payer pays the fee, a successful program moves or adds.\<close>

definition value_out :: "MvccTransaction \<Rightarrow> TransactionExecutionReceipt \<Rightarrow> TypedObjectId \<Rightarrow> nat" where
  "value_out t r i =
     (if i = tx_fee_payer t then unat (tr_fee_charged r) else 0) +
     (case tx_program t of
        Transfer source _ amount \<Rightarrow> if tr_status r = Success \<and> i = source then unat amount else 0
      | _ \<Rightarrow> 0)"

definition value_in :: "MvccTransaction \<Rightarrow> TransactionExecutionReceipt \<Rightarrow> TypedObjectId \<Rightarrow> nat" where
  "value_in t r i =
     (case tx_program t of
        Add target amount \<Rightarrow> if tr_status r = Success \<and> i = target then unat amount else 0
      | Transfer _ destination amount \<Rightarrow> if tr_status r = Success \<and> i = destination then unat amount else 0
      | Revert _ \<Rightarrow> 0)"

definition value_of :: "ObjectMap \<Rightarrow> TypedObjectId \<Rightarrow> nat" where
  "value_of m i = (case bt_get m i of None \<Rightarrow> 0 | Some x \<Rightarrow> unat (os_value x))"

definition minted :: "MvccTransaction \<Rightarrow> TransactionExecutionReceipt \<Rightarrow> nat" where
  "minted t r = (case tx_program t of Add target amount \<Rightarrow> if tr_status r = Success then unat amount else 0 | _ \<Rightarrow> 0)"

definition total_value :: "ObjectMap \<Rightarrow> nat" where
  "total_value m = bt_total (\<lambda>x. unat (os_value x)) m"

lemma execute_stepD:
  assumes "execute_step cr g (s, pending, receipts) (t, r0) = Ok (s', pending', receipts')"
  obtains rs c receipt where "read_set cr s t = Ok rs" "compute_transaction cr g s t rs = Ok c"
    "commit_computed_transaction cr s pending t c (conflicting_objects r0 rs) = Ok (s', pending', receipt)"
    "receipts' = receipts @ [receipt]"
  using assms by (auto simp: execute_step_def result_simps)

text \<open>The successors written over a state.\<close>

abbreviation overlay :: "ObjectMap \<Rightarrow> ObjectMap \<Rightarrow> ObjectMap" where
  "overlay m s \<equiv> fold (\<lambda>(i, x). bt_insert i x) (entries m) s"

lemma overlay_insert: "overlay (bt_insert k y m) s = bt_insert k y (overlay m s)"
  by (rule bt_ext) (simp add: fold_insert_entries del: bt_entries_simps)

lemma add_slots_total:
  "try_fold (\<lambda>m d. add_slot (key d) (amount d) m) m0 ds = Ok m \<Longrightarrow>
     bt_total (\<lambda>v. unat v) m = bt_total (\<lambda>v. unat v) m0 + (\<Sum>d\<leftarrow>ds. unat (amount d))"
proof (induction ds arbitrary: m0)
  case (Cons d ds)
  then obtain m1 v where v: "checked_add (case bt_get m0 (key d) of None \<Rightarrow> 0 | Some x \<Rightarrow> x) (amount d) = Some v"
    and m1: "m1 = bt_insert (key d) v m0"
    and rest: "try_fold (\<lambda>m d. add_slot (key d) (amount d) m) m1 ds = Ok m"
    by (auto simp: add_slot_def result_simps)
  from bt_total_default [where f = unat and z = "0 :: u128" and k = "key d" and v = v and m = m0] v
  have "bt_total unat m1 = bt_total unat m0 + unat (amount d)" by (simp add: m1 checked_simps)
  with Cons.IH [OF rest] show ?case by simp
qed simp

lemma step_objects:
  assumes "execute_step cr g (s, pending, receipts) (t, r0) = Ok (s', pending', receipts')"
  obtains receipt payer payer' m where "receipts' = receipts @ [receipt]"
    "tr_transaction_id receipt = tx_transaction_id t" "tr_transaction_index receipt = tx_transaction_index t"
    "unat (tr_refund_amount receipt) + unat (tr_fee_charged receipt) = unat (tx_max_fee t)"
    "bt_get s (tx_fee_payer t) = Some payer"
    "unat (os_value payer') + unat (tr_fee_charged receipt) = unat (os_value payer)"
    "(if tr_status receipt = Success then program_successors s (tx_program t) else Ok bt_empty) = Ok m"
    "s' = bt_insert (tx_fee_payer t) payer' (overlay m s)"
    "bt_total (\<lambda>v. unat v) pending' = bt_total (\<lambda>v. unat v) pending + unat (tr_fee_charged receipt)"
proof -
  from assms obtain rs c receipt where r: "receipts' = receipts @ [receipt]"
    and c: "compute_transaction cr g s t rs = Ok c"
    and k: "commit_computed_transaction cr s pending t c (conflicting_objects r0 rs) = Ok (s', pending', receipt)"
    by (rule execute_stepD)
  from c obtain status error_class units usage payer fee m payer' where
    p: "bt_get s (tx_fee_payer t) = Some payer" "fee \<le> os_value payer" and
    m: "(if status = Success then program_successors s (tx_program t) else Ok bt_empty) = Ok m" and
    p': "bump_version (payer\<lparr>os_value := os_value payer - fee\<rparr>) = Ok payer'" and
    succ: "tc_successors c = bt_insert (tx_fee_payer t) payer' m" and
    split: "split_fee g (tx_fee_payer t) fee = Ok (tc_fee_deltas c)" and
    st: "tc_status c = status" "tc_fee_charged c = fee" "unat (tc_refund_amount c) + unat fee = unat (tx_max_fee t)"
    by (rule compute_successors)
  note rec = commit_state(3-7) [OF k]
  have s': "s' = bt_insert (tx_fee_payer t) payer' (overlay m s)"
    using commit_state(1) [OF k] by (simp add: succ overlay_insert del: bt_entries_simps)
  have "(\<Sum>d\<leftarrow>tc_fee_deltas c. unat (fd_amount d)) = unat fee"
    using split by (auto simp: split_fee_def result_simps try_fold_checked_sum)
  with add_slots_total [OF commit_state(2) [OF k]]
  have fees: "bt_total (\<lambda>v. unat v) pending' = bt_total (\<lambda>v. unat v) pending + unat (tr_fee_charged receipt)"
    by (simp add: rec st)
  have paid: "unat (os_value payer') + unat (tr_fee_charged receipt) = unat (os_value payer)"
    using bump_versionD [OF p'] unat_sub_add [OF p(2)] by (simp add: rec st)
  show ?thesis
    by (rule that [OF r _ _ _ p(1) paid _ s' fees]) (use m st in \<open>simp_all add: rec\<close>)
qed

lemma step_value:
  assumes adm: "admissible t" and step: "execute_step cr g (s, pending, receipts) (t, r0) = Ok (s', pending', receipts')"
  shows "\<exists>receipt. receipts' = receipts @ [receipt] \<and> value_of s' i + value_out t receipt i = value_of s i + value_in t receipt i"
proof -
  from step obtain receipt payer payer' m where r: "receipts' = receipts @ [receipt]"
    and p: "bt_get s (tx_fee_payer t) = Some payer"
      "unat (os_value payer') + unat (tr_fee_charged receipt) = unat (os_value payer)"
    and m: "(if tr_status receipt = Success then program_successors s (tx_program t) else Ok bt_empty) = Ok m"
    and s': "s' = bt_insert (tx_fee_payer t) payer' (overlay m s)"
    by (rule step_objects)
  have get: "bt_get s' i = (if i = tx_fee_payer t then Some payer' else case bt_get m i of Some y \<Rightarrow> Some y | None \<Rightarrow> bt_get s i)"
    by (simp add: s' fold_insert_entries)
  have "value_of s' i + value_out t receipt i = value_of s i + value_in t receipt i"
  proof (cases "tr_status receipt = Success")
    case False
    with m p get show ?thesis
      by (auto simp: value_of_def value_out_def value_in_def split: ObjectProgram.splits)
  next
    case True
    with m have m: "program_successors s (tx_program t) = Ok m" by simp
    show ?thesis
    proof (cases "tx_program t")
      case (Add target amount)
      with True m p get admissible_access(2) [OF adm Add] show ?thesis
        by (auto simp: value_of_def value_out_def value_in_def program_successors_def result_simps checked_simps dest!: bump_versionD)
    next
      case (Transfer source destination amount)
      with True m p get admissible_access(3) [OF adm Transfer] show ?thesis
        by (auto simp: value_of_def value_out_def value_in_def program_successors_def result_simps checked_simps dest!: bump_versionD)
    next
      case (Revert e)
      with m show ?thesis by (simp add: program_successors_def)
    qed
  qed
  with r show ?thesis by blast
qed

lemma step_total:
  assumes adm: "admissible t" and step: "execute_step cr g (s, pending, receipts) (t, r0) = Ok (s', pending', receipts')"
  shows "\<exists>receipt. receipts' = receipts @ [receipt] \<and>
    total_value s' + bt_total (\<lambda>v. unat v) pending' = total_value s + bt_total (\<lambda>v. unat v) pending + minted t receipt"
proof -
  let ?v = "\<lambda>x. unat (os_value x)"
  from step obtain receipt payer payer' m where r: "receipts' = receipts @ [receipt]"
    and p: "bt_get s (tx_fee_payer t) = Some payer" "?v payer' + unat (tr_fee_charged receipt) = ?v payer"
    and m: "(if tr_status receipt = Success then program_successors s (tx_program t) else Ok bt_empty) = Ok m"
    and s': "s' = bt_insert (tx_fee_payer t) payer' (overlay m s)"
    and f: "bt_total (\<lambda>v. unat v) pending' = bt_total (\<lambda>v. unat v) pending + unat (tr_fee_charged receipt)"
    by (rule step_objects)
  have "bt_total ?v (overlay m s) = bt_total ?v s + minted t receipt \<and> bt_get (overlay m s) (tx_fee_payer t) = Some payer"
  proof (cases "tr_status receipt = Success")
    case False
    with m p show ?thesis by (auto simp: minted_def split: ObjectProgram.splits)
  next
    case True
    with m have m: "program_successors s (tx_program t) = Ok m" by simp
    show ?thesis
    proof (cases "tx_program t")
      case (Add target amount)
      with m obtain x x' where x: "bt_get s target = Some x" "?v x' = ?v x + unat amount" "m = bt_insert target x' bt_empty"
        by (auto simp: program_successors_def result_simps checked_simps dest!: bump_versionD)
      with bt_total_simps(2) [OF x(1), of ?v x'] True p Add admissible_access(2) [OF adm Add] show ?thesis
        by (auto simp: minted_def overlay_insert simp del: bt_entries_simps(2))
    next
      case (Transfer source destination amount)
      with m obtain x y x' y' where x: "bt_get s source = Some x" "bt_get s destination = Some y" "?v x = unat amount + ?v x'"
          "?v y' = ?v y + unat amount" "m = bt_insert destination y' (bt_insert source x' bt_empty)"
        by (auto simp: program_successors_def result_simps checked_simps dest!: bump_versionD)
      note acc = admissible_access(3) [OF adm Transfer]
      with x have "bt_get (bt_insert source x' s) destination = Some y" by auto
      from bt_total_simps(2) [OF this, of ?v y'] bt_total_simps(2) [OF x(1), of ?v x'] x(3-5) p Transfer acc show ?thesis
        by (auto simp: minted_def overlay_insert simp del: bt_entries_simps(2))
    next
      case (Revert e)
      with m show ?thesis by (simp add: program_successors_def)
    qed
  qed
  with bt_total_simps(2) [of "overlay m s" "tx_fee_payer t" payer ?v payer'] r s' p(2) f show ?thesis
    by (auto simp: total_value_def)
qed

section \<open>A block\<close>

lemma loop_total:
  assumes "\<forall>t \<in> set ts. admissible t" "length ts = length rs"
    "try_fold (execute_step cr g) (s, pending, receipts) (zip ts rs) = Ok (s', pending', receipts')"
  shows "\<exists>new. receipts' = receipts @ new \<and> length new = length ts \<and>
    total_value s' + bt_total (\<lambda>v. unat v) pending' =
      total_value s + bt_total (\<lambda>v. unat v) pending + (\<Sum>(t, r)\<leftarrow>zip ts new. minted t r)"
  using assms(2,1,3)
proof (induction ts rs arbitrary: s pending receipts rule: list_induct2)
  case (Cons t ts r0 rs)
  from Cons.prems(2) obtain s1 p1 receipts1 where step: "execute_step cr g (s, pending, receipts) (t, r0) = Ok (s1, p1, receipts1)"
    and rest: "try_fold (execute_step cr g) (s1, p1, receipts1) (zip ts rs) = Ok (s', pending', receipts')"
    by (auto simp: result_simps)
  from step_total [OF _ step] Cons.prems(1) obtain receipt where r: "receipts1 = receipts @ [receipt]"
    "total_value s1 + bt_total (\<lambda>v. unat v) p1 = total_value s + bt_total (\<lambda>v. unat v) pending + minted t receipt"
    by auto
  from Cons.IH [OF _ rest] Cons.prems(1) obtain new where new: "receipts' = receipts1 @ new" "length new = length ts"
    "total_value s' + bt_total (\<lambda>v. unat v) pending' =
      total_value s1 + bt_total (\<lambda>v. unat v) p1 + (\<Sum>(t, r)\<leftarrow>zip ts new. minted t r)"
    by auto
  with r show ?case by (intro exI [of _ "receipt # new"]) simp
qed simp

lemma apply_credit_total:
  assumes "apply_credit s c = Ok s'"
  shows "total_value s' = total_value s + unat (fc_amount c)"
proof -
  from assms obtain x x' where x: "bt_get s (fc_destination c) = Some x"
    "unat (os_value x') = unat (os_value x) + unat (fc_amount c)" "s' = bt_insert (fc_destination c) x' s"
    by (auto simp: apply_credit_def result_simps checked_simps dest!: bump_versionD)
  with bt_total_simps(2) [OF x(1), of "\<lambda>x. unat (os_value x)" x'] show ?thesis by (simp add: total_value_def)
qed

lemma credits_total:
  assumes "apply_destination_credits s cs = Ok s'"
  shows "total_value s' = total_value s + (\<Sum>c\<leftarrow>cs. unat (fc_amount c))"
  using assms unfolding apply_destination_credits_def
  by (induction cs arbitrary: s) (auto simp: result_simps dest: apply_credit_total)

lemma reduced_total: "(\<Sum>d\<leftarrow>reduce_pending_fees pending. unat (fd_amount d)) = bt_total (\<lambda>v. unat v) pending"
  by (simp add: reduce_pending_fees_def bt_total_def bt_values_def comp_def case_prod_unfold)

lemma reduce_credits_total:
  "reduce_destination_credits deltas = Ok cs \<Longrightarrow> (\<Sum>c\<leftarrow>cs. unat (fc_amount c)) = (\<Sum>d\<leftarrow>deltas. unat (fd_amount d))"
  by (auto simp: reduce_destination_credits_def result_simps bt_total_def bt_values_def comp_def case_prod_unfold
      dest!: add_slots_total)

lemma execute_blockD:
  assumes "execute_block cr g parent b = Ok (final, receipt)"
  obtains rs current pending where "\<forall>t \<in> set (mb_transactions b). admissible t"
    "collect (read_set cr parent) (mb_transactions b) = Ok rs"
    "try_fold (execute_step cr g) (parent, bt_empty, []) (zip (mb_transactions b) rs) = Ok (current, pending, br_receipts receipt)"
    "reduce_destination_credits (reduce_pending_fees pending) = Ok (br_destination_credits receipt)"
    "apply_destination_credits current (br_destination_credits receipt) = Ok final"
    "state_root cr final = Ok (br_final_state_root receipt)" "br_aggregated_fee_deltas receipt = reduce_pending_fees pending"
  using assms validate_block_admissible [of cr g parent b]
  by (auto simp: execute_block_def finish_block_def Let_def result_simps intro!: that)

lemma block_total:
  assumes "execute_block cr g parent b = Ok (final, receipt)"
  shows "total_value final = total_value parent + (\<Sum>(t, r)\<leftarrow>zip (mb_transactions b) (br_receipts receipt). minted t r)"
proof -
  from assms obtain rs current pending where adm: "\<forall>t \<in> set (mb_transactions b). admissible t"
    and rs: "collect (read_set cr parent) (mb_transactions b) = Ok rs"
    and loop: "try_fold (execute_step cr g) (parent, bt_empty, []) (zip (mb_transactions b) rs) = Ok (current, pending, br_receipts receipt)"
    and red: "reduce_destination_credits (reduce_pending_fees pending) = Ok (br_destination_credits receipt)"
    and app: "apply_destination_credits current (br_destination_credits receipt) = Ok final"
    by (rule execute_blockD)
  from loop_total [OF adm collect_Ok_length [OF rs, symmetric] loop]
  have "total_value current + bt_total (\<lambda>v. unat v) pending =
      total_value parent + (\<Sum>(t, r)\<leftarrow>zip (mb_transactions b) (br_receipts receipt). minted t r)" by auto
  with credits_total [OF app] reduce_credits_total [OF red] reduced_total [of pending] show ?thesis by simp
qed

text \<open>One receipt per transaction, in order, with the fee and the refund adding up to the limit.\<close>

definition accounts_for :: "MvccTransaction \<Rightarrow> TransactionExecutionReceipt \<Rightarrow> bool" where
  "accounts_for t r \<longleftrightarrow> tr_transaction_id r = tx_transaction_id t \<and> tr_transaction_index r = tx_transaction_index t \<and>
     unat (tr_fee_charged r) + unat (tr_refund_amount r) = unat (tx_max_fee t)"

lemma loop_receipts:
  assumes "length ts = length rs"
    "try_fold (execute_step cr g) (s, pending, receipts) (zip ts rs) = Ok (s', pending', receipts')"
  shows "\<exists>new. receipts' = receipts @ new \<and> list_all2 accounts_for ts new \<and>
    bt_total (\<lambda>v. unat v) pending' = bt_total (\<lambda>v. unat v) pending + (\<Sum>r\<leftarrow>new. unat (tr_fee_charged r))"
  using assms
proof (induction ts rs arbitrary: s pending receipts rule: list_induct2)
  case (Cons t ts r0 rs)
  from Cons.prems obtain s1 p1 receipts1 where step: "execute_step cr g (s, pending, receipts) (t, r0) = Ok (s1, p1, receipts1)"
    and rest: "try_fold (execute_step cr g) (s1, p1, receipts1) (zip ts rs) = Ok (s', pending', receipts')"
    by (auto simp: result_simps)
  from step obtain receipt where r: "receipts1 = receipts @ [receipt]" "accounts_for t receipt"
    "bt_total (\<lambda>v. unat v) p1 = bt_total (\<lambda>v. unat v) pending + unat (tr_fee_charged receipt)"
    by (rule step_objects) (auto simp: accounts_for_def)
  from Cons.IH [OF rest] obtain new where "receipts' = receipts1 @ new" "list_all2 accounts_for ts new"
    "bt_total (\<lambda>v. unat v) pending' = bt_total (\<lambda>v. unat v) p1 + (\<Sum>r\<leftarrow>new. unat (tr_fee_charged r))" by blast
  with r show ?case by (intro exI [of _ "receipt # new"]) simp
qed simp

lemma block_receipts:
  assumes "execute_block cr g parent b = Ok (final, receipt)"
  shows "list_all2 accounts_for (mb_transactions b) (br_receipts receipt)"
    and "(\<Sum>c\<leftarrow>br_destination_credits receipt. unat (fc_amount c)) = (\<Sum>r\<leftarrow>br_receipts receipt. unat (tr_fee_charged r))"
proof -
  from assms obtain rs current pending where
    rs: "collect (read_set cr parent) (mb_transactions b) = Ok rs"
    and loop: "try_fold (execute_step cr g) (parent, bt_empty, []) (zip (mb_transactions b) rs) = Ok (current, pending, br_receipts receipt)"
    and red: "reduce_destination_credits (reduce_pending_fees pending) = Ok (br_destination_credits receipt)"
    by (rule execute_blockD)
  from loop_receipts [OF collect_Ok_length [OF rs, symmetric] loop]
  have "list_all2 accounts_for (mb_transactions b) (br_receipts receipt) \<and>
      bt_total (\<lambda>v. unat v) pending = (\<Sum>r\<leftarrow>br_receipts receipt. unat (tr_fee_charged r))" by auto
  with reduce_credits_total [OF red] reduced_total [of pending]
  show "list_all2 accounts_for (mb_transactions b) (br_receipts receipt)"
    and "(\<Sum>c\<leftarrow>br_destination_credits receipt. unat (fc_amount c)) = (\<Sum>r\<leftarrow>br_receipts receipt. unat (tr_fee_charged r))"
    by simp_all
qed

end
