(* ===== verification/Mvcc_Properties.thy ===== *)
theory Mvcc_Properties
  imports Mvcc_Accounting
begin

text \<open>
  The properties of the execution engine of \<open>trnm-mvcc-fee\<close>, with a sample chain on which they are
  exercised: two transactions of one payer, the second reading an object the first wrote.
\<close>

section \<open>A sample block\<close>

fun demo_byte :: "bval \<Rightarrow> u8" where
  "demo_byte (BTuple (BU16 _ # BU32 i # _)) = ucast i"
| "demo_byte _ = 0"

definition demo_crypto :: crypto where
  "demo_crypto = \<lparr>sha256 = \<lambda>bs. 1 + ucast (last bs), borsh_to_vec = \<lambda>v. Some [demo_byte v],
     valid_key = \<lambda>_. True, verify_strict = \<lambda>_ _ _. True\<rparr>"

definition demo_object :: "u16 \<Rightarrow> u128 \<Rightarrow> ObjectState" where
  "demo_object k v = \<lparr>os_schema_version = 1, os_object_id = (k, 1), os_version = 0, os_value = v, os_closed = False\<rparr>"

definition demo_price :: "u16 \<Rightarrow> u16 \<Rightarrow> u128 \<Rightarrow> u128 \<Rightarrow> ResourcePrice" where
  "demo_price c u n d = \<lparr>rp_resource_class = c, rp_resource_id = [], rp_unit = u, rp_price_numerator = n,
     rp_price_denominator = d, rp_minimum_charge = 1, rp_maximum_charge = 50\<rparr>"

definition demo_genesis :: MvccFeeGenesis where
  "demo_genesis = \<lparr>mg_schema_version = 1,
     mg_context = \<lparr>pc_chain_id = [1], pc_genesis_hash = 1, pc_protocol_id = ascii ''trnm-portable-application-v2'',
       pc_protocol_version = 1, pc_profile_hash = 1\<rparr>,
     mg_store_id = 1, mg_initial_height = 0, mg_initial_block_id = 1,
     mg_initial_objects = [demo_object 1 100, demo_object 2 50, demo_object 3 10, demo_object 8 0, demo_object 9 0],
     mg_resource_prices = [demo_price 0 1 3 2, demo_price 2 1 1 1, demo_price 3 1 1 1, demo_price 7 3 1 10],
     mg_destination_splits = [\<lparr>fs_destination = (8, 1), fs_numerator = 1, fs_denominator = 3\<rparr>,
       \<lparr>fs_destination = (9, 1), fs_numerator = 2, fs_denominator = 3\<rparr>],
     mg_remainder_destination = (9, 1)\<rparr>"

definition demo_parent :: ObjectMap where
  "demo_parent = bt_of_list (map (\<lambda>x. (os_object_id x, x)) (mg_initial_objects demo_genesis))"

definition demo_tx :: "u32 \<Rightarrow> TypedObjectId list \<Rightarrow> ObjectProgram \<Rightarrow> MvccTransaction" where
  "demo_tx i ids p = \<lparr>tx_schema_version = 1, tx_transaction_id = 1 + ucast i, tx_transaction_index = i,
     tx_fee_payer = (1, 1), tx_declared_reads = ids, tx_declared_writes = ids, tx_compute_unit_limit = 20,
     tx_max_fee = 30, tx_program = p\<rparr>"

definition demo_block :: MvccBlock where
  "demo_block = \<lparr>mb_schema_version = 1, mb_context = mg_context demo_genesis, mb_block_id = 1, mb_height = 1,
     mb_expected_parent_height = 0, mb_expected_parent_block_id = 1, mb_expected_parent_state_root = 1,
     mb_transactions = [demo_tx 0 [(1, 1), (2, 1), (3, 1)] (Transfer (2, 1) (3, 1) 5),
       demo_tx 1 [(1, 1), (3, 1)] (Add (3, 1) 7)]\<rparr>"

lemma demo_digest: "d \<noteq> [] \<Longrightarrow> is_ascii d \<Longrightarrow> length d < 2 ^ 32 \<Longrightarrow>
    digest_value demo_crypto d v = Ok (1 + ucast (demo_byte v))"
  by (simp add: digest_value_def digest_bytes_def canonical_bytes_def digest_preimage_def demo_crypto_def)

lemma is_ascii_simps:
  "is_ascii []" "is_ascii (Char b0 b1 b2 b3 b4 b5 b6 False # s) = is_ascii s"
proof -
  have "of_char (Char b0 b1 b2 b3 b4 b5 b6 False) < (128 :: u8)"
    by (simp add: of_char_Char ) 
  then show "is_ascii []" "is_ascii (Char b0 b1 b2 b3 b4 b5 b6 False # s) = is_ascii s"
    by (simp_all add: is_ascii_def ascii_def)
qed

lemma demo_genesis_valid: "validate_genesis demo_genesis = Ok ()"
  by (simp add: validate_genesis_def demo_genesis_def SCHEMA_VERSION_def require_strict_def strictly_sorted_by_def
      demo_object_def demo_price_def validate_price_def expected_classes_def checked_add_def
      RESOURCE_ORDERED_BYTES_def RESOURCE_STATE_READ_BYTES_def RESOURCE_STATE_WRITE_BYTES_def RESOURCE_COMPUTE_UNITS_def
      UNIT_BYTE_def UNIT_COMPUTE_def less_prod_def)

lemmas demo_defs = demo_genesis_def demo_object_def demo_price_def demo_block_def demo_tx_def SCHEMA_VERSION_def

lemma demo_codec:
  "d \<noteq> [] \<Longrightarrow> is_ascii d \<Longrightarrow> length d < 2 ^ 32 \<Longrightarrow> digest_value demo_crypto d v = Ok (1 + ucast (demo_byte v))"
  "byte_len demo_crypto v = Ok 1"
  "state_root demo_crypto m = Ok 1"
  "value_hash demo_crypto x = Ok 1"
  by (simp_all add: demo_digest byte_len_def canonical_bytes_def demo_crypto_def u128_of_len_def)
  (simp_all add: state_root_def value_hash_def demo_digest [unfolded demo_crypto_def] is_ascii_simps enc_list_def enc_object_def enc_id_def)

abbreviation demo_tx0 :: MvccTransaction where
  "demo_tx0 \<equiv> demo_tx 0 [(1, 1), (2, 1), (3, 1)] (Transfer (2, 1) (3, 1) 5)"

abbreviation demo_tx1 :: MvccTransaction where
  "demo_tx1 \<equiv> demo_tx 1 [(1, 1), (3, 1)] (Add (3, 1) 7)"

lemma demo_access:
  "expected_access demo_tx0 = Ok ([(1, 1), (2, 1), (3, 1)], [(1, 1), (2, 1), (3, 1)])"
  "expected_access demo_tx1 = Ok ([(1, 1), (3, 1)], [(1, 1), (3, 1)])"
  by (simp_all add: expected_access_def accessed_ids_def demo_tx_def sorted_sort_id del: sort_key_simps)

lemma demo_tx_id: "derive_transaction_id demo_crypto (demo_tx i ids p) = Ok (1 + ucast (ucast i :: u8))"
  by (simp add: derive_transaction_id_def demo_codec is_ascii_simps demo_tx_def)

lemma demo_transactions_valid:
  "validate_transaction demo_crypto demo_genesis {} (0, demo_tx0) = Ok {1}"
  "validate_transaction demo_crypto demo_genesis {1} (1, demo_tx1) = Ok {2, 1}"
  by (simp_all add: validate_transaction_def demo_tx_id demo_access)
    (simp_all add: demo_defs MAX_ACCESS_WIDTH_def require_strict_def strictly_sorted_by_def less_prod_def)

lemma demo_block_valid: "validate_block demo_crypto demo_genesis demo_parent demo_block = Ok ()"
  by (simp add: validate_block_def derive_block_id_def demo_codec is_ascii_simps MAX_TRANSACTIONS_def
      demo_block_def demo_transactions_valid [unfolded One_nat_def] SCHEMA_VERSION_def enc_context_def)

lemma demo_get:
  "bt_get demo_parent (1, 1) = Some (demo_object 1 100)"
  "bt_get demo_parent (2, 1) = Some (demo_object 2 50)"
  "bt_get demo_parent (3, 1) = Some (demo_object 3 10)"
  "bt_get demo_parent (8, 1) = Some (demo_object 8 0)"
  "bt_get demo_parent (9, 1) = Some (demo_object 9 0)"
  by (simp_all add: demo_parent_def bt_of_list_def demo_defs)


lemmas class_defs = RESOURCE_ORDERED_BYTES_def RESOURCE_STATE_READ_BYTES_def RESOURCE_STATE_WRITE_BYTES_def
  RESOURCE_COMPUTE_UNITS_def UNIT_BYTE_def UNIT_COMPUTE_def

lemma demo_reads:
  "read_set demo_crypto demo_parent demo_tx0 = Ok (map (\<lambda>k. \<lparr>re_object_id = (k, 1), re_observed_version = 0, re_observed_value_hash = 1\<rparr>) [1, 2, 3])"
  "read_set demo_crypto demo_parent demo_tx1 = Ok (map (\<lambda>k. \<lparr>re_object_id = (k, 1), re_observed_version = 0, re_observed_value_hash = 1\<rparr>) [1, 3])"
  by (simp_all add: read_set_def read_entry_def demo_tx_def demo_get demo_codec demo_object_def)

definition demo_usage :: "u128 \<Rightarrow> u128 \<Rightarrow> u128 \<Rightarrow> ResourceUsage list" where
  "demo_usage r w c = map (\<lambda>(class, unit, amount). \<lparr>ru_resource_class = class, ru_resource_id = [],
     ru_meter_id = ascii ''trnm-reference-meter'', ru_meter_version = 1, ru_amount = amount, ru_unit = unit,
     ru_measurement_commitment = 1\<rparr>) [(0, 1, 1), (2, 1, r), (3, 1, w), (7, 3, c)]"

lemma demo_usages:
  assumes "bt_get s (1, 1) = Some payer"
  shows "\<lbrakk>bt_get s (2, 1) = Some y; bt_get s (3, 1) = Some z; map re_object_id rs = [(1, 1), (2, 1), (3, 1)]\<rbrakk> \<Longrightarrow>
      resource_usage demo_crypto s demo_tx0 rs = Ok (demo_usage 3 3 20)"
    and "\<lbrakk>bt_get s (3, 1) = Some z; map re_object_id rs = [(1, 1), (3, 1)]\<rbrakk> \<Longrightarrow>
      resource_usage demo_crypto s demo_tx1 rs = Ok (demo_usage 2 2 10)"
  using assms by (auto simp: resource_usage_def program_outcome_def read_bytes_def demo_tx_def demo_codec
      checked_add_def checked_mul_def measure_usage_def is_ascii_simps demo_usage_def class_defs)

lemma demo_fees:
  "calculate_fee (mg_resource_prices demo_genesis) (demo_usage 3 3 20) = Ok 10"
  "calculate_fee (mg_resource_prices demo_genesis) (demo_usage 2 2 10) = Ok 7"
  by (simp_all add: calculate_fee_def resource_charge_def demo_genesis_def demo_price_def demo_usage_def
      checked_mul_def checked_add_def)

lemma demo_splits:
  "split_fee demo_genesis (1, 1) 10 = Ok [\<lparr>fd_source = (1, 1), fd_destination = (8, 1), fd_amount = 3\<rparr>,
     \<lparr>fd_source = (1, 1), fd_destination = (9, 1), fd_amount = 7\<rparr>]"
  "split_fee demo_genesis (1, 1) 7 = Ok [\<lparr>fd_source = (1, 1), fd_destination = (8, 1), fd_amount = 2\<rparr>,
     \<lparr>fd_source = (1, 1), fd_destination = (9, 1), fd_amount = 5\<rparr>]"
  by (simp_all add: split_fee_def split_step_def demo_genesis_def checked_mul_def checked_add_def checked_sub_def)

definition demo_mid :: ObjectMap where
  "demo_mid = bt_insert (3, 1) ((demo_object 3 15)\<lparr>os_version := 1\<rparr>) (bt_insert (2, 1) ((demo_object 2 45)\<lparr>os_version := 1\<rparr>)
      (bt_insert (1, 1) ((demo_object 1 90)\<lparr>os_version := 1\<rparr>) demo_parent))"

lemma demo_successors:
  "program_successors demo_parent (Transfer (2, 1) (3, 1) 5) =
    Ok (bt_insert (3, 1) ((demo_object 3 15)\<lparr>os_version := 1\<rparr>) (bt_insert (2, 1) ((demo_object 2 45)\<lparr>os_version := 1\<rparr>) bt_empty))"
  "program_successors demo_mid (Add (3, 1) 7) = Ok (bt_insert (3, 1) ((demo_object 3 22)\<lparr>os_version := 2\<rparr>) bt_empty)"
  by (simp_all add: program_successors_def demo_get demo_mid_def bump_version_def checked_add_def checked_sub_def demo_object_def)

lemmas demo_step_simps = demo_fees demo_splits demo_successors demo_get checked_add_def checked_sub_def
  bump_version_def write_entry_def demo_codec is_ascii_simps commit_computed_transaction_def add_slot_def less_prod_def

lemma demo_step0:
  "\<exists>r. tr_status r = Success \<and> tr_fee_charged r = 10 \<and> tr_resource_usage r = demo_usage 3 3 20 \<and>
    execute_step demo_crypto demo_genesis (demo_parent, bt_empty, []) (demo_tx0, x) =
    Ok (demo_mid, bt_insert ((1, 1), (9, 1)) 7 (bt_insert ((1, 1), (8, 1)) 3 bt_empty), [r])"
  by (simp add: execute_step_def demo_reads compute_transaction_def demo_usages [OF demo_get(1)] demo_get)
    (simp add: demo_tx_def program_outcome_def demo_object_def [of 1] Let_def demo_step_simps demo_mid_def)

lemma demo_mid_reads:
  "read_set demo_crypto demo_mid demo_tx1 = Ok (map (\<lambda>k. \<lparr>re_object_id = (k, 1), re_observed_version = 1, re_observed_value_hash = 1\<rparr>) [1, 3])"
  by (simp add: read_set_def read_entry_def demo_tx_def demo_mid_def demo_codec demo_object_def)

lemma demo_mid_get: "bt_get demo_mid (1, 1) = Some ((demo_object 1 90)\<lparr>os_version := 1\<rparr>)"
  "bt_get demo_mid (3, 1) = Some ((demo_object 3 15)\<lparr>os_version := 1\<rparr>)"
  "bt_get demo_mid (8, 1) = Some (demo_object 8 0)" "bt_get demo_mid (9, 1) = Some (demo_object 9 0)"
  by (simp_all add: demo_mid_def demo_get)

definition demo_end :: ObjectMap where
  "demo_end = bt_insert (3, 1) ((demo_object 3 22)\<lparr>os_version := 2\<rparr>) (bt_insert (1, 1) ((demo_object 1 83)\<lparr>os_version := 2\<rparr>) demo_mid)"

lemma demo_step1:
  "\<exists>r. tr_status r = Success \<and> tr_fee_charged r = 7 \<and> tr_resource_usage r = demo_usage 2 2 10 \<and>
    execute_step demo_crypto demo_genesis
      (demo_mid, bt_insert ((1, 1), (9, 1)) 7 (bt_insert ((1, 1), (8, 1)) 3 bt_empty), rs) (demo_tx1, x) =
    Ok (demo_end, bt_insert ((1, 1), (9, 1)) 12 (bt_insert ((1, 1), (8, 1)) 5
      (bt_insert ((1, 1), (9, 1)) 7 (bt_insert ((1, 1), (8, 1)) 3 bt_empty))), rs @ [r])"
  by (simp add: execute_step_def demo_mid_reads compute_transaction_def demo_usages [OF demo_mid_get(1)] demo_mid_get)
    (simp add: demo_tx_def program_outcome_def demo_object_def [of 1] Let_def demo_step_simps demo_mid_get demo_end_def)

definition demo_final :: ObjectMap where
  "demo_final = bt_insert (9, 1) ((demo_object 9 12)\<lparr>os_version := 1\<rparr>) (bt_insert (8, 1) ((demo_object 8 5)\<lparr>os_version := 1\<rparr>) demo_end)"

lemma demo_aggregate:
  "tr_resource_usage r0 = demo_usage 3 3 20 \<Longrightarrow> tr_resource_usage r1 = demo_usage 2 2 10 \<Longrightarrow>
    \<exists>totals. aggregate_resources demo_crypto [r0, r1] = Ok totals"
  by (simp add: aggregate_resources_def demo_usage_def add_slot_def resource_key_def checked_add_def resource_total_def
      demo_codec is_ascii_simps less_prod_def)

lemma demo_run:
  "\<exists>receipt r0 r1. execute_block demo_crypto demo_genesis demo_parent demo_block = Ok (demo_final, receipt) \<and>
    br_receipts receipt = [r0, r1] \<and> tr_status r0 = Success \<and> tr_status r1 = Success"
proof -
  obtain rd0 rd1 where reads: "collect (read_set demo_crypto demo_parent) (mb_transactions demo_block) = Ok [rd0, rd1]"
    by (simp add: demo_block_def demo_reads)
  obtain r0 where r0: "tr_status r0 = Success" "tr_resource_usage r0 = demo_usage 3 3 20"
    "execute_step demo_crypto demo_genesis (demo_parent, bt_empty, []) (demo_tx0, rd0) =
      Ok (demo_mid, bt_insert ((1, 1), (9, 1)) 7 (bt_insert ((1, 1), (8, 1)) 3 bt_empty), [r0])"
    using demo_step0 by blast
  obtain r1 where r1: "tr_status r1 = Success" "tr_resource_usage r1 = demo_usage 2 2 10"
    "execute_step demo_crypto demo_genesis
      (demo_mid, bt_insert ((1, 1), (9, 1)) 7 (bt_insert ((1, 1), (8, 1)) 3 bt_empty), [r0]) (demo_tx1, rd1) =
    Ok (demo_end, bt_insert ((1, 1), (9, 1)) 12 (bt_insert ((1, 1), (8, 1)) 5
      (bt_insert ((1, 1), (9, 1)) 7 (bt_insert ((1, 1), (8, 1)) 3 bt_empty))), [r0] @ [r1])"
    using demo_step1 by blast
  obtain totals where totals: "aggregate_resources demo_crypto [r0, r1] = Ok totals"
    using demo_aggregate [OF r0(2) r1(2)] by blast
  have "\<exists>receipt. execute_block demo_crypto demo_genesis demo_parent demo_block = Ok (demo_final, receipt) \<and>
      br_receipts receipt = [r0, r1]"
    by (simp add: execute_block_def demo_block_valid demo_codec reads)
      (simp add: demo_block_def r0(3) r1(3) [simplified] finish_block_def Let_def totals demo_codec is_ascii_simps
        reduce_pending_fees_def reduce_destination_credits_def apply_destination_credits_def apply_credit_def
        add_slot_def checked_add_def bump_version_def less_prod_def demo_end_def demo_mid_get demo_final_def demo_object_def)
  with r0(1) r1(1) show ?thesis by blast
qed

section \<open>Serializability\<close>

text \<open>
  C1. Executing a block with any permitted number of speculating workers returns exactly what
  sequential execution returns: the same state, the same receipt, or the same error.
\<close>

theorem workers_serializable:
  assumes "validate_genesis g = Ok ()" "1 \<le> w" "w \<le> 64"
  shows "execute_block_with_workers cr g parent b w = execute_block cr g parent b"
  using assms by (rule execute_workers_eq)

theorem workers_serializable_witness:
  "\<exists>receipt. execute_block_with_workers demo_crypto demo_genesis demo_parent demo_block 2 = Ok (demo_final, receipt)"
proof -
  have "execute_block_with_workers demo_crypto demo_genesis demo_parent demo_block 2 =
      execute_block demo_crypto demo_genesis demo_parent demo_block"
    by (rule workers_serializable) (simp_all add: demo_genesis_valid)
  with demo_run show ?thesis by auto
qed

text \<open>
  C26. A chain with a valid genesis never panics while it executes a block: no division by zero, no
  clamp with crossed bounds, no missing object behind an \<open>expect\<close>, whatever the block and the state.
\<close>

theorem execution_never_panics:
  assumes "validate_genesis g = Ok ()"
  shows "execute_block cr g parent b \<noteq> Err Panicked"
  using execute_block_safe [OF assms] by (simp add: safe_def)

theorem execution_never_panics_witness:
  "execute_block demo_crypto demo_genesis demo_parent demo_block \<noteq> Err Panicked"
  by (rule execution_never_panics [OF demo_genesis_valid])

section \<open>Value\<close>

text \<open>
  C3. Executing a block conserves value: the values of all objects sum to what they summed to before,
  plus exactly what the successful \<open>Add\<close> programs of the block added. Fees leave their payers and
  arrive at the destinations in full, rounding included.
\<close>

theorem block_conserves_value:
  assumes "execute_block cr g parent b = Ok (final, receipt)"
  shows "total_value final = total_value parent + (\<Sum>(t, r)\<leftarrow>zip (mb_transactions b) (br_receipts receipt). minted t r)"
  using assms by (rule block_total)

theorem block_conserves_value_witness:
  "total_value demo_final = total_value demo_parent + 7"
proof -
  obtain receipt r0 r1 where run: "execute_block demo_crypto demo_genesis demo_parent demo_block = Ok (demo_final, receipt)"
    and r: "br_receipts receipt = [r0, r1]" "tr_status r0 = Success" "tr_status r1 = Success"
    using demo_run by blast
  from block_conserves_value [OF run] show ?thesis
    by (simp add: r demo_block_def minted_def) (simp add: demo_tx_def r)
qed

text \<open>
  C29. What a transaction does to each object: the fee payer loses the fee charged, a successful
  \<open>Transfer\<close> moves its amount, a successful \<open>Add\<close> adds it, a reverted or resource-exhausted program
  changes nothing else, and no other object changes its value.
\<close>

theorem transaction_effect:
  assumes "expected_access t = Ok (tx_declared_reads t, tx_declared_writes t)"
    and "execute_step cr g (s, pending, receipts) (t, r0) = Ok (s', pending', receipts')"
  shows "\<exists>receipt. receipts' = receipts @ [receipt] \<and>
    (\<forall>i. value_of s' i + value_out t receipt i = value_of s i + value_in t receipt i)"
proof -
  from assms(1) have adm: "admissible t" by (simp add: admissible_def)
  from assms(2) obtain receipt where "receipts' = receipts @ [receipt]" by (rule step_objects)
  with step_value [OF adm assms(2)] show ?thesis by (intro exI [of _ receipt]) fastforce
qed

theorem transaction_effect_witness:
  "value_of demo_mid (2, 1) + 5 = value_of demo_parent (2, 1)"
proof -
  obtain r where r: "tr_status r = Success" "execute_step demo_crypto demo_genesis (demo_parent, bt_empty, []) (demo_tx0, []) =
    Ok (demo_mid, bt_insert ((1, 1), (9, 1)) 7 (bt_insert ((1, 1), (8, 1)) 3 bt_empty), [r])"
    using demo_step0 by blast
  have "expected_access demo_tx0 = Ok (tx_declared_reads demo_tx0, tx_declared_writes demo_tx0)"
    using demo_access(1) by (simp add: demo_tx_def)
  from transaction_effect [OF this r(2)]
  have "value_of demo_mid (2, 1) + value_out demo_tx0 r (2, 1) = value_of demo_parent (2, 1) + value_in demo_tx0 r (2, 1)"
    by auto
  then show ?thesis by (simp add: value_out_def value_in_def demo_tx_def r)
qed

text \<open>
  C31. The fee under a valid price schedule is the exact sum, over the resources, of the price rounded up
  and clamped to the schedule's bounds; the computation fails exactly when a price does not match
  its resource, a product does not fit 128 bits, or the sum does not.
\<close>

theorem fee_exact:
  assumes "validate_genesis g = Ok ()"
  shows "calculate_fee (mg_resource_prices g) usage = Ok fee \<longleftrightarrow>
    (\<forall>(p, u) \<in> set (zip (mg_resource_prices g) usage). chargeable p u) \<and>
    unat fee = (\<Sum>(p, u)\<leftarrow>zip (mg_resource_prices g) usage. clamped_charge p u)"
  using valid_prices [OF assms] by (intro calculate_fee_sum) blast

theorem fee_exact_witness:
  "(\<Sum>(p, u)\<leftarrow>zip (mg_resource_prices demo_genesis) (demo_usage 3 3 20). clamped_charge p u) = 10"
  using fee_exact [OF demo_genesis_valid, of "demo_usage 3 3 20" 10] demo_fees(1) by simp

end
