(* ===== verification/Parallel_Block.thy ===== *)
theory Parallel_Block
  imports Ordered_Map Byte_Encoding Optimistic_Execution
begin

text \<open>
  The bounded parallel executor of \<open>trnm-mvcc-fee\<close> (module \<open>deterministic_parallel_v1\<close>): workers speculate on the
  parent state, the commit loop goes by transaction index and executes a transaction again when a
  version it read has changed. SHA-256 is the parameter \<open>sha\<close>. No operation of a worker can panic, so
  joining a worker returns its rows.
\<close>

section \<open>Data\<close>

datatype ParallelExecutionError =
    EmptyBlock | InvalidWorkerCount | NonCanonicalTransactionIndex | ZeroIdentifier
  | DuplicateTransactionId | NonCanonicalAccessSet | UndeclaredRead | UndeclaredWrite
  | DuplicateInstructionWrite | MissingObject | ArithmeticOverflow | ObjectVersionOverflow
  | FeeLimitExceeded | WorkerPanicked | MissingWorkerResult

definition MAX_PARALLEL_WORKERS :: nat where "MAX_PARALLEL_WORKERS = 64"

text \<open>An \<open>i128\<close> is a 128-bit word read by \<open>sint\<close>.\<close>

type_synonym i128 = "128 word"

definition checked_add_i128 :: "i128 \<Rightarrow> i128 \<Rightarrow> i128 option" where
  "checked_add_i128 a b =
     (if - (2 ^ 127) \<le> sint a + sint b \<and> sint a + sint b < 2 ^ 127 then Some (a + b) else None)"

record ParallelVersionedValue =
  pv_version :: u64
  pv_value :: i128

type_synonym ParallelState = "(hash32, ParallelVersionedValue) btree"

datatype ParallelInstruction =
    Set (pi_target: hash32) i128
  | AddFromRead (pi_target: hash32) hash32 i128

record ParallelResourceVector =
  rv_compute_units :: u64
  rv_state_read_units :: u64
  rv_state_write_units :: u64
  rv_artifact_units :: u64

record ParallelFeeSchedule =
  pf_base_fee :: u128
  pf_compute_unit_price :: u128
  pf_state_read_unit_price :: u128
  pf_state_write_unit_price :: u128
  pf_artifact_unit_price :: u128

record ParallelTransaction =
  pt_index :: u32
  pt_transaction_id :: hash32
  pt_payer :: hash32
  pt_declared_reads :: "hash32 list"
  pt_declared_writes :: "hash32 list"
  pt_instructions :: "ParallelInstruction list"
  pt_base_compute_units :: u64
  pt_artifact_units :: u64
  pt_resource_limit :: ParallelResourceVector
  pt_max_fee :: u128
  pt_force_revert :: bool

datatype ParallelReceiptStatus = Success | Reverted | OutOfResource

fun status_tag :: "ParallelReceiptStatus \<Rightarrow> u8" where
  "status_tag Success = 0"
| "status_tag Reverted = 1"
| "status_tag OutOfResource = 2"

record ParallelExecutionReceipt =
  pr_index :: u32
  pr_transaction_id :: hash32
  pr_payer :: hash32
  pr_status :: ParallelReceiptStatus
  pr_retry_count :: u32
  pr_usage :: ParallelResourceVector
  pr_fee_charged :: u128
  pr_write_set_root :: hash32
  pr_economic_authority :: bool
  pr_settlement_authority :: bool

record ParallelFeeDelta =
  pd_payer :: hash32
  pd_payer_debit :: u128
  pd_fee_sink_credit :: u128

record ParallelBlockResult =
  pb_state :: ParallelState
  pb_receipts :: "ParallelExecutionReceipt list"
  pb_fee_deltas :: "ParallelFeeDelta list"
  pb_state_root :: hash32
  pb_receipt_root :: hash32
  pb_fee_root :: hash32
  pb_worker_count :: nat
  pb_economic_authority :: bool
  pb_settlement_authority :: bool
  pb_global_jmt_authority :: bool

record SpeculatedTransaction =
  st_transaction :: ParallelTransaction
  st_read_versions :: "(hash32, u64) btree"
  st_writes :: "(hash32, i128) btree"
  st_status :: ParallelReceiptStatus
  st_usage :: ParallelResourceVector
  st_fee_charged :: u128

section \<open>Validation\<close>

definition par_require_nonzero :: "hash32 \<Rightarrow> (unit, ParallelExecutionError) result" where
  "par_require_nonzero v = (if v = 0 then Err ZeroIdentifier else Ok ())"

definition from_objects :: "(hash32 \<times> u64 \<times> i128) list \<Rightarrow> (ParallelState, ParallelExecutionError) result" where
  "from_objects objects =
     try_fold (\<lambda>state (object_id, version, value).
       tryR (par_require_nonzero object_id) (\<lambda>_.
       if bt_contains state object_id then Err NonCanonicalAccessSet
       else Ok (bt_insert object_id \<lparr>pv_version = version, pv_value = value\<rparr> state))) bt_empty objects"

definition exceeds :: "ParallelResourceVector \<Rightarrow> ParallelResourceVector \<Rightarrow> bool" where
  "exceeds u limit \<longleftrightarrow> rv_compute_units u > rv_compute_units limit \<or>
     rv_state_read_units u > rv_state_read_units limit \<or>
     rv_state_write_units u > rv_state_write_units limit \<or> rv_artifact_units u > rv_artifact_units limit"

definition checked_fee_component :: "u128 \<Rightarrow> u64 \<Rightarrow> u128 \<Rightarrow> (u128, ParallelExecutionError) result" where
  "checked_fee_component current units price =
     tryR (ok_or (checked_mul (ucast units) price) ArithmeticOverflow) (\<lambda>component.
     ok_or (checked_add current component) ArithmeticOverflow)"

definition fee_for :: "ParallelFeeSchedule \<Rightarrow> ParallelResourceVector \<Rightarrow> (u128, ParallelExecutionError) result" where
  "fee_for f u =
     tryR (checked_fee_component (pf_base_fee f) (rv_compute_units u) (pf_compute_unit_price f)) (\<lambda>t1.
     tryR (checked_fee_component t1 (rv_state_read_units u) (pf_state_read_unit_price f)) (\<lambda>t2.
     tryR (checked_fee_component t2 (rv_state_write_units u) (pf_state_write_unit_price f)) (\<lambda>t3.
     checked_fee_component t3 (rv_artifact_units u) (pf_artifact_unit_price f))))"

definition access_step :: "hash32 option \<Rightarrow> hash32 \<Rightarrow> (hash32 option, ParallelExecutionError) result" where
  "access_step previous value =
     tryR (par_require_nonzero value) (\<lambda>_.
     if (case previous of None \<Rightarrow> False | Some item \<Rightarrow> item \<ge> value) then Err NonCanonicalAccessSet
     else Ok (Some value))"

definition validate_access_set :: "hash32 list \<Rightarrow> (unit, ParallelExecutionError) result" where
  "validate_access_set values = tryR (try_fold access_step None values) (\<lambda>_. Ok ())"

text \<open>The reads and writes the instructions perform, collected by the loop of \<open>validate_transaction\<close>.\<close>

definition instruction_step :: "hash32 set \<times> hash32 set \<Rightarrow> ParallelInstruction \<Rightarrow>
    (hash32 set \<times> hash32 set, ParallelExecutionError) result" where
  "instruction_step acc i = (case acc of (reads, writes) \<Rightarrow>
     let source = (case i of Set _ _ \<Rightarrow> None | AddFromRead _ s _ \<Rightarrow> Some s)
     in tryR (par_require_nonzero (pi_target i)) (\<lambda>_.
        if pi_target i \<in> writes then Err DuplicateInstructionWrite
        else
          (case source of
             None \<Rightarrow> Ok (reads, insert (pi_target i) writes)
           | Some s \<Rightarrow> tryR (par_require_nonzero s) (\<lambda>_. Ok (insert s reads, insert (pi_target i) writes)))))"

definition par_validate_transaction :: "ParallelTransaction \<Rightarrow> (unit, ParallelExecutionError) result" where
  "par_validate_transaction t =
     tryR (validate_access_set (pt_declared_reads t)) (\<lambda>_.
     tryR (validate_access_set (pt_declared_writes t)) (\<lambda>_.
     tryR (try_fold instruction_step ({}, {}) (pt_instructions t)) (\<lambda>(actual_reads, actual_writes).
     if actual_reads \<noteq> set (pt_declared_reads t) then Err UndeclaredRead
     else if actual_writes \<noteq> set (pt_declared_writes t) then Err UndeclaredWrite
     else Ok ())))"

definition block_step :: "hash32 set \<Rightarrow> nat \<times> ParallelTransaction \<Rightarrow> (hash32 set, ParallelExecutionError) result" where
  "block_step ids it = (case it of (expected_index, t) \<Rightarrow>
     if expected_index \<ge> 2 ^ 32 \<or> pt_index t \<noteq> word_of_nat expected_index then Err NonCanonicalTransactionIndex
     else
       tryR (par_require_nonzero (pt_transaction_id t)) (\<lambda>_.
       tryR (par_require_nonzero (pt_payer t)) (\<lambda>_.
       if pt_transaction_id t \<in> ids then Err DuplicateTransactionId
       else tryR (par_validate_transaction t) (\<lambda>_. Ok (insert (pt_transaction_id t) ids)))))"

definition par_validate_block :: "ParallelTransaction list \<Rightarrow> nat \<Rightarrow> (unit, ParallelExecutionError) result" where
  "par_validate_block ts worker_count =
     (if ts = [] then Err EmptyBlock
      else if worker_count = 0 \<or> worker_count > MAX_PARALLEL_WORKERS then Err InvalidWorkerCount
      else tryR (try_fold block_step {} (enumerate 0 ts)) (\<lambda>_. Ok ()))"

section \<open>Execution\<close>

definition u64_of_len :: "nat \<Rightarrow> (u64, ParallelExecutionError) result" where
  "u64_of_len n = (if n \<ge> 2 ^ 64 then Err ArithmeticOverflow else Ok (word_of_nat n))"

definition instruction_value :: "ParallelState \<Rightarrow> ParallelInstruction \<Rightarrow> (i128, ParallelExecutionError) result" where
  "instruction_value state i =
     (case i of
        Set _ value \<Rightarrow> Ok value
      | AddFromRead _ source delta \<Rightarrow>
          tryR (ok_or (bt_get state source) MissingObject) (\<lambda>x.
          ok_or (checked_add_i128 (pv_value x) delta) ArithmeticOverflow))"

definition execute_transaction :: "ParallelState \<Rightarrow> ParallelTransaction \<Rightarrow> ParallelFeeSchedule \<Rightarrow>
    (SpeculatedTransaction, ParallelExecutionError) result" where
  "execute_transaction state t fees =
     tryR (u64_of_len (length (pt_instructions t))) (\<lambda>instruction_units.
     tryR (ok_or (checked_add (pt_base_compute_units t) instruction_units) ArithmeticOverflow) (\<lambda>compute.
     tryR (u64_of_len (length (pt_declared_reads t))) (\<lambda>nreads.
     tryR (u64_of_len (length (pt_declared_writes t))) (\<lambda>nwrites.
       let usage = \<lparr>rv_compute_units = compute, rv_state_read_units = nreads, rv_state_write_units = nwrites,
             rv_artifact_units = pt_artifact_units t\<rparr>
       in tryR (fee_for fees usage) (\<lambda>fee_charged.
          if fee_charged > pt_max_fee t then Err FeeLimitExceeded
          else
            tryR (try_fold (\<lambda>versions i. tryR (ok_or (bt_get state i) MissingObject) (\<lambda>x.
                Ok (bt_insert i (pv_version x) versions))) bt_empty (pt_declared_reads t)) (\<lambda>read_versions.
            if list_ex (\<lambda>i. bt_get state i = None) (pt_declared_writes t) then Err MissingObject
            else
              let status = (if exceeds usage (pt_resource_limit t) then OutOfResource
                            else if pt_force_revert t then Reverted else Success)
              in tryR (if status = Success
                       then try_fold (\<lambda>writes i. tryR (instruction_value state i) (\<lambda>value.
                              Ok (bt_insert (pi_target i) value writes))) bt_empty (pt_instructions t)
                       else Ok bt_empty) (\<lambda>writes.
                 Ok \<lparr>st_transaction = t, st_read_versions = read_versions, st_writes = writes, st_status = status,
                     st_usage = usage, st_fee_charged = fee_charged\<rparr>)))))))"

text \<open>First every version is checked, then every object is written.\<close>

definition check_write :: "ParallelState \<Rightarrow> hash32 \<Rightarrow> (unit, ParallelExecutionError) result" where
  "check_write state i =
     tryR (ok_or (bt_get state i) MissingObject) (\<lambda>x.
     tryR (ok_or (checked_add (pv_version x) 1) ObjectVersionOverflow) (\<lambda>_. Ok ()))"

definition write_value :: "ParallelState \<Rightarrow> hash32 \<times> i128 \<Rightarrow> (ParallelState, ParallelExecutionError) result" where
  "write_value state e = (case e of (i, next_value) \<Rightarrow>
     tryR (ok_or (bt_get state i) MissingObject) (\<lambda>x.
     Ok (bt_insert i \<lparr>pv_version = pv_version x + 1, pv_value = next_value\<rparr> state)))"

definition apply_writes :: "ParallelState \<Rightarrow> (hash32, i128) btree \<Rightarrow> (ParallelState, ParallelExecutionError) result" where
  "apply_writes state writes =
     tryR (try_fold (\<lambda>_ i. check_write state i) () (map fst (entries writes))) (\<lambda>_.
     try_fold write_value state (entries writes))"

section \<open>Roots\<close>

definition STATE_ROOT_DOMAIN :: "u8 list" where "STATE_ROOT_DOMAIN = ascii ''trnm.g2d.parallel.state-root.v1'' @ [0]"
definition RECEIPT_ROOT_DOMAIN :: "u8 list" where "RECEIPT_ROOT_DOMAIN = ascii ''trnm.g2d.parallel.receipt-root.v1'' @ [0]"
definition WRITE_SET_ROOT_DOMAIN :: "u8 list" where "WRITE_SET_ROOT_DOMAIN = ascii ''trnm.g2d.parallel.write-set-root.v1'' @ [0]"
definition FEE_ROOT_DOMAIN :: "u8 list" where "FEE_ROOT_DOMAIN = ascii ''trnm.g2d.parallel.fee-root.v1'' @ [0]"

definition par_state_root :: "(u8 list \<Rightarrow> hash32) \<Rightarrow> ParallelState \<Rightarrow> hash32" where
  "par_state_root sha state = sha (frames ([STATE_ROOT_DOMAIN, be_bytes 8 (word_of_nat (length (entries state)) :: u64)] @
     concat (map (\<lambda>(i, x). [hash_bytes i, be_bytes 8 (pv_version x), be_bytes 16 (pv_value x)]) (entries state))))"

definition write_set_root :: "(u8 list \<Rightarrow> hash32) \<Rightarrow> (hash32, i128) btree \<Rightarrow> hash32" where
  "write_set_root sha writes = sha (frames ([WRITE_SET_ROOT_DOMAIN, be_bytes 8 (word_of_nat (length (entries writes)) :: u64)] @
     concat (map (\<lambda>(i, v). [hash_bytes i, be_bytes 16 v]) (entries writes))))"

definition receipt_root :: "(u8 list \<Rightarrow> hash32) \<Rightarrow> ParallelExecutionReceipt list \<Rightarrow> hash32" where
  "receipt_root sha receipts = sha (frames ([RECEIPT_ROOT_DOMAIN, be_bytes 8 (word_of_nat (length receipts) :: u64)] @
     concat (map (\<lambda>r. [be_bytes 4 (pr_index r), hash_bytes (pr_transaction_id r), hash_bytes (pr_payer r),
       [status_tag (pr_status r)], be_bytes 4 (pr_retry_count r), be_bytes 8 (rv_compute_units (pr_usage r)),
       be_bytes 8 (rv_state_read_units (pr_usage r)), be_bytes 8 (rv_state_write_units (pr_usage r)),
       be_bytes 8 (rv_artifact_units (pr_usage r)), be_bytes 16 (pr_fee_charged r),
       hash_bytes (pr_write_set_root r)]) receipts)))"

definition fee_root :: "(u8 list \<Rightarrow> hash32) \<Rightarrow> ParallelFeeDelta list \<Rightarrow> hash32" where
  "fee_root sha deltas = sha (frames ([FEE_ROOT_DOMAIN, be_bytes 8 (word_of_nat (length deltas) :: u64)] @
     concat (map (\<lambda>d. [hash_bytes (pd_payer d), be_bytes 16 (pd_payer_debit d), be_bytes 16 (pd_fee_sink_credit d)]) deltas)))"

section \<open>The block\<close>

definition worker_positions_rows :: "ParallelState \<Rightarrow> ParallelTransaction list \<Rightarrow> nat \<Rightarrow> ParallelFeeSchedule \<Rightarrow> nat \<Rightarrow>
    (nat \<times> (SpeculatedTransaction, ParallelExecutionError) result) list" where
  "worker_positions_rows parent ts worker_count fees worker =
     map (\<lambda>p. (p, execute_transaction parent (ts ! p) fees)) (positions worker_count (length ts) worker)"

definition fill_slot :: "SpeculatedTransaction option list \<Rightarrow> nat \<times> (SpeculatedTransaction, ParallelExecutionError) result \<Rightarrow>
    (SpeculatedTransaction option list, ParallelExecutionError) result" where
  "fill_slot slots row = (case row of (p, r) \<Rightarrow> tryR r (\<lambda>x. Ok (slots[p := Some x])))"

definition speculate_parallel :: "ParallelState \<Rightarrow> ParallelTransaction list \<Rightarrow> nat \<Rightarrow> ParallelFeeSchedule \<Rightarrow>
    (SpeculatedTransaction list, ParallelExecutionError) result" where
  "speculate_parallel parent ts worker_count fees =
     tryR (try_fold (\<lambda>slots worker. try_fold fill_slot slots (worker_positions_rows parent ts worker_count fees worker))
             (replicate (length ts) None) [0..<worker_count]) (\<lambda>slots.
     collect (\<lambda>slot. ok_or slot MissingWorkerResult) slots)"

definition conflicted :: "ParallelState \<Rightarrow> SpeculatedTransaction \<Rightarrow> bool" where
  "conflicted state s \<longleftrightarrow> list_ex (\<lambda>(i, version). map_option pv_version (bt_get state i) \<noteq> Some version)
     (entries (st_read_versions s))"

type_synonym ParallelLoop = "ParallelState \<times> ParallelExecutionReceipt list \<times> (hash32, u128) btree"

text \<open>The commit of the selected execution: writes, receipt, fees.\<close>

definition commit_selected :: "(u8 list \<Rightarrow> hash32) \<Rightarrow> ParallelLoop \<Rightarrow> SpeculatedTransaction \<Rightarrow> u32 \<Rightarrow>
    (ParallelLoop, ParallelExecutionError) result" where
  "commit_selected sha st selected retry_count = (case st of (state, receipts, fees) \<Rightarrow>
     tryR (if st_status selected = Success then apply_writes state (st_writes selected) else Ok state) (\<lambda>state'.
       let receipt = \<lparr>pr_index = pt_index (st_transaction selected),
             pr_transaction_id = pt_transaction_id (st_transaction selected), pr_payer = pt_payer (st_transaction selected),
             pr_status = st_status selected, pr_retry_count = retry_count, pr_usage = st_usage selected,
             pr_fee_charged = st_fee_charged selected, pr_write_set_root = write_set_root sha (st_writes selected),
             pr_economic_authority = False, pr_settlement_authority = False\<rparr>;
           payer = pt_payer (st_transaction selected)
       in tryR (ok_or (checked_add (case bt_get fees payer of None \<Rightarrow> 0 | Some x \<Rightarrow> x) (st_fee_charged selected)) ArithmeticOverflow) (\<lambda>accumulated.
          Ok (state', receipts @ [receipt], bt_insert payer accumulated fees))))"

definition parallel_step :: "(u8 list \<Rightarrow> hash32) \<Rightarrow> ParallelFeeSchedule \<Rightarrow> ParallelLoop \<Rightarrow> SpeculatedTransaction \<Rightarrow>
    (ParallelLoop, ParallelExecutionError) result" where
  "parallel_step sha schedule st original =
     (if conflicted (fst st) original
      then tryR (execute_transaction (fst st) (st_transaction original) schedule) (\<lambda>selected. commit_selected sha st selected 1)
      else commit_selected sha st original 0)"

definition fee_deltas_of :: "(hash32, u128) btree \<Rightarrow> ParallelFeeDelta list" where
  "fee_deltas_of fees = map (\<lambda>(payer, amount). \<lparr>pd_payer = payer, pd_payer_debit = amount, pd_fee_sink_credit = amount\<rparr>) (entries fees)"

definition parallel_result :: "(u8 list \<Rightarrow> hash32) \<Rightarrow> nat \<Rightarrow> ParallelLoop \<Rightarrow> ParallelBlockResult" where
  "parallel_result sha worker_count st = (case st of (state, receipts, fees) \<Rightarrow>
     let fee_deltas = fee_deltas_of fees
     in \<lparr>pb_state = state, pb_receipts = receipts, pb_fee_deltas = fee_deltas, pb_state_root = par_state_root sha state,
         pb_receipt_root = receipt_root sha receipts, pb_fee_root = fee_root sha fee_deltas, pb_worker_count = worker_count,
         pb_economic_authority = False, pb_settlement_authority = False, pb_global_jmt_authority = False\<rparr>)"

definition execute_parallel_block :: "(u8 list \<Rightarrow> hash32) \<Rightarrow> ParallelState \<Rightarrow> ParallelTransaction list \<Rightarrow> nat \<Rightarrow>
    ParallelFeeSchedule \<Rightarrow> (ParallelBlockResult, ParallelExecutionError) result" where
  "execute_parallel_block sha parent ts worker_count schedule =
     tryR (par_validate_block ts worker_count) (\<lambda>_.
     tryR (speculate_parallel parent ts worker_count schedule) (\<lambda>speculative.
     tryR (try_fold (parallel_step sha schedule) (parent, [], bt_empty) speculative) (\<lambda>st.
     Ok (parallel_result sha worker_count st))))"

section \<open>What an execution depends on\<close>

abbreviation version_at :: "ParallelState \<Rightarrow> hash32 \<Rightarrow> u64 option" where
  "version_at s i \<equiv> map_option pv_version (bt_get s i)"

lemma read_versions_fold:
  assumes "try_fold (\<lambda>versions i. tryR (ok_or (bt_get s i) MissingObject) (\<lambda>x. Ok (bt_insert i (pv_version x) versions))) acc ids = Ok m"
  shows "\<forall>i \<in> set ids. bt_get s i \<noteq> None"
    and "bt_get m i = (if i \<in> set ids then version_at s i else bt_get acc i)"
  using assms by (induction ids arbitrary: acc) (auto simp: result_simps)

lemma write_keys_fold:
  assumes "try_fold (\<lambda>writes i. tryR (instruction_value s i) (\<lambda>value. Ok (bt_insert (pi_target i) value writes))) acc is = Ok m"
  shows "bt_get m k \<noteq> None \<longleftrightarrow> k \<in> pi_target ` set is \<or> bt_get acc k \<noteq> None"
  using assms
proof (induction "is" arbitrary: acc)
  case (Cons i "is")
  then obtain v where "try_fold (\<lambda>writes i. tryR (instruction_value s i) (\<lambda>value. Ok (bt_insert (pi_target i) value writes)))
      (bt_insert (pi_target i) v acc) is = Ok m"
    by (auto simp: result_simps)
  from Cons.IH [OF this] show ?case by auto
qed simp

lemma execute_transactionD:
  assumes "execute_transaction s t fees = Ok sp"
  shows "st_transaction sp = t"
    and "bt_get (st_read_versions sp) i = (if i \<in> set (pt_declared_reads t) then version_at s i else None)"
    and "\<forall>i \<in> set (pt_declared_reads t). bt_get s i \<noteq> None"
    and "bt_get (st_writes sp) k \<noteq> None \<longleftrightarrow> st_status sp = Success \<and> k \<in> pi_target ` set (pt_instructions t)"
    and "\<forall>i \<in> set (pt_declared_writes t). bt_get s i \<noteq> None"
proof -
  from assms obtain rv where sp: "st_transaction sp = t" "st_read_versions sp = rv"
      "\<forall>i \<in> set (pt_declared_writes t). bt_get s i \<noteq> None"
    and rv: "try_fold (\<lambda>versions i. tryR (ok_or (bt_get s i) MissingObject) (\<lambda>x. Ok (bt_insert i (pv_version x) versions)))
      bt_empty (pt_declared_reads t) = Ok rv"
    and w: "(if st_status sp = Success then try_fold (\<lambda>writes i. tryR (instruction_value s i) (\<lambda>value.
      Ok (bt_insert (pi_target i) value writes))) bt_empty (pt_instructions t) else Ok bt_empty) = Ok (st_writes sp)"
    by (auto simp: execute_transaction_def Let_def result_simps list_ex_iff)
  show "st_transaction sp = t" "\<forall>i \<in> set (pt_declared_writes t). bt_get s i \<noteq> None" by fact+
  show "bt_get (st_read_versions sp) i = (if i \<in> set (pt_declared_reads t) then version_at s i else None)"
    "\<forall>i \<in> set (pt_declared_reads t). bt_get s i \<noteq> None"
    using read_versions_fold [OF rv] by (simp_all add: sp)
  show "bt_get (st_writes sp) k \<noteq> None \<longleftrightarrow> st_status sp = Success \<and> k \<in> pi_target ` set (pt_instructions t)"
  proof (cases "st_status sp = Success")
    case True
    with w write_keys_fold [of s bt_empty "pt_instructions t" "st_writes sp" k] show ?thesis by simp
  next
    case False
    with w have "st_writes sp = bt_empty" by simp
    with False show ?thesis by simp
  qed
qed

lemma conflicted_iff:
  assumes "execute_transaction s0 t fees = Ok sp"
  shows "conflicted s sp \<longleftrightarrow> map (version_at s0) (pt_declared_reads t) \<noteq> map (version_at s) (pt_declared_reads t)"
proof -
  note D = execute_transactionD [OF assms]
  have changed: "(\<exists>i v. (if i \<in> R then f i else None) = Some v \<and> g i \<noteq> Some v) \<longleftrightarrow> (\<exists>i \<in> R. f i \<noteq> g i)"
    if "\<forall>i \<in> R. f i \<noteq> None" for R and f g :: "hash32 \<Rightarrow> u64 option"
    using that by (force split: if_splits)
  have "conflicted s sp \<longleftrightarrow> (\<exists>i v. bt_get (st_read_versions sp) i = Some v \<and> version_at s i \<noteq> Some v)"
    unfolding conflicted_def list_ex_iff entries_get [symmetric] by blast
  also have "\<dots> \<longleftrightarrow> (\<exists>i \<in> set (pt_declared_reads t). version_at s0 i \<noteq> version_at s i)"
    unfolding D(2) using D(3) by (intro changed) simp
  finally show ?thesis by auto
qed

text \<open>The instructions read declared objects only.\<close>

definition reads_declared :: "ParallelTransaction \<Rightarrow> bool" where
  "reads_declared t \<longleftrightarrow> (\<forall>i \<in> set (pt_instructions t). case i of Set _ _ \<Rightarrow> True | AddFromRead _ s _ \<Rightarrow> s \<in> set (pt_declared_reads t)) \<and>
     pi_target ` set (pt_instructions t) = set (pt_declared_writes t)"

lemma instruction_fold:
  assumes "try_fold instruction_step (rs, ws) is = Ok (rs', ws')"
  shows "rs \<subseteq> rs'" "ws' = ws \<union> pi_target ` set is"
    and "\<forall>i \<in> set is. case i of Set _ _ \<Rightarrow> True | AddFromRead _ s _ \<Rightarrow> s \<in> rs'"
proof -
  have "rs \<subseteq> rs' \<and> ws' = ws \<union> pi_target ` set is \<and>
      (\<forall>i \<in> set is. case i of Set _ _ \<Rightarrow> True | AddFromRead _ s _ \<Rightarrow> s \<in> rs')"
    using assms
  proof (induction "is" arbitrary: rs ws)
    case (Cons i "is")
    then obtain rs1 ws1 where "instruction_step (rs, ws) i = Ok (rs1, ws1)" "try_fold instruction_step (rs1, ws1) is = Ok (rs', ws')"
      by (auto simp: result_simps)
    with Cons.IH [OF this(2)] show ?case
      by (cases i) (auto simp: instruction_step_def Let_def result_simps)
  qed simp
  then show "rs \<subseteq> rs'" "ws' = ws \<union> pi_target ` set is"
    and "\<forall>i \<in> set is. case i of Set _ _ \<Rightarrow> True | AddFromRead _ s _ \<Rightarrow> s \<in> rs'" by blast+
qed

lemma validate_transaction_declared: "par_validate_transaction t = Ok u \<Longrightarrow> reads_declared t"
  using instruction_fold [of "{}" "{}" "pt_instructions t"]
  by (auto simp: par_validate_transaction_def result_simps reads_declared_def)

lemma validate_block_declared:
  assumes "par_validate_block ts w = Ok u"
  shows "\<forall>t \<in> set ts. reads_declared t" "0 < w" "w \<le> 64" "ts \<noteq> []"
proof -
  have "try_fold block_step ids (enumerate n ts) = Ok r \<Longrightarrow> \<forall>t \<in> set ts. reads_declared t" for ids n r
    by (induction ts arbitrary: ids n) (auto simp: result_simps block_step_def dest: validate_transaction_declared)
  with assms show "\<forall>t \<in> set ts. reads_declared t" "0 < w" "w \<le> 64" "ts \<noteq> []"
    by (auto simp: par_validate_block_def result_simps MAX_PARALLEL_WORKERS_def)
qed

abbreviation par_advances :: "ParallelState \<Rightarrow> ParallelState \<Rightarrow> bool" where
  "par_advances \<equiv> advances_by pv_version"

lemma execute_transaction_same:
  assumes adv: "par_advances s0 s" and t: "reads_declared t"
    and same: "map (version_at s0) (pt_declared_reads t) = map (version_at s) (pt_declared_reads t)"
  shows "execute_transaction s0 t fees = execute_transaction s t fees"
proof -
  have get: "bt_get s0 i = bt_get s i" if "i \<in> set (pt_declared_reads t)" for i
    using that same by (intro advances_by_same_version [OF adv]) auto
  have r: "try_fold (\<lambda>versions i. tryR (ok_or (bt_get s0 i) MissingObject) (\<lambda>x. Ok (bt_insert i (pv_version x) versions))) bt_empty (pt_declared_reads t) =
      try_fold (\<lambda>versions i. tryR (ok_or (bt_get s i) MissingObject) (\<lambda>x. Ok (bt_insert i (pv_version x) versions))) bt_empty (pt_declared_reads t)"
    by (intro try_fold_cong refl) (simp add: get)
  have w: "list_ex (\<lambda>i. bt_get s0 i = None) (pt_declared_writes t) = list_ex (\<lambda>i. bt_get s i = None) (pt_declared_writes t)"
    by (simp add: advances_by_None [OF adv])
  have "instruction_value s0 i = instruction_value s i" if "i \<in> set (pt_instructions t)" for i
    using that t get by (auto simp: instruction_value_def reads_declared_def split: ParallelInstruction.splits)
  then have v: "try_fold (\<lambda>writes i. tryR (instruction_value s0 i) (\<lambda>value. Ok (bt_insert (pi_target i) value writes))) bt_empty (pt_instructions t) =
      try_fold (\<lambda>writes i. tryR (instruction_value s i) (\<lambda>value. Ok (bt_insert (pi_target i) value writes))) bt_empty (pt_instructions t)"
    by (intro try_fold_cong refl) simp
  show ?thesis unfolding execute_transaction_def r w v ..
qed

section \<open>Writes\<close>

lemma apply_writes_get:
  assumes "apply_writes s writes = Ok s'"
  shows "bt_get s' i = (case bt_get writes i of None \<Rightarrow> bt_get s i
    | Some v \<Rightarrow> map_option (\<lambda>x. \<lparr>pv_version = pv_version x + 1, pv_value = v\<rparr>) (bt_get s i))"
    and "bt_get writes i \<noteq> None \<Longrightarrow> \<exists>x. bt_get s i = Some x \<and> unat (pv_version x + 1) = unat (pv_version x) + 1"
proof -
  have go: "distinct (map fst es) \<Longrightarrow> try_fold write_value s es = Ok s' \<Longrightarrow> bt_get s' i = (case map_of es i of None \<Rightarrow> bt_get s i
    | Some v \<Rightarrow> map_option (\<lambda>x. \<lparr>pv_version = pv_version x + 1, pv_value = v\<rparr>) (bt_get s i))" for es s s'
  proof (induction es arbitrary: s)
    case (Cons e es)
    obtain k v where e: "e = (k, v)" by (cases e)
    from Cons.prems e obtain x where x: "bt_get s k = Some x"
      "try_fold write_value (bt_insert k \<lparr>pv_version = pv_version x + 1, pv_value = v\<rparr> s) es = Ok s'"
      by (auto simp: write_value_def [of s "(k, v)"] result_simps)
    from Cons.prems(1) e have "map_of es k = None" by (simp add: map_of_eq_None_iff)
    with Cons.IH [OF _ x(2)] Cons.prems(1) x(1) e show ?case by (auto split: option.splits)
  qed simp
  from assms have loop: "try_fold write_value s (entries writes) = Ok s'"
    and checks: "try_fold (\<lambda>_ i. check_write s i) () (map fst (entries writes)) = Ok ()"
    by (auto simp: apply_writes_def result_simps)
  from go [OF bt.iter_distinct loop] show "bt_get s' i = (case bt_get writes i of None \<Rightarrow> bt_get s i
    | Some v \<Rightarrow> map_option (\<lambda>x. \<lparr>pv_version = pv_version x + 1, pv_value = v\<rparr>) (bt_get s i))"
    by (simp add: bt.get_iter)
  have each: "try_fold (\<lambda>_ i. check_write s i) () ks = Ok () \<Longrightarrow> k \<in> set ks \<Longrightarrow> check_write s k = Ok ()" for ks k
    by (induction ks) (auto simp: result_simps)
  assume "bt_get writes i \<noteq> None"
  then have "i \<in> set (map fst (entries writes))" by (force simp: entries_get [symmetric])
  from each [OF checks this] obtain x and v :: u64 where "bt_get s i = Some x" "unat v = unat (pv_version x) + 1"
    by (auto simp: check_write_def result_simps checked_simps)
  moreover from this have "v = pv_version x + 1"
    using unat_bound [of v] by (simp add: word_unat_eq_iff unat_word_ariths)
  ultimately show "\<exists>x. bt_get s i = Some x \<and> unat (pv_version x + 1) = unat (pv_version x) + 1" by auto
qed

lemma apply_writes_advances: "apply_writes s writes = Ok s' \<Longrightarrow> par_advances s s'"
  unfolding advances_by_def
proof
  fix i assume a: "apply_writes s writes = Ok s'"
  show "bt_get s' i = bt_get s i \<or> (\<exists>x y. bt_get s i = Some x \<and> bt_get s' i = Some y \<and> pv_version x < pv_version y)"
  proof (cases "bt_get writes i")
    case None
    with apply_writes_get(1) [OF a, of i] show ?thesis by simp
  next
    case (Some v)
    with apply_writes_get [OF a, of i] show ?thesis by (auto simp: word_less_nat_alt)
  qed
qed

section \<open>Speculation is optimistic execution\<close>

interpretation par: optimistic
  "\<lambda>(s :: ParallelLoop) t. Ok (map (version_at (fst s)) (pt_declared_reads t))"
  "\<lambda>r0 r. r0 = r"
  "\<lambda>(s :: ParallelLoop) t r. execute_transaction (fst s) t fees"
  "\<lambda>(s :: ParallelLoop) t r0 r c. commit_selected sha s c (if r0 = r then 0 else 1)"
  "\<lambda>(s0 :: ParallelLoop) s. par_advances (fst s0) (fst s)"
  reads_declared for fees sha
proof unfold_locales
  show "par_advances (fst s0) (fst s')"
    if "par_advances (fst s0) (fst s)" "commit_selected sha s c (if r0 = r then 0 else 1) = Ok s'"
    for s0 s s' :: ParallelLoop and c and r0 r :: "u64 option list"
    using that by (auto simp: commit_selected_def Let_def result_simps split: if_splits prod.splits
        intro: advances_by_trans [OF _ apply_writes_advances])
  show "execute_transaction (fst s0) t fees = execute_transaction (fst s) t fees"
    if "par_advances (fst s0) (fst s)" "reads_declared t" "Ok (map (version_at (fst s0)) (pt_declared_reads t)) = Ok r0"
      "Ok (map (version_at (fst s)) (pt_declared_reads t)) = Ok r" "r0 = r"
    for s0 s :: ParallelLoop and t r r0
    using that by (intro execute_transaction_same) auto
qed simp

lemma fill_rows: "try_fold fill_slot slots (map (\<lambda>p. (p, Ok (f p))) ps) = Ok (place_rows slots (map (\<lambda>p. (p, f p)) ps))"
  by (induction ps arbitrary: slots) (simp_all add: fill_slot_def place_rows_def)

lemma try_fold_Ok: "(\<And>a x. x \<in> set xs \<Longrightarrow> f a x = Ok (h a x)) \<Longrightarrow> try_fold f a xs = Ok (fold (\<lambda>x a. h a x) xs a)"
  by (induction xs arbitrary: a) simp_all

lemma try_fold_each: "try_fold f a xs = Ok r \<Longrightarrow> x \<in> set xs \<Longrightarrow> \<exists>b c. f b x = Ok c"
  by (induction xs arbitrary: a) (auto simp: result_simps)

lemma collect_is_ok: "is_ok (collect f xs) \<longleftrightarrow> (\<forall>x \<in> set xs. is_ok (f x))"
proof (induction xs)
  case (Cons x xs)
  then show ?case by (cases "f x"; cases "collect f xs") simp_all
qed simp

lemma speculate_complete:
  assumes w: "0 < w" and rows: "collect (\<lambda>t. execute_transaction parent t fees) ts = Ok sps"
  shows "speculate_parallel parent ts w fees = Ok sps"
proof -
  have len: "length sps = length ts" using rows by (rule collect_Ok_length)
  have each: "execute_transaction parent (ts ! p) fees = Ok (sps ! p)" if "p < length ts" for p
    using collect_Ok_nth [OF rows that] .
  have "worker_positions_rows parent ts w fees k = map (\<lambda>p. (p, Ok (sps ! p))) (positions w (length ts) k)" for k
    unfolding worker_positions_rows_def using each set_positions [OF w, of "length ts" k] by auto
  then have "try_fold (\<lambda>slots k. try_fold fill_slot slots (worker_positions_rows parent ts w fees k)) (replicate (length ts) None) [0..<w]
      = Ok (map (\<lambda>p. Some (sps ! p)) [0..<length ts])"
    using try_fold_Ok [of "[0..<w]" "\<lambda>slots k. try_fold fill_slot slots (worker_positions_rows parent ts w fees k)"
        "\<lambda>slots k. place_rows slots (map (\<lambda>p. (p, sps ! p)) (positions w (length ts) k))" "replicate (length ts) None"]
      place_all [OF w, of "\<lambda>p. sps ! p" "length ts"]
    by (simp add: fill_rows)
  moreover have "collect (\<lambda>slot. ok_or slot MissingWorkerResult) (map (\<lambda>p. Some (sps ! p)) [0..<length ts]) = Ok sps"
    by (simp add: collect_map collect_eq_Ok list_all2_conv_all_nth len)
  ultimately show ?thesis by (simp add: speculate_parallel_def)
qed

lemma speculate_iff:
  assumes w: "0 < w"
  shows "speculate_parallel parent ts w fees = Ok sps \<longleftrightarrow> collect (\<lambda>t. execute_transaction parent t fees) ts = Ok sps"
proof
  assume *: "speculate_parallel parent ts w fees = Ok sps"
  have "\<exists>sp. execute_transaction parent (ts ! p) fees = Ok sp" if "p < length ts" for p
  proof -
    from * obtain slots where fold: "try_fold (\<lambda>slots k. try_fold fill_slot slots (worker_positions_rows parent ts w fees k))
        (replicate (length ts) None) [0..<w] = Ok slots" by (auto simp: speculate_parallel_def result_simps)
    from that w have "p mod w \<in> set [0..<w]" "p \<in> set (positions w (length ts) (p mod w))"
      by (simp_all add: set_positions mod_less_eq_dividend)
    with try_fold_each [OF fold, of "p mod w"] obtain b c where
      "try_fold fill_slot b (worker_positions_rows parent ts w fees (p mod w)) = Ok c" by auto
    moreover have "(p, execute_transaction parent (ts ! p) fees) \<in> set (worker_positions_rows parent ts w fees (p mod w))"
      using \<open>p \<in> set (positions w (length ts) (p mod w))\<close> by (simp add: worker_positions_rows_def)
    ultimately show ?thesis
      by (auto simp: fill_slot_def result_simps dest!: try_fold_each)
  qed
  then have "list_all2 (\<lambda>t sp. execute_transaction parent t fees = Ok sp) ts (map (\<lambda>t. ok_of (execute_transaction parent t fees)) ts)"
    by (auto simp: list_all2_conv_all_nth) (metis result.sel(1))
  then have "collect (\<lambda>t. execute_transaction parent t fees) ts = Ok (map (\<lambda>t. ok_of (execute_transaction parent t fees)) ts)"
    by (simp add: collect_eq_Ok)
  with speculate_complete [OF w this] * show "collect (\<lambda>t. execute_transaction parent t fees) ts = Ok sps" by simp
qed (rule speculate_complete [OF w])

text \<open>
  What the workers report: each transaction is executed on the parent, in the order in which their rows are joined (all positions
  of worker 0, then those of worker 1, and so on), and the first error wins.
\<close>

definition speculation_verdict :: "ParallelState \<Rightarrow> ParallelTransaction list \<Rightarrow> nat \<Rightarrow> ParallelFeeSchedule \<Rightarrow> (unit, ParallelExecutionError) result" where
  "speculation_verdict parent ts w fees =
     try_fold (\<lambda>_ p. tryR (execute_transaction parent (ts ! p) fees) (\<lambda>_. Ok ())) () (concat (map (positions w (length ts)) [0..<w]))"

lemma fill_rows_Err:
  "try_fold fill_slot slots (map (\<lambda>p. (p, f p)) ps) = Err e \<longleftrightarrow> try_fold (\<lambda>_ p. tryR (f p) (\<lambda>_. Ok ())) () ps = Err e"
proof (induction ps arbitrary: slots)
  case (Cons p ps)
  then show ?case by (cases "f p") (simp_all add: fill_slot_def)
qed simp

lemma join_rows_Err:
  "try_fold (\<lambda>slots k. try_fold fill_slot slots (worker_positions_rows parent ts w fees k)) slots ks = Err e \<longleftrightarrow>
    try_fold (\<lambda>_ p. tryR (execute_transaction parent (ts ! p) fees) (\<lambda>_. Ok ())) () (concat (map (positions w (length ts)) ks)) = Err e"
proof (induction ks arbitrary: slots)
  case (Cons k ks)
  let ?rows = "try_fold fill_slot slots (worker_positions_rows parent ts w fees k)"
  let ?check = "try_fold (\<lambda>_ p. tryR (execute_transaction parent (ts ! p) fees) (\<lambda>_. Ok ())) ()"
  have rows: "?rows = Err e' \<longleftrightarrow> ?check (positions w (length ts) k) = Err e'" for e'
    unfolding worker_positions_rows_def by (rule fill_rows_Err)
  show ?case
  proof (cases ?rows)
    case (Ok slots1)
    with rows have "?check (positions w (length ts) k) = Ok ()" by (cases "?check (positions w (length ts) k)") auto
    with Ok Cons.IH [of slots1] show ?thesis by (simp add: try_fold_append)
  next
    case (Err e')
    with rows have "?check (positions w (length ts) k) = Err e'" by blast
    with Err show ?thesis by (simp add: try_fold_append)
  qed
qed simp

lemma verdict_iff:
  assumes w: "0 < w"
  shows "speculation_verdict parent ts w fees = Ok () \<longleftrightarrow> (\<forall>t \<in> set ts. is_ok (execute_transaction parent t fees))"
proof -
  have each: "try_fold (\<lambda>_ p. tryR (execute_transaction parent (ts ! p) fees) (\<lambda>_. Ok ())) () ps = Ok () \<longleftrightarrow>
      (\<forall>p \<in> set ps. is_ok (execute_transaction parent (ts ! p) fees))" for ps
  proof (induction ps)
    case (Cons p ps)
    then show ?case by (cases "execute_transaction parent (ts ! p) fees") simp_all
  qed simp
  have "set (concat (map (positions w (length ts)) [0..<w])) = {..<length ts}"
  proof
    show "{..<length ts} \<subseteq> set (concat (map (positions w (length ts)) [0..<w]))"
    proof
      fix p assume "p \<in> {..<length ts}"
      then have "p mod w \<in> {..<w}" "p \<in> set (positions w (length ts) (p mod w))"
        using w by (simp_all add: set_positions mod_less_eq_dividend)
      then show "p \<in> set (concat (map (positions w (length ts)) [0..<w]))" by auto
    qed
  qed (auto simp: set_positions [OF w])
  then show ?thesis
    unfolding speculation_verdict_def each by (auto simp: all_set_conv_all_nth simp del: set_concat)
qed

lemma speculate_verdict:
  assumes w: "0 < w"
  shows "speculate_parallel parent ts w fees =
    tryR (speculation_verdict parent ts w fees) (\<lambda>_. collect (\<lambda>t. execute_transaction parent t fees) ts)"
proof (cases "speculation_verdict parent ts w fees")
  case (Ok u)
  with verdict_iff [OF w, of parent ts fees] have "is_ok (collect (\<lambda>t. execute_transaction parent t fees) ts)"
    unfolding collect_is_ok by simp
  then obtain sps where sps: "collect (\<lambda>t. execute_transaction parent t fees) ts = Ok sps" by (auto simp: is_ok_def split: result.splits)
  with Ok speculate_complete [OF w sps] show ?thesis by simp
next
  case (Err e)
  then have "try_fold (\<lambda>slots k. try_fold fill_slot slots (worker_positions_rows parent ts w fees k)) (replicate (length ts) None) [0..<w] = Err e"
    unfolding join_rows_Err speculation_verdict_def .
  with Err show ?thesis by (simp add: speculate_parallel_def)
qed

section \<open>The sequential reference\<close>

text \<open>Each transaction in turn on the state reached so far; the receipt records whether its reads differ from the parent.\<close>

definition sequential_commit :: "(u8 list \<Rightarrow> hash32) \<Rightarrow> ParallelFeeSchedule \<Rightarrow> ParallelState \<Rightarrow> ParallelLoop \<Rightarrow> ParallelTransaction \<Rightarrow>
    (ParallelLoop, ParallelExecutionError) result" where
  "sequential_commit sha schedule parent st t =
     tryR (execute_transaction (fst st) t schedule) (\<lambda>selected. commit_selected sha st selected
       (if map (version_at parent) (pt_declared_reads t) = map (version_at (fst st)) (pt_declared_reads t) then 0 else 1))"

definition sequential_block :: "(u8 list \<Rightarrow> hash32) \<Rightarrow> ParallelState \<Rightarrow> ParallelTransaction list \<Rightarrow> nat \<Rightarrow> ParallelFeeSchedule \<Rightarrow>
    (ParallelBlockResult, ParallelExecutionError) result" where
  "sequential_block sha parent ts worker_count schedule =
     tryR (try_fold (sequential_commit sha schedule parent) (parent, [], bt_empty) ts) (\<lambda>st.
     Ok (parallel_result sha worker_count st))"

lemma parallel_loop_eq:
  assumes decl: "\<forall>t \<in> set ts. reads_declared t" and rows: "collect (\<lambda>t. execute_transaction parent t fees) ts = Ok sps"
  shows "try_fold (parallel_step sha fees) (parent, [], bt_empty) sps =
    try_fold (sequential_commit sha fees parent) (parent, [], bt_empty) ts"
proof -
  let ?s = "(parent, [], bt_empty) :: ParallelLoop"
  let ?rd = "\<lambda>t. map (version_at parent) (pt_declared_reads t)"
  have l: "list_all2 (\<lambda>t sp. execute_transaction parent t fees = Ok sp) ts sps"
    using rows by (simp add: collect_eq_Ok)
  have step: "parallel_step sha fees s sp = par.reusing_step fees sha s (t, ?rd t, execute_transaction parent t fees)"
    if "execute_transaction parent t fees = Ok sp" for s t sp
    using that conflicted_iff [OF that, of "fst s"] execute_transactionD(1) [OF that]
    by (simp add: parallel_step_def par.reusing_step_def)
  from l have "try_fold (parallel_step sha fees) s sps =
      try_fold (par.reusing_step fees sha) s (map (\<lambda>t. (t, ?rd t, execute_transaction parent t fees)) ts)" for s
  proof (induction ts sps arbitrary: s rule: list_all2_induct)
    case (Cons t ts sp sps)
    show ?case unfolding list.map try_fold.simps step [OF Cons(1)] by (intro tryR_cong refl Cons.IH)
  qed simp
  moreover have "try_fold (par.reusing_step fees sha) ?s (map (\<lambda>(t, r0). (t, r0, execute_transaction parent t fees)) (zip ts (map ?rd ts))) =
      try_fold (par.sequential_step fees sha) ?s (zip ts (map ?rd ts))"
    using par.loop_reuse [of ?s ?s ts "map ?rd ts" fees sha] decl
    by (simp add: list_all2_conv_all_nth)
  moreover have "par.sequential_step fees sha s (t, ?rd t) = sequential_commit sha fees parent s t" for s t
    by (simp add: par.sequential_step_def sequential_commit_def)
  ultimately show ?thesis by (simp add: zip_map2 zip_same_conv_map try_fold_map comp_def)
qed

lemma parallel_block_eq:
  "execute_parallel_block sha parent ts w fees =
    tryR (par_validate_block ts w) (\<lambda>_.
    tryR (speculation_verdict parent ts w fees) (\<lambda>_.
    sequential_block sha parent ts w fees))"
proof (cases "par_validate_block ts w")
  case (Ok u)
  note v = validate_block_declared [OF Ok]
  show ?thesis
  proof (cases "speculation_verdict parent ts w fees")
    case verdict: (Ok u)
    with verdict_iff [OF v(2), of parent ts fees] have "is_ok (collect (\<lambda>t. execute_transaction parent t fees) ts)"
      unfolding collect_is_ok by simp
    then obtain sps where rows: "collect (\<lambda>t. execute_transaction parent t fees) ts = Ok sps" by (auto simp: is_ok_def split: result.splits)
    with Ok verdict parallel_loop_eq [OF v(1) rows] show ?thesis
      by (simp add: execute_parallel_block_def sequential_block_def speculate_verdict [OF v(2)])
  qed (simp add: Ok execute_parallel_block_def speculate_verdict [OF v(2)])
qed (simp add: execute_parallel_block_def)

lemma parallel_block_iff:
  "execute_parallel_block sha parent ts w fees = Ok r \<longleftrightarrow>
    par_validate_block ts w = Ok () \<and> (\<forall>t \<in> set ts. is_ok (execute_transaction parent t fees)) \<and>
    sequential_block sha parent ts w fees = Ok r"
proof (cases "par_validate_block ts w")
  case (Ok u)
  from verdict_iff [OF validate_block_declared(2) [OF Ok], of parent ts fees] Ok show ?thesis
    by (cases "speculation_verdict parent ts w fees") (simp_all add: parallel_block_eq)
qed (simp add: parallel_block_eq)

lemma parallel_accepted:
  assumes "par_validate_block ts w = Ok ()"
  shows "is_ok (execute_parallel_block sha parent ts w fees) \<longleftrightarrow>
    (\<forall>t \<in> set ts. is_ok (execute_transaction parent t fees)) \<and> is_ok (sequential_block sha parent ts w fees)"
proof -
  have "is_ok x \<longleftrightarrow> (\<exists>r. x = Ok r)" for x :: "(ParallelBlockResult, ParallelExecutionError) result"
    by (cases x) simp_all
  then show ?thesis by (simp add: parallel_block_iff assms)
qed

section \<open>Versions and fees\<close>

lemma commit_selectedD:
  assumes "commit_selected sha (s, receipts, fees) sel n = Ok st'"
  obtains s' rec fees' where "st' = (s', receipts @ [rec], fees')" "pr_status rec = st_status sel"
    "pr_payer rec = pt_payer (st_transaction sel)" "pr_fee_charged rec = st_fee_charged sel"
    "(if st_status sel = Success then apply_writes s (st_writes sel) else Ok s) = Ok s'"
    "unat (case bt_get fees' (pr_payer rec) of None \<Rightarrow> 0 | Some x \<Rightarrow> x) =
       unat (case bt_get fees (pr_payer rec) of None \<Rightarrow> 0 | Some x \<Rightarrow> x) + unat (pr_fee_charged rec)"
    "\<And>p. p \<noteq> pr_payer rec \<Longrightarrow> bt_get fees' p = bt_get fees p" "bt_get fees' (pr_payer rec) \<noteq> None"
  using assms by (auto simp: commit_selected_def Let_def result_simps checked_simps)

definition bumped :: "hash32 \<Rightarrow> ParallelTransaction \<Rightarrow> ParallelExecutionReceipt \<Rightarrow> bool" where
  "bumped i t rec \<longleftrightarrow> pr_status rec = Success \<and> i \<in> set (pt_declared_writes t)"

lemma sequential_commitD:
  assumes t: "reads_declared t" and step: "sequential_commit sha fees parent (s, receipts, acc) t = Ok (s', receipts', acc')"
  obtains rec where "receipts' = receipts @ [rec]" "pr_payer rec = pt_payer t"
    "\<And>i x. bt_get s i = Some x \<Longrightarrow>
       \<exists>y. bt_get s' i = Some y \<and> unat (pv_version y) = unat (pv_version x) + (if bumped i t rec then 1 else 0)"
    "\<And>p. unat (case bt_get acc' p of None \<Rightarrow> 0 | Some v \<Rightarrow> v) =
       unat (case bt_get acc p of None \<Rightarrow> 0 | Some v \<Rightarrow> v) + (if pr_payer rec = p then unat (pr_fee_charged rec) else 0)"
    "\<And>p. bt_get acc' p \<noteq> None \<longleftrightarrow> p = pr_payer rec \<or> bt_get acc p \<noteq> None"
proof -
  from step obtain sel n where sel: "execute_transaction s t fees = Ok sel"
    and c: "commit_selected sha (s, receipts, acc) sel n = Ok (s', receipts', acc')"
    by (auto simp: sequential_commit_def result_simps)
  note D = execute_transactionD [OF sel]
  from c obtain rec where r: "receipts' = receipts @ [rec]" "pr_status rec = st_status sel" "pr_payer rec = pt_payer t"
    and w: "(if st_status sel = Success then apply_writes s (st_writes sel) else Ok s) = Ok s'"
    and f: "unat (case bt_get acc' (pr_payer rec) of None \<Rightarrow> 0 | Some x \<Rightarrow> x) =
       unat (case bt_get acc (pr_payer rec) of None \<Rightarrow> 0 | Some x \<Rightarrow> x) + unat (pr_fee_charged rec)"
       "\<And>p. p \<noteq> pr_payer rec \<Longrightarrow> bt_get acc' p = bt_get acc p" "bt_get acc' (pr_payer rec) \<noteq> None"
    by (rule commit_selectedD) (auto simp: D(1))
  have v: "\<exists>y. bt_get s' i = Some y \<and> unat (pv_version y) = unat (pv_version x) + (if bumped i t rec then 1 else 0)"
    if x: "bt_get s i = Some x" for i x
  proof (cases "st_status sel = Success")
    case True
    with w have a: "apply_writes s (st_writes sel) = Ok s'" by simp
    from True D(4) [of i] t have k: "bt_get (st_writes sel) i \<noteq> None \<longleftrightarrow> bumped i t rec"
      by (simp add: bumped_def r reads_declared_def)
    show ?thesis
      using apply_writes_get [OF a, of i] x k by (cases "bt_get (st_writes sel) i") auto
  next
    case False
    with w x show ?thesis by (auto simp: bumped_def r)
  qed
  have "bt_get acc' p \<noteq> None \<longleftrightarrow> p = pr_payer rec \<or> bt_get acc p \<noteq> None" for p
    using f(2,3) by (cases "p = pr_payer rec") auto
  then show ?thesis by (intro that [OF r(1,3) v]) (use f in auto)
qed

lemma sequential_loop:
  assumes "\<forall>t \<in> set ts. reads_declared t"
    "try_fold (sequential_commit sha fees parent) (s, receipts, acc) ts = Ok (s', receipts', acc')"
  obtains new where "receipts' = receipts @ new" "length new = length ts"
    "\<And>i x. bt_get s i = Some x \<Longrightarrow> \<exists>y. bt_get s' i = Some y \<and>
       unat (pv_version y) = unat (pv_version x) + length (filter (\<lambda>(t, rec). bumped i t rec) (zip ts new))"
    "\<And>p. unat (case bt_get acc' p of None \<Rightarrow> 0 | Some v \<Rightarrow> v) =
       unat (case bt_get acc p of None \<Rightarrow> 0 | Some v \<Rightarrow> v) + (\<Sum>rec\<leftarrow>filter (\<lambda>rec. pr_payer rec = p) new. unat (pr_fee_charged rec))"
    "\<And>p. bt_get acc' p \<noteq> None \<longleftrightarrow> p \<in> pt_payer ` set ts \<or> bt_get acc p \<noteq> None" "map pr_payer new = map pt_payer ts"
  using assms
proof (induction ts arbitrary: s receipts acc thesis)
  case Nil
  from Nil(1) [of "[]"] Nil(3) show ?case by simp
next
  case (Cons t ts)
  from Cons.prems(3) obtain s1 receipts1 acc1 where
    step: "sequential_commit sha fees parent (s, receipts, acc) t = Ok (s1, receipts1, acc1)"
    and rest: "try_fold (sequential_commit sha fees parent) (s1, receipts1, acc1) ts = Ok (s', receipts', acc')"
    by (auto simp: result_simps)
  from Cons.prems(2) have t: "reads_declared t" and ts: "\<forall>t \<in> set ts. reads_declared t" by auto
  from t step obtain rec where r: "receipts1 = receipts @ [rec]"
    "\<And>i x. bt_get s i = Some x \<Longrightarrow>
       \<exists>y. bt_get s1 i = Some y \<and> unat (pv_version y) = unat (pv_version x) + (if bumped i t rec then 1 else 0)"
    "\<And>p. unat (case bt_get acc1 p of None \<Rightarrow> 0 | Some v \<Rightarrow> v) =
       unat (case bt_get acc p of None \<Rightarrow> 0 | Some v \<Rightarrow> v) + (if pr_payer rec = p then unat (pr_fee_charged rec) else 0)"
    "\<And>p. bt_get acc1 p \<noteq> None \<longleftrightarrow> p = pr_payer rec \<or> bt_get acc p \<noteq> None" "pr_payer rec = pt_payer t"
    by (rule sequential_commitD) blast
  obtain new where n: "receipts' = receipts1 @ new" "length new = length ts"
    "\<And>i x. bt_get s1 i = Some x \<Longrightarrow> \<exists>y. bt_get s' i = Some y \<and>
       unat (pv_version y) = unat (pv_version x) + length (filter (\<lambda>(t, rec). bumped i t rec) (zip ts new))"
    "\<And>p. unat (case bt_get acc' p of None \<Rightarrow> 0 | Some v \<Rightarrow> v) =
       unat (case bt_get acc1 p of None \<Rightarrow> 0 | Some v \<Rightarrow> v) + (\<Sum>rec\<leftarrow>filter (\<lambda>rec. pr_payer rec = p) new. unat (pr_fee_charged rec))"
    "\<And>p. bt_get acc' p \<noteq> None \<longleftrightarrow> p \<in> pt_payer ` set ts \<or> bt_get acc1 p \<noteq> None" "map pr_payer new = map pt_payer ts"
    by (rule Cons.IH [OF _ ts rest]) blast
  show ?case
  proof (rule Cons.prems(1) [of "rec # new"])
    show "\<exists>y. bt_get s' i = Some y \<and>
       unat (pv_version y) = unat (pv_version x) + length (filter (\<lambda>(t, rec). bumped i t rec) (zip (t # ts) (rec # new)))"
      if "bt_get s i = Some x" for i x
      using r(2) [OF that] n(3) [of i] by (fastforce split: if_splits)
  qed (use r n in auto)
qed

section \<open>A sample block\<close>

definition par_schedule :: ParallelFeeSchedule where
  "par_schedule = \<lparr>pf_base_fee = 1, pf_compute_unit_price = 2, pf_state_read_unit_price = 3,
     pf_state_write_unit_price = 5, pf_artifact_unit_price = 7\<rparr>"

definition par_parent :: ParallelState where
  "par_parent = bt_insert 3 \<lparr>pv_version = 0, pv_value = 0\<rparr> (bt_insert 2 \<lparr>pv_version = 0, pv_value = 20\<rparr>
     (bt_insert 1 \<lparr>pv_version = 0, pv_value = 10\<rparr> bt_empty))"

definition par_tx :: "u32 \<Rightarrow> hash32 \<Rightarrow> hash32 \<Rightarrow> i128 \<Rightarrow> u128 \<Rightarrow> ParallelTransaction" where
  "par_tx n source target delta max_fee = \<lparr>pt_index = n, pt_transaction_id = 11 + ucast n, pt_payer = 21 + ucast n,
     pt_declared_reads = [source], pt_declared_writes = [target], pt_instructions = [AddFromRead target source delta],
     pt_base_compute_units = 5, pt_artifact_units = 1,
     pt_resource_limit = \<lparr>rv_compute_units = 100, rv_state_read_units = 10, rv_state_write_units = 10, rv_artifact_units = 10\<rparr>,
     pt_max_fee = max_fee, pt_force_revert = False\<rparr>"

definition par_block :: "ParallelTransaction list" where
  "par_block = [par_tx 0 1 3 1 10000, par_tx 1 3 2 2 10000]"

lemma par_tx_valid: "source \<noteq> 0 \<Longrightarrow> target \<noteq> 0 \<Longrightarrow> par_validate_transaction (par_tx n source target delta fee) = Ok ()"
  by (simp add: par_validate_transaction_def par_tx_def validate_access_set_def access_step_def par_require_nonzero_def
      instruction_step_def)

lemma par_tx_simps: "pt_index (par_tx n x y d f) = n" "pt_transaction_id (par_tx n x y d f) = 11 + ucast n"
  "pt_payer (par_tx n x y d f) = 21 + ucast n" "pt_declared_reads (par_tx n x y d f) = [x]"
  "pt_declared_writes (par_tx n x y d f) = [y]"
  by (simp_all add: par_tx_def)

lemma par_block_valid: "w \<in> {1..64} \<Longrightarrow> par_validate_block par_block w = Ok ()"
  by (auto simp: par_validate_block_def par_block_def MAX_PARALLEL_WORKERS_def block_step_def par_tx_valid par_tx_simps
      par_require_nonzero_def)

lemma par_fee: "fee_for par_schedule \<lparr>rv_compute_units = 6, rv_state_read_units = 1, rv_state_write_units = 1, rv_artifact_units = 1\<rparr> = Ok 28"
  by (simp add: fee_for_def par_schedule_def checked_fee_component_def checked_mul_def checked_add_def)

lemma par_tx_execute:
  "execute_transaction s (par_tx n source target delta fee) par_schedule =
    (if fee < 28 then Err FeeLimitExceeded
     else case bt_get s source of None \<Rightarrow> Err MissingObject
     | Some x \<Rightarrow> if bt_get s target = None then Err MissingObject
       else tryR (ok_or (checked_add_i128 (pv_value x) delta) ArithmeticOverflow) (\<lambda>v.
         Ok \<lparr>st_transaction = par_tx n source target delta fee, st_read_versions = bt_insert source (pv_version x) bt_empty,
           st_writes = bt_insert target v bt_empty, st_status = Success,
           st_usage = \<lparr>rv_compute_units = 6, rv_state_read_units = 1, rv_state_write_units = 1, rv_artifact_units = 1\<rparr>,
           st_fee_charged = 28\<rparr>))"
  by (auto simp: execute_transaction_def par_tx_def u64_of_len_def checked_add_def par_fee Let_def exceeds_def
      instruction_value_def tryR_assoc split: option.split)

lemma par_block_run: "\<exists>r. sequential_block (\<lambda>_. 0) par_parent par_block w par_schedule = Ok r \<and> length (pb_receipts r) = 2 \<and>
    bt_get (pb_state r) 2 = Some \<lparr>pv_version = 1, pv_value = 13\<rparr>"
  by (simp add: sequential_block_def par_block_def sequential_commit_def par_tx_execute par_parent_def checked_add_i128_def
      commit_selected_def apply_writes_def check_write_def write_value_def checked_add_def par_tx_simps parallel_result_def Let_def)

section \<open>Properties\<close>

text \<open>
  C13. The outcome of a block, errors included, is that of three steps: the validation of the block; the execution of each
  transaction alone on the parent state, whose first error in the order of the workers is returned; and then exactly the sequential
  execution in block order, its result or its error. For a valid block the second step succeeds exactly when every
  transaction executes on the parent, whatever the number of workers, so the number of workers decides neither whether a
  block is accepted nor its result; it only appears as the number recorded in the result, and selects among the errors
  of the second step.
\<close>

theorem parallel_serializable:
  "execute_parallel_block sha parent ts w fees =
     tryR (par_validate_block ts w) (\<lambda>_.
     tryR (try_fold (\<lambda>_ p. tryR (execute_transaction parent (ts ! p) fees) (\<lambda>_. Ok ())) () (concat (map (positions w (length ts)) [0..<w]))) (\<lambda>_.
     sequential_block sha parent ts w fees)) \<and>
   (par_validate_block ts w = Ok () \<longrightarrow>
     (is_ok (execute_parallel_block sha parent ts w fees) \<longleftrightarrow>
       (\<forall>t \<in> set ts. is_ok (execute_transaction parent t fees)) \<and> is_ok (sequential_block sha parent ts w fees)))"
  using parallel_block_eq [of sha parent ts w fees, unfolded speculation_verdict_def] parallel_accepted by (intro conjI impI)

theorem parallel_serializable_witness:
  "\<exists>r. execute_parallel_block (\<lambda>_. 0) par_parent par_block 2 par_schedule = Ok r \<and>
    bt_get (pb_state r) 2 = Some \<lparr>pv_version = 1, pv_value = 13\<rparr>"
proof -
  have "par_validate_block par_block 2 = Ok ()" by (rule par_block_valid) simp
  moreover have "\<forall>t \<in> set par_block. is_ok (execute_transaction par_parent t par_schedule)"
    by (simp add: par_block_def par_tx_execute par_parent_def checked_add_i128_def)
  moreover obtain r where "sequential_block (\<lambda>_. 0) par_parent par_block 2 par_schedule = Ok r"
    "bt_get (pb_state r) 2 = Some \<lparr>pv_version = 1, pv_value = 13\<rparr>" using par_block_run by blast
  ultimately have "is_ok (execute_parallel_block (\<lambda>_. 0) par_parent par_block 2 par_schedule)"
    using parallel_serializable [of "\<lambda>_. 0" par_parent par_block 2 par_schedule, THEN conjunct2] by simp
  then obtain r' where r': "execute_parallel_block (\<lambda>_. 0) par_parent par_block 2 par_schedule = Ok r'"
    by (auto simp: is_ok_def split: result.splits)
  then have "sequential_block (\<lambda>_. 0) par_parent par_block 2 par_schedule = Ok r'" by (simp add: parallel_block_iff)
  with r' par_block_run [of 2] show ?thesis by auto
qed

text \<open>
  The version of an object counts the commits that wrote it: after a block it is the version in the
  parent plus the number of successful transactions that declare the object as written.
\<close>

lemma parallel_versions:
  assumes "execute_parallel_block sha parent ts w fees = Ok r" "bt_get parent i = Some x"
  shows "\<exists>y. bt_get (pb_state r) i = Some y \<and> unat (pv_version y) = unat (pv_version x) +
    length (filter (\<lambda>(t, rec). pr_status rec = Success \<and> i \<in> set (pt_declared_writes t)) (zip ts (pb_receipts r)))"
proof -
  from assms(1) have v: "par_validate_block ts w = Ok ()" and s: "sequential_block sha parent ts w fees = Ok r"
    by (simp_all add: parallel_block_iff)
  from s obtain acc where run: "try_fold (sequential_commit sha fees parent) (parent, [], bt_empty) ts = Ok (pb_state r, pb_receipts r, acc)"
    by (auto simp: sequential_block_def result_simps parallel_result_def Let_def)
  show ?thesis
    by (rule sequential_loop [OF validate_block_declared(1) [OF v] run]) (use assms(2) in \<open>auto simp: bumped_def [abs_def]\<close>)
qed

text \<open>
  C32. Fees are exact. The fee deltas have one entry for each payer of the block and no other, in ascending order; an entry debits
  its payer by the sum of the fees of that payer's receipts and credits the sink with the same amount. The receipts carry
  the payers of the transactions, in block order.
\<close>

theorem parallel_fees:
  assumes "execute_parallel_block sha parent ts w fees = Ok r"
  shows "map pd_payer (pb_fee_deltas r) = sorted_list_of_set (pt_payer ` set ts) \<and>
    map pr_payer (pb_receipts r) = map pt_payer ts \<and>
    list_all (\<lambda>d. pd_fee_sink_credit d = pd_payer_debit d \<and>
      unat (pd_payer_debit d) = (\<Sum>rec\<leftarrow>filter (\<lambda>rec. pr_payer rec = pd_payer d) (pb_receipts r). unat (pr_fee_charged rec))) (pb_fee_deltas r)"
proof -
  from assms have v: "par_validate_block ts w = Ok ()" and s: "sequential_block sha parent ts w fees = Ok r"
    by (simp_all add: parallel_block_iff)
  from s obtain acc where run: "try_fold (sequential_commit sha fees parent) (parent, [], bt_empty) ts = Ok (pb_state r, pb_receipts r, acc)"
    and deltas: "pb_fee_deltas r = fee_deltas_of acc"
    by (auto simp: sequential_block_def result_simps parallel_result_def Let_def)
  show ?thesis
  proof (rule sequential_loop [OF validate_block_declared(1) [OF v] run])
    fix new assume new: "pb_receipts r = [] @ new" and payers: "map pr_payer new = map pt_payer ts"
      and keys: "\<And>p. bt_get acc p \<noteq> None \<longleftrightarrow> p \<in> pt_payer ` set ts \<or> bt_get (bt_empty :: (hash32, u128) btree) p \<noteq> None"
      and sums: "\<And>p. unat (case bt_get acc p of None \<Rightarrow> 0 | Some v \<Rightarrow> v) =
        unat (case bt_get bt_empty p of None \<Rightarrow> 0 | Some v \<Rightarrow> v) +
        (\<Sum>rec\<leftarrow>filter (\<lambda>rec. pr_payer rec = p) new. unat (pr_fee_charged rec))"
    have "map fst (entries acc) = sorted_list_of_set (pt_payer ` set ts)"
    proof (rule sorted_list_of_set_unique [THEN iffD1, symmetric, rotated])
      have "p \<in> fst ` set (entries acc) \<longleftrightarrow> bt_get acc p \<noteq> None" for p
        using bt.get_iter [of acc] by (simp add: map_of_eq_None_iff)
      then have "fst ` set (entries acc) = pt_payer ` set ts" using keys by auto
      then show "sorted_wrt (<) (map fst (entries acc)) \<and> set (map fst (entries acc)) = pt_payer ` set ts \<and>
          length (map fst (entries acc)) = card (pt_payer ` set ts)"
        using entries_sorted [of acc] distinct_card [OF bt.iter_distinct [of acc]] by simp
    qed simp
    moreover have "map pd_payer (pb_fee_deltas r) = map fst (entries acc)"
      by (simp add: deltas fee_deltas_of_def case_prod_unfold comp_def)
    moreover have "unat v = (\<Sum>rec\<leftarrow>filter (\<lambda>rec. pr_payer rec = p) new. unat (pr_fee_charged rec))"
      if "(p, v) \<in> set (entries acc)" for p v
      using sums [of p] that by (simp add: entries_get)
    ultimately show ?thesis using payers new by (auto simp: deltas fee_deltas_of_def list_all_iff)
  qed
qed

theorem parallel_fees_witness:
  "\<exists>r. execute_parallel_block (\<lambda>_. 0) par_parent par_block 1 par_schedule = Ok r \<and> map pd_payer (pb_fee_deltas r) = [21, 22]"
proof -
  obtain r where run: "execute_parallel_block (\<lambda>_. 0) par_parent par_block 1 par_schedule = Ok r"
    using par_block_run [of 1] par_block_valid [of 1]
    by (auto simp: parallel_block_iff par_block_def par_tx_execute par_parent_def checked_add_i128_def)
  have "pt_payer ` set par_block = {21, 22}" by (simp add: par_block_def par_tx_simps)
  with run parallel_fees [OF run] show ?thesis by auto
qed

text \<open>
  The error of a rejected block is not independent of the number of workers: rows are joined in
  worker order and the first failing row wins, so on one and the same block one worker reports
  the transaction at position 1 and two workers report the one at position 2.
\<close>

lemma parallel_error_depends_on_workers:
  "let ts = [par_tx 0 1 3 1 10000, par_tx 1 3 2 2 0, par_tx 2 4 2 2 10000] in
    execute_parallel_block sha par_parent ts 1 par_schedule = Err FeeLimitExceeded \<and>
    execute_parallel_block sha par_parent ts 2 par_schedule = Err MissingObject"
proof -
  have "par_validate_block [par_tx 0 1 3 1 10000, par_tx 1 3 2 2 0, par_tx 2 4 2 2 10000] w = Ok ()" if "w \<in> {1, 2}" for w
    using that by (auto simp: par_validate_block_def MAX_PARALLEL_WORKERS_def block_step_def par_tx_valid par_tx_simps
      par_require_nonzero_def)
  moreover have "positions (Suc 0) (Suc (Suc (Suc 0))) 0 = [0, Suc 0, Suc (Suc 0)]"
    "positions 2 (Suc (Suc (Suc 0))) 0 = [0, 2]" "[0..<2] = [0, 1]"
    by (simp_all add: positions.simps upt_rec)
  ultimately show ?thesis
    by (simp add: Let_def execute_parallel_block_def speculate_parallel_def worker_positions_rows_def fill_slot_def
        par_tx_execute par_parent_def checked_add_i128_def)
qed

text \<open>
  A block can be refused although its transactions execute one after the other: here the second transaction overflows on the
  parent, and would not after the first one, which lowers the value it reads.
\<close>

definition edge_parent :: ParallelState where
  "edge_parent = bt_insert 2 \<lparr>pv_version = 0, pv_value = 0\<rparr> (bt_insert 1 \<lparr>pv_version = 0, pv_value = 2 ^ 127 - 1\<rparr> bt_empty)"

lemma parallel_refuses_sequential:
  "let ts = [par_tx 0 1 1 (- 1) 10000, par_tx 1 1 2 1 10000] in
    execute_parallel_block sha edge_parent ts 1 par_schedule = Err ArithmeticOverflow \<and>
    is_ok (sequential_block sha edge_parent ts 1 par_schedule)"
proof -
  have "par_validate_block [par_tx 0 1 1 (- 1) 10000, par_tx 1 1 2 1 10000] 1 = Ok ()"
    by (auto simp: par_validate_block_def MAX_PARALLEL_WORKERS_def block_step_def par_tx_valid par_tx_simps par_require_nonzero_def)
  moreover have "positions (Suc 0) (Suc (Suc 0)) 0 = [0, Suc 0]" by (simp add: positions.simps)
  ultimately show ?thesis
    by (simp add: Let_def execute_parallel_block_def speculate_parallel_def worker_positions_rows_def fill_slot_def
        par_tx_execute edge_parent_def checked_add_i128_def sequential_block_def sequential_commit_def commit_selected_def
        apply_writes_def check_write_def write_value_def checked_add_def par_tx_simps)
qed

end
