(* ===== verification/Settlement_Types.thy ===== *)
theory Settlement_Types
  imports Canonical_Encoding Ordered_Map
begin

text \<open>
  The data of the crate \<open>trnm-service-settlement\<close> (module \<open>types\<close>), its error codes and codec. The typed hashes
  are plain 32-byte values. Structures that the crate digests come with the value tree of their
  derived serializer; an \<open>enc_\<close> definition lists the fields in declaration order.
\<close>

section \<open>Errors and constants\<close>

datatype SettlementError =
    InvalidContext | InvalidBounds | NonCanonical | IdentifierMismatch | InvalidSignature | Unauthorized
  | StaleVersion | InvalidTransition | SequenceGap | RootMismatch | ArithmeticOverflow
  | ConservationViolation | InsufficientFunds | NotMature | AlreadyConsumed | Conflict | NotFound
  | StoreFailure | SchemaMismatch | TamperDetected | SidecarPresent | CommitUncertain | ThirdStateFenced
  | Panicked

definition SCHEMA_VERSION :: u16 where "SCHEMA_VERSION = 1"
definition KEY_ROLE_BILATERAL_RECEIPT :: u8 where "KEY_ROLE_BILATERAL_RECEIPT = 4"
definition SIGNATURE_SCHEME_ED25519 :: u16 where "SIGNATURE_SCHEME_ED25519 = 0"
definition RESULT_STATUS_FINAL_VALID :: u8 where "RESULT_STATUS_FINAL_VALID = 3"
definition SETTLEMENT_MATURITY_NOT_STARTED :: u8 where "SETTLEMENT_MATURITY_NOT_STARTED = 0"
definition SETTLEMENT_MATURITY_FINAL :: u8 where "SETTLEMENT_MATURITY_FINAL = 2"

section \<open>Structures\<close>

record SettlementContext =
  sc_genesis_hash :: hash32
  sc_chain_id :: string
  sc_protocol_version :: u32
  sc_stack_profile_hash :: hash32

record RegisteredBilateralKey =
  bk_agent_id :: hash32
  bk_key_id :: hash32
  bk_public_key :: hash32
  bk_policy_revision :: u64
  bk_key_generation :: u64

record ConsumptionPrice =
  cp_resource_class :: u16
  cp_resource_id :: "u8 list"
  cp_meter_id :: "u8 list"
  cp_meter_version :: u32
  cp_unit :: u16
  cp_unit_price :: u128

record SettlementPolicy =
  sp_schema_version :: u16
  sp_policy_revision :: u32
  sp_minimum_rollup_challenge_blocks :: u64
  sp_maximum_rollups :: u32
  sp_protocol_fee_numerator :: u128
  sp_protocol_fee_denominator :: u128
  sp_fee_schedule_hash :: hash32

record TrustBundle =
  tb_schema_version :: u16
  tb_context :: SettlementContext
  tb_initial_order_height :: u64
  tb_initial_order_block_id :: hash32
  tb_provider :: RegisteredBilateralKey
  tb_consumer :: RegisteredBilateralKey
  tb_task_id :: hash32
  tb_lease_id :: hash32
  tb_attempt :: u32
  tb_result_id :: hash32
  tb_result_revision :: u64
  tb_result_status :: u8
  tb_escrow_id :: hash32
  tb_escrow_version :: u64
  tb_asset_id :: hash32
  tb_escrow_funding :: u128
  tb_provider_account_id :: hash32
  tb_consumer_account_id :: hash32
  tb_protocol_account_id :: hash32
  tb_provider_opening_balance :: u128
  tb_consumer_opening_balance :: u128
  tb_protocol_opening_balance :: u128
  tb_prices :: "ConsumptionPrice list"
  tb_accepted_evidence_certificates :: "hash32 list"
  tb_related_party_policy_hash :: hash32
  tb_settlement_policy :: SettlementPolicy

record ExecutionContext =
  ec_schema_version :: u16
  ec_context :: SettlementContext
  ec_expected_order_height :: u64
  ec_expected_order_block_id :: hash32
  ec_order_height :: u64
  ec_order_block_id :: hash32

record Usage =
  us_resource_class :: u16
  us_resource_id :: "u8 list"
  us_meter_id :: "u8 list"
  us_meter_version :: u32
  us_amount :: u128
  us_unit :: u16
  us_measurement_commitment :: hash32

record CumulativeUsage =
  cu_resource_class :: u16
  cu_resource_id :: "u8 list"
  cu_meter_id :: "u8 list"
  cu_meter_version :: u32
  cu_total_amount :: u128
  cu_unit :: u16
  cu_accumulator_commitment :: hash32

record ReceiptBody =
  rb_schema_version :: u16
  rb_context :: SettlementContext
  rb_provider_id :: hash32
  rb_consumer_id :: hash32
  rb_task_id :: hash32
  rb_lease_id :: hash32
  rb_attempt :: u32
  rb_result_id :: hash32
  rb_meter_id :: "u8 list"
  rb_meter_version :: u32
  rb_sequence :: u64
  rb_period_start_height :: u64
  rb_period_end_height :: u64
  rb_usage :: "Usage list"
  rb_prior_receipt_id :: "hash32 option"
  rb_cumulative_usage :: "CumulativeUsage list"
  rb_cumulative_usage_root :: hash32
  rb_cumulative_charge :: u128
  rb_evidence_certificate_id :: hash32
  rb_related_party_policy_hash :: hash32

record SignatureEntry =
  se_agent_id :: hash32
  se_key_id :: hash32
  se_key_role :: u8
  se_policy_revision :: u64
  se_key_generation :: u64
  se_authority_height :: u64
  se_signature_scheme :: u16
  se_signature :: "u8 list"

record SignatureStatement =
  ss_schema_version :: u16
  ss_body_id :: hash32
  ss_agent_id :: hash32
  ss_key_id :: hash32
  ss_key_role :: u8
  ss_policy_revision :: u64
  ss_key_generation :: u64
  ss_authority_height :: u64

record ConsumptionReceipt =
  cn_body :: ReceiptBody
  cn_provider_signature :: SignatureEntry
  cn_consumer_signature :: SignatureEntry

record ReceiptState =
  rs_receipt :: ConsumptionReceipt
  rs_receipt_id :: hash32
  rs_version :: u64
  rs_status :: u8
  rs_assigned_rollup_id :: "hash32 option"
  rs_accepted_height :: u64

record RollupBody =
  ro_schema_version :: u16
  ro_context :: SettlementContext
  ro_provider_id :: hash32
  ro_consumer_id :: hash32
  ro_task_id :: hash32
  ro_lease_id :: hash32
  ro_attempt :: u32
  ro_result_id :: hash32
  ro_meter_id :: "u8 list"
  ro_meter_version :: u32
  ro_first_sequence :: u64
  ro_last_sequence :: u64
  ro_receipt_ids :: "hash32 list"
  ro_receipt_count :: u32
  ro_receipts_root :: hash32
  ro_usage_totals :: "Usage list"
  ro_total_charge :: u128
  ro_evidence_certificate_id :: hash32
  ro_escrow_id :: hash32
  ro_settlement_policy_hash :: hash32
  ro_related_party_policy_hash :: hash32

record ConsumptionRollup =
  cl_body :: RollupBody
  cl_provider_signature :: SignatureEntry
  cl_consumer_signature :: SignatureEntry

record RollupState =
  ru_rollup :: ConsumptionRollup
  ru_rollup_id :: hash32
  ru_version :: u64
  ru_accepted_height :: u64
  ru_challenge_close_height :: u64
  ru_status :: u8
  ru_consumed_by_settlement_id :: "hash32 option"

record SettlementOperation =
  so_schema_version :: u16
  so_context :: SettlementContext
  so_task_id :: hash32
  so_lease_id :: hash32
  so_attempt :: u32
  so_result_id :: hash32
  so_expected_result_revision :: u64
  so_expected_escrow_version :: u64
  so_expected_rollup_version :: u64
  so_settlement_policy_hash :: hash32

record SettlementInput =
  si_asset_id :: hash32
  si_escrow_id :: hash32
  si_escrow_version :: u64
  si_amount :: u128

record ValueDelta =
  vd_asset_id :: hash32
  vd_account_id :: hash32
  vd_reason :: u16
  vd_amount :: u128

record SettlementIntent =
  sn_schema_version :: u16
  sn_context :: SettlementContext
  sn_task_id :: hash32
  sn_lease_id :: hash32
  sn_attempt :: u32
  sn_result_id :: hash32
  sn_result_revision :: u64
  sn_result_status :: u8
  sn_settlement_maturity :: u8
  sn_escrow_id :: hash32
  sn_consumption_rollup_ids :: "hash32 list"
  sn_fee_schedule_hash :: hash32
  sn_settlement_policy_hash :: hash32
  sn_inputs :: "SettlementInput list"
  sn_input_value_root :: hash32
  sn_planned_deltas :: "ValueDelta list"
  sn_planned_deltas_root :: hash32
  sn_conservation_root :: hash32

record PostAccountVersion =
  pa_account_id :: hash32
  pa_prior_version :: u64
  pa_post_version :: u64
  pa_post_value_hash :: hash32

record SettlementReceipt =
  sr_schema_version :: u16
  sr_context :: SettlementContext
  sr_settlement_id :: hash32
  sr_task_id :: hash32
  sr_lease_id :: hash32
  sr_result_id :: hash32
  sr_escrow_id :: hash32
  sr_applied_deltas :: "ValueDelta list"
  sr_post_account_versions :: "PostAccountVersion list"
  sr_post_account_versions_root :: hash32
  sr_post_escrow_version :: u64

record SettlementState =
  sm_settlement_id :: hash32
  sm_state_version :: u64
  sm_intent :: SettlementIntent
  sm_status :: u8
  sm_receipt :: SettlementReceipt
  sm_applied_height :: u64

record AccountBalance =
  ab_account_id :: hash32
  ab_version :: u64
  ab_balance :: u128

record EscrowBalance =
  eb_escrow_id :: hash32
  eb_version :: u64
  eb_balance :: u128
  eb_closed :: bool
  eb_last_settlement_id :: "hash32 option"

record ResultSettlement =
  rr_result_id :: hash32
  rr_revision :: u64
  rr_result_status :: u8
  rr_settlement_maturity :: u8
  rr_settlement_id :: "hash32 option"

record KernelState =
  ks_receipts :: "ReceiptState list"
  ks_rollup :: "RollupState option"
  ks_settlement :: "SettlementState option"
  ks_escrow :: EscrowBalance
  ks_result :: ResultSettlement
  ks_accounts :: "AccountBalance list"

datatype SettlementCommand =
    AdmitReceipt ConsumptionReceipt
  | AdmitRollup ConsumptionRollup "ConsumptionReceipt list"
  | Settle SettlementOperation

fun operation_kind :: "SettlementCommand \<Rightarrow> u16" where
  "operation_kind (AdmitReceipt _) = 24"
| "operation_kind (AdmitRollup _ _) = 25"
| "operation_kind (Settle _) = 26"

section \<open>Derived orders\<close>

text \<open>The derived \<open>Ord\<close> of a structure compares its fields in order: the order of the tuple of its fields.\<close>

definition price_order :: "ConsumptionPrice \<Rightarrow> u16 \<times> u8 list \<times> u8 list \<times> u32 \<times> u16 \<times> u128" where
  "price_order p = (cp_resource_class p, cp_resource_id p, cp_meter_id p, cp_meter_version p, cp_unit p, cp_unit_price p)"

definition usage_order :: "Usage \<Rightarrow> u16 \<times> u8 list \<times> u8 list \<times> u32 \<times> u128 \<times> u16 \<times> hash32" where
  "usage_order u = (us_resource_class u, us_resource_id u, us_meter_id u, us_meter_version u, us_amount u, us_unit u,
     us_measurement_commitment u)"

definition cumulative_order :: "CumulativeUsage \<Rightarrow> u16 \<times> u8 list \<times> u8 list \<times> u32 \<times> u128 \<times> u16 \<times> hash32" where
  "cumulative_order u = (cu_resource_class u, cu_resource_id u, cu_meter_id u, cu_meter_version u, cu_total_amount u,
     cu_unit u, cu_accumulator_commitment u)"

definition delta_order :: "ValueDelta \<Rightarrow> hash32 \<times> hash32 \<times> u16 \<times> u128" where
  "delta_order d = (vd_asset_id d, vd_account_id d, vd_reason d, vd_amount d)"

section \<open>Derived serializers\<close>

definition enc_settlement_context :: "SettlementContext \<Rightarrow> bval" where
  "enc_settlement_context c = BTuple [BHash (sc_genesis_hash c), enc_bytes (ascii (sc_chain_id c)),
     BU32 (sc_protocol_version c), BHash (sc_stack_profile_hash c)]"

definition enc_SettlementPolicy :: "SettlementPolicy \<Rightarrow> bval" where
  "enc_SettlementPolicy x = BTuple [BU16 (sp_schema_version x), BU32 (sp_policy_revision x),
     BU64 (sp_minimum_rollup_challenge_blocks x), BU32 (sp_maximum_rollups x), BU128 (sp_protocol_fee_numerator x),
     BU128 (sp_protocol_fee_denominator x), BHash (sp_fee_schedule_hash x)]"

definition enc_Usage :: "Usage \<Rightarrow> bval" where
  "enc_Usage x = BTuple [BU16 (us_resource_class x), enc_bytes (us_resource_id x), enc_bytes (us_meter_id x),
     BU32 (us_meter_version x), BU128 (us_amount x), BU16 (us_unit x), BHash (us_measurement_commitment x)]"

definition enc_CumulativeUsage :: "CumulativeUsage \<Rightarrow> bval" where
  "enc_CumulativeUsage x = BTuple [BU16 (cu_resource_class x), enc_bytes (cu_resource_id x),
     enc_bytes (cu_meter_id x), BU32 (cu_meter_version x), BU128 (cu_total_amount x), BU16 (cu_unit x),
     BHash (cu_accumulator_commitment x)]"

definition enc_ReceiptBody :: "ReceiptBody \<Rightarrow> bval" where
  "enc_ReceiptBody x = BTuple [BU16 (rb_schema_version x), enc_settlement_context (rb_context x),
     BHash (rb_provider_id x), BHash (rb_consumer_id x), BHash (rb_task_id x), BHash (rb_lease_id x),
     BU32 (rb_attempt x), BHash (rb_result_id x), enc_bytes (rb_meter_id x), BU32 (rb_meter_version x),
     BU64 (rb_sequence x), BU64 (rb_period_start_height x), BU64 (rb_period_end_height x),
     enc_list enc_Usage (rb_usage x), enc_option BHash (rb_prior_receipt_id x),
     enc_list enc_CumulativeUsage (rb_cumulative_usage x), BHash (rb_cumulative_usage_root x),
     BU128 (rb_cumulative_charge x), BHash (rb_evidence_certificate_id x), BHash (rb_related_party_policy_hash x)]"

definition enc_SignatureEntry :: "SignatureEntry \<Rightarrow> bval" where
  "enc_SignatureEntry x = BTuple [BHash (se_agent_id x), BHash (se_key_id x), BU8 (se_key_role x),
     BU64 (se_policy_revision x), BU64 (se_key_generation x), BU64 (se_authority_height x),
     BU16 (se_signature_scheme x), enc_bytes (se_signature x)]"

definition enc_SignatureStatement :: "SignatureStatement \<Rightarrow> bval" where
  "enc_SignatureStatement x = BTuple [BU16 (ss_schema_version x), BHash (ss_body_id x), BHash (ss_agent_id x),
     BHash (ss_key_id x), BU8 (ss_key_role x), BU64 (ss_policy_revision x), BU64 (ss_key_generation x),
     BU64 (ss_authority_height x)]"

definition enc_ConsumptionReceipt :: "ConsumptionReceipt \<Rightarrow> bval" where
  "enc_ConsumptionReceipt x = BTuple [enc_ReceiptBody (cn_body x), enc_SignatureEntry (cn_provider_signature x),
     enc_SignatureEntry (cn_consumer_signature x)]"

definition enc_ReceiptState :: "ReceiptState \<Rightarrow> bval" where
  "enc_ReceiptState x = BTuple [enc_ConsumptionReceipt (rs_receipt x), BHash (rs_receipt_id x), BU64 (rs_version x),
     BU8 (rs_status x), enc_option BHash (rs_assigned_rollup_id x), BU64 (rs_accepted_height x)]"

definition enc_RollupBody :: "RollupBody \<Rightarrow> bval" where
  "enc_RollupBody x = BTuple [BU16 (ro_schema_version x), enc_settlement_context (ro_context x),
     BHash (ro_provider_id x), BHash (ro_consumer_id x), BHash (ro_task_id x), BHash (ro_lease_id x),
     BU32 (ro_attempt x), BHash (ro_result_id x), enc_bytes (ro_meter_id x), BU32 (ro_meter_version x),
     BU64 (ro_first_sequence x), BU64 (ro_last_sequence x), enc_list BHash (ro_receipt_ids x),
     BU32 (ro_receipt_count x), BHash (ro_receipts_root x), enc_list enc_Usage (ro_usage_totals x),
     BU128 (ro_total_charge x), BHash (ro_evidence_certificate_id x), BHash (ro_escrow_id x),
     BHash (ro_settlement_policy_hash x), BHash (ro_related_party_policy_hash x)]"

definition enc_ConsumptionRollup :: "ConsumptionRollup \<Rightarrow> bval" where
  "enc_ConsumptionRollup x = BTuple [enc_RollupBody (cl_body x), enc_SignatureEntry (cl_provider_signature x),
     enc_SignatureEntry (cl_consumer_signature x)]"

definition enc_RollupState :: "RollupState \<Rightarrow> bval" where
  "enc_RollupState x = BTuple [enc_ConsumptionRollup (ru_rollup x), BHash (ru_rollup_id x), BU64 (ru_version x),
     BU64 (ru_accepted_height x), BU64 (ru_challenge_close_height x), BU8 (ru_status x),
     enc_option BHash (ru_consumed_by_settlement_id x)]"

definition enc_SettlementOperation :: "SettlementOperation \<Rightarrow> bval" where
  "enc_SettlementOperation x = BTuple [BU16 (so_schema_version x), enc_settlement_context (so_context x),
     BHash (so_task_id x), BHash (so_lease_id x), BU32 (so_attempt x), BHash (so_result_id x),
     BU64 (so_expected_result_revision x), BU64 (so_expected_escrow_version x), BU64 (so_expected_rollup_version x),
     BHash (so_settlement_policy_hash x)]"

definition enc_SettlementInput :: "SettlementInput \<Rightarrow> bval" where
  "enc_SettlementInput x = BTuple [BHash (si_asset_id x), BHash (si_escrow_id x), BU64 (si_escrow_version x),
     BU128 (si_amount x)]"

definition enc_ValueDelta :: "ValueDelta \<Rightarrow> bval" where
  "enc_ValueDelta x = BTuple [BHash (vd_asset_id x), BHash (vd_account_id x), BU16 (vd_reason x),
     BU128 (vd_amount x)]"

definition enc_SettlementIntent :: "SettlementIntent \<Rightarrow> bval" where
  "enc_SettlementIntent x = BTuple [BU16 (sn_schema_version x), enc_settlement_context (sn_context x),
     BHash (sn_task_id x), BHash (sn_lease_id x), BU32 (sn_attempt x), BHash (sn_result_id x),
     BU64 (sn_result_revision x), BU8 (sn_result_status x), BU8 (sn_settlement_maturity x), BHash (sn_escrow_id x),
     enc_list BHash (sn_consumption_rollup_ids x), BHash (sn_fee_schedule_hash x),
     BHash (sn_settlement_policy_hash x), enc_list enc_SettlementInput (sn_inputs x), BHash (sn_input_value_root x),
     enc_list enc_ValueDelta (sn_planned_deltas x), BHash (sn_planned_deltas_root x), BHash (sn_conservation_root x)]"

definition enc_PostAccountVersion :: "PostAccountVersion \<Rightarrow> bval" where
  "enc_PostAccountVersion x = BTuple [BHash (pa_account_id x), BU64 (pa_prior_version x), BU64 (pa_post_version x),
     BHash (pa_post_value_hash x)]"

definition enc_SettlementReceipt :: "SettlementReceipt \<Rightarrow> bval" where
  "enc_SettlementReceipt x = BTuple [BU16 (sr_schema_version x), enc_settlement_context (sr_context x),
     BHash (sr_settlement_id x), BHash (sr_task_id x), BHash (sr_lease_id x), BHash (sr_result_id x),
     BHash (sr_escrow_id x), enc_list enc_ValueDelta (sr_applied_deltas x),
     enc_list enc_PostAccountVersion (sr_post_account_versions x), BHash (sr_post_account_versions_root x),
     BU64 (sr_post_escrow_version x)]"

definition enc_SettlementState :: "SettlementState \<Rightarrow> bval" where
  "enc_SettlementState x = BTuple [BHash (sm_settlement_id x), BU64 (sm_state_version x),
     enc_SettlementIntent (sm_intent x), BU8 (sm_status x), enc_SettlementReceipt (sm_receipt x),
     BU64 (sm_applied_height x)]"

definition enc_AccountBalance :: "AccountBalance \<Rightarrow> bval" where
  "enc_AccountBalance x = BTuple [BHash (ab_account_id x), BU64 (ab_version x), BU128 (ab_balance x)]"

definition enc_EscrowBalance :: "EscrowBalance \<Rightarrow> bval" where
  "enc_EscrowBalance x = BTuple [BHash (eb_escrow_id x), BU64 (eb_version x), BU128 (eb_balance x),
     BBool (eb_closed x), enc_option BHash (eb_last_settlement_id x)]"

definition enc_ResultSettlement :: "ResultSettlement \<Rightarrow> bval" where
  "enc_ResultSettlement x = BTuple [BHash (rr_result_id x), BU64 (rr_revision x), BU8 (rr_result_status x),
     BU8 (rr_settlement_maturity x), enc_option BHash (rr_settlement_id x)]"

definition enc_KernelState :: "KernelState \<Rightarrow> bval" where
  "enc_KernelState x = BTuple [enc_list enc_ReceiptState (ks_receipts x), enc_option enc_RollupState (ks_rollup x),
     enc_option enc_SettlementState (ks_settlement x), enc_EscrowBalance (ks_escrow x),
     enc_ResultSettlement (ks_result x), enc_list enc_AccountBalance (ks_accounts x)]"

fun enc_SettlementCommand :: "SettlementCommand \<Rightarrow> bval" where
  "enc_SettlementCommand (AdmitReceipt receipt) = BEnum 0 [enc_ConsumptionReceipt receipt]"
| "enc_SettlementCommand (AdmitRollup rollup receipts) =
     BEnum 1 [enc_ConsumptionRollup rollup, enc_list enc_ConsumptionReceipt receipts]"
| "enc_SettlementCommand (Settle operation) = BEnum 2 [enc_SettlementOperation operation]"

section \<open>The codec\<close>

definition canonical_bytes :: "crypto \<Rightarrow> bval \<Rightarrow> (u8 list, SettlementError) result" where
  "canonical_bytes cr v = ok_or (borsh_to_vec cr v) NonCanonical"

definition digest_encoded :: "crypto \<Rightarrow> string \<Rightarrow> u8 list \<Rightarrow> (hash32, SettlementError) result" where
  "digest_encoded cr domain encoded =
     (if domain = [] \<or> \<not> is_ascii domain then Err InvalidBounds
      else if length domain \<ge> 2 ^ 32 then Err ArithmeticOverflow
      else Ok (sha256 cr (digest_preimage domain encoded)))"

definition digest_value :: "crypto \<Rightarrow> string \<Rightarrow> bval \<Rightarrow> (hash32, SettlementError) result" where
  "digest_value cr domain v = tryR (canonical_bytes cr v) (\<lambda>bytes. digest_encoded cr domain bytes)"

end
