(* ===== verification/Settlement_Engine.thy ===== *)
theory Settlement_Engine
  imports Settlement_Types
begin

text \<open>
  The kernel of \<open>trnm-service-settlement\<close> (module \<open>engine\<close>): validation of the trust bundle, admission of consumption
  receipts and of the rollup, and the settlement of the escrow. The transitions work on a
  clone of the state, so a failed transition leaves no trace; they return the next state. The only
  operation that could panic is the division by the fee denominator (\<open>Panicked\<close>).
\<close>

section \<open>Identifiers\<close>

definition MAX_RECEIPTS :: nat where "MAX_RECEIPTS = 1024"
definition MAX_USAGE_ENTRIES :: nat where "MAX_USAGE_ENTRIES = 32"
definition MAX_ID_BYTES :: nat where "MAX_ID_BYTES = 128"

definition consumption_receipt_id :: "crypto \<Rightarrow> ReceiptBody \<Rightarrow> (hash32, SettlementError) result" where
  "consumption_receipt_id cr body = digest_value cr ''trnm.portable.v2.consumption-receipt.v1'' (enc_ReceiptBody body)"

definition consumption_rollup_id :: "crypto \<Rightarrow> RollupBody \<Rightarrow> (hash32, SettlementError) result" where
  "consumption_rollup_id cr body = digest_value cr ''trnm.portable.v2.consumption-rollup.v1'' (enc_RollupBody body)"

definition settlement_policy_hash :: "crypto \<Rightarrow> SettlementPolicy \<Rightarrow> (hash32, SettlementError) result" where
  "settlement_policy_hash cr policy = digest_value cr ''trnm.portable.v2.settlement-policy.v1'' (enc_SettlementPolicy policy)"

definition operation_id :: "crypto \<Rightarrow> SettlementCommand \<Rightarrow> (hash32, SettlementError) result" where
  "operation_id cr c = digest_value cr ''trnm.portable.v2.consumption-settlement-operation.candidate.v1'' (enc_SettlementCommand c)"

definition kernel_state_root :: "crypto \<Rightarrow> KernelState \<Rightarrow> (hash32, SettlementError) result" where
  "kernel_state_root cr s = digest_value cr ''trnm.portable.v2.consumption-settlement-state-root.candidate.v1'' (enc_KernelState s)"

section \<open>Genesis\<close>

definition initial_state :: "TrustBundle \<Rightarrow> KernelState" where
  "initial_state trust =
     \<lparr>ks_receipts = [], ks_rollup = None, ks_settlement = None,
      ks_escrow = \<lparr>eb_escrow_id = tb_escrow_id trust, eb_version = tb_escrow_version trust,
        eb_balance = tb_escrow_funding trust, eb_closed = False, eb_last_settlement_id = None\<rparr>,
      ks_result = \<lparr>rr_result_id = tb_result_id trust, rr_revision = tb_result_revision trust,
        rr_result_status = tb_result_status trust, rr_settlement_maturity = SETTLEMENT_MATURITY_NOT_STARTED,
        rr_settlement_id = None\<rparr>,
      ks_accounts = sort_key ab_account_id
        [\<lparr>ab_account_id = tb_provider_account_id trust, ab_version = 0, ab_balance = tb_provider_opening_balance trust\<rparr>,
         \<lparr>ab_account_id = tb_consumer_account_id trust, ab_version = 0, ab_balance = tb_consumer_opening_balance trust\<rparr>,
         \<lparr>ab_account_id = tb_protocol_account_id trust, ab_version = 0, ab_balance = tb_protocol_opening_balance trust\<rparr>]\<rparr>"

definition require_strictly_sorted :: "('a \<Rightarrow> 'k::linorder) \<Rightarrow> 'a list \<Rightarrow> (unit, SettlementError) result" where
  "require_strictly_sorted order xs = (if \<not> strictly_sorted_by order xs then Err NonCanonical else Ok ())"

definition validate_trust_bundle :: "crypto \<Rightarrow> TrustBundle \<Rightarrow> (unit, SettlementError) result" where
  "validate_trust_bundle cr trust =
     (let policy = tb_settlement_policy trust
      in if tb_schema_version trust \<noteq> SCHEMA_VERSION \<or> sc_protocol_version (tb_context trust) \<noteq> 1 \<or>
            sc_chain_id (tb_context trust) = []
         then Err InvalidContext
         else if bk_agent_id (tb_provider trust) = bk_agent_id (tb_consumer trust) \<or>
            bk_key_id (tb_provider trust) = bk_key_id (tb_consumer trust) \<or>
            bk_public_key (tb_provider trust) = bk_public_key (tb_consumer trust)
         then Err InvalidContext
         else if \<not> valid_key cr (bk_public_key (tb_provider trust)) then Err InvalidContext
         else if \<not> valid_key cr (bk_public_key (tb_consumer trust)) then Err InvalidContext
         else if card {tb_provider_account_id trust, tb_consumer_account_id trust, tb_protocol_account_id trust} \<noteq> 3
         then Err InvalidContext
         else if tb_escrow_funding trust = 0 \<or> tb_result_status trust \<noteq> RESULT_STATUS_FINAL_VALID \<or>
            sp_schema_version policy \<noteq> SCHEMA_VERSION \<or> sp_maximum_rollups policy \<noteq> 1 \<or>
            sp_minimum_rollup_challenge_blocks policy = 0 \<or> sp_protocol_fee_denominator policy = 0 \<or>
            sp_protocol_fee_numerator policy > sp_protocol_fee_denominator policy
         then Err InvalidBounds
         else if tb_prices trust = [] \<or> length (tb_prices trust) > MAX_USAGE_ENTRIES then Err InvalidBounds
         else
           tryR (require_strictly_sorted price_order (tb_prices trust)) (\<lambda>_.
           if list_ex (\<lambda>p. cp_resource_id p = [] \<or> length (cp_resource_id p) > MAX_ID_BYTES \<or> cp_meter_id p = [] \<or>
                length (cp_meter_id p) > MAX_ID_BYTES \<or> cp_unit_price p = 0) (tb_prices trust)
           then Err InvalidBounds
           else if tb_accepted_evidence_certificates trust = [] then Err InvalidBounds
           else require_strictly_sorted id (tb_accepted_evidence_certificates trust)))"

definition validate_execution_static :: "TrustBundle \<Rightarrow> ExecutionContext \<Rightarrow> (unit, SettlementError) result" where
  "validate_execution_static trust e =
     (if ec_schema_version e \<noteq> SCHEMA_VERSION \<or> ec_context e \<noteq> tb_context trust then Err InvalidContext
      else if ec_order_height e < ec_expected_order_height e \<or>
         (ec_order_height e = ec_expected_order_height e \<and> ec_order_block_id e \<noteq> ec_expected_order_block_id e)
      then Err StaleVersion
      else Ok ())"

section \<open>Signatures\<close>

definition verify_signature_entry :: "crypto \<Rightarrow> RegisteredBilateralKey \<Rightarrow> SignatureEntry \<Rightarrow> hash32 \<Rightarrow> u64 \<Rightarrow> string \<Rightarrow>
    (unit, SettlementError) result" where
  "verify_signature_entry cr registered entry body_id authority_height domain =
     (if se_agent_id entry \<noteq> bk_agent_id registered \<or> se_key_id entry \<noteq> bk_key_id registered \<or>
         se_key_role entry \<noteq> KEY_ROLE_BILATERAL_RECEIPT \<or> se_policy_revision entry \<noteq> bk_policy_revision registered \<or>
         se_key_generation entry \<noteq> bk_key_generation registered \<or> se_authority_height entry \<noteq> authority_height \<or>
         se_signature_scheme entry \<noteq> SIGNATURE_SCHEME_ED25519
      then Err Unauthorized
      else
        let statement = \<lparr>ss_schema_version = SCHEMA_VERSION, ss_body_id = body_id, ss_agent_id = se_agent_id entry,
              ss_key_id = se_key_id entry, ss_key_role = se_key_role entry, ss_policy_revision = se_policy_revision entry,
              ss_key_generation = se_key_generation entry, ss_authority_height = se_authority_height entry\<rparr>
        in tryR (digest_value cr domain (enc_SignatureStatement statement)) (\<lambda>digest.
           if \<not> valid_key cr (bk_public_key registered) then Err InvalidSignature
           else if length (se_signature entry) \<noteq> 64 then Err InvalidSignature
           else if \<not> verify_strict cr (bk_public_key registered) digest (se_signature entry) then Err InvalidSignature
           else Ok ()))"

definition verify_bilateral_signatures :: "crypto \<Rightarrow> TrustBundle \<Rightarrow> hash32 \<Rightarrow> u64 \<Rightarrow> string \<Rightarrow> string \<Rightarrow>
    SignatureEntry \<Rightarrow> SignatureEntry \<Rightarrow> (unit, SettlementError) result" where
  "verify_bilateral_signatures cr trust body_id authority_height provider_domain consumer_domain provider_entry consumer_entry =
     tryR (verify_signature_entry cr (tb_provider trust) provider_entry body_id authority_height provider_domain) (\<lambda>_.
     verify_signature_entry cr (tb_consumer trust) consumer_entry body_id authority_height consumer_domain)"

section \<open>Usage\<close>

definition validate_common_body :: "TrustBundle \<Rightarrow> ReceiptBody \<Rightarrow> (unit, SettlementError) result" where
  "validate_common_body trust body =
     (if rb_schema_version body \<noteq> SCHEMA_VERSION \<or> rb_context body \<noteq> tb_context trust \<or>
         rb_provider_id body \<noteq> bk_agent_id (tb_provider trust) \<or> rb_consumer_id body \<noteq> bk_agent_id (tb_consumer trust) \<or>
         rb_task_id body \<noteq> tb_task_id trust \<or> rb_lease_id body \<noteq> tb_lease_id trust \<or> rb_attempt body \<noteq> tb_attempt trust \<or>
         rb_result_id body \<noteq> tb_result_id trust \<or> rb_meter_id body = [] \<or> length (rb_meter_id body) > MAX_ID_BYTES \<or>
         rb_related_party_policy_hash body \<noteq> tb_related_party_policy_hash trust
      then Err InvalidContext else Ok ())"

definition validate_usage :: "Usage list \<Rightarrow> (unit, SettlementError) result" where
  "validate_usage usage =
     (if usage = [] \<or> length usage > MAX_USAGE_ENTRIES then Err InvalidBounds
      else
        tryR (require_strictly_sorted usage_order usage) (\<lambda>_.
        if list_ex (\<lambda>u. us_resource_id u = [] \<or> length (us_resource_id u) > MAX_ID_BYTES \<or> us_meter_id u = [] \<or>
             length (us_meter_id u) > MAX_ID_BYTES \<or> us_amount u = 0) usage
        then Err InvalidBounds else Ok ()))"

type_synonym ResourceKey = "u16 \<times> u8 list \<times> u8 list \<times> u32 \<times> u16"

definition usage_key :: "Usage \<Rightarrow> ResourceKey" where
  "usage_key u = (us_resource_class u, us_resource_id u, us_meter_id u, us_meter_version u, us_unit u)"

definition cumulative_key :: "CumulativeUsage \<Rightarrow> ResourceKey" where
  "cumulative_key u = (cu_resource_class u, cu_resource_id u, cu_meter_id u, cu_meter_version u, cu_unit u)"

definition enc_key :: "ResourceKey \<Rightarrow> bval" where
  "enc_key k = (case k of (class, rid, meter, version, unit) \<Rightarrow>
     BTuple [BU16 class, enc_bytes rid, enc_bytes meter, BU32 version, BU16 unit])"

definition accumulate :: "crypto \<Rightarrow> (ResourceKey, u128 \<times> hash32) btree \<times> CumulativeUsage list \<Rightarrow> Usage \<Rightarrow>
    ((ResourceKey, u128 \<times> hash32) btree \<times> CumulativeUsage list, SettlementError) result" where
  "accumulate cr acc u = (case acc of (prior_map, output) \<Rightarrow>
     let key = usage_key u;
         (prior_total, prior_accumulator) = (case bt_get prior_map key of None \<Rightarrow> (0, 0) | Some x \<Rightarrow> x)
     in tryR (ok_or (checked_add prior_total (us_amount u)) ArithmeticOverflow) (\<lambda>total_amount.
        tryR (digest_value cr ''trnm.portable.v2.consumption-usage-accumulator.v1''
               (BTuple [enc_key key, BU128 prior_total,
                  enc_option BHash (if prior_total > 0 then Some prior_accumulator else None), BU128 (us_amount u),
                  BHash (us_measurement_commitment u), BU128 total_amount])) (\<lambda>accumulator_commitment.
        Ok (bt_remove key prior_map,
          output @ [\<lparr>cu_resource_class = us_resource_class u, cu_resource_id = us_resource_id u,
            cu_meter_id = us_meter_id u, cu_meter_version = us_meter_version u, cu_total_amount = total_amount,
            cu_unit = us_unit u, cu_accumulator_commitment = accumulator_commitment\<rparr>]))))"

definition prior_totals :: "ReceiptState option \<Rightarrow> (ResourceKey, u128 \<times> hash32) btree" where
  "prior_totals prior =
     (case prior of None \<Rightarrow> bt_empty
      | Some p \<Rightarrow> fold (\<lambda>u m. bt_insert (cumulative_key u) (cu_total_amount u, cu_accumulator_commitment u) m)
                   (rb_cumulative_usage (cn_body (rs_receipt p))) bt_empty)"

definition derive_cumulative_usage :: "crypto \<Rightarrow> ReceiptState option \<Rightarrow> Usage list \<Rightarrow>
    (CumulativeUsage list, SettlementError) result" where
  "derive_cumulative_usage cr prior usage =
     tryR (try_fold (accumulate cr) (prior_totals prior, []) usage) (\<lambda>(prior_map, output).
     if entries prior_map \<noteq> [] then Err InvalidTransition
     else Ok (sort_key cumulative_order output))"

definition usage_charge :: "TrustBundle \<Rightarrow> Usage \<Rightarrow> (u128, SettlementError) result" where
  "usage_charge trust u =
     tryR (ok_or (find (\<lambda>p. cp_resource_class p = us_resource_class u \<and> cp_resource_id p = us_resource_id u \<and>
              cp_meter_id p = us_meter_id u \<and> cp_meter_version p = us_meter_version u \<and> cp_unit p = us_unit u)
            (tb_prices trust)) Unauthorized) (\<lambda>price.
     ok_or (checked_mul (us_amount u) (cp_unit_price price)) ArithmeticOverflow)"

definition price_usage :: "TrustBundle \<Rightarrow> Usage list \<Rightarrow> (u128, SettlementError) result" where
  "price_usage trust usage =
     try_fold (\<lambda>total u. tryR (usage_charge trust u) (\<lambda>charge. ok_or (checked_add total charge) ArithmeticOverflow)) 0 usage"

section \<open>Receipts\<close>

definition last_opt :: "'a list \<Rightarrow> 'a option" where
  "last_opt xs = (if xs = [] then None else Some (last xs))"

definition len_u64 :: "nat \<Rightarrow> (u64, SettlementError) result" where
  "len_u64 n = (if n \<ge> 2 ^ 64 then Err ArithmeticOverflow else Ok (word_of_nat n))"

definition check_prior :: "ReceiptState option \<Rightarrow> ReceiptBody \<Rightarrow> (unit, SettlementError) result" where
  "check_prior prior body =
     (case prior of
        None \<Rightarrow> if rb_prior_receipt_id body \<noteq> None \<or> rb_sequence body \<noteq> 1 then Err SequenceGap else Ok ()
      | Some p \<Rightarrow>
          if rb_prior_receipt_id body \<noteq> Some (rs_receipt_id p) then Err SequenceGap
          else
            tryR (ok_or (checked_add (rb_period_end_height (cn_body (rs_receipt p))) 1) ArithmeticOverflow) (\<lambda>start.
            if rb_period_start_height body \<noteq> start then Err SequenceGap else Ok ()))"

definition admit_receipt :: "crypto \<Rightarrow> TrustBundle \<Rightarrow> KernelState \<Rightarrow> u64 \<Rightarrow> ConsumptionReceipt \<Rightarrow> (KernelState, SettlementError) result" where
  "admit_receipt cr trust s order_height receipt =
     (if ks_rollup s \<noteq> None \<or> ks_settlement s \<noteq> None then Err InvalidTransition
      else
        let body = cn_body receipt
        in tryR (validate_common_body trust body) (\<lambda>_.
           if rb_period_end_height body \<noteq> order_height \<or> rb_period_start_height body = 0 \<or>
              rb_period_start_height body > rb_period_end_height body
           then Err InvalidBounds
           else if rb_evidence_certificate_id body \<notin> set (tb_accepted_evidence_certificates trust) then Err Unauthorized
           else
             tryR (validate_usage (rb_usage body)) (\<lambda>_.
             tryR (consumption_receipt_id cr body) (\<lambda>receipt_id.
             tryR (verify_bilateral_signatures cr trust receipt_id (rb_period_end_height body)
                     ''trnm.portable.v2.consumption-receipt-provider-signature.v1''
                     ''trnm.portable.v2.consumption-receipt-consumer-signature.v1''
                     (cn_provider_signature receipt) (cn_consumer_signature receipt)) (\<lambda>_.
             tryR (len_u64 (length (ks_receipts s))) (\<lambda>n.
             tryR (ok_or (checked_add n 1) ArithmeticOverflow) (\<lambda>expected_sequence.
             if rb_sequence body \<noteq> expected_sequence \<or> length (ks_receipts s) \<ge> MAX_RECEIPTS then Err SequenceGap
             else
               let prior = last_opt (ks_receipts s)
               in tryR (check_prior prior body) (\<lambda>_.
                  tryR (derive_cumulative_usage cr prior (rb_usage body)) (\<lambda>expected_cumulative.
                  if rb_cumulative_usage body \<noteq> expected_cumulative then Err RootMismatch
                  else
                    tryR (digest_value cr ''trnm.portable.v2.consumption-cumulative-usage-root.v1''
                            (enc_list enc_CumulativeUsage expected_cumulative)) (\<lambda>root.
                    if rb_cumulative_usage_root body \<noteq> root then Err RootMismatch
                    else
                      tryR (price_usage trust (rb_usage body)) (\<lambda>period_charge.
                        let prior_charge = (case prior of None \<Rightarrow> 0 | Some p \<Rightarrow> rb_cumulative_charge (cn_body (rs_receipt p)))
                        in tryR (ok_or (checked_add prior_charge period_charge) ArithmeticOverflow) (\<lambda>expected_charge.
                           if rb_cumulative_charge body \<noteq> expected_charge \<or> expected_charge > tb_escrow_funding trust
                           then Err InsufficientFunds
                           else Ok (s\<lparr>ks_receipts := ks_receipts s @ [\<lparr>rs_receipt = receipt, rs_receipt_id = receipt_id,
                             rs_version = 0, rs_status = 0, rs_assigned_rollup_id = None,
                             rs_accepted_height = order_height\<rparr>]\<rparr>)))))))))))))"

section \<open>The rollup\<close>

definition usage_total :: "CumulativeUsage \<Rightarrow> Usage" where
  "usage_total u = \<lparr>us_resource_class = cu_resource_class u, us_resource_id = cu_resource_id u, us_meter_id = cu_meter_id u,
     us_meter_version = cu_meter_version u, us_amount = cu_total_amount u, us_unit = cu_unit u,
     us_measurement_commitment = cu_accumulator_commitment u\<rparr>"

definition assign_receipt :: "hash32 \<Rightarrow> ReceiptState \<Rightarrow> (ReceiptState, SettlementError) result" where
  "assign_receipt rollup_id r =
     tryR (ok_or (checked_add (rs_version r) 1) ArithmeticOverflow) (\<lambda>v.
     Ok (r\<lparr>rs_version := v, rs_status := 1, rs_assigned_rollup_id := Some rollup_id\<rparr>))"

definition receipt_entry :: "nat \<times> hash32 \<Rightarrow> (bval, SettlementError) result" where
  "receipt_entry e = (case e of (index, receipt_id) \<Rightarrow>
     tryR (len_u64 index) (\<lambda>n.
     tryR (ok_or (checked_add n 1) ArithmeticOverflow) (\<lambda>sequence.
     Ok (BTuple [BU64 sequence, BHash receipt_id]))))"

definition check_rollup_body :: "crypto \<Rightarrow> TrustBundle \<Rightarrow> KernelState \<Rightarrow> RollupBody \<Rightarrow> (unit, SettlementError) result" where
  "check_rollup_body cr trust s body =
     (if ro_schema_version body \<noteq> SCHEMA_VERSION \<or> ro_context body \<noteq> tb_context trust \<or>
         ro_provider_id body \<noteq> bk_agent_id (tb_provider trust) \<or> ro_consumer_id body \<noteq> bk_agent_id (tb_consumer trust) \<or>
         ro_task_id body \<noteq> tb_task_id trust \<or> ro_lease_id body \<noteq> tb_lease_id trust \<or> ro_attempt body \<noteq> tb_attempt trust \<or>
         ro_result_id body \<noteq> tb_result_id trust \<or> ro_escrow_id body \<noteq> tb_escrow_id trust \<or>
         ro_related_party_policy_hash body \<noteq> tb_related_party_policy_hash trust
      then Err InvalidContext
      else
        tryR (settlement_policy_hash cr (tb_settlement_policy trust)) (\<lambda>policy_hash.
        if ro_settlement_policy_hash body \<noteq> policy_hash then Err InvalidContext
        else
          tryR (ok_or (last_opt (ks_receipts s)) NotFound) (\<lambda>l.
          if ro_evidence_certificate_id body \<noteq> rb_evidence_certificate_id (cn_body (rs_receipt l)) then Err InvalidContext
          else Ok ())))"

definition admit_rollup :: "crypto \<Rightarrow> TrustBundle \<Rightarrow> KernelState \<Rightarrow> u64 \<Rightarrow> ConsumptionRollup \<Rightarrow> ConsumptionReceipt list \<Rightarrow>
    (KernelState, SettlementError) result" where
  "admit_rollup cr trust s order_height rollup supplied_receipts =
     (if ks_rollup s \<noteq> None \<or> ks_settlement s \<noteq> None \<or> ks_receipts s = [] then Err InvalidTransition
      else
        let body = cl_body rollup; receipts = ks_receipts s
        in tryR (check_rollup_body cr trust s body) (\<lambda>_.
           if length receipts \<ge> 2 ^ 32 then Err ArithmeticOverflow
           else
             tryR (len_u64 (length receipts)) (\<lambda>last_sequence.
             if supplied_receipts \<noteq> map rs_receipt receipts \<or> ro_first_sequence body \<noteq> 1 \<or>
                ro_last_sequence body \<noteq> last_sequence \<or> ro_receipt_count body \<noteq> word_of_nat (length receipts) \<or>
                ro_receipt_ids body \<noteq> map rs_receipt_id receipts \<or>
                list_ex (\<lambda>r. rs_status r \<noteq> 0 \<or> rs_assigned_rollup_id r \<noteq> None) receipts
             then Err Conflict
             else
               tryR (collect receipt_entry (enumerate 0 (map rs_receipt_id receipts))) (\<lambda>receipt_entries.
               tryR (digest_value cr ''trnm.portable.v2.rollup-receipts-root.candidate.v1'' (BVec receipt_entries)) (\<lambda>root.
               if ro_receipts_root body \<noteq> root then Err RootMismatch
               else
                 tryR (ok_or (last_opt receipts) NotFound) (\<lambda>l.
                   let last_body = cn_body (rs_receipt l)
                   in if ro_usage_totals body \<noteq> map usage_total (rb_cumulative_usage last_body) \<or>
                         ro_total_charge body \<noteq> rb_cumulative_charge last_body
                      then Err ConservationViolation
                      else
                        tryR (consumption_rollup_id cr body) (\<lambda>rollup_id.
                        tryR (verify_bilateral_signatures cr trust rollup_id order_height
                                ''trnm.portable.v2.consumption-rollup-provider-signature.v1''
                                ''trnm.portable.v2.consumption-rollup-consumer-signature.v1''
                                (cl_provider_signature rollup) (cl_consumer_signature rollup)) (\<lambda>_.
                        tryR (ok_or (checked_add order_height
                                (sp_minimum_rollup_challenge_blocks (tb_settlement_policy trust))) ArithmeticOverflow) (\<lambda>close_height.
                        tryR (collect (assign_receipt rollup_id) receipts) (\<lambda>receipts'.
                        Ok (s\<lparr>ks_receipts := receipts',
                          ks_rollup := Some \<lparr>ru_rollup = rollup, ru_rollup_id = rollup_id, ru_version = 0,
                            ru_accepted_height = order_height, ru_challenge_close_height = close_height, ru_status = 0,
                            ru_consumed_by_settlement_id = None\<rparr>\<rparr>)))))))))))"

section \<open>Settlement\<close>

fun credit_account :: "crypto \<Rightarrow> ValueDelta \<Rightarrow> AccountBalance list \<Rightarrow> (AccountBalance list \<times> PostAccountVersion, SettlementError) result" where
  "credit_account cr d [] = Err NotFound"
| "credit_account cr d (a # as) =
     (if ab_account_id a = vd_account_id d then
        tryR (ok_or (checked_add (ab_balance a) (vd_amount d)) ArithmeticOverflow) (\<lambda>balance.
        tryR (ok_or (checked_add (ab_version a) 1) ArithmeticOverflow) (\<lambda>version.
          let a' = a\<lparr>ab_balance := balance, ab_version := version\<rparr>
          in tryR (digest_value cr ''trnm.portable.v2.account-value.candidate.v1''
                    (BTuple [BHash (ab_account_id a'), BU64 version, BU128 balance])) (\<lambda>h.
             Ok (a' # as, \<lparr>pa_account_id = ab_account_id a', pa_prior_version = ab_version a, pa_post_version = version,
               pa_post_value_hash = h\<rparr>))))
      else tryR (credit_account cr d as) (\<lambda>(as', e). Ok (a # as', e)))"

definition apply_delta :: "crypto \<Rightarrow> AccountBalance list \<times> PostAccountVersion list \<Rightarrow> ValueDelta \<Rightarrow>
    (AccountBalance list \<times> PostAccountVersion list, SettlementError) result" where
  "apply_delta cr acc d = (case acc of (accounts, post_versions) \<Rightarrow>
     tryR (credit_account cr d accounts) (\<lambda>(accounts', e). Ok (accounts', post_versions @ [e])))"

definition planned_deltas :: "TrustBundle \<Rightarrow> u128 \<Rightarrow> u128 \<Rightarrow> u128 \<Rightarrow> ValueDelta list" where
  "planned_deltas trust provider_payment consumer_refund protocol_fee =
     sort_key delta_order
       ((if provider_payment > 0 then [\<lparr>vd_asset_id = tb_asset_id trust, vd_account_id = tb_provider_account_id trust,
           vd_reason = 0, vd_amount = provider_payment\<rparr>] else []) @
        (if consumer_refund > 0 then [\<lparr>vd_asset_id = tb_asset_id trust, vd_account_id = tb_consumer_account_id trust,
           vd_reason = 1, vd_amount = consumer_refund\<rparr>] else []) @
        (if protocol_fee > 0 then [\<lparr>vd_asset_id = tb_asset_id trust, vd_account_id = tb_protocol_account_id trust,
           vd_reason = 2, vd_amount = protocol_fee\<rparr>] else []))"

text \<open>The amounts a settlement pays: provider payment, consumer refund, protocol fee.\<close>

definition settlement_amounts :: "TrustBundle \<Rightarrow> u128 \<Rightarrow> u128 \<Rightarrow> (u128 \<times> u128 \<times> u128, SettlementError) result" where
  "settlement_amounts trust balance total_charge =
     (if total_charge > balance then Err InsufficientFunds
      else
        tryR (ok_or (checked_mul total_charge (sp_protocol_fee_numerator (tb_settlement_policy trust))) ArithmeticOverflow) (\<lambda>fee_product.
        if sp_protocol_fee_denominator (tb_settlement_policy trust) = 0 then Err Panicked
        else
          let protocol_fee = fee_product div sp_protocol_fee_denominator (tb_settlement_policy trust)
          in tryR (ok_or (checked_sub total_charge protocol_fee) ArithmeticOverflow) (\<lambda>provider_payment.
             tryR (ok_or (checked_sub balance total_charge) ArithmeticOverflow) (\<lambda>consumer_refund.
             Ok (provider_payment, consumer_refund, protocol_fee)))))"

definition check_operation :: "crypto \<Rightarrow> TrustBundle \<Rightarrow> KernelState \<Rightarrow> RollupState \<Rightarrow> u64 \<Rightarrow> SettlementOperation \<Rightarrow> (unit, SettlementError) result" where
  "check_operation cr trust s rollup order_height operation =
     (if so_schema_version operation \<noteq> SCHEMA_VERSION \<or> so_context operation \<noteq> tb_context trust \<or>
         so_task_id operation \<noteq> tb_task_id trust \<or> so_lease_id operation \<noteq> tb_lease_id trust \<or>
         so_attempt operation \<noteq> tb_attempt trust \<or> so_result_id operation \<noteq> tb_result_id trust \<or>
         so_expected_result_revision operation \<noteq> rr_revision (ks_result s) \<or>
         so_expected_escrow_version operation \<noteq> eb_version (ks_escrow s) \<or>
         so_expected_rollup_version operation \<noteq> ru_version rollup
      then Err StaleVersion
      else
        tryR (settlement_policy_hash cr (tb_settlement_policy trust)) (\<lambda>policy_hash.
        if so_settlement_policy_hash operation \<noteq> policy_hash then Err StaleVersion
        else if rr_result_status (ks_result s) \<noteq> RESULT_STATUS_FINAL_VALID \<or>
           rr_settlement_maturity (ks_result s) \<noteq> SETTLEMENT_MATURITY_NOT_STARTED \<or>
           ru_status rollup \<noteq> 0 \<or> ru_consumed_by_settlement_id rollup \<noteq> None
        then Err InvalidTransition
        else if order_height \<le> ru_challenge_close_height rollup then Err NotMature
        else Ok ()))"

definition settle :: "crypto \<Rightarrow> TrustBundle \<Rightarrow> KernelState \<Rightarrow> u64 \<Rightarrow> SettlementOperation \<Rightarrow> (KernelState \<times> hash32, SettlementError) result" where
  "settle cr trust s order_height operation =
     (if ks_settlement s \<noteq> None \<or> eb_closed (ks_escrow s) then Err AlreadyConsumed
      else
        tryR (ok_or (ks_rollup s) NotFound) (\<lambda>rollup.
        tryR (check_operation cr trust s rollup order_height operation) (\<lambda>_.
          let balance = eb_balance (ks_escrow s)
          in tryR (settlement_amounts trust balance (ro_total_charge (cl_body (ru_rollup rollup)))) (\<lambda>(provider_payment, consumer_refund, protocol_fee).
             let deltas = planned_deltas trust provider_payment consumer_refund protocol_fee
             in tryR (try_fold (\<lambda>total d. ok_or (checked_add total (vd_amount d)) ArithmeticOverflow) 0 deltas) (\<lambda>output_total.
                if output_total \<noteq> balance then Err ConservationViolation
                else
                  let inputs = [\<lparr>si_asset_id = tb_asset_id trust, si_escrow_id = eb_escrow_id (ks_escrow s),
                        si_escrow_version = eb_version (ks_escrow s), si_amount = balance\<rparr>]
                  in tryR (digest_value cr ''trnm.portable.v2.settlement-input-root.v1'' (enc_list enc_SettlementInput inputs)) (\<lambda>input_value_root.
                     tryR (digest_value cr ''trnm.portable.v2.planned-deltas-root.v1'' (enc_list enc_ValueDelta deltas)) (\<lambda>planned_deltas_root.
                     tryR (digest_value cr ''trnm.portable.v2.conservation-root.v1''
                             (BTuple [BHash (tb_asset_id trust), BHash input_value_root, BHash planned_deltas_root, BU128 balance,
                                BU128 output_total, BU128 provider_payment, BU128 consumer_refund, BU128 protocol_fee])) (\<lambda>conservation_root.
                     tryR (settlement_policy_hash cr (tb_settlement_policy trust)) (\<lambda>policy_hash.
                       let intent = \<lparr>sn_schema_version = SCHEMA_VERSION, sn_context = tb_context trust, sn_task_id = tb_task_id trust,
                             sn_lease_id = tb_lease_id trust, sn_attempt = tb_attempt trust, sn_result_id = tb_result_id trust,
                             sn_result_revision = rr_revision (ks_result s), sn_result_status = rr_result_status (ks_result s),
                             sn_settlement_maturity = 1, sn_escrow_id = tb_escrow_id trust,
                             sn_consumption_rollup_ids = [ru_rollup_id rollup],
                             sn_fee_schedule_hash = sp_fee_schedule_hash (tb_settlement_policy trust),
                             sn_settlement_policy_hash = policy_hash, sn_inputs = inputs, sn_input_value_root = input_value_root,
                             sn_planned_deltas = deltas, sn_planned_deltas_root = planned_deltas_root,
                             sn_conservation_root = conservation_root\<rparr>
                       in tryR (digest_value cr ''trnm.portable.v2.settlement.v1'' (enc_SettlementIntent intent)) (\<lambda>settlement_id.
                          tryR (try_fold (apply_delta cr) (ks_accounts s, []) deltas) (\<lambda>(accounts, posts).
                            let post_versions = sort_key pa_account_id posts
                            in tryR (digest_value cr ''trnm.portable.v2.post-account-versions-root.v1'' (enc_list enc_PostAccountVersion post_versions)) (\<lambda>post_root.
                               tryR (ok_or (checked_add (eb_version (ks_escrow s)) 1) ArithmeticOverflow) (\<lambda>escrow_version.
                               tryR (ok_or (checked_add (rr_revision (ks_result s)) 1) ArithmeticOverflow) (\<lambda>revision.
                               tryR (ok_or (checked_add (ru_version rollup) 1) ArithmeticOverflow) (\<lambda>rollup_version.
                                 let receipt = \<lparr>sr_schema_version = SCHEMA_VERSION, sr_context = tb_context trust,
                                       sr_settlement_id = settlement_id, sr_task_id = tb_task_id trust, sr_lease_id = tb_lease_id trust,
                                       sr_result_id = tb_result_id trust, sr_escrow_id = tb_escrow_id trust, sr_applied_deltas = deltas,
                                       sr_post_account_versions = post_versions, sr_post_account_versions_root = post_root,
                                       sr_post_escrow_version = escrow_version\<rparr>
                                 in Ok (s\<lparr>ks_accounts := accounts,
                                      ks_escrow := (ks_escrow s)\<lparr>eb_version := escrow_version, eb_balance := 0, eb_closed := True,
                                        eb_last_settlement_id := Some settlement_id\<rparr>,
                                      ks_result := (ks_result s)\<lparr>rr_revision := revision,
                                        rr_settlement_maturity := SETTLEMENT_MATURITY_FINAL, rr_settlement_id := Some settlement_id\<rparr>,
                                      ks_rollup := Some (rollup\<lparr>ru_version := rollup_version, ru_status := 1,
                                        ru_consumed_by_settlement_id := Some settlement_id\<rparr>),
                                      ks_settlement := Some \<lparr>sm_settlement_id = settlement_id, sm_state_version = 0, sm_intent = intent,
                                        sm_status = 1, sm_receipt = receipt, sm_applied_height = order_height\<rparr>\<rparr>,
                                    settlement_id))))))))))))))))"

definition apply_transition :: "crypto \<Rightarrow> TrustBundle \<Rightarrow> KernelState \<Rightarrow> u64 \<Rightarrow> SettlementCommand \<Rightarrow>
    (KernelState \<times> hash32 option, SettlementError) result" where
  "apply_transition cr trust s order_height command =
     (case command of
        AdmitReceipt receipt \<Rightarrow> tryR (admit_receipt cr trust s order_height receipt) (\<lambda>s'. Ok (s', None))
      | AdmitRollup rollup receipts \<Rightarrow> tryR (admit_rollup cr trust s order_height rollup receipts) (\<lambda>s'. Ok (s', None))
      | Settle operation \<Rightarrow> tryR (settle cr trust s order_height operation) (\<lambda>(s', settlement_id). Ok (s', Some settlement_id)))"

end
