(* ===== verification/Settlement_Properties.thy ===== *)
theory Settlement_Properties
  imports Settlement_Engine "HOL-Library.Multiset"
begin

text \<open>
  What the settlement kernel guarantees on every history of commands: value is conserved, receipts form a
  signed chain whose charges add up, the escrow is paid out once, after the challenge window, in
  exact shares, and the internal conservation check never fires.
\<close>

section \<open>The kernel as a machine\<close>

text \<open>A transition is committed when it returns a state, and dropped when it fails.\<close>

definition kernel_exec :: "crypto \<Rightarrow> TrustBundle \<Rightarrow> KernelState \<Rightarrow> u64 \<times> SettlementCommand \<Rightarrow>
    KernelState \<times> (hash32 option, SettlementError) result" where
  "kernel_exec cr trust s hc =
     (case apply_transition cr trust s (fst hc) (snd hc) of Ok (s', r) \<Rightarrow> (s', Ok r) | Err e \<Rightarrow> (s, Err e))"

definition funds :: "KernelState \<Rightarrow> nat" where
  "funds s = (\<Sum>a\<leftarrow>ks_accounts s. unat (ab_balance a)) + unat (eb_balance (ks_escrow s))"

lemma kernel_exec_Ok:
  "kernel_exec cr trust s (h, c) = (s', Ok r) \<longleftrightarrow> apply_transition cr trust s h c = Ok (s', r)"
  by (auto simp: kernel_exec_def split: result.splits)

lemma kernel_cases:
  assumes "apply_transition cr trust s h c = Ok (s', r)"
  obtains (receipt) receipt where "c = AdmitReceipt receipt" "admit_receipt cr trust s h receipt = Ok s'"
  | (rollup) rollup receipts where "c = AdmitRollup rollup receipts" "admit_rollup cr trust s h rollup receipts = Ok s'"
  | (settle) operation i where "c = Settle operation" "settle cr trust s h operation = Ok (s', i)"
  using assms by (auto simp: apply_transition_def result_simps split: SettlementCommand.splits)

section \<open>Accounts\<close>

definition account_balance :: "AccountBalance list \<Rightarrow> hash32 \<Rightarrow> nat" where
  "account_balance as i = (case find (\<lambda>a. ab_account_id a = i) as of None \<Rightarrow> 0 | Some a \<Rightarrow> unat (ab_balance a))"

lemma account_balance_simps [simp]:
  "account_balance [] i = 0"
  "account_balance (a # as) i = (if ab_account_id a = i then unat (ab_balance a) else account_balance as i)"
  by (simp_all add: account_balance_def)

lemma credit_account_facts:
  assumes "credit_account cr d as = Ok (as', e)"
  shows "(\<Sum>a\<leftarrow>as'. unat (ab_balance a)) = (\<Sum>a\<leftarrow>as. unat (ab_balance a)) + unat (vd_amount d)"
    and "account_balance as' i = account_balance as i + (if i = vd_account_id d then unat (vd_amount d) else 0)"
  using assms
  by (induction as arbitrary: as' e) (auto simp: result_simps checked_simps Let_def split: if_splits)

lemma apply_deltas_facts:
  assumes "try_fold (apply_delta cr) (as, ps) ds = Ok (as', ps')"
  shows "(\<Sum>a\<leftarrow>as'. unat (ab_balance a)) = (\<Sum>a\<leftarrow>as. unat (ab_balance a)) + (\<Sum>d\<leftarrow>ds. unat (vd_amount d))"
    and "account_balance as' i = account_balance as i + (\<Sum>d\<leftarrow>ds. if i = vd_account_id d then unat (vd_amount d) else 0)"
proof -
  have "(\<Sum>a\<leftarrow>as'. unat (ab_balance a)) = (\<Sum>a\<leftarrow>as. unat (ab_balance a)) + (\<Sum>d\<leftarrow>ds. unat (vd_amount d)) \<and>
      account_balance as' i = account_balance as i + (\<Sum>d\<leftarrow>ds. if i = vd_account_id d then unat (vd_amount d) else 0)"
    using assms
  proof (induction ds arbitrary: as ps)
    case (Cons d ds)
    then obtain as1 e where c: "credit_account cr d as = Ok (as1, e)" and rest: "try_fold (apply_delta cr) (as1, ps @ [e]) ds = Ok (as', ps')"
      by (auto simp: apply_delta_def [of cr "(as, ps)"] result_simps)
    from Cons.IH [OF rest] credit_account_facts [OF c] show ?case by simp
  qed simp
  then show "(\<Sum>a\<leftarrow>as'. unat (ab_balance a)) = (\<Sum>a\<leftarrow>as. unat (ab_balance a)) + (\<Sum>d\<leftarrow>ds. unat (vd_amount d))"
    and "account_balance as' i = account_balance as i + (\<Sum>d\<leftarrow>ds. if i = vd_account_id d then unat (vd_amount d) else 0)"
    by blast+
qed

lemma sum_list_sort_key: "(\<Sum>x\<leftarrow>sort_key k xs. f x) = (\<Sum>x\<leftarrow>xs. f x :: nat)"
  by (metis mset_map mset_sort sum_mset_sum_list)

lemma planned_sums:
  "(\<Sum>d\<leftarrow>planned_deltas trust p c f. unat (vd_amount d)) = unat p + unat c + unat f"
  "(\<Sum>d\<leftarrow>planned_deltas trust p c f. if i = vd_account_id d then unat (vd_amount d) else 0) =
     (if i = tb_provider_account_id trust then unat p else 0) + (if i = tb_consumer_account_id trust then unat c else 0) +
     (if i = tb_protocol_account_id trust then unat f else 0)"
  unfolding planned_deltas_def sum_list_sort_key by (auto simp: word_gt_0)

section \<open>One settlement\<close>

lemma settleD:
  assumes "settle cr trust s h operation = Ok (s', i)"
  obtains rollup p c f where "ks_settlement s = None" "\<not> eb_closed (ks_escrow s)" "ks_rollup s = Some rollup"
    "check_operation cr trust s rollup h operation = Ok ()"
    "settlement_amounts trust (eb_balance (ks_escrow s)) (ro_total_charge (cl_body (ru_rollup rollup))) = Ok (p, c, f)"
    "unat p + unat c + unat f = unat (eb_balance (ks_escrow s))"
    "\<exists>ps. try_fold (apply_delta cr) (ks_accounts s, []) (planned_deltas trust p c f) = Ok (ks_accounts s', ps)"
    "eb_balance (ks_escrow s') = 0" "eb_closed (ks_escrow s')" "ks_receipts s' = ks_receipts s"
    "\<exists>v. ks_rollup s' = Some (rollup\<lparr>ru_version := v, ru_status := 1, ru_consumed_by_settlement_id := Some i\<rparr>)"
    "\<exists>m. ks_settlement s' = Some m \<and> sm_settlement_id m = i \<and> sm_applied_height m = h"
  using assms
  by (auto simp: settle_def Let_def result_simps try_fold_checked_sum planned_sums intro!: that)


section \<open>The chain of receipts\<close>

text \<open>The value of a list of usages at the price table of the trust bundle.\<close>

definition price_of :: "TrustBundle \<Rightarrow> Usage \<Rightarrow> nat" where
  "price_of trust u = (case find (\<lambda>p. cp_resource_class p = us_resource_class u \<and> cp_resource_id p = us_resource_id u \<and>
       cp_meter_id p = us_meter_id u \<and> cp_meter_version p = us_meter_version u \<and> cp_unit p = us_unit u) (tb_prices trust) of
     None \<Rightarrow> 0 | Some p \<Rightarrow> unat (cp_unit_price p))"

definition usage_value :: "TrustBundle \<Rightarrow> Usage list \<Rightarrow> nat" where
  "usage_value trust usage = (\<Sum>u\<leftarrow>usage. unat (us_amount u) * price_of trust u)"

lemma price_usage_value: "price_usage trust usage = Ok c \<Longrightarrow> unat c = usage_value trust usage"
proof -
  have charge: "usage_charge trust u = Ok x \<Longrightarrow> unat x = unat (us_amount u) * price_of trust u" for u x
    by (auto simp: usage_charge_def price_of_def result_simps checked_simps)
  have "try_fold (\<lambda>total u. tryR (usage_charge trust u) (\<lambda>charge. ok_or (checked_add total charge) ArithmeticOverflow)) acc usage = Ok c \<Longrightarrow>
      unat c = unat acc + usage_value trust usage" for acc
    by (induction usage arbitrary: acc) (auto simp: usage_value_def result_simps checked_simps dest: charge)
  then show "price_usage trust usage = Ok c \<Longrightarrow> unat c = usage_value trust usage"
    by (fastforce simp: price_usage_def)
qed

type_synonym Link = "hash32 \<times> ConsumptionReceipt"

abbreviation links :: "KernelState \<Rightarrow> Link list" where
  "links s \<equiv> map (\<lambda>r. (rs_receipt_id r, rs_receipt r)) (ks_receipts s)"

definition signed_by_both :: "crypto \<Rightarrow> TrustBundle \<Rightarrow> hash32 \<Rightarrow> u64 \<Rightarrow> string \<Rightarrow> string \<Rightarrow> SignatureEntry \<Rightarrow> SignatureEntry \<Rightarrow> bool" where
  "signed_by_both cr trust body_id height provider_domain consumer_domain p c \<longleftrightarrow>
     verify_signature_entry cr (tb_provider trust) p body_id height provider_domain = Ok () \<and>
     verify_signature_entry cr (tb_consumer trust) c body_id height consumer_domain = Ok ()"

text \<open>What the receipt at position k owes to the receipts before it.\<close>

definition link_ok :: "crypto \<Rightarrow> TrustBundle \<Rightarrow> Link list \<Rightarrow> nat \<Rightarrow> bool" where
  "link_ok cr trust ls k \<longleftrightarrow> (case ls ! k of (i, r) \<Rightarrow>
     consumption_receipt_id cr (cn_body r) = Ok i \<and>
     signed_by_both cr trust i (rb_period_end_height (cn_body r))
       ''trnm.portable.v2.consumption-receipt-provider-signature.v1''
       ''trnm.portable.v2.consumption-receipt-consumer-signature.v1'' (cn_provider_signature r) (cn_consumer_signature r) \<and>
     unat (rb_sequence (cn_body r)) = Suc k \<and>
     rb_prior_receipt_id (cn_body r) = (if k = 0 then None else Some (fst (ls ! (k - 1)))) \<and>
     (0 < k \<longrightarrow> unat (rb_period_start_height (cn_body r)) = Suc (unat (rb_period_end_height (cn_body (snd (ls ! (k - 1))))))) \<and>
     rb_period_start_height (cn_body r) \<le> rb_period_end_height (cn_body r) \<and>
     unat (rb_cumulative_charge (cn_body r)) = (\<Sum>l\<leftarrow>take (Suc k) ls. usage_value trust (rb_usage (cn_body (snd l)))) \<and>
     rb_cumulative_charge (cn_body r) \<le> tb_escrow_funding trust)"

definition chain_ok :: "crypto \<Rightarrow> TrustBundle \<Rightarrow> Link list \<Rightarrow> bool" where
  "chain_ok cr trust ls \<longleftrightarrow> (\<forall>k < length ls. link_ok cr trust ls k)"

lemma link_ok_append: "k < length ls \<Longrightarrow> link_ok cr trust (ls @ ms) k = link_ok cr trust ls k"
proof -
  assume "k < length ls"
  moreover from this have "k - Suc 0 < length ls" by simp
  ultimately show ?thesis by (simp add: link_ok_def nth_append)
qed

lemma chain_ok_snoc: "chain_ok cr trust (ls @ [l]) \<longleftrightarrow> chain_ok cr trust ls \<and> link_ok cr trust (ls @ [l]) (length ls)"
  by (auto simp: chain_ok_def less_Suc_eq link_ok_append)

lemma verify_bilateral_Ok:
  "verify_bilateral_signatures cr trust i h pd cd p c = Ok () \<longleftrightarrow> signed_by_both cr trust i h pd cd p c"
  by (auto simp: verify_bilateral_signatures_def signed_by_both_def result_simps)

lemma admit_receiptD:
  assumes "admit_receipt cr trust s h r = Ok s'"
  obtains i where "ks_rollup s = None" "ks_settlement s = None"
    "s' = s\<lparr>ks_receipts := ks_receipts s @ [\<lparr>rs_receipt = r, rs_receipt_id = i, rs_version = 0, rs_status = 0,
       rs_assigned_rollup_id = None, rs_accepted_height = h\<rparr>]\<rparr>"
    "rb_period_start_height (cn_body r) \<le> rb_period_end_height (cn_body r)"
    "consumption_receipt_id cr (cn_body r) = Ok i"
    "signed_by_both cr trust i (rb_period_end_height (cn_body r))
       ''trnm.portable.v2.consumption-receipt-provider-signature.v1''
       ''trnm.portable.v2.consumption-receipt-consumer-signature.v1'' (cn_provider_signature r) (cn_consumer_signature r)"
    "unat (rb_sequence (cn_body r)) = Suc (length (ks_receipts s))"
    "check_prior (last_opt (ks_receipts s)) (cn_body r) = Ok ()"
    "unat (rb_cumulative_charge (cn_body r)) = (case last_opt (ks_receipts s) of None \<Rightarrow> 0
       | Some p \<Rightarrow> unat (rb_cumulative_charge (cn_body (rs_receipt p)))) + usage_value trust (rb_usage (cn_body r))"
    "rb_cumulative_charge (cn_body r) \<le> tb_escrow_funding trust"
proof -
  from assms obtain i n q c x u v where facts: "ks_rollup s = None" "ks_settlement s = None"
    "s\<lparr>ks_receipts := ks_receipts s @ [\<lparr>rs_receipt = r, rs_receipt_id = i, rs_version = 0, rs_status = 0,
       rs_assigned_rollup_id = None, rs_accepted_height = h\<rparr>]\<rparr> = s'"
    "rb_period_start_height (cn_body r) \<le> rb_period_end_height (cn_body r)"
    "consumption_receipt_id cr (cn_body r) = Ok i"
    "verify_bilateral_signatures cr trust i (rb_period_end_height (cn_body r))
       ''trnm.portable.v2.consumption-receipt-provider-signature.v1''
       ''trnm.portable.v2.consumption-receipt-consumer-signature.v1'' (cn_provider_signature r) (cn_consumer_signature r) = Ok u"
    "check_prior (last_opt (ks_receipts s)) (cn_body r) = Ok v"
    and seq: "len_u64 (length (ks_receipts s)) = Ok n" "checked_add n 1 = Some q" "rb_sequence (cn_body r) = q"
    and charge: "price_usage trust (rb_usage (cn_body r)) = Ok c"
    "checked_add (case last_opt (ks_receipts s) of None \<Rightarrow> 0
       | Some p \<Rightarrow> rb_cumulative_charge (cn_body (rs_receipt p))) c = Some x"
    "rb_cumulative_charge (cn_body r) = x" "x \<le> tb_escrow_funding trust"
    unfolding admit_receipt_def Let_def result_simps not_less de_Morgan_disj not_not
    by (elim conjE exE, unfold result.inject not_less) (rule that, assumption+)
  from seq have "unat (rb_sequence (cn_body r)) = Suc (length (ks_receipts s))"
    by (auto simp: len_u64_def result_simps checked_simps unsigned_of_nat take_bit_nat_eq_self)
  moreover from charge have "unat (rb_cumulative_charge (cn_body r)) = (case last_opt (ks_receipts s) of None \<Rightarrow> 0
       | Some p \<Rightarrow> unat (rb_cumulative_charge (cn_body (rs_receipt p)))) + usage_value trust (rb_usage (cn_body r))"
    by (auto simp: checked_simps price_usage_value split: option.split)
  ultimately show thesis
    using facts charge(3,4) by (intro that [of i]) (simp_all add: verify_bilateral_Ok [symmetric])
qed


lemma admit_receipt_chain:
  assumes "admit_receipt cr trust s h r = Ok s'" "chain_ok cr trust (links s)"
  shows "chain_ok cr trust (links s')"
proof -
  obtain i where f: "s' = s\<lparr>ks_receipts := ks_receipts s @ [\<lparr>rs_receipt = r, rs_receipt_id = i, rs_version = 0, rs_status = 0,
       rs_assigned_rollup_id = None, rs_accepted_height = h\<rparr>]\<rparr>"
    "rb_period_start_height (cn_body r) \<le> rb_period_end_height (cn_body r)"
    "consumption_receipt_id cr (cn_body r) = Ok i"
    "signed_by_both cr trust i (rb_period_end_height (cn_body r))
       ''trnm.portable.v2.consumption-receipt-provider-signature.v1''
       ''trnm.portable.v2.consumption-receipt-consumer-signature.v1'' (cn_provider_signature r) (cn_consumer_signature r)"
    "unat (rb_sequence (cn_body r)) = Suc (length (ks_receipts s))"
    "check_prior (last_opt (ks_receipts s)) (cn_body r) = Ok ()"
    "unat (rb_cumulative_charge (cn_body r)) = (case last_opt (ks_receipts s) of None \<Rightarrow> 0
       | Some p \<Rightarrow> unat (rb_cumulative_charge (cn_body (rs_receipt p)))) + usage_value trust (rb_usage (cn_body r))"
    "rb_cumulative_charge (cn_body r) \<le> tb_escrow_funding trust"
    by (rule admit_receiptD [OF assms(1)])
  have "link_ok cr trust (links s @ [(i, r)]) (length (ks_receipts s))"
  proof (cases "ks_receipts s" rule: rev_cases)
    case Nil
    with f show ?thesis by (simp add: link_ok_def last_opt_def check_prior_def result_simps)
  next
    case (snoc rs p)
    with assms(2) have "link_ok cr trust (links s) (length rs)" by (simp add: chain_ok_def)
    with snoc f(2-) show ?thesis
      by (simp add: link_ok_def last_opt_def check_prior_def result_simps checked_simps nth_append)
  qed
  with assms(2) show ?thesis by (simp add: f(1) chain_ok_snoc)
qed

section \<open>The rollup\<close>

text \<open>What the kernel knows about an admitted rollup, until and after it is settled.\<close>

definition rollup_ok :: "crypto \<Rightarrow> TrustBundle \<Rightarrow> Link list \<Rightarrow> RollupState \<Rightarrow> bool" where
  "rollup_ok cr trust ls ru \<longleftrightarrow> ls \<noteq> [] \<and>
     ro_receipt_ids (cl_body (ru_rollup ru)) = map fst ls \<and>
     ro_total_charge (cl_body (ru_rollup ru)) = rb_cumulative_charge (cn_body (snd (last ls))) \<and>
     consumption_rollup_id cr (cl_body (ru_rollup ru)) = Ok (ru_rollup_id ru) \<and>
     signed_by_both cr trust (ru_rollup_id ru) (ru_accepted_height ru)
       ''trnm.portable.v2.consumption-rollup-provider-signature.v1''
       ''trnm.portable.v2.consumption-rollup-consumer-signature.v1''
       (cl_provider_signature (ru_rollup ru)) (cl_consumer_signature (ru_rollup ru)) \<and>
     unat (ru_challenge_close_height ru) =
       unat (ru_accepted_height ru) + unat (sp_minimum_rollup_challenge_blocks (tb_settlement_policy trust))"

lemma assign_receipts_links:
  "collect (assign_receipt i) rs = Ok rs' \<Longrightarrow>
    map (\<lambda>r. (rs_receipt_id r, rs_receipt r)) rs' = map (\<lambda>r. (rs_receipt_id r, rs_receipt r)) rs"
  by (induction rs arbitrary: rs') (auto simp: assign_receipt_def result_simps)

lemma admit_rollupD:
  assumes "admit_rollup cr trust s h rollup rs = Ok s'"
  obtains ru where "ks_rollup s = None" "ks_settlement s = None" "ks_rollup s' = Some ru"
    "ks_settlement s' = None" "links s' = links s" "ks_escrow s' = ks_escrow s" "ks_result s' = ks_result s" "ks_accounts s' = ks_accounts s"
    "ru_status ru = 0" "ru_version ru = 0" "ru_consumed_by_settlement_id ru = None" "rollup_ok cr trust (links s) ru"
proof -
  from assms obtain i c l u rs' where facts: "ks_rollup s = None" "ks_settlement s = None" "ks_receipts s \<noteq> []"
    "last_opt (ks_receipts s) = Some l" "ro_receipt_ids (cl_body rollup) = map rs_receipt_id (ks_receipts s)"
    "ro_total_charge (cl_body rollup) = rb_cumulative_charge (cn_body (rs_receipt l))"
    "consumption_rollup_id cr (cl_body rollup) = Ok i"
    "verify_bilateral_signatures cr trust i h ''trnm.portable.v2.consumption-rollup-provider-signature.v1''
       ''trnm.portable.v2.consumption-rollup-consumer-signature.v1''
       (cl_provider_signature rollup) (cl_consumer_signature rollup) = Ok u"
    "checked_add h (sp_minimum_rollup_challenge_blocks (tb_settlement_policy trust)) = Some c"
    "collect (assign_receipt i) (ks_receipts s) = Ok rs'"
    "s\<lparr>ks_receipts := rs', ks_rollup := Some \<lparr>ru_rollup = rollup, ru_rollup_id = i, ru_version = 0,
       ru_accepted_height = h, ru_challenge_close_height = c, ru_status = 0, ru_consumed_by_settlement_id = None\<rparr>\<rparr> = s'"
    unfolding admit_rollup_def Let_def result_simps not_less de_Morgan_disj not_not
    by (elim conjE exE, unfold result.inject not_less) (rule that, assumption+)
  let ?ru = "\<lparr>ru_rollup = rollup, ru_rollup_id = i, ru_version = 0,
       ru_accepted_height = h, ru_challenge_close_height = c, ru_status = 0, ru_consumed_by_settlement_id = None\<rparr>"
  show thesis
  proof (rule that [of ?ru])
    show "rollup_ok cr trust (links s) ?ru"
      using facts(3-9) by (auto simp: rollup_ok_def verify_bilateral_Ok checked_simps last_opt_def last_map)
  qed (use facts assign_receipts_links in auto)
qed


section \<open>The invariant of the kernel\<close>

text \<open>What account i receives when a charge is settled against the escrow.\<close>

definition protocol_share :: "TrustBundle \<Rightarrow> nat \<Rightarrow> nat" where
  "protocol_share trust charge = charge * unat (sp_protocol_fee_numerator (tb_settlement_policy trust)) div
     unat (sp_protocol_fee_denominator (tb_settlement_policy trust))"

definition payout :: "TrustBundle \<Rightarrow> nat \<Rightarrow> hash32 \<Rightarrow> nat" where
  "payout trust charge i =
     (if i = tb_provider_account_id trust then charge - protocol_share trust charge else 0) +
     (if i = tb_consumer_account_id trust then unat (tb_escrow_funding trust) - charge else 0) +
     (if i = tb_protocol_account_id trust then protocol_share trust charge else 0)"

definition pending_ok :: "TrustBundle \<Rightarrow> KernelState \<Rightarrow> bool" where
  "pending_ok trust s \<longleftrightarrow> ks_escrow s = ks_escrow (initial_state trust) \<and> ks_result s = ks_result (initial_state trust) \<and>
     ks_accounts s = ks_accounts (initial_state trust) \<and>
     (case ks_rollup s of None \<Rightarrow> True
      | Some ru \<Rightarrow> ru_status ru = 0 \<and> ru_version ru = 0 \<and> ru_consumed_by_settlement_id ru = None)"

definition settled_ok :: "TrustBundle \<Rightarrow> KernelState \<Rightarrow> SettlementState \<Rightarrow> bool" where
  "settled_ok trust s m \<longleftrightarrow> eb_balance (ks_escrow s) = 0 \<and> eb_closed (ks_escrow s) \<and>
     (case ks_rollup s of None \<Rightarrow> False
      | Some ru \<Rightarrow> ru_challenge_close_height ru < sm_applied_height m \<and>
          ru_consumed_by_settlement_id ru = Some (sm_settlement_id m) \<and>
          (\<forall>i. account_balance (ks_accounts s) i = account_balance (ks_accounts (initial_state trust)) i +
             payout trust (unat (ro_total_charge (cl_body (ru_rollup ru)))) i))"

definition kernel_inv :: "crypto \<Rightarrow> TrustBundle \<Rightarrow> KernelState \<Rightarrow> bool" where
  "kernel_inv cr trust s \<longleftrightarrow> chain_ok cr trust (links s) \<and>
     (case ks_rollup s of None \<Rightarrow> True | Some ru \<Rightarrow> rollup_ok cr trust (links s) ru) \<and>
     (case ks_settlement s of None \<Rightarrow> pending_ok trust s | Some m \<Rightarrow> settled_ok trust s m)"

lemma initial_kernel_inv: "kernel_inv cr trust (initial_state trust)"
  by (simp add: kernel_inv_def initial_state_def chain_ok_def pending_ok_def)

lemma settlement_amountsD:
  assumes "settlement_amounts trust b t = Ok (p, c, f)"
  shows "unat f = protocol_share trust (unat t)" "unat t = unat f + unat p" "unat b = unat t + unat c"
  using assms by (auto simp: settlement_amounts_def Let_def protocol_share_def result_simps checked_simps unat_div)

lemma settle_keeps_inv:
  assumes "settle cr trust s h operation = Ok (s', i)" "kernel_inv cr trust s"
  shows "kernel_inv cr trust s'"
proof (rule settleD [OF assms(1)])
  fix rollup p c f
  assume none: "ks_settlement s = None" and ru: "ks_rollup s = Some rollup"
    and check: "check_operation cr trust s rollup h operation = Ok ()"
    and amounts: "settlement_amounts trust (eb_balance (ks_escrow s)) (ro_total_charge (cl_body (ru_rollup rollup))) = Ok (p, c, f)"
    and deltas: "\<exists>ps. try_fold (apply_delta cr) (ks_accounts s, []) (planned_deltas trust p c f) = Ok (ks_accounts s', ps)"
    and escrow: "eb_balance (ks_escrow s') = 0" "eb_closed (ks_escrow s')" "ks_receipts s' = ks_receipts s"
    and ru': "\<exists>v. ks_rollup s' = Some (rollup\<lparr>ru_version := v, ru_status := 1, ru_consumed_by_settlement_id := Some i\<rparr>)"
    and m: "\<exists>m. ks_settlement s' = Some m \<and> sm_settlement_id m = i \<and> sm_applied_height m = h"
  let ?charge = "unat (ro_total_charge (cl_body (ru_rollup rollup)))"
  from assms(2) none ru have "pending_ok trust s" "chain_ok cr trust (links s)" "rollup_ok cr trust (links s) rollup"
    by (simp_all add: kernel_inv_def)
  moreover from this have "account_balance (ks_accounts s') j = account_balance (ks_accounts (initial_state trust)) j + payout trust ?charge j" for j
    using deltas settlement_amountsD [OF amounts]
    by (auto simp: pending_ok_def payout_def planned_sums initial_state_def dest!: apply_deltas_facts(2) [of _ _ _ _ _ _ j])
  moreover from check have "ru_challenge_close_height rollup < h"
    by (auto simp: check_operation_def result_simps)
  ultimately show ?thesis
    using escrow ru' m by (auto simp: kernel_inv_def settled_ok_def rollup_ok_def)
qed

lemma transition_keeps_inv:
  assumes "apply_transition cr trust s h c = Ok (s', r)" "kernel_inv cr trust s"
  shows "kernel_inv cr trust s'"
  using assms(1)
proof (cases rule: kernel_cases)
  case (receipt r)
  from receipt(2) assms(2) have "chain_ok cr trust (links s')"
    by (auto simp: kernel_inv_def intro: admit_receipt_chain)
  with assms(2) show ?thesis
    by (auto intro: admit_receiptD [OF receipt(2)] simp: kernel_inv_def pending_ok_def)
next
  case (rollup ro rs)
  show ?thesis
    by (rule admit_rollupD [OF rollup(2)]) (use assms(2) in \<open>simp add: kernel_inv_def pending_ok_def\<close>)
next
  case (settle operation i)
  then show ?thesis using assms(2) by (blast intro: settle_keeps_inv)
qed

lemma transition_keeps_funds:
  assumes "apply_transition cr trust s h c = Ok (s', r)"
  shows "funds s' = funds s"
  using assms
proof (cases rule: kernel_cases)
  case (receipt r)
  show ?thesis by (rule admit_receiptD [OF receipt(2)]) (simp add: funds_def)
next
  case (rollup ro rs)
  show ?thesis by (rule admit_rollupD [OF rollup(2)]) (simp add: funds_def)
next
  case (settle operation i)
  show ?thesis
    by (rule settleD [OF settle(2)]) (auto simp: funds_def planned_sums dest!: apply_deltas_facts(1))
qed

interpretation kernel: invariant_machine "kernel_exec cr trust" "kernel_inv cr trust" for cr trust
proof
  show "kernel_exec cr trust s c = (s', Err e) \<Longrightarrow> s' = s" for s c s' e
    by (auto simp: kernel_exec_def split: result.splits)
  show "kernel_inv cr trust s \<Longrightarrow> kernel_exec cr trust s c = (s', Ok r) \<Longrightarrow> kernel_inv cr trust s'" for s c s' r
    by (cases c) (auto simp: kernel_exec_Ok intro: transition_keeps_inv)
qed

lemma run_kernel_inv: "kernel_inv cr trust (run (kernel_exec cr trust) (initial_state trust) cs)"
  by (rule kernel.run_keeps_inv) (rule initial_kernel_inv)

lemma settled_rejects: "ks_settlement s \<noteq> None \<Longrightarrow> \<exists>e. kernel_exec cr trust s c = (s, Err e)"
  by (cases "snd c") (auto simp: kernel_exec_def apply_transition_def admit_receipt_def admit_rollup_def settle_def)


section \<open>A matured rollup can be settled\<close>

definition digest_of :: "crypto \<Rightarrow> string \<Rightarrow> bval \<Rightarrow> hash32" where
  "digest_of cr domain v = sha256 cr (digest_preimage domain (the (borsh_to_vec cr v)))"

lemma digest_total:
  assumes "\<forall>v. borsh_to_vec cr v \<noteq> None" "domain \<noteq> []" "is_ascii domain" "length domain < 2 ^ 32"
  shows "digest_value cr domain v = Ok (digest_of cr domain v)"
proof -
  from assms(1) obtain bs where "borsh_to_vec cr v = Some bs" by blast
  with assms(2-) show ?thesis
    by (simp add: digest_value_def canonical_bytes_def digest_encoded_def digest_of_def)
qed

lemma credit_account_total:
  assumes "\<forall>v. borsh_to_vec cr v \<noteq> None" "vd_account_id d \<in> ab_account_id ` set as"
    and "\<forall>a \<in> set as. unat (ab_version a) + 1 < 2 ^ 64 \<and> unat (ab_balance a) + unat (vd_amount d) < 2 ^ 128"
  obtains as' e where "credit_account cr d as = Ok (as', e)" "map ab_account_id as' = map ab_account_id as"
    "\<forall>a' \<in> set as'. \<exists>a \<in> set as. unat (ab_version a') \<le> unat (ab_version a) + 1 \<and>
       unat (ab_balance a') \<le> unat (ab_balance a) + unat (vd_amount d)"
proof -
  have "\<exists>as' e. credit_account cr d as = Ok (as', e) \<and> map ab_account_id as' = map ab_account_id as \<and>
    (\<forall>a' \<in> set as'. \<exists>a \<in> set as. unat (ab_version a') \<le> unat (ab_version a) + 1 \<and>
       unat (ab_balance a') \<le> unat (ab_balance a) + unat (vd_amount d))"
    using assms(2,3)
  proof (induction as)
    case (Cons a as)
    show ?case
    proof (cases "ab_account_id a = vd_account_id d")
      case True
      from Cons.prems obtain b v where bv: "checked_add (ab_balance a) (vd_amount d) = Some b" "checked_add (ab_version a) 1 = Some v"
        by (auto simp: checked_add_def)
      then have "unat b = unat (ab_balance a) + unat (vd_amount d)" "unat v = unat (ab_version a) + 1"
        by (simp_all add: checked_simps)
      then show ?thesis
        using True bv digest_total [OF assms(1)]
        by (force simp: is_ascii_def ascii_def Let_def)
    next
      case False
      with Cons show ?thesis by fastforce
    qed
  qed simp
  with that show thesis by blast
qed

lemma apply_deltas_total:
  assumes "\<forall>v. borsh_to_vec cr v \<noteq> None" "\<forall>d \<in> set ds. vd_account_id d \<in> ab_account_id ` set as"
    and "\<forall>a \<in> set as. unat (ab_version a) + length ds < 2 ^ 64 \<and> unat (ab_balance a) + (\<Sum>d\<leftarrow>ds. unat (vd_amount d)) < 2 ^ 128"
  shows "\<exists>r. try_fold (apply_delta cr) (as, ps) ds = Ok r"
  using assms(2,3)
proof (induction ds arbitrary: as ps)
  case (Cons d ds)
  have room: "\<forall>a \<in> set as. unat (ab_version a) + 1 < 2 ^ 64 \<and> unat (ab_balance a) + unat (vd_amount d) < 2 ^ 128"
    using Cons.prems(2) by fastforce
  have known: "vd_account_id d \<in> ab_account_id ` set as" using Cons.prems(1) by simp
  obtain as' e where c: "credit_account cr d as = Ok (as', e)"
    and ids: "map ab_account_id as' = map ab_account_id as"
    and le: "\<forall>a' \<in> set as'. \<exists>a \<in> set as. unat (ab_version a') \<le> unat (ab_version a) + 1 \<and>
       unat (ab_balance a') \<le> unat (ab_balance a) + unat (vd_amount d)"
    by (rule credit_account_total [OF assms(1) known room])
  from ids have "ab_account_id ` set as' = ab_account_id ` set as" by (metis list.set_map)
  with Cons.prems(1) have "\<forall>d \<in> set ds. vd_account_id d \<in> ab_account_id ` set as'" by simp
  moreover have "\<forall>a \<in> set as'. unat (ab_version a) + length ds < 2 ^ 64 \<and> unat (ab_balance a) + (\<Sum>d\<leftarrow>ds. unat (vd_amount d)) < 2 ^ 128"
    using le Cons.prems(2) by fastforce
  ultimately have "\<exists>r. try_fold (apply_delta cr) (as', ps @ [e]) ds = Ok r" by (rule Cons.IH)
  with c show ?case by (simp add: apply_delta_def [of cr "(as, ps)"])
qed simp

lemma settlement_amounts_total:
  assumes "t \<le> b" "unat t * unat (sp_protocol_fee_numerator (tb_settlement_policy trust)) < 2 ^ 128"
    and "sp_protocol_fee_denominator (tb_settlement_policy trust) \<noteq> 0"
    and "sp_protocol_fee_numerator (tb_settlement_policy trust) \<le> sp_protocol_fee_denominator (tb_settlement_policy trust)"
  shows "\<exists>p c f. settlement_amounts trust b t = Ok (p, c, f)"
proof -
  let ?num = "sp_protocol_fee_numerator (tb_settlement_policy trust)" and ?den = "sp_protocol_fee_denominator (tb_settlement_policy trust)"
  have "unat (t * ?num) = unat t * unat ?num" using assms(2) by (simp add: unat_word_ariths)
  moreover have "unat t * unat ?num div unat ?den \<le> unat t"
  proof -
    have "unat t * unat ?num div unat ?den \<le> unat t * unat ?den div unat ?den"
      using assms(4) by (intro div_le_mono mult_le_mono2) (simp add: word_le_nat_alt)
    also have "\<dots> = unat t" using assms(3) by (simp add: unat_eq_0)
    finally show ?thesis .
  qed
  ultimately have "t * ?num div ?den \<le> t" by (simp add: word_le_nat_alt unat_div)
  with assms show ?thesis by (simp add: settlement_amounts_def checked_mul_def checked_sub_def Let_def not_less)
qed


text \<open>The operation that asks for the settlement of a state, and the room its arithmetic needs.\<close>

definition settle_operation :: "crypto \<Rightarrow> TrustBundle \<Rightarrow> KernelState \<Rightarrow> RollupState \<Rightarrow> SettlementOperation" where
  "settle_operation cr trust s ru =
     \<lparr>so_schema_version = SCHEMA_VERSION, so_context = tb_context trust, so_task_id = tb_task_id trust,
      so_lease_id = tb_lease_id trust, so_attempt = tb_attempt trust, so_result_id = tb_result_id trust,
      so_expected_result_revision = rr_revision (ks_result s), so_expected_escrow_version = eb_version (ks_escrow s),
      so_expected_rollup_version = ru_version ru,
      so_settlement_policy_hash = digest_of cr ''trnm.portable.v2.settlement-policy.v1''
        (enc_SettlementPolicy (tb_settlement_policy trust))\<rparr>"

definition settlement_room :: "TrustBundle \<Rightarrow> bool" where
  "settlement_room trust \<longleftrightarrow>
     unat (tb_escrow_funding trust) * unat (sp_protocol_fee_numerator (tb_settlement_policy trust)) < 2 ^ 128 \<and>
     unat (tb_provider_opening_balance trust) + unat (tb_escrow_funding trust) < 2 ^ 128 \<and>
     unat (tb_consumer_opening_balance trust) + unat (tb_escrow_funding trust) < 2 ^ 128 \<and>
     unat (tb_protocol_opening_balance trust) + unat (tb_escrow_funding trust) < 2 ^ 128 \<and>
     unat (tb_escrow_version trust) + 1 < 2 ^ 64 \<and> unat (tb_result_revision trust) + 1 < 2 ^ 64"

lemma chain_charge_funded: "chain_ok cr trust ls \<Longrightarrow> rollup_ok cr trust ls ru \<Longrightarrow>
    ro_total_charge (cl_body (ru_rollup ru)) \<le> tb_escrow_funding trust"
proof -
  assume chain: "chain_ok cr trust ls" and ru: "rollup_ok cr trust ls ru"
  then have "link_ok cr trust ls (length ls - 1)" by (simp add: chain_ok_def rollup_ok_def)
  with ru show ?thesis by (auto simp: rollup_ok_def link_ok_def last_conv_nth split: prod.splits)
qed

lemma planned_accounts: "d \<in> set (planned_deltas trust p c f) \<Longrightarrow>
    vd_account_id d \<in> {tb_provider_account_id trust, tb_consumer_account_id trust, tb_protocol_account_id trust}"
  "length (planned_deltas trust p c f) \<le> 3"
  by (auto simp: planned_deltas_def split: if_splits)

lemma valid_accounts_distinct:
  assumes "validate_trust_bundle cr trust = Ok ()"
  shows "distinct [tb_provider_account_id trust, tb_consumer_account_id trust, tb_protocol_account_id trust]"
proof -
  from assms have "card {tb_provider_account_id trust, tb_consumer_account_id trust, tb_protocol_account_id trust} = 3"
    unfolding validate_trust_bundle_def Let_def result_simps by blast
  then show ?thesis by (auto simp: card_insert_if split: if_splits)
qed

lemma account_balance_member:
  "distinct (map ab_account_id as) \<Longrightarrow> a \<in> set as \<Longrightarrow> account_balance as (ab_account_id a) = unat (ab_balance a)"
  by (induction as) (auto simp: image_iff)

lemma initial_balances:
  assumes "distinct [tb_provider_account_id trust, tb_consumer_account_id trust, tb_protocol_account_id trust]"
  shows "account_balance (ks_accounts (initial_state trust)) (tb_provider_account_id trust) = unat (tb_provider_opening_balance trust)"
    and "account_balance (ks_accounts (initial_state trust)) (tb_consumer_account_id trust) = unat (tb_consumer_opening_balance trust)"
    and "account_balance (ks_accounts (initial_state trust)) (tb_protocol_account_id trust) = unat (tb_protocol_opening_balance trust)"
proof -
  have "distinct (map ab_account_id (sort_key ab_account_id as)) = distinct (map ab_account_id as)" for as :: "AccountBalance list"
    by (rule mset_eq_imp_distinct_iff) simp
  with assms have "distinct (map ab_account_id (ks_accounts (initial_state trust)))"
    unfolding initial_state_def by (simp del: sort_key_simps)
  note member = account_balance_member [OF this]
  show "account_balance (ks_accounts (initial_state trust)) (tb_provider_account_id trust) = unat (tb_provider_opening_balance trust)"
    "account_balance (ks_accounts (initial_state trust)) (tb_consumer_account_id trust) = unat (tb_consumer_opening_balance trust)"
    "account_balance (ks_accounts (initial_state trust)) (tb_protocol_account_id trust) = unat (tb_protocol_opening_balance trust)"
    using member [of "\<lparr>ab_account_id = tb_provider_account_id trust, ab_version = 0, ab_balance = tb_provider_opening_balance trust\<rparr>"]
      member [of "\<lparr>ab_account_id = tb_consumer_account_id trust, ab_version = 0, ab_balance = tb_consumer_opening_balance trust\<rparr>"]
      member [of "\<lparr>ab_account_id = tb_protocol_account_id trust, ab_version = 0, ab_balance = tb_protocol_opening_balance trust\<rparr>"]
    by (simp_all add: initial_state_def del: sort_key_simps)
qed

lemma settle_total:
  assumes borsh: "\<forall>v. borsh_to_vec cr v \<noteq> None" and valid: "validate_trust_bundle cr trust = Ok ()"
    and room: "settlement_room trust" and inv: "kernel_inv cr trust s"
    and open_rollup: "ks_rollup s = Some ru" "ks_settlement s = None" and mature: "ru_challenge_close_height ru < h"
  shows "\<exists>r. settle cr trust s h (settle_operation cr trust s ru) = Ok r"
proof -
  note digest = digest_total [OF borsh]
  let ?charge = "ro_total_charge (cl_body (ru_rollup ru))"
  from inv open_rollup have pending: "pending_ok trust s" and charge: "?charge \<le> tb_escrow_funding trust"
    by (auto simp: kernel_inv_def intro: chain_charge_funded)
  from pending have state: "eb_balance (ks_escrow s) = tb_escrow_funding trust" "\<not> eb_closed (ks_escrow s)"
      "eb_version (ks_escrow s) = tb_escrow_version trust" "rr_revision (ks_result s) = tb_result_revision trust"
      "rr_result_status (ks_result s) = tb_result_status trust" "rr_settlement_maturity (ks_result s) = SETTLEMENT_MATURITY_NOT_STARTED"
      "ru_status ru = 0" "ru_version ru = 0" "ru_consumed_by_settlement_id ru = None"
      "ks_accounts s = ks_accounts (initial_state trust)"
    using open_rollup by (simp_all add: pending_ok_def initial_state_def)
  from valid have policy: "tb_result_status trust = RESULT_STATUS_FINAL_VALID"
      "sp_protocol_fee_denominator (tb_settlement_policy trust) \<noteq> 0"
      "sp_protocol_fee_numerator (tb_settlement_policy trust) \<le> sp_protocol_fee_denominator (tb_settlement_policy trust)"
    by (auto simp: validate_trust_bundle_def Let_def result_simps not_less)
  have "unat ?charge * unat (sp_protocol_fee_numerator (tb_settlement_policy trust)) < 2 ^ 128"
    using room charge by (auto simp: settlement_room_def word_le_nat_alt intro: le_less_trans [OF mult_le_mono1])
  then obtain p c f where amounts: "settlement_amounts trust (tb_escrow_funding trust) ?charge = Ok (p, c, f)"
    using settlement_amounts_total [OF charge _ policy(2,3)] by blast
  from settlement_amountsD [OF amounts] have total: "unat p + unat c + unat f = unat (tb_escrow_funding trust)" by simp
  then have sum: "try_fold (\<lambda>total d. ok_or (checked_add total (vd_amount d)) ArithmeticOverflow) 0 (planned_deltas trust p c f) =
      Ok (tb_escrow_funding trust)"
    by (simp add: try_fold_checked_sum planned_sums)
  have "check_operation cr trust s ru h (settle_operation cr trust s ru) = Ok ()"
    using state policy mature
    by (simp add: check_operation_def settle_operation_def settlement_policy_hash_def digest is_ascii_def ascii_def)
  moreover have "\<exists>r. try_fold (apply_delta cr) (ks_accounts s, []) (planned_deltas trust p c f) = Ok r"
  proof (rule apply_deltas_total [OF borsh])
    show "\<forall>d \<in> set (planned_deltas trust p c f). vd_account_id d \<in> ab_account_id ` set (ks_accounts s)"
      using planned_accounts(1) by (fastforce simp: state initial_state_def)
    show "\<forall>a \<in> set (ks_accounts s). unat (ab_version a) + length (planned_deltas trust p c f) < 2 ^ 64 \<and>
        unat (ab_balance a) + (\<Sum>d\<leftarrow>planned_deltas trust p c f. unat (vd_amount d)) < 2 ^ 128"
      using room planned_accounts(2) [of trust p c f] by (auto simp: state initial_state_def planned_sums total settlement_room_def)
  qed
  moreover obtain v w where "checked_add (tb_escrow_version trust) 1 = Some v" "checked_add (tb_result_revision trust) 1 = Some w"
    using room by (auto simp: settlement_room_def checked_add_def)
  ultimately show ?thesis
    using open_rollup state amounts sum
    by (auto simp: settle_def settlement_policy_hash_def digest is_ascii_def ascii_def Let_def checked_add_def)
qed

text \<open>Without that room the escrow can be locked for good.\<close>

lemma overflow_rejects:
  assumes "ks_rollup s = Some ru" "ks_settlement s = None"
    and "2 ^ 128 \<le> unat (ro_total_charge (cl_body (ru_rollup ru))) * unat (sp_protocol_fee_numerator (tb_settlement_policy trust))"
  shows "\<exists>e. kernel_exec cr trust s hc = (s, Err e)"
proof -
  have "\<nexists>r. settlement_amounts trust b (ro_total_charge (cl_body (ru_rollup ru))) = Ok r" for b
    using assms(3) by (auto simp: settlement_amounts_def result_simps checked_mul_def)
  then have "\<nexists>r. settle cr trust s h op = Ok r" for h op
    using assms(1,2) by (auto simp: settle_def Let_def result_simps)
  then show ?thesis
    using assms(1,2)
    by (cases "snd hc") (auto simp: kernel_exec_def apply_transition_def admit_receipt_def admit_rollup_def tryR_def split: result.splits)
qed


section \<open>A sample service\<close>

text \<open>One receipt for an amount of a resource of price one, its rollup, and the settlement.\<close>

definition stl_crypto :: crypto where
  "stl_crypto = \<lparr>sha256 = \<lambda>_. 7, borsh_to_vec = \<lambda>_. Some [], valid_key = \<lambda>_. True, verify_strict = \<lambda>_ _ _. True\<rparr>"

definition stl_context :: SettlementContext where
  "stl_context = \<lparr>sc_genesis_hash = 1, sc_chain_id = ''trnm'', sc_protocol_version = 1, sc_stack_profile_hash = 2\<rparr>"

definition stl_key :: "hash32 \<Rightarrow> RegisteredBilateralKey" where
  "stl_key i = \<lparr>bk_agent_id = i, bk_key_id = i, bk_public_key = i, bk_policy_revision = 1, bk_key_generation = 1\<rparr>"

definition stl_trust :: "u128 \<Rightarrow> u128 \<Rightarrow> u128 \<Rightarrow> TrustBundle" where
  "stl_trust funding num den = \<lparr>tb_schema_version = 1, tb_context = stl_context, tb_initial_order_height = 0,
     tb_initial_order_block_id = 0, tb_provider = stl_key 1, tb_consumer = stl_key 2, tb_task_id = 1, tb_lease_id = 1,
     tb_attempt = 0, tb_result_id = 1, tb_result_revision = 0, tb_result_status = 3, tb_escrow_id = 9, tb_escrow_version = 0,
     tb_asset_id = 4, tb_escrow_funding = funding, tb_provider_account_id = 1, tb_consumer_account_id = 2,
     tb_protocol_account_id = 3, tb_provider_opening_balance = 0, tb_consumer_opening_balance = 0,
     tb_protocol_opening_balance = 0,
     tb_prices = [\<lparr>cp_resource_class = 1, cp_resource_id = [1], cp_meter_id = [1], cp_meter_version = 1, cp_unit = 1, cp_unit_price = 1\<rparr>],
     tb_accepted_evidence_certificates = [5], tb_related_party_policy_hash = 6,
     tb_settlement_policy = \<lparr>sp_schema_version = 1, sp_policy_revision = 1, sp_minimum_rollup_challenge_blocks = 10,
       sp_maximum_rollups = 1, sp_protocol_fee_numerator = num, sp_protocol_fee_denominator = den, sp_fee_schedule_hash = 8\<rparr>\<rparr>"

definition stl_signature :: "hash32 \<Rightarrow> u64 \<Rightarrow> SignatureEntry" where
  "stl_signature i height = \<lparr>se_agent_id = i, se_key_id = i, se_key_role = 4, se_policy_revision = 1, se_key_generation = 1,
     se_authority_height = height, se_signature_scheme = 0, se_signature = replicate 64 0\<rparr>"

definition stl_total :: "u128 \<Rightarrow> CumulativeUsage" where
  "stl_total amount = \<lparr>cu_resource_class = 1, cu_resource_id = [1], cu_meter_id = [1], cu_meter_version = 1,
     cu_total_amount = amount, cu_unit = 1, cu_accumulator_commitment = 7\<rparr>"

definition stl_receipt :: "u128 \<Rightarrow> ConsumptionReceipt" where
  "stl_receipt amount = \<lparr>cn_body = \<lparr>rb_schema_version = 1, rb_context = stl_context, rb_provider_id = 1, rb_consumer_id = 2,
       rb_task_id = 1, rb_lease_id = 1, rb_attempt = 0, rb_result_id = 1, rb_meter_id = [1], rb_meter_version = 1,
       rb_sequence = 1, rb_period_start_height = 1, rb_period_end_height = 5,
       rb_usage = [\<lparr>us_resource_class = 1, us_resource_id = [1], us_meter_id = [1], us_meter_version = 1, us_amount = amount,
         us_unit = 1, us_measurement_commitment = 0\<rparr>],
       rb_prior_receipt_id = None, rb_cumulative_usage = [stl_total amount], rb_cumulative_usage_root = 7,
       rb_cumulative_charge = amount, rb_evidence_certificate_id = 5, rb_related_party_policy_hash = 6\<rparr>,
     cn_provider_signature = stl_signature 1 5, cn_consumer_signature = stl_signature 2 5\<rparr>"

definition stl_rollup :: "u128 \<Rightarrow> ConsumptionRollup" where
  "stl_rollup amount = \<lparr>cl_body = \<lparr>ro_schema_version = 1, ro_context = stl_context, ro_provider_id = 1, ro_consumer_id = 2,
       ro_task_id = 1, ro_lease_id = 1, ro_attempt = 0, ro_result_id = 1, ro_meter_id = [1], ro_meter_version = 1,
       ro_first_sequence = 1, ro_last_sequence = 1, ro_receipt_ids = [7], ro_receipt_count = 1, ro_receipts_root = 7,
       ro_usage_totals = [usage_total (stl_total amount)], ro_total_charge = amount, ro_evidence_certificate_id = 5,
       ro_escrow_id = 9, ro_settlement_policy_hash = 7, ro_related_party_policy_hash = 6\<rparr>,
     cl_provider_signature = stl_signature 1 6, cl_consumer_signature = stl_signature 2 6\<rparr>"

abbreviation stl_commands :: "u128 \<Rightarrow> (u64 \<times> SettlementCommand) list" where
  "stl_commands amount \<equiv> [(5, AdmitReceipt (stl_receipt amount)), (6, AdmitRollup (stl_rollup amount) [stl_receipt amount])]"

lemma stl_valid: "funding \<noteq> 0 \<Longrightarrow> den \<noteq> 0 \<Longrightarrow> num \<le> den \<Longrightarrow> validate_trust_bundle stl_crypto (stl_trust funding num den) = Ok ()"
  by (simp add: validate_trust_bundle_def stl_trust_def stl_key_def stl_crypto_def stl_context_def SCHEMA_VERSION_def
      RESULT_STATUS_FINAL_VALID_def MAX_USAGE_ENTRIES_def MAX_ID_BYTES_def require_strictly_sorted_def strictly_sorted_by_def Let_def not_less)

lemma stl_borsh: "\<forall>v. borsh_to_vec stl_crypto v \<noteq> None"
  by (simp add: stl_crypto_def)

lemma stl_digest: "domain \<noteq> [] \<Longrightarrow> is_ascii domain \<Longrightarrow> length domain < 2 ^ 32 \<Longrightarrow> digest_value stl_crypto domain v = Ok 7"
  using digest_total [OF stl_borsh, of domain v] by (simp add: digest_of_def stl_crypto_def)

lemma stl_signed: "i \<in> {1, 2} \<Longrightarrow> domain \<noteq> [] \<Longrightarrow> is_ascii domain \<Longrightarrow> length domain < 2 ^ 32 \<Longrightarrow>
    verify_signature_entry stl_crypto (stl_key i) (stl_signature i h) 7 h domain = Ok ()"
  using stl_digest [of domain]
  by (auto simp: verify_signature_entry_def stl_key_def stl_signature_def KEY_ROLE_BILATERAL_RECEIPT_def
      SIGNATURE_SCHEME_ED25519_def Let_def stl_crypto_def)

lemmas stl_simps = stl_digest stl_signed is_ascii_def ascii_def verify_bilateral_signatures_def consumption_receipt_id_def
  consumption_rollup_id_def settlement_policy_hash_def

lemma checked_neutral: "checked_add 0 x = Some x" "checked_mul x 1 = Some x"
  by (simp_all add: checked_simps)

lemma stl_receipt_admitted:
  assumes "amount \<noteq> 0" "amount \<le> funding"
  shows "admit_receipt stl_crypto (stl_trust funding num den) (initial_state (stl_trust funding num den)) 5 (stl_receipt amount) =
    Ok ((initial_state (stl_trust funding num den))\<lparr>ks_receipts := [\<lparr>rs_receipt = stl_receipt amount, rs_receipt_id = 7,
      rs_version = 0, rs_status = 0, rs_assigned_rollup_id = None, rs_accepted_height = 5\<rparr>]\<rparr>)"
proof -
  have "validate_common_body (stl_trust funding num den) (cn_body (stl_receipt amount)) = Ok ()"
    by (simp add: validate_common_body_def stl_trust_def stl_receipt_def SCHEMA_VERSION_def stl_key_def MAX_ID_BYTES_def)
  moreover have "validate_usage (rb_usage (cn_body (stl_receipt amount))) = Ok ()"
    using assms(1) by (simp add: validate_usage_def stl_receipt_def MAX_USAGE_ENTRIES_def MAX_ID_BYTES_def require_strictly_sorted_def
      strictly_sorted_by_def)
  moreover have "derive_cumulative_usage stl_crypto None (rb_usage (cn_body (stl_receipt amount))) = Ok [stl_total amount]"
    by (simp add: derive_cumulative_usage_def prior_totals_def accumulate_def stl_receipt_def stl_total_def usage_key_def
      stl_simps checked_neutral del_entries_def Let_def)
  moreover have "price_usage (stl_trust funding num den) (rb_usage (cn_body (stl_receipt amount))) = Ok amount"
    by (simp add: price_usage_def usage_charge_def stl_trust_def stl_receipt_def checked_neutral)
  ultimately show ?thesis
    using assms
    by (simp add: admit_receipt_def initial_state_def stl_simps last_opt_def check_prior_def len_u64_def checked_neutral MAX_RECEIPTS_def Let_def
      stl_receipt_def stl_trust_def)
qed


lemma stl_rollup_admitted:
  assumes "amount \<noteq> 0" "amount \<le> funding"
  shows "\<exists>s ru. run (kernel_exec stl_crypto (stl_trust funding num den)) (initial_state (stl_trust funding num den)) (stl_commands amount) = s \<and>
    ks_rollup s = Some ru \<and> ks_settlement s = None \<and> ru_challenge_close_height ru = 16 \<and> ru_rollup ru = stl_rollup amount \<and>
    length (ks_receipts s) = 1"
proof -
  let ?t = "stl_trust funding num den"
  let ?r = "\<lparr>rs_receipt = stl_receipt amount, rs_receipt_id = 7,
      rs_version = 0, rs_status = 0, rs_assigned_rollup_id = None, rs_accepted_height = 5\<rparr>"
  let ?s = "(initial_state ?t)\<lparr>ks_receipts := [?r]\<rparr>"
  have "check_rollup_body stl_crypto ?t ?s (cl_body (stl_rollup amount)) = Ok ()"
    by (simp add: check_rollup_body_def stl_trust_def stl_rollup_def stl_key_def SCHEMA_VERSION_def stl_simps last_opt_def
        initial_state_def stl_receipt_def)
  then have "\<exists>s'. admit_rollup stl_crypto ?t ?s 6 (stl_rollup amount) [stl_receipt amount] = Ok s' \<and>
      ks_settlement s' = None \<and> length (ks_receipts s') = 1 \<and> (\<exists>ru. ks_rollup s' = Some ru \<and> ru_challenge_close_height ru = 16 \<and> ru_rollup ru = stl_rollup amount)"
    by (simp add: admit_rollup_def initial_state_def stl_rollup_def stl_receipt_def len_u64_def receipt_entry_def checked_add_def
        last_opt_def stl_simps stl_trust_def assign_receipt_def)
  with stl_receipt_admitted [OF assms, of num den] show ?thesis
    by (auto simp: kernel_exec_def apply_transition_def)
qed

section \<open>Properties\<close>

text \<open>
  C4. Settlement conserves value: after any sequence of commands, at any heights, accepted or not, the
  account balances and the escrow sum to the opening balances and the funding of the escrow.
\<close>

theorem settlement_conservation:
  "funds (run (kernel_exec cr trust) (initial_state trust) cs) =
     unat (tb_provider_opening_balance trust) + unat (tb_consumer_opening_balance trust) +
     unat (tb_protocol_opening_balance trust) + unat (tb_escrow_funding trust)"
proof -
  have "funds (run (kernel_exec cr trust) (initial_state trust) cs) = funds (initial_state trust)"
    by (rule kernel.run_related [where R = "\<lambda>x y. funds y = funds x"])
      (auto simp: kernel_exec_Ok dest: transition_keeps_funds)
  also have "\<dots> = unat (tb_provider_opening_balance trust) + unat (tb_consumer_opening_balance trust) +
     unat (tb_protocol_opening_balance trust) + unat (tb_escrow_funding trust)"
    by (simp add: funds_def initial_state_def sum_list_sort_key)
  finally show ?thesis .
qed

text \<open>
  C17. The receipts of every reachable state form one signed chain: the receipt at position k carries the
  digest of its body, valid signatures of provider and consumer over it, sequence number k + 1,
  the identifier of its predecessor, the period that follows, and a cumulative charge that is
  the priced sum of all usage so far and within the escrow. A rollup names exactly these receipts and their charge, is
  signed by both, and its challenge window has the length the policy demands.
\<close>

theorem settlement_receipt_chain:
  "let s = run (kernel_exec cr trust) (initial_state trust) cs in
    chain_ok cr trust (links s) \<and> (case ks_rollup s of None \<Rightarrow> True | Some ru \<Rightarrow> rollup_ok cr trust (links s) ru)"
  using run_kernel_inv [of cr trust cs] by (simp add: Let_def kernel_inv_def)

text \<open>
  C18. A settlement happened after the challenge window and paid exactly: the provider its charge less the
  protocol fee, the consumer what the charge left of the escrow, the protocol the rounded-down
  fee, and the escrow is empty and closed.
\<close>

theorem settlement_payout:
  assumes "validate_trust_bundle cr trust = Ok ()"
    and "s = run (kernel_exec cr trust) (initial_state trust) cs" "ks_settlement s = Some m" "ks_rollup s = Some ru"
    and "charge = unat (ro_total_charge (cl_body (ru_rollup ru)))"
    and "fee = charge * unat (sp_protocol_fee_numerator (tb_settlement_policy trust)) div
      unat (sp_protocol_fee_denominator (tb_settlement_policy trust))"
  shows "ru_challenge_close_height ru < sm_applied_height m \<and>
    charge = (\<Sum>r\<leftarrow>ks_receipts s. usage_value trust (rb_usage (cn_body (rs_receipt r)))) \<and>
    eb_balance (ks_escrow s) = 0 \<and> eb_closed (ks_escrow s) \<and>
    account_balance (ks_accounts s) (tb_provider_account_id trust) = unat (tb_provider_opening_balance trust) + (charge - fee) \<and>
    account_balance (ks_accounts s) (tb_consumer_account_id trust) =
      unat (tb_consumer_opening_balance trust) + (unat (tb_escrow_funding trust) - charge) \<and>
    account_balance (ks_accounts s) (tb_protocol_account_id trust) = unat (tb_protocol_opening_balance trust) + fee"
proof -
  have inv: "chain_ok cr trust (links s)" "rollup_ok cr trust (links s) ru" "settled_ok trust s m"
    using run_kernel_inv [of cr trust cs] assms(2-4) by (simp_all add: kernel_inv_def)
  from inv(1,2) have "link_ok cr trust (links s) (length (ks_receipts s) - 1)" "ks_receipts s \<noteq> []"
    by (simp_all add: chain_ok_def rollup_ok_def)
  with inv(2) have "charge = (\<Sum>r\<leftarrow>ks_receipts s. usage_value trust (rb_usage (cn_body (rs_receipt r))))"
    by (simp add: assms(5) link_ok_def rollup_ok_def last_conv_nth comp_def split: prod.splits)
  moreover note distinct = valid_accounts_distinct [OF assms(1)]
  ultimately show ?thesis
    using inv(3) assms(4-6) distinct
    by (auto simp: settled_ok_def payout_def protocol_share_def initial_balances [OF distinct])
qed


theorem settlement_payout_witness:
  "\<exists>s. account_balance (ks_accounts s) 1 = 90 \<and> account_balance (ks_accounts s) 2 = 50 \<and> account_balance (ks_accounts s) 3 = 10 \<and>
    (\<exists>cs. s = run (kernel_exec stl_crypto (stl_trust 150 1 10)) (initial_state (stl_trust 150 1 10)) cs)"
proof -
  let ?t = "stl_trust 150 1 10"
  let ?run = "run (kernel_exec stl_crypto ?t) (initial_state ?t)"
  have valid: "validate_trust_bundle stl_crypto ?t = Ok ()" by (rule stl_valid) simp_all
  obtain ru where ru: "ks_rollup (?run (stl_commands 100)) = Some ru" "ks_settlement (?run (stl_commands 100)) = None"
    "ru_challenge_close_height ru = 16" "ru_rollup ru = stl_rollup 100"
    using stl_rollup_admitted [of 100 150 1 10] by auto
  let ?op = "settle_operation stl_crypto ?t (?run (stl_commands 100)) ru"
  have "settlement_room ?t" by (simp add: settlement_room_def stl_trust_def)
  with ru obtain s' i where "settle stl_crypto ?t (?run (stl_commands 100)) 17 ?op = Ok (s', i)"
    using settle_total [OF stl_borsh valid _ run_kernel_inv ru(1,2), of 17] by auto
  then have s': "?run (stl_commands 100 @ [(17, Settle ?op)]) = s'" and st: "settle stl_crypto ?t (?run (stl_commands 100)) 17 ?op = Ok (s', i)"
    by (simp_all add: run_append kernel_exec_def apply_transition_def)
  obtain m ru' where "ks_settlement s' = Some m" "ks_rollup s' = Some ru'" "ru_rollup ru' = stl_rollup 100"
    by (rule settleD [OF st]) (use ru in auto)
  from settlement_payout [OF valid s' [symmetric] this(1,2) refl refl] this(3)
  have "account_balance (ks_accounts s') 1 = 90 \<and> account_balance (ks_accounts s') 2 = 50 \<and> account_balance (ks_accounts s') 3 = 10"
    by (simp add: stl_rollup_def stl_trust_def)
  with s' show ?thesis by blast
qed

text \<open>
  A settlement is final: once there is one, every further command is rejected and the state stays
  as it is.
\<close>

lemma settlement_final:
  assumes "ks_settlement (run (kernel_exec cr trust) s cs) \<noteq> None"
  shows "run (kernel_exec cr trust) s (cs @ ds) = run (kernel_exec cr trust) s cs \<and>
    accepted (kernel_exec cr trust) (run (kernel_exec cr trust) s cs) ds = []"
  using run_stuck [of "kernel_exec cr trust" _ ds, OF settled_rejects [OF assms]] by (simp add: run_append)

text \<open>
  C33. Funds are not locked: if the serializer does not fail and the amounts leave room for the
  arithmetic, then in every reachable state with an unsettled rollup the settlement command is accepted at
  every height past the challenge window. So the checks for conservation and underflow inside
  the settlement never fire.
\<close>

theorem settlement_live:
  assumes "\<forall>v. borsh_to_vec cr v \<noteq> None" "validate_trust_bundle cr trust = Ok ()" "settlement_room trust"
    and "s = run (kernel_exec cr trust) (initial_state trust) cs" "ks_rollup s = Some ru" "ks_settlement s = None"
    and "ru_challenge_close_height ru < h"
  shows "\<exists>operation s' i. kernel_exec cr trust s (h, Settle operation) = (s', Ok (Some i)) \<and> eb_closed (ks_escrow s')"
proof -
  obtain s' i where st: "settle cr trust s h (settle_operation cr trust s ru) = Ok (s', i)"
    using settle_total [OF assms(1-3) _ assms(5-7)] run_kernel_inv [of cr trust cs] assms(4) by auto
  have "eb_closed (ks_escrow s')" by (rule settleD [OF st])
  moreover from st have "kernel_exec cr trust s (h, Settle (settle_operation cr trust s ru)) = (s', Ok (Some i))"
    by (simp add: kernel_exec_def apply_transition_def)
  ultimately show ?thesis by blast
qed

theorem settlement_live_witness:
  "\<exists>operation s' i. kernel_exec stl_crypto (stl_trust 150 1 10) (run (kernel_exec stl_crypto (stl_trust 150 1 10))
     (initial_state (stl_trust 150 1 10)) (stl_commands 100)) (17, Settle operation) = (s', Ok (Some i)) \<and> eb_closed (ks_escrow s')"
proof -
  have room: "settlement_room (stl_trust 150 1 10)" by (simp add: settlement_room_def stl_trust_def)
  have valid: "validate_trust_bundle stl_crypto (stl_trust 150 1 10) = Ok ()" by (rule stl_valid) simp_all
  obtain ru where ru: "ks_rollup (run (kernel_exec stl_crypto (stl_trust 150 1 10)) (initial_state (stl_trust 150 1 10)) (stl_commands 100)) = Some ru"
    "ks_settlement (run (kernel_exec stl_crypto (stl_trust 150 1 10)) (initial_state (stl_trust 150 1 10)) (stl_commands 100)) = None"
    "ru_challenge_close_height ru = 16"
    using stl_rollup_admitted [of 100 150 1 10] by auto
  show ?thesis by (rule settlement_live [OF stl_borsh valid room refl ru(1,2)]) (simp add: ru(3))
qed

text \<open>
  C39. Validation does not ensure that room: if the charge of an admitted rollup times the fee numerator
  exceeds 128 bits, every later command fails and the escrow keeps its balance forever. A trust
  bundle that passes validation reaches such a state.
\<close>

theorem settlement_overflow_locks_escrow:
  assumes "ks_rollup s = Some ru" "ks_settlement s = None"
    and "2 ^ 128 \<le> unat (ro_total_charge (cl_body (ru_rollup ru))) * unat (sp_protocol_fee_numerator (tb_settlement_policy trust))"
  shows "run (kernel_exec cr trust) s ds = s \<and> accepted (kernel_exec cr trust) s ds = []"
  by (rule run_stuck) (rule overflow_rejects [OF assms])

theorem settlement_overflow_locks_escrow_witness:
  "validate_trust_bundle stl_crypto (stl_trust (2 ^ 100) (2 ^ 30) (2 ^ 30)) = Ok () \<and>
    (\<exists>s. s = run (kernel_exec stl_crypto (stl_trust (2 ^ 100) (2 ^ 30) (2 ^ 30))) (initial_state (stl_trust (2 ^ 100) (2 ^ 30) (2 ^ 30)))
        (stl_commands (2 ^ 100)) \<and> ks_rollup s \<noteq> None \<and>
      run (kernel_exec stl_crypto (stl_trust (2 ^ 100) (2 ^ 30) (2 ^ 30))) s [(17, AdmitReceipt (stl_receipt 1))] = s)"
proof -
  let ?t = "stl_trust (2 ^ 100) (2 ^ 30) (2 ^ 30)"
  have "validate_trust_bundle stl_crypto ?t = Ok ()" by (rule stl_valid) simp_all
  moreover obtain s ru where s: "run (kernel_exec stl_crypto ?t) (initial_state ?t) (stl_commands (2 ^ 100)) = s"
    "ks_rollup s = Some ru" "ks_settlement s = None" "ru_rollup ru = stl_rollup (2 ^ 100)"
    using stl_rollup_admitted [of "2 ^ 100" "2 ^ 100" "2 ^ 30" "2 ^ 30"] by auto
  have "2 ^ 128 \<le> unat (ro_total_charge (cl_body (ru_rollup ru))) * unat (sp_protocol_fee_numerator (tb_settlement_policy ?t))"
    by (simp add: s(4) stl_rollup_def stl_trust_def)
  from settlement_overflow_locks_escrow [OF s(2,3) this] s(1,2) have
    "s = run (kernel_exec stl_crypto ?t) (initial_state ?t) (stl_commands (2 ^ 100)) \<and> ks_rollup s \<noteq> None \<and>
      run (kernel_exec stl_crypto ?t) s [(17, AdmitReceipt (stl_receipt 1))] = s"
    by blast
  ultimately show ?thesis by blast
qed

end
