(* ===== verification/Executor_Conflict.thy ===== *)
theory Executor_Conflict
  imports Ordered_Map
begin

text \<open>
  Access sets and conflicts of transactions (\<open>trnm-executor/src/lib.rs\<close>, the first half). A \<open>HashSet<u64>\<close> is the
  list of its elements without repetition, in the order of insertion; only its elements matter to
  the code. A failed \<open>assert!\<close> is the error \<open>AssertionFailed\<close>; \<open>debug_assert!\<close> is not compiled into a release build.
\<close>

section \<open>Transactions\<close>

record ObjectRef =
  or_id :: u64
  or_version :: u64

record Tx =
  tx_id :: u64
  tx_read_set :: "ObjectRef list"
  tx_write_set :: "ObjectRef list"
  tx_payload :: "u8 list"

datatype ExecutorPanic = AssertionFailed

definition access_key :: "ObjectRef \<Rightarrow> u64" where
  "access_key obj = or_id obj"

section \<open>Key lists\<close>

definition push_unique :: "u64 \<Rightarrow> u64 list \<Rightarrow> u64 list" where
  "push_unique key out = (if key \<in> set out then out else out @ [key])"

definition insert_seen :: "u64 \<Rightarrow> u64 list \<times> u64 list \<Rightarrow> u64 list \<times> u64 list" where
  "insert_seen key so = (case so of (seen, out) \<Rightarrow> if key \<in> set seen then (seen, out) else (seen @ [key], out @ [key]))"

definition dedup_access_keys :: "ObjectRef list \<Rightarrow> u64 list" where
  "dedup_access_keys objs =
     (if length objs \<le> 8 then fold (\<lambda>obj out. push_unique (access_key obj) out) objs []
      else snd (fold (\<lambda>obj so. insert_seen (access_key obj) so) objs ([], [])))"

definition dedup_access_keys_no_version :: "ObjectRef list \<Rightarrow> u64 list" where
  "dedup_access_keys_no_version objs =
     (if length objs \<le> 8 then fold (\<lambda>obj out. push_unique (access_key obj) out) objs []
      else snd (fold (\<lambda>obj so. insert_seen (access_key obj) so) objs ([], [])))"

text \<open>The loops that drop repeated keys of \<open>dst\<close> in place, with and without a set of seen keys.\<close>

definition compact_scan :: "u64 list \<Rightarrow> u64 list" where
  "compact_scan dst =
     (case fold (\<lambda>idx (d, unique_len). let key = d ! idx in
        if key \<in> set (take unique_len d) then (d, unique_len) else (d[unique_len := key], unique_len + 1))
        [1..<length dst] (dst, 1) of (d, unique_len) \<Rightarrow> take unique_len d)"

definition compact_seen :: "u64 list \<Rightarrow> u64 list \<times> u64 list" where
  "compact_seen dst =
     (case fold (\<lambda>idx (seen, d, unique_len). let key = d ! idx in
        if key \<in> set seen then (seen, d, unique_len) else (seen @ [key], d[unique_len := key], unique_len + 1))
        [0..<length dst] ([], dst, 0) of (seen, d, unique_len) \<Rightarrow> (seen, take unique_len d))"

definition extend_unique_access_keys :: "u64 list \<Rightarrow> ObjectRef list \<Rightarrow> u64 list" where
  "extend_unique_access_keys dst objs =
     (if objs = [] then (if length dst \<le> 1 then dst else compact_scan dst)
      else if length dst + length objs \<le> 8 then
        fold (\<lambda>obj d. push_unique (access_key obj) d) objs (if length dst > 1 then compact_scan dst else dst)
      else snd (fold (\<lambda>obj so. insert_seen (access_key obj) so) objs (compact_seen dst)))"

section \<open>Versions\<close>

fun versions_scan :: "(u64 \<times> u64) list \<Rightarrow> ObjectRef list \<Rightarrow> bool" where
  "versions_scan seen [] = True"
| "versions_scan seen (obj # objs) =
     (case find (\<lambda>(i, _). i = or_id obj) seen of
        Some (_, version) \<Rightarrow> if version \<noteq> or_version obj then False else versions_scan seen objs
      | None \<Rightarrow> versions_scan (seen @ [(or_id obj, or_version obj)]) objs)"

fun versions_map :: "(u64 \<rightharpoonup> u64) \<Rightarrow> ObjectRef list \<Rightarrow> bool" where
  "versions_map m [] = True"
| "versions_map m (obj # objs) =
     (case m (or_id obj) of
        Some version \<Rightarrow> if version \<noteq> or_version obj then False else versions_map (m(or_id obj \<mapsto> or_version obj)) objs
      | None \<Rightarrow> versions_map (m(or_id obj \<mapsto> or_version obj)) objs)"

definition access_domain_versions_are_consistent :: "ObjectRef list \<Rightarrow> bool" where
  "access_domain_versions_are_consistent objs =
     (if length objs \<le> 1 then True
      else if length objs = 2 then or_id (objs ! 0) \<noteq> or_id (objs ! 1) \<or> or_version (objs ! 0) = or_version (objs ! 1)
      else if length objs \<le> 8 then versions_scan [] objs
      else versions_map Map.empty objs)"

definition combined_access_domain_versions_are_consistent :: "ObjectRef list \<Rightarrow> ObjectRef list \<Rightarrow> bool" where
  "combined_access_domain_versions_are_consistent reads writes =
     (if reads = [] then access_domain_versions_are_consistent writes
      else if writes = [] then access_domain_versions_are_consistent reads
      else if length reads + length writes \<le> 1 then True
      else if length reads = 1 \<and> length writes = 1 then
        or_id (reads ! 0) \<noteq> or_id (writes ! 0) \<or> or_version (reads ! 0) = or_version (writes ! 0)
      else if length reads + length writes \<le> 8 then versions_scan [] (writes @ reads)
      else versions_map Map.empty (writes @ reads))"

definition assert_tx_access_domain_versions_are_consistent :: "Tx \<Rightarrow> (unit, ExecutorPanic) result" where
  "assert_tx_access_domain_versions_are_consistent tx =
     (if combined_access_domain_versions_are_consistent (tx_read_set tx) (tx_write_set tx) then Ok () else Err AssertionFailed)"

definition assert_tx_access_domain_versions_are_consistent_batch :: "Tx list \<Rightarrow> (unit, ExecutorPanic) result" where
  "assert_tx_access_domain_versions_are_consistent_batch txs =
     try_fold (\<lambda>_ tx. assert_tx_access_domain_versions_are_consistent tx) () txs"

section \<open>Intersections\<close>

text \<open>The unique keys of the small side, looked up one by one in the large side.\<close>

definition probe_keys :: "ObjectRef list \<Rightarrow> ObjectRef list \<Rightarrow> bool" where
  "probe_keys small large =
     list_ex (\<lambda>key. list_ex (\<lambda>b. access_key b = key) large) (fold (\<lambda>a keys. push_unique (access_key a) keys) small [])"

definition intersects :: "ObjectRef list \<Rightarrow> ObjectRef list \<Rightarrow> bool" where
  "intersects x y =
     (if x = [] \<or> y = [] then False
      else if length x = 1 then list_ex (\<lambda>obj. access_key obj = access_key (x ! 0)) y
      else if length y = 1 then list_ex (\<lambda>obj. access_key obj = access_key (y ! 0)) x
      else
        let (small, large) = (if length x \<le> length y then (x, y) else (y, x))
        in if length x \<le> 8 \<and> length y \<le> 8 then probe_keys small large
           else if length small \<le> 4 then probe_keys small large
           else if length small \<le> 8 \<and> 16 \<le> length large \<and> length large \<le> 128 then probe_keys small large
           else list_ex (\<lambda>obj. access_key obj \<in> set (map access_key small)) large)"

fun probe_scan :: "u64 list \<Rightarrow> u64 list \<Rightarrow> u64 list \<Rightarrow> bool" where
  "probe_scan seen [] b = False"
| "probe_scan seen (k # ks) b =
     (if k \<in> set seen then probe_scan seen ks b
      else if k \<in> set b then True
      else probe_scan (seen @ [k]) ks b)"

definition vec_hashset_intersects :: "u64 list \<Rightarrow> u64 list \<Rightarrow> bool" where
  "vec_hashset_intersects a b =
     (if a = [] \<or> b = [] then False
      else if length a = 1 then a ! 0 \<in> set b
      else if length b = 1 then hd b \<in> set a
      else if length a \<le> 32 then probe_scan [] a b
      else probe_scan [] a b)"

section \<open>Conflicts\<close>

definition detect_conflict :: "Tx \<Rightarrow> Tx \<Rightarrow> (bool, ExecutorPanic) result" where
  "detect_conflict a b =
     tryR (assert_tx_access_domain_versions_are_consistent a) (\<lambda>_.
     tryR (assert_tx_access_domain_versions_are_consistent b) (\<lambda>_.
     Ok (if tx_write_set a = [] \<and> tx_write_set b = [] then False
         else if tx_write_set a = [] then intersects (tx_read_set a) (tx_write_set b)
         else if tx_write_set b = [] then intersects (tx_write_set a) (tx_read_set b)
         else if tx_read_set a = [] \<and> tx_read_set b = [] then intersects (tx_write_set a) (tx_write_set b)
         else intersects (tx_write_set a) (tx_write_set b) \<or> intersects (tx_write_set a) (tx_read_set b) \<or>
              intersects (tx_read_set a) (tx_write_set b))))"

definition read_domain_only_keys :: "ObjectRef list \<Rightarrow> u64 list \<Rightarrow> u64 list" where
  "read_domain_only_keys read_set write_keys =
     (let keys = dedup_access_keys read_set
      in if keys = [] \<or> write_keys = [] then keys
         else if length write_keys \<le> 8 then filter (\<lambda>key. key \<notin> set write_keys) keys
         else filter (\<lambda>key. key \<notin> set write_keys) keys)"

text \<open>The keys of a transaction after the assertion of \<open>tx_access_domain_keys\<close>.\<close>

definition domain_keys :: "Tx \<Rightarrow> u64 list" where
  "domain_keys tx = (let write_keys = dedup_access_keys (tx_write_set tx)
     in write_keys @ read_domain_only_keys (tx_read_set tx) write_keys)"

definition tx_access_domain_keys :: "Tx \<Rightarrow> (u64 list, ExecutorPanic) result" where
  "tx_access_domain_keys tx =
     tryR (assert_tx_access_domain_versions_are_consistent tx) (\<lambda>_. Ok (domain_keys tx))"

definition min_key :: "u64 list \<Rightarrow> u64 option" where
  "min_key ks = (if ks = [] then None else Some (Min (set ks)))"

definition primary_access_domain_key :: "Tx \<Rightarrow> (u64 option, ExecutorPanic) result" where
  "primary_access_domain_key tx =
     tryR (assert_tx_access_domain_versions_are_consistent tx) (\<lambda>_.
     Ok (case min_key (dedup_access_keys (tx_write_set tx)) of
           Some key \<Rightarrow> Some key
         | None \<Rightarrow> min_key (read_domain_only_keys (tx_read_set tx) [])))"

section \<open>Keys, versions and intersections, exactly\<close>

text \<open>All ways of removing repetitions keep the first occurrences.\<close>

fun firsts :: "u64 list \<Rightarrow> u64 list \<Rightarrow> u64 list" where
  "firsts acc [] = acc"
| "firsts acc (k # ks) = firsts (push_unique k acc) ks"

lemma fold_push_unique: "fold (\<lambda>obj. push_unique (access_key obj)) objs acc = firsts acc (map access_key objs)"
  by (induction objs arbitrary: acc) simp_all

lemma fold_insert_seen:
  "fold (\<lambda>obj. insert_seen (access_key obj)) objs (acc, acc) = (firsts acc (map access_key objs), firsts acc (map access_key objs))"
  by (induction objs arbitrary: acc) (simp_all add: insert_seen_def push_unique_def)

lemma set_firsts [simp]: "set (firsts acc ks) = set acc \<union> set ks"
  by (induction ks arbitrary: acc) (auto simp: push_unique_def)

lemma distinct_firsts: "distinct acc \<Longrightarrow> distinct (firsts acc ks)"
  by (induction ks arbitrary: acc) (auto simp: push_unique_def)

lemma firsts_append: "firsts acc (ks @ ls) = firsts (firsts acc ks) ls"
  by (induction ks arbitrary: acc) simp_all

lemma dedup_firsts: "dedup_access_keys objs = firsts [] (map access_key objs)"
  "dedup_access_keys_no_version objs = firsts [] (map access_key objs)"
  by (simp_all add: dedup_access_keys_def dedup_access_keys_no_version_def fold_push_unique fold_insert_seen)

lemma set_dedup [simp]: "set (dedup_access_keys objs) = or_id ` set objs"
  by (simp add: dedup_firsts access_key_def [abs_def])

lemma distinct_dedup [simp]: "distinct (dedup_access_keys objs)"
  by (simp add: dedup_firsts distinct_firsts)

lemma set_read_domain: "set (read_domain_only_keys rs ws) = or_id ` set rs - set ws"
  by (auto simp: read_domain_only_keys_def Let_def simp flip: set_empty)

lemma set_domain_keys: "set (domain_keys tx) = or_id ` set (tx_write_set tx) \<union> or_id ` set (tx_read_set tx)"
  by (auto simp: domain_keys_def Let_def set_read_domain)

text \<open>One object, one version.\<close>

definition one_version :: "ObjectRef list \<Rightarrow> bool" where
  "one_version objs \<longleftrightarrow> (\<forall>a \<in> set objs. \<forall>b \<in> set objs. or_id a = or_id b \<longrightarrow> or_version a = or_version b)"


lemma one_version_Cons:
  "one_version (obj # objs) \<longleftrightarrow> one_version objs \<and> (\<forall>a \<in> set objs. or_id a = or_id obj \<longrightarrow> or_version obj = or_version a)"
proof
  show "one_version (obj # objs) \<Longrightarrow> one_version objs \<and> (\<forall>a \<in> set objs. or_id a = or_id obj \<longrightarrow> or_version obj = or_version a)"
    unfolding one_version_def by (metis list.set_intros)
  show "one_version objs \<and> (\<forall>a \<in> set objs. or_id a = or_id obj \<longrightarrow> or_version obj = or_version a) \<Longrightarrow> one_version (obj # objs)"
    unfolding one_version_def by (metis set_ConsD)
qed

lemma one_version_Nil [simp]: "one_version []"
  by (simp add: one_version_def)

lemma versions_map_iff:
  "versions_map m objs \<longleftrightarrow> one_version objs \<and> (\<forall>a \<in> set objs. m (or_id a) = None \<or> m (or_id a) = Some (or_version a))"
proof (induction objs arbitrary: m)
  case (Cons obj objs)
  have "versions_map m (obj # objs) \<longleftrightarrow> (m (or_id obj) = None \<or> m (or_id obj) = Some (or_version obj)) \<and>
      versions_map (m(or_id obj \<mapsto> or_version obj)) objs"
    by (cases "m (or_id obj)") auto
  also have "versions_map (m(or_id obj \<mapsto> or_version obj)) objs \<longleftrightarrow> one_version objs \<and>
      (\<forall>a \<in> set objs. if or_id a = or_id obj then or_version obj = or_version a
         else m (or_id a) = None \<or> m (or_id a) = Some (or_version a))"
    unfolding Cons.IH by (intro conj_cong ball_cong) auto
  finally have step: "versions_map m (obj # objs) \<longleftrightarrow> (m (or_id obj) = None \<or> m (or_id obj) = Some (or_version obj)) \<and>
      one_version objs \<and> (\<forall>a \<in> set objs. if or_id a = or_id obj then or_version obj = or_version a
         else m (or_id a) = None \<or> m (or_id a) = Some (or_version a))" .
  have "or_id a = or_id obj \<Longrightarrow> or_version obj = or_version a \<Longrightarrow> m (or_id obj) = None \<or> m (or_id obj) = Some (or_version obj) \<Longrightarrow>
      m (or_id a) = None \<or> m (or_id a) = Some (or_version a)" for a by auto
  then show ?case
    unfolding step one_version_Cons list.set ball_simps(7) if_bool_eq_conj by blast
qed simp

lemma versions_scan_map: "versions_scan seen objs = versions_map (map_of seen) objs"
proof (induction objs arbitrary: seen)
  case (Cons obj objs)
  have find: "find (\<lambda>(i, _). i = or_id obj) seen = map_option (Pair (or_id obj)) (map_of seen (or_id obj))"
    by (induction seen) auto
  show ?case
  proof (cases "map_of seen (or_id obj)")
    case None
    then have "map_of (seen @ [(or_id obj, or_version obj)]) = (map_of seen)(or_id obj \<mapsto> or_version obj)"
      by (auto simp: map_add_def fun_eq_iff split: option.splits)
    with None find Cons show ?thesis by (simp add: fun_upd_def)
  next
    case (Some v)
    then have "v = or_version obj \<Longrightarrow> (map_of seen)(or_id obj \<mapsto> or_version obj) = map_of seen" by (auto simp: fun_upd_idem)
    with Some find Cons show ?thesis by simp
  qed
qed simp

lemma versions_scan_iff: "versions_scan [] objs \<longleftrightarrow> one_version objs"
  by (simp add: versions_scan_map versions_map_iff)

lemma consistent_iff: "access_domain_versions_are_consistent objs \<longleftrightarrow> one_version objs"
proof -
  consider "objs = []" | a where "objs = [a]" | a b where "objs = [a, b]" | "2 < length objs"
    by (cases objs; cases "tl objs"; cases "tl (tl objs)") auto
  then show ?thesis
  proof cases
    case 4
    then show ?thesis by (simp add: access_domain_versions_are_consistent_def versions_scan_iff versions_map_iff)
  qed (auto simp: access_domain_versions_are_consistent_def one_version_Cons)
qed

lemma combined_consistent_iff: "combined_access_domain_versions_are_consistent rs ws \<longleftrightarrow> one_version (ws @ rs)"
proof -
  consider "rs = []" | "ws = []" | r w where "rs = [r]" "ws = [w]" | "rs \<noteq> []" "ws \<noteq> []" "\<not> (length rs = 1 \<and> length ws = 1)"
    by (cases rs; cases ws) (auto simp: length_Suc_conv)
  then show ?thesis
  proof cases
    case 3
    then show ?thesis by (auto simp: combined_access_domain_versions_are_consistent_def one_version_Cons)
  next
    case 4
    then have "\<not> length rs + length ws \<le> 1" by (cases rs; cases ws) auto
    with 4 show ?thesis
      by (simp only: combined_access_domain_versions_are_consistent_def versions_scan_iff versions_map_iff if_False) simp
  qed (auto simp: combined_access_domain_versions_are_consistent_def consistent_iff)
qed

text \<open>The in-place loops also keep the first occurrences.\<close>

lemma compact_step:
  assumes "j \<le> length dst" "u \<le> j" "length d = length dst" "take u d = firsts [] (take j dst)" "drop j d = drop j dst" "j < length dst"
  shows "let key = d ! j; d' = (if key \<in> set (take u d) then d else d[u := key]);
      u' = (if key \<in> set (take u d) then u else u + 1) in
    u' \<le> Suc j \<and> length d' = length dst \<and> take u' d' = firsts [] (take (Suc j) dst) \<and> drop (Suc j) d' = drop (Suc j) dst"
proof -
  have key: "d ! j = dst ! j"
    using assms(3,5,6) by (metis Cons_nth_drop_Suc nth_via_drop)
  have "drop (Suc j) d = drop (Suc j) dst"
    using assms(5) by (metis drop_Suc tl_drop)
  moreover have "take u (d[u := k]) = take u d" for k by simp
  moreover have "take (Suc u) (d[u := k]) = take u d @ [k]" for k
    using assms(2,3,6) by (simp add: take_Suc_conv_app_nth)
  ultimately show ?thesis
    using assms key
    by (auto simp: Let_def take_Suc_conv_app_nth firsts_append push_unique_def)
qed

lemma compact_scan_firsts:
  assumes "dst \<noteq> []"
  shows "compact_scan dst = firsts [] dst"
proof -
  let ?f = "\<lambda>idx (d, u). let key = d ! idx in if key \<in> set (take u d) then (d, u) else (d[u := key], u + 1)"
  have "\<exists>d u. fold ?f [1..<j] (dst, 1) = (d, u) \<and> u \<le> j \<and> length d = length dst \<and>
      take u d = firsts [] (take j dst) \<and> drop j d = drop j dst" if "1 \<le> j" "j \<le> length dst" for j
    using that
  proof (induction j)
    case (Suc j)
    show ?case
    proof (cases "j = 0")
      case True
      with assms show ?thesis by (auto simp: push_unique_def neq_Nil_conv)
    next
      case False
      with Suc obtain d u where du: "fold ?f [1..<j] (dst, 1) = (d, u)" "u \<le> j" "length d = length dst"
          "take u d = firsts [] (take j dst)" "drop j d = drop j dst"
        by auto
      from False have "[1..<Suc j] = [1..<j] @ [j]" by simp
      with du(1) have "fold ?f [1..<Suc j] (dst, 1) = ?f j (d, u)" by simp
      with compact_step [OF _ du(2-5)] Suc.prems show ?thesis
        by (cases "d ! j \<in> set (take u d)") (auto simp: Let_def)
    qed
  qed simp
  from this [of "length dst"] assms show ?thesis
    by (auto simp: compact_scan_def Suc_le_eq)
qed

lemma compact_seen_firsts: "compact_seen dst = (firsts [] dst, firsts [] dst)"
proof -
  let ?f = "\<lambda>idx (seen, d, u). let key = d ! idx in
    if key \<in> set seen then (seen, d, u) else (seen @ [key], d[u := key], u + 1)"
  have "\<exists>d u. fold ?f [0..<j] ([], dst, 0) = (take u d, d, u) \<and> u \<le> j \<and> length d = length dst \<and>
      take u d = firsts [] (take j dst) \<and> drop j d = drop j dst" if "j \<le> length dst" for j
    using that
  proof (induction j)
    case (Suc j)
    then obtain d u where du: "fold ?f [0..<j] ([], dst, 0) = (take u d, d, u)" "u \<le> j" "length d = length dst"
        "take u d = firsts [] (take j dst)" "drop j d = drop j dst"
      by auto
    then have "fold ?f [0..<Suc j] ([], dst, 0) = ?f j (take u d, d, u)" by simp
    moreover have "take (Suc u) (d[u := k]) = take u d @ [k]" for k
      using du(2,3) Suc.prems by (simp add: take_Suc_conv_app_nth)
    ultimately show ?case
      using compact_step [OF _ du(2-5)] Suc.prems
      by (cases "d ! j \<in> set (take u d)") (auto simp: Let_def)
  qed simp
  from this [of "length dst"] show ?thesis
    by (auto simp: compact_seen_def)
qed

lemma firsts_distinct: "distinct (acc @ ks) \<Longrightarrow> firsts acc ks = acc @ ks"
  by (induction ks arbitrary: acc) (auto simp: push_unique_def)

lemma extend_unique_firsts: "extend_unique_access_keys dst objs = firsts [] (dst @ map access_key objs)"
proof -
  have single: "push_unique a [] = [a]" for a by (simp add: push_unique_def)
  show ?thesis
    using compact_scan_firsts [of dst]
    by (cases dst) (auto simp: extend_unique_access_keys_def firsts_append fold_push_unique compact_seen_firsts fold_insert_seen single)
qed

text \<open>Every fast path of the intersection tests is the intersection of the key sets.\<close>

lemma probe_keys_iff: "probe_keys small large \<longleftrightarrow> or_id ` set small \<inter> or_id ` set large \<noteq> {}"
  unfolding probe_keys_def fold_push_unique by (fastforce simp: list_ex_iff access_key_def [abs_def])

lemma intersects_iff: "intersects x y \<longleftrightarrow> or_id ` set x \<inter> or_id ` set y \<noteq> {}"
proof -
  have meet: "(\<exists>b \<in> L. f b \<in> A) \<longleftrightarrow> A \<inter> f ` L \<noteq> {}" for f :: "ObjectRef \<Rightarrow> u64" and A L
    by auto
  have hashed: "list_ex (\<lambda>obj. access_key obj \<in> access_key ` set small) large \<longleftrightarrow> or_id ` set small \<inter> or_id ` set large \<noteq> {}"
    for small large unfolding list_ex_iff access_key_def [abs_def] meet ..
  have single: "list_ex (\<lambda>obj. or_id obj = k) zs \<longleftrightarrow> k \<in> or_id ` set zs" for k zs
    by (auto simp: list_ex_iff)
  consider "x = []" | "y = []" | a where "x = [a]" "y \<noteq> []" | b where "y = [b]" "x \<noteq> []" "length x \<noteq> 1" | "2 \<le> length x" "2 \<le> length y"
    by (cases x; cases "tl x"; cases y; cases "tl y") auto
  then show ?thesis
  proof cases
    case 5
    then have "x \<noteq> []" "y \<noteq> []" "length x \<noteq> 1" "length y \<noteq> 1" by auto
    then show ?thesis
      by (cases "length x \<le> length y") (simp_all add: intersects_def probe_keys_iff hashed Int_commute)
  qed (simp_all add: intersects_def single access_key_def)
qed

lemma probe_scan_iff: "set seen \<inter> set b = {} \<Longrightarrow> probe_scan seen a b \<longleftrightarrow> set a \<inter> set b \<noteq> {}"
  by (induction seen a b rule: probe_scan.induct) auto

lemma vec_hashset_intersects_iff: "vec_hashset_intersects a b \<longleftrightarrow> set a \<inter> set b \<noteq> {}"
  by (auto simp: vec_hashset_intersects_def probe_scan_iff length_Suc_conv)


section \<open>Conflicts, exactly\<close>

abbreviation tx_reads :: "Tx \<Rightarrow> u64 set" where "tx_reads tx \<equiv> or_id ` set (tx_read_set tx)"
abbreviation tx_writes :: "Tx \<Rightarrow> u64 set" where "tx_writes tx \<equiv> or_id ` set (tx_write_set tx)"

text \<open>The reference: one writes what the other reads or writes.\<close>

definition conflicting :: "Tx \<Rightarrow> Tx \<Rightarrow> bool" where
  "conflicting a b \<longleftrightarrow> tx_writes a \<inter> tx_writes b \<noteq> {} \<or> tx_writes a \<inter> tx_reads b \<noteq> {} \<or> tx_reads a \<inter> tx_writes b \<noteq> {}"

definition well_versioned :: "Tx \<Rightarrow> bool" where
  "well_versioned tx \<longleftrightarrow> one_version (tx_write_set tx @ tx_read_set tx)"

lemma assert_iff: "assert_tx_access_domain_versions_are_consistent tx = (if well_versioned tx then Ok () else Err AssertionFailed)"
  by (simp add: assert_tx_access_domain_versions_are_consistent_def combined_consistent_iff well_versioned_def)

lemma assert_batch_iff:
  "assert_tx_access_domain_versions_are_consistent_batch txs = (if \<forall>tx \<in> set txs. well_versioned tx then Ok () else Err AssertionFailed)"
  unfolding assert_tx_access_domain_versions_are_consistent_batch_def by (induction txs) (simp_all add: assert_iff)

lemma detect_conflict_eq:
  "detect_conflict a b = (if well_versioned a \<and> well_versioned b then Ok (conflicting a b) else Err AssertionFailed)"
  by (auto simp: detect_conflict_def assert_iff intersects_iff conflicting_def)

end
