(* ===== verification/Executor_Config.thy ===== *)
theory Executor_Config
  imports Prelude
begin

text \<open>
  The configuration of the executor (\<open>trnm-executor/src/lib.rs\<close>): values read from the process environment, parsed
  leniently, clamped, with defaults. The environment is the parameter \<open>env\<close> (\<open>std::env::var(name).ok()\<close>). \<open>f64\<close>
  is an abstract type \<open>'f\<close> with the operations the code uses, so nothing here depends on rounding.
  Targets have 64-bit \<open>usize\<close>.
\<close>

type_synonym environment = "string \<Rightarrow> string option"

record 'f f64_ops =
  fl_parse :: "string \<Rightarrow> 'f option"
  fl_lit :: "string \<Rightarrow> 'f"
  fl_usize :: "nat \<Rightarrow> 'f"
  fl_finite :: "'f \<Rightarrow> bool"
  fl_add :: "'f \<Rightarrow> 'f \<Rightarrow> 'f"
  fl_mul :: "'f \<Rightarrow> 'f \<Rightarrow> 'f"
  fl_div :: "'f \<Rightarrow> 'f \<Rightarrow> 'f"
  fl_less :: "'f \<Rightarrow> 'f \<Rightarrow> bool"
  fl_le :: "'f \<Rightarrow> 'f \<Rightarrow> bool"

section \<open>Strings\<close>

fun strip_prefix_char :: "char \<Rightarrow> string \<Rightarrow> string option" where
  "strip_prefix_char c [] = None"
| "strip_prefix_char c (x # xs) = (if x = c then Some xs else None)"

definition strip_suffix_char :: "char \<Rightarrow> string \<Rightarrow> string option" where
  "strip_suffix_char c s = map_option rev (strip_prefix_char c (rev s))"

text \<open>A value in double or in single quotes, without them.\<close>

definition dequote :: "string \<Rightarrow> string option" where
  "dequote s =
     (case Option.bind (strip_prefix_char (CHR 0x22) s) (strip_suffix_char (CHR 0x22)) of
        Some inner \<Rightarrow> Some inner
      | None \<Rightarrow> Option.bind (strip_prefix_char (CHR 0x27) s) (strip_suffix_char (CHR 0x27)))"

definition unquoted_value :: "string \<Rightarrow> string" where
  "unquoted_value trimmed = (case dequote trimmed of Some inner \<Rightarrow> trim inner | None \<Rightarrow> trimmed)"

definition is_digit :: "char \<Rightarrow> bool" where
  "is_digit c \<longleftrightarrow> CHR ''0'' \<le> c \<and> c \<le> CHR ''9''"

definition digits_value :: "string \<Rightarrow> nat" where
  "digits_value s = fold (\<lambda>c n. 10 * n + (of_char c - 48)) s 0"

text \<open>\<open>str::parse::<usize>\<close>: an optional plus sign, then at least one digit, and no overflow.\<close>

definition parse_usize :: "string \<Rightarrow> nat option" where
  "parse_usize s =
     (let ds = (case strip_prefix_char (CHR ''+'') s of Some r \<Rightarrow> r | None \<Rightarrow> s)
      in if ds = [] \<or> \<not> list_all is_digit ds \<or> digits_value ds \<ge> 2 ^ 64 then None else Some (digits_value ds))"

fun split_on :: "char \<Rightarrow> string \<Rightarrow> string list" where
  "split_on c [] = [[]]"
| "split_on c (x # xs) = (if x = c then [] # split_on c xs
     else (case split_on c xs of [] \<Rightarrow> [[x]] | p # ps \<Rightarrow> (x # p) # ps))"

definition lower :: "string \<Rightarrow> string" where
  "lower s = map (\<lambda>c. if CHR ''A'' \<le> c \<and> c \<le> CHR ''Z'' then char_of (of_char c + 32 :: nat) else c) s"

section \<open>Parsers\<close>

definition parse_env_numeric :: "environment \<Rightarrow> string \<Rightarrow> string option" where
  "parse_env_numeric env name = Option.bind (env name) (\<lambda>v.
     let trimmed = trim v; unquoted = unquoted_value trimmed
     in if trimmed = [] then None
        else if unquoted = [] then None
        else if CHR ''_'' \<in> set unquoted \<or> CHR '','' \<in> set unquoted then
          (let compact = filter (\<lambda>ch. ch \<noteq> CHR ''_'' \<and> ch \<noteq> CHR '','') unquoted
           in if compact = [] then None else Some compact)
        else Some unquoted)"

definition parse_env_usize :: "environment \<Rightarrow> string \<Rightarrow> nat option" where
  "parse_env_usize env name = Option.bind (parse_env_numeric env name) (\<lambda>v.
     let normalized = (case strip_prefix_char (CHR ''+'') v of Some r \<Rightarrow> r | None \<Rightarrow> v)
     in if normalized \<noteq> [] then parse_usize normalized else None)"

definition all_digits3 :: "string \<Rightarrow> bool" where
  "all_digits3 segment \<longleftrightarrow> length segment = 3 \<and> list_all is_digit segment"

definition parse_grouped_env_usize :: "environment \<Rightarrow> string \<Rightarrow> nat option" where
  "parse_grouped_env_usize env name = Option.bind (env name) (\<lambda>v.
     let trimmed = trim v; unquoted = unquoted_value trimmed
     in if trimmed = [] then None
        else if unquoted = [] then None
        else
          let compact = filter (\<lambda>ch. ch \<noteq> CHR ''_'') unquoted
          in if compact = [] \<or> list_all (\<lambda>ch. ch = CHR '','') compact then None
             else
               let normalized = (case strip_prefix_char (CHR ''+'') compact of Some r \<Rightarrow> r | None \<Rightarrow> compact)
               in if normalized = [] then None
                  else if CHR '','' \<in> set normalized then
                    (let parts = split_on (CHR '','') normalized; first = hd parts; rest = tl parts
                     in if first \<noteq> [] \<and> list_all is_digit first \<and> list_all all_digits3 rest
                        then parse_usize (filter (\<lambda>ch. ch \<noteq> CHR '','') normalized) else None)
                  else parse_usize normalized)"

text \<open>How a number with commas and no point is read: as decimal comma or as grouping.\<close>

definition single_comma :: "string \<Rightarrow> string" where
  "single_comma numeric =
     (let whole = takeWhile (\<lambda>c. c \<noteq> CHR '','') numeric; frac = drop (length whole + 1) numeric;
          no_comma = filter (\<lambda>c. c \<noteq> CHR '','') numeric
      in if (whole = [] \<or> whole = ''+'' \<or> whole = ''-'') \<and> frac \<noteq> [] \<and> list_all is_digit frac
         then (if whole = ''-'' then ''-'' else []) @ ''0.'' @ frac
         else if whole \<noteq> [] \<and> frac \<noteq> [] \<and> list_all (\<lambda>c. c = CHR ''+'' \<or> c = CHR ''-'' \<or> is_digit c) whole \<and> list_all is_digit frac
         then
           (let whole_digits = dropWhile (\<lambda>c. c = CHR ''+'' \<or> c = CHR ''-'') whole;
                whole_is_zero = (whole_digits \<noteq> [] \<and> list_all (\<lambda>c. c = CHR ''0'') whole_digits)
            in if length frac = 3 \<and> list_ex is_digit whole \<and> \<not> whole_is_zero then no_comma
               else map (\<lambda>c. if c = CHR '','' then CHR ''.'' else c) numeric)
         else no_comma)"

definition normalize_decimal :: "string \<Rightarrow> string option" where
  "normalize_decimal numeric =
     (let no_comma = filter (\<lambda>c. c \<noteq> CHR '','') numeric
      in if CHR '','' \<in> set numeric \<and> CHR ''.'' \<notin> set numeric then
           (if length (filter (\<lambda>c. c = CHR '','') numeric) = 1 then Some (single_comma numeric)
            else
              let parts = split_on (CHR '','') numeric; whole = hd parts; groups = tl parts
              in if whole \<noteq> [] \<and> list_all (\<lambda>c. c = CHR ''+'' \<or> c = CHR ''-'' \<or> is_digit c) whole \<and> list_ex is_digit whole \<and>
                    list_all all_digits3 groups
                 then Some no_comma else None)
         else Some no_comma)"

definition parse_env_f64 :: "'f f64_ops \<Rightarrow> environment \<Rightarrow> string \<Rightarrow> 'f option" where
  "parse_env_f64 fl env name = Option.bind (env name) (\<lambda>v.
     let trimmed = trim v; unquoted = unquoted_value trimmed
     in if trimmed = [] then None
        else if unquoted = [] then None
        else
          let compact = filter (\<lambda>ch. ch \<noteq> CHR ''_'') unquoted
          in if compact = [] \<or> list_all (\<lambda>ch. ch = CHR '','') compact then None
             else
               let percent = (last compact = CHR ''%''); numeric = (if percent then butlast compact else compact)
               in if numeric = [] then None
                  else Option.bind (normalize_decimal numeric) (\<lambda>normalized.
                    Option.bind (fl_parse fl normalized) (\<lambda>parsed.
                    if \<not> fl_finite fl parsed then None
                    else
                      let value = (if percent then fl_div fl parsed (fl_lit fl ''100.0'') else parsed)
                      in if fl_finite fl value then Some value else None)))"

definition env_toggle_enabled :: "environment \<Rightarrow> string \<Rightarrow> bool \<Rightarrow> bool" where
  "env_toggle_enabled env name dflt =
     (case env name of
        None \<Rightarrow> dflt
      | Some v \<Rightarrow>
          let trimmed = trim v; unquoted = (case dequote trimmed of Some inner \<Rightarrow> inner | None \<Rightarrow> trimmed); s = lower (trim unquoted)
          in if s = [] \<or> list_all (\<lambda>ch. ch = CHR ''_'' \<or> ch = CHR '','') s then dflt
             else \<not> (s = ''0'' \<or> s = ''false'' \<or> s = ''off'' \<or> s = ''no''))"

section \<open>Knobs\<close>

definition clamp :: "nat \<Rightarrow> nat \<Rightarrow> nat \<Rightarrow> nat" where
  "clamp v lo hi = (if v < lo then lo else if v > hi then hi else v)"

definition clamp_unit :: "'f f64_ops \<Rightarrow> 'f \<Rightarrow> 'f" where
  "clamp_unit fl v =
     (let x = (if fl_less fl v (fl_lit fl ''0.0'') then fl_lit fl ''0.0'' else v)
      in if fl_less fl (fl_lit fl ''1.0'') x then fl_lit fl ''1.0'' else x)"

definition aggr_deep_scan_enabled :: "environment \<Rightarrow> bool" where
  "aggr_deep_scan_enabled env = env_toggle_enabled env ''TRNM_AGGR_DEEP_SCAN'' False"

definition aggr_skip_empty_stage_checks :: "environment \<Rightarrow> bool" where
  "aggr_skip_empty_stage_checks env = env_toggle_enabled env ''TRNM_AGGR_SKIP_EMPTY_STAGE_CHECKS'' True"

definition aggr_scan_round_robin_enabled :: "environment \<Rightarrow> bool" where
  "aggr_scan_round_robin_enabled env = env_toggle_enabled env ''TRNM_AGGR_SCAN_ROUND_ROBIN'' True"

definition aggr_scan_round_robin_seed :: "environment \<Rightarrow> nat" where
  "aggr_scan_round_robin_seed env = (case parse_grouped_env_usize env ''TRNM_AGGR_SCAN_RR_SEED'' of Some v \<Rightarrow> v | None \<Rightarrow> 0)"

definition aggr_scan_window :: "environment \<Rightarrow> nat" where
  "aggr_scan_window env =
     (case map_option (\<lambda>v. min v 4096) (parse_grouped_env_usize env ''TRNM_AGGR_SCAN_WINDOW'') of
        Some v \<Rightarrow> if v > 0 then v else (if aggr_deep_scan_enabled env then 0 else 0)
      | None \<Rightarrow> if aggr_deep_scan_enabled env then 0 else 0)"

definition unit_knob :: "'f f64_ops \<Rightarrow> environment \<Rightarrow> string \<Rightarrow> string \<Rightarrow> 'f" where
  "unit_knob fl env name dflt = (case parse_env_f64 fl env name of Some v \<Rightarrow> clamp_unit fl v | None \<Rightarrow> fl_lit fl dflt)"

definition auto_hot_streak_threshold :: "'f f64_ops \<Rightarrow> environment \<Rightarrow> 'f" where
  "auto_hot_streak_threshold fl env = unit_knob fl env ''TRNM_AUTO_HOT_STREAK_RATIO'' ''0.22''"

definition auto_reorder_min_margin :: "'f f64_ops \<Rightarrow> environment \<Rightarrow> 'f" where
  "auto_reorder_min_margin fl env = unit_knob fl env ''TRNM_AUTO_REORDER_MIN_MARGIN'' ''0.04''"

definition auto_reorder_min_hot_key_share :: "'f f64_ops \<Rightarrow> environment \<Rightarrow> 'f" where
  "auto_reorder_min_hot_key_share fl env = unit_knob fl env ''TRNM_AUTO_REORDER_MIN_HOT_KEY_SHARE'' ''0.0075''"

definition auto_min_expected_gain_score :: "'f f64_ops \<Rightarrow> environment \<Rightarrow> 'f" where
  "auto_min_expected_gain_score fl env = unit_knob fl env ''TRNM_AUTO_MIN_EXPECTED_GAIN_SCORE'' ''0.01''"

definition hot_bucket_count :: "environment \<Rightarrow> nat" where
  "hot_bucket_count env = (case parse_env_usize env ''TRNM_HOT_BUCKETS'' of Some v \<Rightarrow> clamp v 4 64 | None \<Rightarrow> 8)"

definition auto_adaptive_min_batch_len :: "environment \<Rightarrow> nat" where
  "auto_adaptive_min_batch_len env = (case parse_grouped_env_usize env ''TRNM_AUTO_MIN_BATCH_LEN'' of Some v \<Rightarrow> clamp v 64 4096 | None \<Rightarrow> 512)"

definition auto_adaptive_sample_len :: "environment \<Rightarrow> nat \<Rightarrow> nat" where
  "auto_adaptive_sample_len env batch_len =
     min batch_len (case parse_grouped_env_usize env ''TRNM_AUTO_SAMPLE_LEN'' of Some v \<Rightarrow> clamp v 64 2048 | None \<Rightarrow> 2048)"

text \<open>Whatever the environment says, the knobs that bound the work stay within their limits.\<close>

lemma knob_bounds:
  "4 \<le> hot_bucket_count env" "hot_bucket_count env \<le> 64" "aggr_scan_window env \<le> 4096"
  "64 \<le> auto_adaptive_min_batch_len env" "auto_adaptive_sample_len env n \<le> n"
  by (simp_all add: hot_bucket_count_def aggr_scan_window_def auto_adaptive_min_batch_len_def auto_adaptive_sample_len_def clamp_def
      split: option.splits)

end
