(* ===== verification/Executor_Groups.thy ===== *)
theory Executor_Groups
  imports Executor_Conflict Executor_Config "HOL-Library.Multiset"
begin

text \<open>
  Scheduling of transactions into parallel groups (\<open>trnm-executor/src/lib.rs\<close>, the second half): reordering
  strategies, the placement of each transaction behind the accesses it depends on, and the
  experimental deep scan. A \<open>HashMap\<close> is a \<open>btree\<close>; capacities of maps and vectors have no effect and are left out.
  After the assertions at the start of an operation its helpers cannot fail, so the key functions
  inside sort keys and loops are used without their assertion.
\<close>

unbundle bit_operations_syntax

section \<open>Profiles\<close>

datatype GroupingStrategy =
    Original | FootprintDesc | WriteFirst | WriteLast | HotBucketInterleave | AutoAdaptive | AggressiveGreedy

record 'f GroupingProfile =
  gp_tx_count :: nat
  gp_group_count :: nat
  gp_grouped_count :: nat
  gp_max_group_size :: nat
  gp_min_group_size :: nat
  gp_avg_group_size :: 'f
  gp_hot_object_share :: 'f
  gp_conflict_checks :: nat
  gp_conflict_hits :: nat
  gp_candidate_groups_scanned :: nat
  gp_retry_fallback_new_groups :: nat
  gp_stage_ww_checks :: nat
  gp_stage_ww_hits :: nat
  gp_stage_wr_checks :: nat
  gp_stage_wr_hits :: nat
  gp_stage_rw_checks :: nat
  gp_stage_rw_hits :: nat

definition bump :: "'k::linorder \<Rightarrow> ('k, nat) btree \<Rightarrow> ('k, nat) btree" where
  "bump key counts = bt_insert key ((case bt_get counts key of None \<Rightarrow> 0 | Some n \<Rightarrow> n) + 1) counts"

definition max_or_0 :: "nat list \<Rightarrow> nat" where
  "max_or_0 xs = (if xs = [] then 0 else Max (set xs))"

definition min_or_0 :: "nat list \<Rightarrow> nat" where
  "min_or_0 xs = (if xs = [] then 0 else Min (set xs))"

definition hot_object_share :: "'f f64_ops \<Rightarrow> Tx list \<Rightarrow> ('f, ExecutorPanic) result" where
  "hot_object_share fl txs =
     tryR (try_fold (\<lambda>(counts, total) tx. tryR (assert_tx_access_domain_versions_are_consistent tx) (\<lambda>_.
             tryR (tx_access_domain_keys tx) (\<lambda>keys. Ok (fold bump keys counts, total + length keys)))) (bt_empty, 0) txs) (\<lambda>(counts, total).
     Ok (if total = 0 then fl_lit fl ''0.0''
         else fl_div fl (fl_usize fl (max_or_0 (map snd (entries counts)))) (fl_usize fl total)))"

text \<open>Counters of one run of the placement loops.\<close>

record Counters =
  cn_checks :: nat
  cn_hits :: nat
  cn_scanned :: nat
  cn_fallback :: nat
  cn_ww_checks :: nat
  cn_ww_hits :: nat
  cn_wr_checks :: nat
  cn_wr_hits :: nat
  cn_rw_checks :: nat
  cn_rw_hits :: nat

definition no_counts :: Counters where
  "no_counts = \<lparr>cn_checks = 0, cn_hits = 0, cn_scanned = 0, cn_fallback = 0, cn_ww_checks = 0, cn_ww_hits = 0,
     cn_wr_checks = 0, cn_wr_hits = 0, cn_rw_checks = 0, cn_rw_hits = 0\<rparr>"

definition profile_of :: "'f f64_ops \<Rightarrow> Tx list \<Rightarrow> Tx list list \<Rightarrow> 'f \<Rightarrow> Counters \<Rightarrow> 'f GroupingProfile" where
  "profile_of fl txs groups share c =
     (let group_count = length groups; grouped_count = sum_list (map length groups)
      in \<lparr>gp_tx_count = length txs, gp_group_count = group_count, gp_grouped_count = grouped_count,
          gp_max_group_size = max_or_0 (map length groups), gp_min_group_size = min_or_0 (map length groups),
          gp_avg_group_size = (if group_count = 0 then fl_lit fl ''0.0''
             else fl_div fl (fl_usize fl grouped_count) (fl_usize fl group_count)),
          gp_hot_object_share = share, gp_conflict_checks = cn_checks c, gp_conflict_hits = cn_hits c,
          gp_candidate_groups_scanned = cn_scanned c, gp_retry_fallback_new_groups = cn_fallback c,
          gp_stage_ww_checks = cn_ww_checks c, gp_stage_ww_hits = cn_ww_hits c, gp_stage_wr_checks = cn_wr_checks c,
          gp_stage_wr_hits = cn_wr_hits c, gp_stage_rw_checks = cn_rw_checks c, gp_stage_rw_hits = cn_rw_hits c\<rparr>)"

text \<open>The size hint for the maps: bounded, and otherwise without effect.\<close>

definition access_map_capacity_hint :: "Tx list \<Rightarrow> (nat, ExecutorPanic) result" where
  "access_map_capacity_hint txs =
     tryR (try_fold (\<lambda>footprint tx. tryR (assert_tx_access_domain_versions_are_consistent tx) (\<lambda>_.
             Ok (min (2 ^ 64 - 1) (footprint + length (extend_unique_access_keys (dedup_access_keys (tx_write_set tx)) (tx_read_set tx)))))) 0 txs)
       (\<lambda>footprint. Ok (clamp (min (2 ^ 64 - 1) (min (2 ^ 64 - 1) (footprint * 4) div 3 + 1)) 64 (2 ^ 20)))"

section \<open>Hot keys\<close>

definition nth_or_0 :: "u64 list \<Rightarrow> nat \<Rightarrow> u64" where
  "nth_or_0 ks i = (if i < length ks then ks ! i else 0)"

definition other_key :: "u64 \<Rightarrow> u64 list \<Rightarrow> u64 option" where
  "other_key primary ks = find (\<lambda>k. k \<noteq> primary) ks"

definition or_0 :: "u64 option \<Rightarrow> u64" where
  "or_0 x = (case x of Some k \<Rightarrow> k | None \<Rightarrow> 0)"

definition min_opt :: "u64 option \<Rightarrow> u64 option \<Rightarrow> u64" where
  "min_opt a b = (case a of
       Some x \<Rightarrow> (case b of Some y \<Rightarrow> min x y | None \<Rightarrow> x)
     | None \<Rightarrow> (case b of Some y \<Rightarrow> y | None \<Rightarrow> 0))"

definition first_some :: "'a option \<Rightarrow> 'a option \<Rightarrow> 'a option" where
  "first_some a b = (case a of Some x \<Rightarrow> Some x | None \<Rightarrow> b)"

definition hot_bucket_keys :: "Tx \<Rightarrow> (u64 \<times> u64, ExecutorPanic) result" where
  "hot_bucket_keys tx =
     tryR (assert_tx_access_domain_versions_are_consistent tx) (\<lambda>_.
     let write_keys = sort (dedup_access_keys_no_version (tx_write_set tx));
         read_keys = sort (dedup_access_keys_no_version (tx_read_set tx));
         all_keys = remdups_adj (sort (write_keys @ read_keys));
         primary = hd all_keys;
         single_write = (length (filter (\<lambda>k. k \<noteq> primary) write_keys) \<le> 1);
         single_read = (length (filter (\<lambda>k. k \<noteq> primary) read_keys) \<le> 1);
         echoed = (primary \<in> set write_keys \<and> primary \<in> set read_keys)
     in Ok (if write_keys = [] then (nth_or_0 read_keys 0, nth_or_0 read_keys 1)
            else if read_keys = [] then (nth_or_0 write_keys 0, nth_or_0 write_keys 1)
            else if all_keys = [] then (0, 0)
            else if primary = 0 then (primary, or_0 (other_key primary all_keys))
            else if echoed \<and> (single_write \<or> single_read)
            then (primary, min_opt (other_key primary write_keys) (other_key primary read_keys))
            else if write_keys ! 0 = primary
            then (primary, or_0 (first_some (other_key primary write_keys) (other_key primary read_keys)))
            else (primary, or_0 (first_some (Some (write_keys ! 0)) (other_key primary read_keys)))))"

definition is_power_of_two :: "nat \<Rightarrow> bool" where
  "is_power_of_two n = list_ex (\<lambda>k. n = 2 ^ k) [0..<64]"

definition hot_bucket_hint :: "Tx \<Rightarrow> nat \<Rightarrow> (nat, ExecutorPanic) result" where
  "hot_bucket_hint tx buckets_n =
     tryR (assert_tx_access_domain_versions_are_consistent tx) (\<lambda>_.
     if buckets_n \<le> 1 then Ok 0
     else tryR (tx_access_domain_keys tx) (\<lambda>keys.
       let mixed = (case keys of
             [] \<Rightarrow> 0
           | [k] \<Rightarrow> k
           | _ \<Rightarrow> let ks = remdups_adj (sort keys); key_a = hd ks; key_b = or_0 (other_key key_a ks)
                  in key_a XOR word_rotl 7 key_b)
       in Ok (if is_power_of_two buckets_n then unat (mixed AND (word_of_nat buckets_n - 1))
              else unat (mixed mod word_of_nat buckets_n))))"

section \<open>Adaptive choice of the strategy\<close>

record 'f AutoAdaptiveDecision =
  ad_use_hot_bucket :: bool
  ad_reason :: string
  ad_sample_len :: nat
  ad_streak_ratio :: 'f
  ad_streak_threshold :: 'f
  ad_min_margin :: 'f
  ad_hot_key_share :: 'f
  ad_min_hot_key_share :: 'f
  ad_expected_gain_score :: 'f
  ad_min_expected_gain_score :: 'f

record SampleState =
  ss_hits :: nat
  ss_pairs :: nat
  ss_prev_key :: "(u64 \<times> u64) option"
  ss_hist :: "(u64 \<times> u64, nat) btree"
  ss_observed :: nat
  ss_prev_idx :: "nat option"

definition sample_index :: "nat \<Rightarrow> nat \<Rightarrow> nat \<Rightarrow> nat" where
  "sample_index sample_len batch_len i =
     (if sample_len = batch_len then i
      else if sample_len > 1 then min (2 ^ 64 - 1) (i * (batch_len - 1)) div (sample_len - 1)
      else 0)"

definition sample_key :: "Tx \<Rightarrow> ((u64 \<times> u64) option, ExecutorPanic) result" where
  "sample_key tx =
     tryR (hot_bucket_keys tx) (\<lambda>(key_a, key_b).
     if tx_read_set tx = [] \<and> tx_write_set tx = [] then Ok None
     else if tx_read_set tx = [] \<or> tx_write_set tx = [] then Ok (Some (key_a, key_b))
     else tryR (primary_access_domain_key tx) (\<lambda>p. Ok (if p = Some key_a then Some (key_a, 0) else Some (key_a, key_b))))"

definition sample_step :: "Tx list \<Rightarrow> nat \<Rightarrow> SampleState \<Rightarrow> nat \<Rightarrow> (SampleState, ExecutorPanic) result" where
  "sample_step txs sample_len s i =
     (let idx = sample_index sample_len (length txs) i
      in if ss_prev_idx s = Some idx then Ok s
         else tryR (sample_key (txs ! idx)) (\<lambda>key.
           Ok (case key of
                 None \<Rightarrow> s\<lparr>ss_prev_idx := Some idx, ss_prev_key := None\<rparr>
               | Some k \<Rightarrow> s\<lparr>ss_prev_idx := Some idx, ss_observed := ss_observed s + 1, ss_hist := bump k (ss_hist s),
                   ss_pairs := ss_pairs s + (if ss_prev_key s = None then 0 else 1),
                   ss_hits := ss_hits s + (if ss_prev_key s = Some k then 1 else 0), ss_prev_key := Some k\<rparr>)))"

definition auto_adaptive_decision :: "'f f64_ops \<Rightarrow> environment \<Rightarrow> Tx list \<Rightarrow> ('f AutoAdaptiveDecision, ExecutorPanic) result" where
  "auto_adaptive_decision fl env txs =
     tryR (assert_tx_access_domain_versions_are_consistent_batch txs) (\<lambda>_.
     let threshold = auto_hot_streak_threshold fl env; min_margin = auto_reorder_min_margin fl env;
         min_share = auto_reorder_min_hot_key_share fl env; min_gain = auto_min_expected_gain_score fl env;
         zero = fl_lit fl ''0.0'';
         quiet = (\<lambda>reason len. \<lparr>ad_use_hot_bucket = False, ad_reason = reason, ad_sample_len = len, ad_streak_ratio = zero,
           ad_streak_threshold = threshold, ad_min_margin = min_margin, ad_hot_key_share = zero,
           ad_min_hot_key_share = min_share, ad_expected_gain_score = zero, ad_min_expected_gain_score = min_gain\<rparr>)
     in if length txs < auto_adaptive_min_batch_len env then Ok (quiet ''small_batch'' (length txs))
        else
          let sample_len = auto_adaptive_sample_len env (length txs)
          in tryR (try_fold (sample_step txs sample_len) \<lparr>ss_hits = 0, ss_pairs = 0, ss_prev_key = None, ss_hist = bt_empty,
                 ss_observed = 0, ss_prev_idx = None\<rparr> [0..<sample_len]) (\<lambda>s.
             if ss_pairs s = 0 \<or> ss_observed s = 0 then Ok (quiet ''insufficient_sample'' sample_len)
             else
               let streak_ratio = fl_div fl (fl_usize fl (ss_hits s)) (fl_usize fl (ss_pairs s));
                   share = fl_div fl (fl_usize fl (max_or_0 (map snd (entries (ss_hist s))))) (fl_usize fl (ss_observed s));
                   gain = fl_mul fl streak_ratio share;
                   use = (fl_le fl (fl_add fl threshold min_margin) streak_ratio \<and> fl_le fl min_share share \<and> fl_le fl min_gain gain);
                   reason = (if use then ''hotspot_detected'' else if fl_less fl share min_share then ''low_hot_key_share''
                     else if fl_less fl gain min_gain then ''low_expected_gain'' else ''below_streak_budget'')
               in Ok \<lparr>ad_use_hot_bucket = use, ad_reason = reason, ad_sample_len = sample_len, ad_streak_ratio = streak_ratio,
                    ad_streak_threshold = threshold, ad_min_margin = min_margin, ad_hot_key_share = share,
                    ad_min_hot_key_share = min_share, ad_expected_gain_score = gain, ad_min_expected_gain_score = min_gain\<rparr>))"


section \<open>Reordering\<close>

text \<open>The first pass of the interleaving: hints, depths of the buckets, occupied buckets.\<close>

record BucketPass =
  bp_depths :: "nat list"
  bp_hints :: "nat list"
  bp_non_empty :: nat
  bp_seen :: "bool list"
  bp_signaled :: nat

definition no_access :: "Tx \<Rightarrow> bool" where
  "no_access tx \<longleftrightarrow> tx_read_set tx = [] \<and> tx_write_set tx = []"

definition bucket_step :: "nat \<Rightarrow> BucketPass \<Rightarrow> Tx \<Rightarrow> (BucketPass, ExecutorPanic) result" where
  "bucket_step buckets_n p tx =
     tryR (hot_bucket_hint tx buckets_n) (\<lambda>bucket.
     Ok (let p1 = p\<lparr>bp_hints := bp_hints p @ [bucket],
               bp_non_empty := bp_non_empty p + (if bp_depths p ! bucket = 0 then 1 else 0),
               bp_depths := (bp_depths p)[bucket := bp_depths p ! bucket + 1]\<rparr>
         in if \<not> (bp_seen p ! bucket \<or> no_access tx)
            then p1\<lparr>bp_seen := (bp_seen p)[bucket := True], bp_signaled := bp_signaled p + 1\<rparr> else p1))"

definition sparse_start :: "nat \<Rightarrow> nat list \<Rightarrow> nat \<Rightarrow> nat option" where
  "sparse_start n depths first_hint =
     (let (min_non_zero, max_depth) = fold (\<lambda>depth (mn, mx). if depth = 0 then (mn, mx) else (min mn depth, max mx depth))
            depths (2 ^ 64 - 1, 0)
      in if min_non_zero \<noteq> 2 ^ 64 - 1 \<and> max_depth \<ge> min (2 ^ 64 - 1) (2 * min_non_zero)
         then fst (fold (\<lambda>(idx, depth) (best_idx, best_distance, best_counter).
             if depth \<noteq> min_non_zero then (best_idx, best_distance, best_counter)
             else
               let clockwise = (idx + n - first_hint) mod n; counter = (first_hint + n - idx) mod n; distance = min clockwise counter
               in if distance < best_distance \<or> (distance = best_distance \<and> counter < best_counter)
                  then (Some idx, distance, counter) else (best_idx, best_distance, best_counter))
             (enumerate 0 depths) (None, 2 ^ 64 - 1, 2 ^ 64 - 1))
         else None)"

definition fill_buckets :: "nat \<Rightarrow> (Tx \<times> nat) list \<Rightarrow> Tx list list" where
  "fill_buckets n rows = fold (\<lambda>(tx, bucket) bs. bs[bucket := bs ! bucket @ [tx]]) rows (replicate n [])"

text \<open>One round over all buckets, and rounds until nothing moves.\<close>

definition rr_step :: "nat \<Rightarrow> nat \<Rightarrow> nat \<Rightarrow> Tx list list \<times> Tx list \<times> bool \<Rightarrow> Tx list list \<times> Tx list \<times> bool" where
  "rr_step n rr_start step st = (case st of (iters, merged, moved) \<Rightarrow>
     let idx = (rr_start + step) mod n
     in case iters ! idx of [] \<Rightarrow> (iters, merged, moved) | tx # rest \<Rightarrow> (iters[idx := rest], merged @ [tx], True))"

definition rr_round :: "nat \<Rightarrow> nat \<Rightarrow> Tx list list \<Rightarrow> Tx list \<Rightarrow> Tx list list \<times> Tx list \<times> bool" where
  "rr_round n rr_start iters merged = fold (rr_step n rr_start) [0..<n] (iters, merged, False)"

definition rr_inv :: "Tx list list \<Rightarrow> Tx list \<Rightarrow> nat set \<Rightarrow> Tx list list \<times> Tx list \<times> bool \<Rightarrow> bool" where
  "rr_inv iters merged S st = (case st of (it, me, mv) \<Rightarrow>
     length it = length iters \<and> mset (concat it) + mset me = mset (concat iters) + mset merged \<and>
     (if mv then length merged < length me else it = iters \<and> me = merged \<and> (\<forall>i \<in> S. iters ! i = [])))"

lemma mset_pop:
  assumes "xs ! i = t # r" "i < length xs"
  shows "mset (concat xs) = add_mset t (mset (concat (xs[i := r])))"
proof -
  have "xs = take i xs @ (t # r) # drop (Suc i) xs" using assms by (metis id_take_nth_drop)
  then have "concat xs = concat (take i xs) @ (t # r) @ concat (drop (Suc i) xs)" by (metis concat.simps(2) concat_append)
  moreover have "concat (xs[i := r]) = concat (take i xs) @ r @ concat (drop (Suc i) xs)"
    using assms(2) by (simp add: upd_conv_take_nth_drop)
  ultimately show ?thesis by simp
qed

lemma rr_step_inv:
  assumes "rr_inv iters merged S st" "iters \<noteq> []" "n = length iters"
  shows "rr_inv iters merged (insert ((rr + s) mod n) S) (rr_step n rr s st)"
proof -
  obtain it me mv where st: "st = (it, me, mv)" by (cases st)
  have idx: "(rr + s) mod n < length it" using assms st by (simp add: rr_inv_def)
  show ?thesis
  proof (cases "it ! ((rr + s) mod n)")
    case Nil
    with assms(1) st show ?thesis by (auto simp: rr_inv_def rr_step_def Let_def)
  next
    case (Cons t r)
    with mset_pop [OF Cons idx] assms(1) st show ?thesis
      by (auto simp: rr_inv_def rr_step_def Let_def split: if_splits)
  qed
qed

lemma rr_round_inv: "rr_inv iters merged {(rr + s) mod length iters |s. s < length iters} (rr_round (length iters) rr iters merged)"
proof (cases "iters = []")
  case True
  then show ?thesis by (simp add: rr_round_def rr_inv_def)
next
  case False
  have "rr_inv iters merged ((\<lambda>s. (rr + s) mod length iters) ` set ss) (fold (rr_step (length iters) rr) ss (iters, merged, False))" for ss
  proof (induction ss rule: rev_induct)
    case (snoc s ss)
    from rr_step_inv [OF snoc.IH False refl, of rr s] show ?case by simp
  qed (simp add: rr_inv_def)
  from this [of "[0..<length iters]"] show ?thesis
    by (simp add: rr_round_def setcompr_eq_image lessThan_def [symmetric] atLeast_upt)
qed

lemma rr_round_facts:
  assumes "rr_round (length iters) rr iters merged = (iters', merged', moved)"
  shows "length iters' = length iters" "mset (concat iters') + mset merged' = mset (concat iters) + mset merged"
    "moved \<Longrightarrow> length (concat iters') < length (concat iters)" "\<not> moved \<Longrightarrow> merged' = merged"
    "\<not> moved \<Longrightarrow> concat iters = []"
proof -
  have inv: "rr_inv iters merged {(rr + s) mod length iters |s. s < length iters} (iters', merged', moved)"
    using rr_round_inv [of iters merged rr] assms by simp
  then show eq: "length iters' = length iters" "mset (concat iters') + mset merged' = mset (concat iters) + mset merged"
    and "\<not> moved \<Longrightarrow> merged' = merged"
    by (auto simp: rr_inv_def)
  have "size (mset (concat iters') + mset merged') = size (mset (concat iters) + mset merged)" using eq(2) by simp
  then have "length (concat iters') + length merged' = length (concat iters) + length merged" by (simp only: size_union size_mset)
  then show "moved \<Longrightarrow> length (concat iters') < length (concat iters)"
    using inv by (simp add: rr_inv_def)
  assume "\<not> moved"
  have "iters ! i = []" if "i < length iters" for i
  proof -
    let ?n = "length iters"
    have "(rr + (i + ?n - rr mod ?n) mod ?n) mod ?n = (rr mod ?n + (i + ?n - rr mod ?n)) mod ?n" by (simp add: mod_simps)
    also have "\<dots> = i"
    proof -
      have "rr mod ?n < ?n" using that by (intro mod_less_divisor) auto
      with that show ?thesis by simp
    qed
    finally have "i = (rr + (i + ?n - rr mod ?n) mod ?n) mod ?n" by simp
    moreover have "(i + ?n - rr mod ?n) mod ?n < ?n" using that by (intro mod_less_divisor) auto
    ultimately have "i \<in> {(rr + s) mod ?n |s. s < ?n}" by blast
    with inv \<open>\<not> moved\<close> show ?thesis unfolding rr_inv_def by auto
  qed
  then show "concat iters = []" by (auto simp: in_set_conv_nth)
qed

function rr_loop :: "nat \<Rightarrow> Tx list list \<Rightarrow> Tx list \<Rightarrow> Tx list" where
  "rr_loop rr_start iters merged =
     (case rr_round (length iters) rr_start iters merged of (iters', merged', moved) \<Rightarrow>
        if moved then rr_loop ((rr_start + 1) mod length iters) iters' merged' else merged')"
  by pat_completeness auto
termination
proof (relation "measure (\<lambda>(_, iters, _). length (concat iters))")
  fix rr iters merged iters' y merged' and moved :: bool
  assume "(iters', y) = rr_round (length iters) rr iters merged" "(merged', moved) = y" moved
  then have "rr_round (length iters) rr iters merged = (iters', merged', True)" by (metis (full_types))
  from rr_round_facts(3) [OF this] show "(((rr + 1) mod length iters, iters', merged'), rr, iters, merged) \<in> measure (\<lambda>(_, iters, _). length (concat iters))"
    by simp
qed auto

declare rr_loop.simps [simp del]


definition interleave :: "environment \<Rightarrow> Tx list \<Rightarrow> (Tx list, ExecutorPanic) result" where
  "interleave env txs =
     (if length txs \<le> 1 then Ok txs
      else if length txs < 4 then Ok txs
      else if list_all no_access txs then Ok txs
      else
        let buckets_n = min (hot_bucket_count env) (length txs)
        in if buckets_n \<le> 1 then Ok txs
           else
             tryR (try_fold (bucket_step buckets_n) \<lparr>bp_depths = replicate buckets_n 0, bp_hints = [], bp_non_empty = 0,
                     bp_seen = replicate buckets_n False, bp_signaled = 0\<rparr> txs) (\<lambda>p.
             if bp_non_empty p \<le> 1 then Ok txs
             else if bp_signaled p \<le> 1 then Ok txs
             else if bp_non_empty p = length txs then Ok txs
             else
               let first_hint = (case bp_hints p of [] \<Rightarrow> 0 | h # _ \<Rightarrow> h);
                   rr_start = (case sparse_start buckets_n (bp_depths p) first_hint of Some i \<Rightarrow> i | None \<Rightarrow> first_hint);
                   merged = rr_loop rr_start (fill_buckets buckets_n (zip txs (bp_hints p))) []
               in Ok (take (length txs) merged @ drop (length merged) txs)))"

definition reorder_for_strategy :: "environment \<Rightarrow> Tx list \<Rightarrow> GroupingStrategy \<Rightarrow> (Tx list, ExecutorPanic) result" where
  "reorder_for_strategy env txs strategy =
     (case strategy of
        Original \<Rightarrow> Ok txs
      | FootprintDesc \<Rightarrow>
          tryR (assert_tx_access_domain_versions_are_consistent_batch txs) (\<lambda>_.
          Ok (sort_key (\<lambda>tx. (- int (length (domain_keys tx)), tx_id tx)) txs))
      | WriteFirst \<Rightarrow>
          tryR (assert_tx_access_domain_versions_are_consistent_batch txs) (\<lambda>_.
          Ok (sort_key (\<lambda>tx. (- int (length (dedup_access_keys_no_version (tx_write_set tx))),
                - int (length (dedup_access_keys_no_version (tx_read_set tx))), tx_id tx)) txs))
      | WriteLast \<Rightarrow>
          tryR (assert_tx_access_domain_versions_are_consistent_batch txs) (\<lambda>_.
          Ok (sort_key (\<lambda>tx. (int (length (dedup_access_keys_no_version (tx_write_set tx))),
                - int (length (dedup_access_keys_no_version (tx_read_set tx))), tx_id tx)) txs))
      | HotBucketInterleave \<Rightarrow>
          tryR (assert_tx_access_domain_versions_are_consistent_batch txs) (\<lambda>_. interleave env txs)
      | AutoAdaptive \<Rightarrow> Ok txs
      | AggressiveGreedy \<Rightarrow> Ok txs)"

section \<open>Placement\<close>

record GroupState =
  gs_groups :: "Tx list list"
  gs_writer :: "(u64, nat) btree"
  gs_reader :: "(u64, nat) btree"
  gs_counters :: Counters

text \<open>A lookup in one of the two maps that may push the transaction to a later group.\<close>

definition require_after :: "(u64, nat) btree \<Rightarrow> u64 \<Rightarrow> nat \<times> Counters \<Rightarrow> nat \<times> Counters" where
  "require_after m key rc = (case rc of (required, c) \<Rightarrow>
     (case bt_get m key of
        None \<Rightarrow> (required, c\<lparr>cn_checks := cn_checks c + 1\<rparr>)
      | Some g \<Rightarrow> (max required (g + 1), c\<lparr>cn_checks := cn_checks c + 1, cn_hits := cn_hits c + 1\<rparr>)))"

definition required_group :: "(u64, nat) btree \<Rightarrow> (u64, nat) btree \<Rightarrow> u64 list \<Rightarrow> u64 list \<Rightarrow> Counters \<Rightarrow> nat \<times> Counters" where
  "required_group writer reader read_keys write_keys c =
     fold (\<lambda>key rc. require_after reader key (require_after writer key rc)) write_keys
       (fold (require_after writer) read_keys (0, c))"

text \<open>\<open>groups.resize_with(r + 1, Vec::new); groups[r].push(tx)\<close>, where resizing only ever grows.\<close>

definition push_group :: "nat \<Rightarrow> Tx \<Rightarrow> Tx list list \<Rightarrow> Tx list list" where
  "push_group r tx groups =
     (let gs = (if length groups \<le> r then groups @ replicate (r + 1 - length groups) [] else groups)
      in gs[r := gs ! r @ [tx]])"

definition insert_all :: "nat \<Rightarrow> u64 list \<Rightarrow> (u64, nat) btree \<Rightarrow> (u64, nat) btree" where
  "insert_all r keys m = fold (\<lambda>key. bt_insert key r) keys m"

definition place_tx :: "GroupState \<Rightarrow> Tx \<Rightarrow> GroupState" where
  "place_tx s tx =
     (let write_keys = dedup_access_keys (tx_write_set tx);
          read_keys = read_domain_only_keys (tx_read_set tx) write_keys;
          (r, c) = required_group (gs_writer s) (gs_reader s) read_keys write_keys (gs_counters s)
      in \<lparr>gs_groups = push_group r tx (gs_groups s), gs_writer = insert_all r write_keys (gs_writer s),
          gs_reader = insert_all r read_keys (gs_reader s), gs_counters = c\<rparr>)"

definition place_all_txs :: "Tx list \<Rightarrow> GroupState" where
  "place_all_txs ordered = fold (\<lambda>tx s. place_tx s tx) ordered
     \<lparr>gs_groups = [], gs_writer = bt_empty, gs_reader = bt_empty, gs_counters = no_counts\<rparr>"

section \<open>Deep scan\<close>

record DeepState =
  dp_groups :: "Tx list list"
  dp_read_keys :: "u64 list list"
  dp_write_keys :: "u64 list list"
  dp_writer :: "(u64, nat) btree"
  dp_reader :: "(u64, nat) btree"
  dp_counters :: Counters
  dp_cursor :: nat

text \<open>The three conflict stages against one candidate group; the first hit ends them.\<close>

definition stage_checks :: "bool \<Rightarrow> u64 list \<Rightarrow> u64 list \<Rightarrow> u64 list \<Rightarrow> u64 list \<Rightarrow> Counters \<Rightarrow> Counters \<times> bool" where
  "stage_checks skip_empty write_keys read_keys group_writes group_reads c =
     (let write_stage = (if \<not> skip_empty \<or> write_keys \<noteq> [] then
            (let c1 = c\<lparr>cn_checks := cn_checks c + 1, cn_ww_checks := cn_ww_checks c + 1\<rparr>
             in if vec_hashset_intersects write_keys group_writes
                then (c1\<lparr>cn_hits := cn_hits c1 + 1, cn_ww_hits := cn_ww_hits c1 + 1\<rparr>, True)
                else
                  let c2 = c1\<lparr>cn_checks := cn_checks c1 + 1, cn_wr_checks := cn_wr_checks c1 + 1\<rparr>
                  in if vec_hashset_intersects write_keys group_reads
                     then (c2\<lparr>cn_hits := cn_hits c2 + 1, cn_wr_hits := cn_wr_hits c2 + 1\<rparr>, True)
                     else (c2, False))
            else (c, False))
      in case write_stage of (c', hit) \<Rightarrow>
        if hit then (c', True)
        else if \<not> skip_empty \<or> read_keys \<noteq> [] then
          (let c3 = c'\<lparr>cn_checks := cn_checks c' + 1, cn_rw_checks := cn_rw_checks c' + 1\<rparr>
           in if vec_hashset_intersects read_keys group_writes
              then (c3\<lparr>cn_hits := cn_hits c3 + 1, cn_rw_hits := cn_rw_hits c3 + 1\<rparr>, True)
              else (c3, False))
        else (c', False))"

fun scan_candidates :: "bool \<Rightarrow> nat \<Rightarrow> u64 list \<Rightarrow> u64 list \<Rightarrow> u64 list list \<Rightarrow> u64 list list \<Rightarrow> nat \<Rightarrow> nat \<Rightarrow> nat \<Rightarrow> nat list \<Rightarrow> Counters \<Rightarrow>
    Counters \<times> nat option" where
  "scan_candidates skip window wk rk gw gr min_group start span [] c = (c, None)"
| "scan_candidates skip window wk rk gw gr min_group start span (step # steps) c =
     (if window > 0 \<and> step \<ge> window then (c, None)
      else
        let idx = min_group + (start + step) mod span
        in case stage_checks skip wk rk (gw ! idx) (gr ! idx) (c\<lparr>cn_scanned := cn_scanned c + 1\<rparr>) of (c', hit) \<Rightarrow>
             if hit then scan_candidates skip window wk rk gw gr min_group start span steps c' else (c', Some idx))"

definition extend_set :: "u64 list \<Rightarrow> u64 list \<Rightarrow> u64 list" where
  "extend_set keys hs = fold push_unique keys hs"

definition min_group_of :: "(u64, nat) btree \<Rightarrow> (u64, nat) btree \<Rightarrow> u64 list \<Rightarrow> u64 list \<Rightarrow> nat" where
  "min_group_of writer reader read_keys write_keys = fst (required_group writer reader read_keys write_keys no_counts)"

definition deep_place :: "environment \<Rightarrow> DeepState \<Rightarrow> Tx \<Rightarrow> DeepState" where
  "deep_place env s tx =
     (let skip = aggr_skip_empty_stage_checks env; rr = aggr_scan_round_robin_enabled env;
          write_keys = dedup_access_keys (tx_write_set tx);
          read_keys = read_domain_only_keys (tx_read_set tx) write_keys;
          min_group = min_group_of (dp_writer s) (dp_reader s) read_keys write_keys;
          span = length (dp_groups s) - min_group;
          start = (if rr \<and> span > 1 then dp_cursor s mod span else 0);
          cursor = (if rr \<and> span > 1 then (dp_cursor s + 1) mod 2 ^ 64 else dp_cursor s)
      in if skip \<and> read_keys = [] \<and> write_keys = [] \<and> span > 0
         then s\<lparr>dp_groups := (dp_groups s)[min_group := dp_groups s ! min_group @ [tx]], dp_cursor := cursor\<rparr>
         else
           case scan_candidates skip (aggr_scan_window env) write_keys read_keys (dp_write_keys s) (dp_read_keys s)
                  min_group start span [0..<span] (dp_counters s) of
             (c, Some idx) \<Rightarrow>
               \<lparr>dp_groups = (dp_groups s)[idx := dp_groups s ! idx @ [tx]],
                dp_read_keys = (dp_read_keys s)[idx := extend_set read_keys (dp_read_keys s ! idx)],
                dp_write_keys = (dp_write_keys s)[idx := extend_set write_keys (dp_write_keys s ! idx)],
                dp_writer = insert_all idx write_keys (dp_writer s), dp_reader = insert_all idx read_keys (dp_reader s),
                dp_counters = c, dp_cursor = cursor\<rparr>
           | (c, None) \<Rightarrow>
               let idx = length (dp_groups s)
               in \<lparr>dp_groups = dp_groups s @ [[tx]], dp_read_keys = dp_read_keys s @ [extend_set read_keys []],
                   dp_write_keys = dp_write_keys s @ [extend_set write_keys []],
                   dp_writer = insert_all idx write_keys (dp_writer s), dp_reader = insert_all idx read_keys (dp_reader s),
                   dp_counters = (if span > 0 then c\<lparr>cn_fallback := cn_fallback c + 1\<rparr> else c), dp_cursor = cursor\<rparr>)"

definition deep_place_all :: "environment \<Rightarrow> Tx list \<Rightarrow> DeepState" where
  "deep_place_all env ordered = fold (\<lambda>tx s. deep_place env s tx) ordered
     \<lparr>dp_groups = [], dp_read_keys = [], dp_write_keys = [], dp_writer = bt_empty, dp_reader = bt_empty,
      dp_counters = no_counts, dp_cursor = aggr_scan_round_robin_seed env\<rparr>"

section \<open>Grouping\<close>

definition build_parallel_groups_aggressive_profile :: "'f f64_ops \<Rightarrow> environment \<Rightarrow> Tx list \<Rightarrow> Tx list \<Rightarrow>
    (Tx list list \<times> 'f GroupingProfile, ExecutorPanic) result" where
  "build_parallel_groups_aggressive_profile fl env original_txs ordered =
     (if \<not> aggr_deep_scan_enabled env then
        tryR (access_map_capacity_hint original_txs) (\<lambda>_.
          let s = place_all_txs ordered
          in tryR (hot_object_share fl original_txs) (\<lambda>share.
             Ok (gs_groups s, profile_of fl original_txs (gs_groups s) share (gs_counters s))))
      else
        tryR (access_map_capacity_hint original_txs) (\<lambda>_.
          let s = deep_place_all env ordered
          in tryR (hot_object_share fl original_txs) (\<lambda>share.
             Ok (dp_groups s, profile_of fl original_txs (dp_groups s) share (dp_counters s)))))"

definition build_parallel_groups_profile_with_strategy :: "'f f64_ops \<Rightarrow> environment \<Rightarrow> Tx list \<Rightarrow> GroupingStrategy \<Rightarrow>
    (Tx list list \<times> 'f GroupingProfile, ExecutorPanic) result" where
  "build_parallel_groups_profile_with_strategy fl env txs strategy =
     (if txs = [] then Ok ([], profile_of fl [] [] (fl_lit fl ''0.0'') no_counts)
      else
        tryR (assert_tx_access_domain_versions_are_consistent_batch txs) (\<lambda>_.
        tryR (if strategy = AutoAdaptive
              then tryR (auto_adaptive_decision fl env txs) (\<lambda>d. Ok (if ad_use_hot_bucket d then HotBucketInterleave else Original))
              else Ok strategy) (\<lambda>selected.
        tryR (reorder_for_strategy env txs selected) (\<lambda>ordered.
        if list_all no_access ordered then
          Ok ([ordered], (profile_of fl txs [ordered] (fl_lit fl ''0.0'') no_counts)
            \<lparr>gp_avg_group_size := fl_usize fl (length ordered)\<rparr>)
        else if selected = AggressiveGreedy then build_parallel_groups_aggressive_profile fl env txs ordered
        else
          tryR (access_map_capacity_hint txs) (\<lambda>_.
          let s = place_all_txs ordered
          in tryR (hot_object_share fl txs) (\<lambda>share.
             Ok (gs_groups s, profile_of fl txs (gs_groups s) share (gs_counters s))))))))"

definition build_parallel_groups_profile :: "'f f64_ops \<Rightarrow> environment \<Rightarrow> Tx list \<Rightarrow> (Tx list list \<times> 'f GroupingProfile, ExecutorPanic) result" where
  "build_parallel_groups_profile fl env txs = build_parallel_groups_profile_with_strategy fl env txs Original"

definition build_parallel_groups :: "'f f64_ops \<Rightarrow> environment \<Rightarrow> Tx list \<Rightarrow> (Tx list list, ExecutorPanic) result" where
  "build_parallel_groups fl env txs = tryR (build_parallel_groups_profile fl env txs) (\<lambda>(groups, _). Ok groups)"

end
