(* ===== verification/Executor_Schedule.thy ===== *)
theory Executor_Schedule
  imports Executor_Groups
begin

text \<open>
  What the groups of the executor guarantee: no transaction is lost or doubled, accesses behind a write
  wait for it, and the deep scan never puts two conflicting transactions into one group. The
  default placement does not have the last property; the counterexample is at the end.
\<close>

section \<open>Groups as a schedule\<close>

text \<open>Transaction i of \<open>ts\<close> is in the group numbered \<open>gs ! i\<close>, and groups keep the order of \<open>ts\<close>.\<close>

definition is_schedule :: "Tx list \<Rightarrow> nat list \<Rightarrow> Tx list list \<Rightarrow> bool" where
  "is_schedule ts gs groups \<longleftrightarrow> length gs = length ts \<and> (\<forall>g \<in> set gs. g < length groups) \<and>
     (\<forall>g < length groups. groups ! g = map fst (filter (\<lambda>(t, h). h = g) (zip ts gs)))"

text \<open>An access to an object comes in a later group than every earlier write of it.\<close>

definition writes_first :: "Tx list \<Rightarrow> nat list \<Rightarrow> bool" where
  "writes_first ts gs \<longleftrightarrow> (\<forall>i j. i < j \<longrightarrow> j < length ts \<longrightarrow>
     tx_writes (ts ! i) \<inter> (tx_reads (ts ! j) \<union> tx_writes (ts ! j)) \<noteq> {} \<longrightarrow> gs ! i < gs ! j)"

lemma length_push_group: "length (push_group r t groups) = max (length groups) (Suc r)"
  by (simp add: push_group_def Let_def)

lemma nth_push_group:
  "g < length (push_group r t groups) \<Longrightarrow>
    push_group r t groups ! g = (if g < length groups then groups ! g else []) @ (if g = r then [t] else [])"
  by (auto simp: push_group_def Let_def nth_append nth_list_update)

lemma schedule_push:
  assumes "is_schedule ts gs groups"
  shows "is_schedule (ts @ [t]) (gs @ [r]) (push_group r t groups)"
proof -
  have beyond: "map fst (filter (\<lambda>(t, h). h = g) (zip ts gs)) = []" if "length groups \<le> g" for g
    using assms that by (fastforce simp: is_schedule_def filter_empty_conv dest: set_zip_rightD)
  show ?thesis
    using assms beyond by (auto simp: is_schedule_def length_push_group nth_push_group less_max_iff_disj)
qed

lemma mset_append_at: "r < length xs \<Longrightarrow> mset (concat (xs[r := xs ! r @ [t]])) = add_mset t (mset (concat xs))"
proof -
  assume r: "r < length xs"
  then have "mset (concat (xs[r := xs ! r @ [t]])) = mset (concat (xs[r := t # xs ! r]))" by (simp add: upd_conv_take_nth_drop)
  with r mset_pop [of "xs[r := t # xs ! r]" r t "xs ! r"] show ?thesis by simp
qed

lemma mset_push_group: "mset (concat (push_group r t groups)) = add_mset t (mset (concat groups))"
  by (simp add: push_group_def Let_def mset_append_at)

section \<open>Placement loops\<close>

text \<open>
  What both placement loops promise: the transaction is appended to one group, behind all groups the
  map of writers records for its keys, and the map then records that group for what it writes.
\<close>

locale group_placement =
  fixes groups :: "'s \<Rightarrow> Tx list list"
    and writer :: "'s \<Rightarrow> (u64, nat) btree"
    and place :: "'s \<Rightarrow> Tx \<Rightarrow> 's"
    and inv :: "'s \<Rightarrow> bool"
  assumes inv_place: "inv s \<Longrightarrow> inv (place s t)"
    and placed: "inv s \<Longrightarrow> \<exists>r. groups (place s t) = push_group r t (groups s) \<and>
      (\<forall>k \<in> tx_reads t \<union> tx_writes t. \<forall>g. bt_get (writer s) k = Some g \<longrightarrow> g < r) \<and>
      (\<forall>k. bt_get (writer (place s t)) k = (if k \<in> tx_writes t then Some r else bt_get (writer s) k))"
begin

lemma run_schedule:
  assumes "inv s" "groups s = []" "writer s = bt_empty"
  shows "\<exists>gs. is_schedule ts gs (groups (fold (\<lambda>t s. place s t) ts s)) \<and> writes_first ts gs"
proof -
  let ?S = "\<lambda>ts. fold (\<lambda>t s. place s t) ts s"
  have "inv (?S ts) \<and> (\<exists>gs. is_schedule ts gs (groups (?S ts)) \<and> writes_first ts gs \<and>
      (\<forall>i < length ts. \<forall>k \<in> tx_writes (ts ! i). \<exists>g. bt_get (writer (?S ts)) k = Some g \<and> gs ! i \<le> g))" for ts
  proof (induction ts rule: rev_induct)
    case Nil
    show ?case using assms by (simp add: is_schedule_def writes_first_def)
  next
    case (snoc t ts)
    then obtain gs where i: "inv (?S ts)" and sch: "is_schedule ts gs (groups (?S ts))" and first: "writes_first ts gs"
      and w: "\<forall>i < length ts. \<forall>k \<in> tx_writes (ts ! i). \<exists>g. bt_get (writer (?S ts)) k = Some g \<and> gs ! i \<le> g"
      by blast
    from sch have len: "length gs = length ts" by (simp add: is_schedule_def)
    obtain r where r: "groups (place (?S ts) t) = push_group r t (groups (?S ts))"
      "\<forall>k \<in> tx_reads t \<union> tx_writes t. \<forall>g. bt_get (writer (?S ts)) k = Some g \<longrightarrow> g < r"
      "\<forall>k. bt_get (writer (place (?S ts) t)) k = (if k \<in> tx_writes t then Some r else bt_get (writer (?S ts)) k)"
      using placed [OF i, of t] by blast
    have behind: "gs ! i < r" if "i < length ts" "k \<in> tx_writes (ts ! i)" "k \<in> tx_reads t \<union> tx_writes t" for i k
      using w r(2) that by (meson le_less_trans)
    have "is_schedule (ts @ [t]) (gs @ [r]) (groups (?S (ts @ [t])))"
      using schedule_push [OF sch] r(1) by simp
    moreover have "writes_first (ts @ [t]) (gs @ [r])"
      unfolding writes_first_def
    proof (intro allI impI)
      fix a b
      assume ab: "a < b" "b < length (ts @ [t])"
        and hazard: "tx_writes ((ts @ [t]) ! a) \<inter> (tx_reads ((ts @ [t]) ! b) \<union> tx_writes ((ts @ [t]) ! b)) \<noteq> {}"
      show "(gs @ [r]) ! a < (gs @ [r]) ! b"
      proof (cases "b < length ts")
        case True
        with ab hazard first len show ?thesis by (simp add: nth_append writes_first_def)
      next
        case False
        with ab have "b = length ts" "a < length ts" by auto
        with hazard behind len show ?thesis by (auto simp: nth_append)
      qed
    qed
    moreover have "\<exists>g. bt_get (writer (?S (ts @ [t]))) k = Some g \<and> (gs @ [r]) ! i \<le> g"
      if "i < length (ts @ [t])" "k \<in> tx_writes ((ts @ [t]) ! i)" for i k
    proof (cases "i < length ts")
      case True
      with that have k: "k \<in> tx_writes (ts ! i)" by (simp add: nth_append)
      show ?thesis
      proof (cases "k \<in> tx_writes t")
        case in_t: True
        with behind [OF True k] r(3) True len show ?thesis by (auto simp: nth_append)
      next
        case False
        from w True k obtain g where "bt_get (writer (?S ts)) k = Some g" "gs ! i \<le> g" by blast
        with False r(3) True len show ?thesis by (simp add: nth_append)
      qed
    next
      case False
      with that r(3) len show ?thesis by (simp add: nth_append less_Suc_eq)
    qed
    ultimately show ?case using inv_place [OF i] by auto
  qed
  then show ?thesis by blast
qed

lemma run_mset:
  assumes "inv s"
  shows "mset (concat (groups (fold (\<lambda>t s. place s t) ts s))) = mset (concat (groups s)) + mset ts"
  using assms
proof (induction ts arbitrary: s)
  case (Cons t ts)
  from placed [OF Cons.prems, of t] have "mset (concat (groups (place s t))) = add_mset t (mset (concat (groups s)))"
    by (auto simp: mset_push_group)
  with Cons.IH [OF inv_place [OF Cons.prems, of t]] show ?case by simp
qed simp

end

lemma insert_all_get: "bt_get (insert_all r ks m) k = (if k \<in> set ks then Some r else bt_get m k)"
  unfolding insert_all_def by (induction ks arbitrary: m) auto

lemma required_after:
  "fst rc \<le> fst (require_after m k rc)" "bt_get m k = Some g \<Longrightarrow> g < fst (require_after m k rc)"
  "\<lbrakk>fst rc \<le> n; \<And>g. bt_get m k = Some g \<Longrightarrow> g < n\<rbrakk> \<Longrightarrow> fst (require_after m k rc) \<le> n"
  by (auto simp: require_after_def Suc_le_eq split: prod.splits option.splits)

text \<open>Loops of such lookups: they never lower the group, and end behind each recorded one.\<close>

lemma required_fold_le:
  assumes "\<And>k rc. fst rc \<le> (fst (f k rc) :: nat)"
  shows "fst rc \<le> fst (fold f ks rc)"
proof (induction ks arbitrary: rc)
  case (Cons k ks)
  show ?case using order.trans [OF assms [of rc k] Cons.IH] by simp
qed simp

lemma required_fold_less:
  assumes "\<And>k rc. fst rc \<le> (fst (f k rc) :: nat)" "k \<in> set ks" "\<And>rc. g < fst (f k rc)"
  shows "g < fst (fold f ks rc)"
  using assms(2)
proof (induction ks arbitrary: rc)
  case (Cons l ks)
  show ?case
  proof (cases "k = l")
    case True
    with less_le_trans [OF assms(3) required_fold_le [OF assms(1)]] show ?thesis by simp
  next
    case False
    with Cons show ?thesis by simp
  qed
qed simp

lemma required_fold_bound:
  "fst rc \<le> n \<Longrightarrow> (\<And>k rc. fst rc \<le> n \<Longrightarrow> fst (f k rc) \<le> n) \<Longrightarrow> fst (fold f ks rc) \<le> (n :: nat)"
  by (induction ks arbitrary: rc) simp_all

lemma required_group_behind:
  "k \<in> set rk \<union> set wk \<Longrightarrow> bt_get writer k = Some g \<Longrightarrow> g < fst (required_group writer reader rk wk c)"
  "k \<in> set wk \<Longrightarrow> bt_get reader k = Some g \<Longrightarrow> g < fst (required_group writer reader rk wk c)"
proof -
  let ?f = "\<lambda>key rc. require_after reader key (require_after writer key rc)"
  have mono: "fst rc \<le> fst (?f k rc)" for k rc
    by (rule order.trans [OF required_after(1) required_after(1)])
  {
    assume "k \<in> set wk" "bt_get reader k = Some g"
    then show "g < fst (required_group writer reader rk wk c)"
      unfolding required_group_def by (intro required_fold_less [where f = ?f, OF mono] required_after(2))
  }
  assume k: "k \<in> set rk \<union> set wk" "bt_get writer k = Some g"
  show "g < fst (required_group writer reader rk wk c)"
  proof (cases "k \<in> set wk")
    case True
    with k show ?thesis
      unfolding required_group_def
      by (intro required_fold_less [where f = ?f, OF mono]) (auto intro: less_le_trans [OF required_after(2) required_after(1)])
  next
    case False
    with k have "g < fst (fold (require_after writer) rk (0, c))"
      by (intro required_fold_less [where k = k]) (auto intro: required_after)
    also have "\<dots> \<le> fst (required_group writer reader rk wk c)"
      unfolding required_group_def by (rule required_fold_le [where f = ?f, OF mono])
    finally show ?thesis .
  qed
qed

lemma required_group_bound:
  assumes "\<And>k g. bt_get writer k = Some g \<Longrightarrow> g < n" "\<And>k g. bt_get reader k = Some g \<Longrightarrow> g < n"
  shows "fst (required_group writer reader rk wk c) \<le> n"
  unfolding required_group_def
  by (intro required_fold_bound required_after(3)) (simp_all add: assms)

interpretation fast: group_placement gs_groups gs_writer place_tx "\<lambda>_. True"
proof
  fix s :: GroupState and t :: Tx
  let ?w = "dedup_access_keys (tx_write_set t)"
  let ?r = "read_domain_only_keys (tx_read_set t) ?w"
  let ?g = "fst (required_group (gs_writer s) (gs_reader s) ?r ?w (gs_counters s))"
  have "\<forall>k \<in> tx_reads t \<union> tx_writes t. \<forall>g. bt_get (gs_writer s) k = Some g \<longrightarrow> g < ?g"
    using required_group_behind(1) [of _ ?r ?w] by (auto simp: set_read_domain)
  then show "\<exists>r. gs_groups (place_tx s t) = push_group r t (gs_groups s) \<and>
      (\<forall>k \<in> tx_reads t \<union> tx_writes t. \<forall>g. bt_get (gs_writer s) k = Some g \<longrightarrow> g < r) \<and>
      (\<forall>k. bt_get (gs_writer (place_tx s t)) k = (if k \<in> tx_writes t then Some r else bt_get (gs_writer s) k))"
    by (intro exI [of _ ?g]) (auto simp: place_tx_def Let_def insert_all_get split: prod.splits)
qed simp

section \<open>Reordering is a permutation\<close>

lemma rr_loop_mset: "mset (rr_loop rr iters merged) = mset (concat iters) + mset merged"
proof (induction rr iters merged rule: rr_loop.induct)
  case (1 rr iters merged)
  obtain iters' merged' moved where r: "rr_round (length iters) rr iters merged = (iters', merged', moved)"
    by (metis prod_cases3)
  note facts = rr_round_facts [OF r]
  show ?case
  proof (cases moved)
    case True
    with 1 [OF r [symmetric] refl] facts(2) r show ?thesis
      by (subst rr_loop.simps) simp
  next
    case False
    with facts(4,5) r show ?thesis by (subst rr_loop.simps) simp
  qed
qed

lemma fill_buckets_mset:
  assumes "\<forall>(tx, b) \<in> set rows. b < n"
  shows "mset (concat (fill_buckets n rows)) = mset (map fst rows)"
proof -
  have "mset (concat (fold (\<lambda>(tx, b) bs. bs[b := bs ! b @ [tx]]) rows bs)) = mset (concat bs) + mset (map fst rows)"
    if "\<forall>(tx, b) \<in> set rows. b < length bs" for rows bs
    using that by (induction rows arbitrary: bs) (auto simp: mset_append_at)
  from this [of rows "replicate n []"] assms show ?thesis by (simp add: fill_buckets_def)
qed

lemma hint_bound:
  assumes "well_versioned tx" "1 < n" "n < 2 ^ 64"
  shows "\<exists>h < n. hot_bucket_hint tx n = Ok h"
proof -
  have n: "unat (word_of_nat n :: 64 word) = n" using assms(3) by (simp add: unsigned_of_nat take_bit_nat_eq_self)
  have "unat (m AND (word_of_nat n - 1)) < n" for m :: "64 word"
  proof -
    have "unat (m AND (word_of_nat n - 1)) \<le> unat (word_of_nat n - 1 :: 64 word)" by (simp add: word_and_le1 flip: word_le_nat_alt)
    also have "\<dots> = n - 1" using n assms(2) by (subst unat_minus_one) auto
    finally show ?thesis using assms(2) by simp
  qed
  moreover have "unat (m mod word_of_nat n) < n" for m :: "64 word"
    using n assms(2) by (simp add: unat_mod)
  ultimately show ?thesis
    using assms by (simp add: hot_bucket_hint_def assert_iff tx_access_domain_keys_def Let_def)
qed

lemma bucket_pass:
  assumes "\<forall>tx \<in> set txs. well_versioned tx" "1 < n" "n < 2 ^ 64"
  shows "\<exists>p' hs. try_fold (bucket_step n) p txs = Ok p' \<and> bp_hints p' = bp_hints p @ hs \<and> length hs = length txs \<and> (\<forall>h \<in> set hs. h < n)"
  using assms(1)
proof (induction txs arbitrary: p)
  case (Cons tx txs)
  with hint_bound [of tx n] assms obtain h where h: "h < n" "hot_bucket_hint tx n = Ok h" by auto
  then obtain q where q: "bucket_step n p tx = Ok q" "bp_hints q = bp_hints p @ [h]"
    by (auto simp: bucket_step_def Let_def)
  from Cons obtain p' hs where "try_fold (bucket_step n) q txs = Ok p'" "bp_hints p' = bp_hints q @ hs"
      "length hs = length txs" "\<forall>h \<in> set hs. h < n"
    by auto metis
  with q h show ?case by (intro exI [of _ p'] exI [of _ "h # hs"]) auto
qed simp


lemma interleave_permutes:
  assumes "\<forall>tx \<in> set txs. well_versioned tx"
  shows "\<exists>ordered. interleave env txs = Ok ordered \<and> mset ordered = mset txs"
proof (cases "length txs < 4 \<or> list_all no_access txs")
  case True
  then show ?thesis by (auto simp: interleave_def)
next
  case False
  let ?n = "min (hot_bucket_count env) (length txs)"
  have n: "1 < ?n" "?n < 2 ^ 64" using False knob_bounds(1,2) [of env] by (auto simp: min_less_iff_disj)
  let ?p = "\<lparr>bp_depths = replicate ?n 0, bp_hints = [], bp_non_empty = 0, bp_seen = replicate ?n False, bp_signaled = 0\<rparr>"
  obtain p where p: "try_fold (bucket_step ?n) ?p txs = Ok p" "length (bp_hints p) = length txs" "\<forall>h \<in> set (bp_hints p). h < ?n"
    using bucket_pass [OF assms n, of ?p] by auto
  have rows: "\<forall>(tx, b) \<in> set (zip txs (bp_hints p)). b < ?n" using p(3) by (auto dest: set_zip_rightD)
  have merged: "mset (rr_loop rr (fill_buckets ?n (zip txs (bp_hints p))) []) = mset txs" for rr
    using fill_buckets_mset [OF rows] p(2) by (simp add: rr_loop_mset)
  have "length (rr_loop rr (fill_buckets ?n (zip txs (bp_hints p))) []) = length txs" for rr
    using arg_cong [OF merged, of size rr] by (simp only: size_mset)
  with merged p n False show ?thesis
    by (simp add: interleave_def Let_def not_le not_less)
qed

lemma reorder_permutes:
  assumes "\<forall>tx \<in> set txs. well_versioned tx"
  shows "\<exists>ordered. reorder_for_strategy env txs strategy = Ok ordered \<and> mset ordered = mset txs"
  using assms interleave_permutes [OF assms, of env]
  by (cases strategy) (simp_all add: reorder_for_strategy_def assert_batch_iff)


section \<open>The deep scan\<close>

lemma stage_checks_iff:
  "snd (stage_checks skip wk rk gw gr c) \<longleftrightarrow> set wk \<inter> set gw \<noteq> {} \<or> set wk \<inter> set gr \<noteq> {} \<or> set rk \<inter> set gw \<noteq> {}"
  by (simp add: stage_checks_def Let_def vec_hashset_intersects_iff)

lemma scan_candidates_Some:
  assumes "scan_candidates skip window wk rk gw gr mn start span steps c = (c', Some idx)"
  shows "\<exists>step \<in> set steps. idx = mn + (start + step) mod span \<and>
    set wk \<inter> set (gw ! idx) = {} \<and> set wk \<inter> set (gr ! idx) = {} \<and> set rk \<inter> set (gw ! idx) = {}"
  using assms
proof (induction steps arbitrary: c)
  case (Cons step steps)
  let ?i = "mn + (start + step) mod span"
  obtain d hit where d: "stage_checks skip wk rk (gw ! ?i) (gr ! ?i) (c\<lparr>cn_scanned := cn_scanned c + 1\<rparr>) = (d, hit)"
    by (cases "stage_checks skip wk rk (gw ! ?i) (gr ! ?i) (c\<lparr>cn_scanned := cn_scanned c + 1\<rparr>)")
  show ?case
  proof (cases hit)
    case True
    with Cons d show ?thesis by (auto simp: Let_def split: if_splits)
  next
    case False
    with stage_checks_iff [of skip wk rk "gw ! ?i" "gr ! ?i" "c\<lparr>cn_scanned := cn_scanned c + 1\<rparr>"] d Cons.prems
    show ?thesis by (auto simp: Let_def split: if_splits)
  qed
qed simp

text \<open>The recorded key sets are those of the groups, and no group has two conflicting members.\<close>

definition group_keys_exact :: "Tx list \<Rightarrow> u64 list \<Rightarrow> u64 list \<Rightarrow> bool" where
  "group_keys_exact members writes reads \<longleftrightarrow> set writes = (\<Union>t \<in> set members. tx_writes t) \<and>
     set reads = (\<Union>t \<in> set members. tx_reads t - tx_writes t) \<and> sorted_wrt (\<lambda>a b. \<not> conflicting a b) members"

definition deep_inv :: "DeepState \<Rightarrow> bool" where
  "deep_inv s \<longleftrightarrow> length (dp_write_keys s) = length (dp_groups s) \<and> length (dp_read_keys s) = length (dp_groups s) \<and>
     (\<forall>k g. bt_get (dp_writer s) k = Some g \<longrightarrow> g < length (dp_groups s)) \<and>
     (\<forall>k g. bt_get (dp_reader s) k = Some g \<longrightarrow> g < length (dp_groups s)) \<and>
     (\<forall>g < length (dp_groups s). group_keys_exact (dp_groups s ! g) (dp_write_keys s ! g) (dp_read_keys s ! g))"

lemma set_extend_set [simp]: "set (extend_set keys hs) = set keys \<union> set hs"
  unfolding extend_set_def by (induction keys arbitrary: hs) (auto simp: push_unique_def)

lemma group_keys_extend:
  assumes "group_keys_exact members gw gr" "set wk = tx_writes t" "set rk = tx_reads t - tx_writes t"
    and "set wk \<inter> set gw = {}" "set wk \<inter> set gr = {}" "set rk \<inter> set gw = {}"
  shows "group_keys_exact (members @ [t]) (extend_set wk gw) (extend_set rk gr)"
proof -
  have apart: "wa \<inter> wt = {} \<and> wa \<inter> rt = {} \<and> ra \<inter> wt = {}"
    if "wa \<subseteq> W" "ra - wa \<subseteq> R" "wt \<inter> W = {}" "wt \<inter> R = {}" "(rt - wt) \<inter> W = {}" for wa ra wt rt W R :: "u64 set"
    using that by blast
  have "\<not> conflicting a t" if "a \<in> set members" for a
  proof -
    from assms(1) that have "tx_writes a \<subseteq> set gw" "tx_reads a - tx_writes a \<subseteq> set gr"
      unfolding group_keys_exact_def
      using UN_upper [OF that, of tx_writes] UN_upper [OF that, of "\<lambda>t. tx_reads t - tx_writes t"] by (simp_all only:)
    from apart [OF this assms(4-6) [unfolded assms(2,3)]] show ?thesis unfolding conflicting_def by simp
  qed
  with assms(1-3) show ?thesis
    unfolding group_keys_exact_def by (simp add: sorted_wrt_append Un_commute)
qed

text \<open>Where a transaction goes: into an open group it fits, or into a new one.\<close>

lemma deep_place_cases:
  fixes t :: Tx
  defines "wk \<equiv> dedup_access_keys (tx_write_set t)"
  defines "rk \<equiv> read_domain_only_keys (tx_read_set t) wk"
  assumes inv: "deep_inv s"
  obtains (empty) r c where "wk = []" "rk = []" "r < length (dp_groups s)"
      "deep_place env s t = s\<lparr>dp_groups := (dp_groups s)[r := dp_groups s ! r @ [t]], dp_cursor := c\<rparr>"
    | (fits) r cs c where "min_group_of (dp_writer s) (dp_reader s) rk wk \<le> r" "r < length (dp_groups s)"
      "set wk \<inter> set (dp_write_keys s ! r) = {}" "set wk \<inter> set (dp_read_keys s ! r) = {}" "set rk \<inter> set (dp_write_keys s ! r) = {}"
      "deep_place env s t = \<lparr>dp_groups = (dp_groups s)[r := dp_groups s ! r @ [t]],
        dp_read_keys = (dp_read_keys s)[r := extend_set rk (dp_read_keys s ! r)],
        dp_write_keys = (dp_write_keys s)[r := extend_set wk (dp_write_keys s ! r)],
        dp_writer = insert_all r wk (dp_writer s), dp_reader = insert_all r rk (dp_reader s), dp_counters = cs, dp_cursor = c\<rparr>"
    | (opens) cs c where "min_group_of (dp_writer s) (dp_reader s) rk wk \<le> length (dp_groups s)"
      "deep_place env s t = \<lparr>dp_groups = dp_groups s @ [[t]], dp_read_keys = dp_read_keys s @ [extend_set rk []],
        dp_write_keys = dp_write_keys s @ [extend_set wk []], dp_writer = insert_all (length (dp_groups s)) wk (dp_writer s),
        dp_reader = insert_all (length (dp_groups s)) rk (dp_reader s), dp_counters = cs, dp_cursor = c\<rparr>"
proof -
  let ?mn = "min_group_of (dp_writer s) (dp_reader s) rk wk" and ?rr = "aggr_scan_round_robin_enabled env"
  let ?span = "length (dp_groups s) - ?mn"
  let ?skip = "aggr_skip_empty_stage_checks env \<and> rk = [] \<and> wk = [] \<and> ?span > 0"
  let ?start = "if ?rr \<and> ?span > 1 then dp_cursor s mod ?span else 0"
  define cursor where "cursor = (if ?rr \<and> ?span > 1 then (dp_cursor s + 1) mod 2 ^ 64 else dp_cursor s)"
  obtain cs found where scan: "scan_candidates (aggr_skip_empty_stage_checks env) (aggr_scan_window env) wk rk (dp_write_keys s)
      (dp_read_keys s) ?mn ?start ?span [0..<?span] (dp_counters s) = (cs, found)"
    by (rule prod.exhaust)
  note place = deep_place_def [of env s t, unfolded Let_def, folded wk_def, folded rk_def, folded cursor_def, unfolded scan]
  have le: "?mn \<le> length (dp_groups s)"
    unfolding min_group_of_def using inv by (intro required_group_bound) (simp_all only: deep_inv_def)
  show thesis
  proof (cases ?skip)
    case True
    then have "wk = []" "rk = []" "?mn < length (dp_groups s)" by auto
    moreover have "deep_place env s t = s\<lparr>dp_groups := (dp_groups s)[?mn := dp_groups s ! ?mn @ [t]], dp_cursor := cursor\<rparr>"
      unfolding place by (rule if_P [OF True])
    ultimately show thesis by (rule empty)
  next
    case False
    show thesis
    proof (cases found)
      case None
      have "deep_place env s t = \<lparr>dp_groups = dp_groups s @ [[t]], dp_read_keys = dp_read_keys s @ [extend_set rk []],
        dp_write_keys = dp_write_keys s @ [extend_set wk []], dp_writer = insert_all (length (dp_groups s)) wk (dp_writer s),
        dp_reader = insert_all (length (dp_groups s)) rk (dp_reader s),
        dp_counters = (if ?span > 0 then cs\<lparr>cn_fallback := cn_fallback cs + 1\<rparr> else cs), dp_cursor = cursor\<rparr>"
        unfolding place None if_not_P [OF False] by (simp only: prod.case option.case)
      with le show thesis by (rule opens)
    next
      case (Some r)
      from scan_candidates_Some [OF scan [unfolded Some]] obtain step where step: "step \<in> set [0..<?span]"
        and r: "r = ?mn + (?start + step) mod ?span" and free: "set wk \<inter> set (dp_write_keys s ! r) = {}"
          "set wk \<inter> set (dp_read_keys s ! r) = {}" "set rk \<inter> set (dp_write_keys s ! r) = {}"
        by blast
      from step have "0 < ?span" by simp
      then have "(?start + step) mod ?span < ?span" by (rule mod_less_divisor)
      with r have "?mn \<le> r" "r < length (dp_groups s)" by linarith+
      moreover note free
      moreover have "deep_place env s t = \<lparr>dp_groups = (dp_groups s)[r := dp_groups s ! r @ [t]],
        dp_read_keys = (dp_read_keys s)[r := extend_set rk (dp_read_keys s ! r)],
        dp_write_keys = (dp_write_keys s)[r := extend_set wk (dp_write_keys s ! r)],
        dp_writer = insert_all r wk (dp_writer s), dp_reader = insert_all r rk (dp_reader s), dp_counters = cs, dp_cursor = cursor\<rparr>"
        unfolding place Some if_not_P [OF False] by (simp only: prod.case option.case)
      ultimately show thesis by (rule fits)
    qed
  qed
qed

lemma group_keys_new: "group_keys_exact [] [] []"
  by (simp add: group_keys_exact_def)

lemma push_group_at: "r < length groups \<Longrightarrow> push_group r t groups = groups[r := groups ! r @ [t]]"
  by (simp add: push_group_def Let_def)

lemma push_group_new: "push_group (length groups) t groups = groups @ [[t]]"
  by (simp add: push_group_def Let_def)

lemma deep_place_facts:
  fixes t :: Tx
  defines "wk \<equiv> dedup_access_keys (tx_write_set t)"
  defines "rk \<equiv> read_domain_only_keys (tx_read_set t) wk"
  assumes inv: "deep_inv s"
  shows "deep_inv (deep_place env s t)" (is ?inv)
    and "\<exists>r. dp_groups (deep_place env s t) = push_group r t (dp_groups s) \<and>
      (\<forall>k \<in> set rk \<union> set wk. \<forall>g. bt_get (dp_writer s) k = Some g \<longrightarrow> g < r) \<and>
      (\<forall>k. bt_get (dp_writer (deep_place env s t)) k = (if k \<in> set wk then Some r else bt_get (dp_writer s) k))" (is ?put)
proof -
  have wk: "set wk = tx_writes t" and rk: "set rk = tx_reads t - tx_writes t" by (simp_all add: wk_def rk_def set_read_domain)
  have behind: "g < r" if "min_group_of (dp_writer s) (dp_reader s) rk wk \<le> r" "k \<in> set rk \<union> set wk"
      "bt_get (dp_writer s) k = Some g" for r k g
    using less_le_trans [OF required_group_behind(1) [OF that(2,3)] that(1) [unfolded min_group_of_def]] .
  note lens = inv [unfolded deep_inv_def, THEN conjunct1] inv [unfolded deep_inv_def, THEN conjunct2, THEN conjunct1]
  have exact: "g < length (dp_groups s) \<Longrightarrow> group_keys_exact (dp_groups s ! g) (dp_write_keys s ! g) (dp_read_keys s ! g)" for g
    using inv by (simp only: deep_inv_def)
  have maps: "bt_get (dp_writer s) k = Some g \<Longrightarrow> g < length (dp_groups s)" "bt_get (dp_reader s) k = Some g \<Longrightarrow> g < length (dp_groups s)" for k g
    using inv by (simp_all only: deep_inv_def)
  show ?inv
    using inv [folded wk_def rk_def]
  proof (cases rule: deep_place_cases [where t = t and env = env, folded wk_def, folded rk_def, consumes 1, case_names empty fits opens])
    case (empty r c)
    have "group_keys_exact (dp_groups s ! r @ [t]) (extend_set wk (dp_write_keys s ! r)) (extend_set rk (dp_read_keys s ! r))"
      using empty(1,2) by (intro group_keys_extend exact empty(3) wk rk) simp_all
    then have "group_keys_exact (dp_groups s ! r @ [t]) (dp_write_keys s ! r) (dp_read_keys s ! r)"
      using empty(1,2) by (simp add: extend_set_def)
    with lens exact maps empty show ?thesis by (simp add: deep_inv_def nth_list_update)
  next
    case (fits r cs c)
    have "group_keys_exact (dp_groups s ! r @ [t]) (extend_set wk (dp_write_keys s ! r)) (extend_set rk (dp_read_keys s ! r))"
      by (intro group_keys_extend exact fits wk rk)
    with lens exact maps fits show ?thesis by (simp add: deep_inv_def nth_list_update insert_all_get)
  next
    case (opens cs c)
    have "group_keys_exact ([] @ [t]) (extend_set wk []) (extend_set rk [])"
      by (intro group_keys_extend group_keys_new wk rk) simp_all
    with lens exact maps opens show ?thesis
      by (simp add: deep_inv_def nth_append insert_all_get less_Suc_eq)
  qed
  show ?put
    using inv
  proof (cases rule: deep_place_cases [where t = t and env = env, folded wk_def, folded rk_def, consumes 1, case_names empty fits opens])
    case (empty r c)
    then show ?thesis by (intro exI [of _ r]) (simp add: push_group_at)
  next
    case (fits r cs c)
    with behind show ?thesis by (intro exI [of _ r]) (simp add: push_group_at insert_all_get)
  next
    case (opens cs c)
    with behind show ?thesis by (intro exI [of _ "length (dp_groups s)"]) (simp add: push_group_new insert_all_get)
  qed
qed

interpretation deep: group_placement dp_groups dp_writer "deep_place env" deep_inv for env
proof
  fix s :: DeepState and t :: Tx
  assume inv: "deep_inv s"
  have keys: "set (read_domain_only_keys (tx_read_set t) (dedup_access_keys (tx_write_set t))) \<union> set (dedup_access_keys (tx_write_set t)) =
      tx_reads t \<union> tx_writes t"
    by (auto simp: set_read_domain)
  show "deep_inv (deep_place env s t)" by (rule deep_place_facts(1) [OF inv])
  show "\<exists>r. dp_groups (deep_place env s t) = push_group r t (dp_groups s) \<and>
      (\<forall>k \<in> tx_reads t \<union> tx_writes t. \<forall>g. bt_get (dp_writer s) k = Some g \<longrightarrow> g < r) \<and>
      (\<forall>k. bt_get (dp_writer (deep_place env s t)) k = (if k \<in> tx_writes t then Some r else bt_get (dp_writer s) k))"
    using deep_place_facts(2) [OF inv, of env t] unfolding keys by simp
qed

section \<open>No panic on well-versioned transactions\<close>

lemma try_fold_total: "(\<And>a x. x \<in> set xs \<Longrightarrow> \<exists>b. f a x = Ok b) \<Longrightarrow> \<exists>r. try_fold f acc xs = Ok r"
proof (induction xs arbitrary: acc)
  case (Cons x xs)
  then obtain b where "f acc x = Ok b" by (meson list.set_intros(1))
  with Cons show ?case by simp
qed simp

lemma hot_object_share_Ok:
  assumes "\<forall>tx \<in> set txs. well_versioned tx"
  shows "\<exists>x. hot_object_share fl txs = Ok x"
proof -
  obtain r where "try_fold (\<lambda>(counts, total) tx. tryR (assert_tx_access_domain_versions_are_consistent tx) (\<lambda>_.
      tryR (tx_access_domain_keys tx) (\<lambda>keys. Ok (fold bump keys counts, total + length keys)))) (bt_empty, 0) txs = Ok r"
    using try_fold_total [where xs = txs and f = "\<lambda>(counts, total) tx. tryR (assert_tx_access_domain_versions_are_consistent tx) (\<lambda>_.
      tryR (tx_access_domain_keys tx) (\<lambda>keys. Ok (fold bump keys counts, total + length keys)))"] assms
    by (force simp: assert_iff tx_access_domain_keys_def)
  then show ?thesis by (cases r) (simp add: hot_object_share_def)
qed

lemma capacity_hint_Ok:
  assumes "\<forall>tx \<in> set txs. well_versioned tx"
  shows "\<exists>n. access_map_capacity_hint txs = Ok n"
proof -
  obtain r where "try_fold (\<lambda>footprint tx. tryR (assert_tx_access_domain_versions_are_consistent tx) (\<lambda>_.
      Ok (min (2 ^ 64 - 1) (footprint + length (extend_unique_access_keys (dedup_access_keys (tx_write_set tx)) (tx_read_set tx)))))) 0 txs = Ok r"
    using try_fold_total [where xs = txs and acc = 0 and f = "\<lambda>footprint tx. tryR (assert_tx_access_domain_versions_are_consistent tx) (\<lambda>_.
      Ok (min (2 ^ 64 - 1) (footprint + length (extend_unique_access_keys (dedup_access_keys (tx_write_set tx)) (tx_read_set tx)))))"] assms
    by (auto simp: assert_iff)
  then show ?thesis by (simp add: access_map_capacity_hint_def)
qed

lemma sample_index_less:
  assumes "i < n" "n \<le> b"
  shows "sample_index n b i < b"
proof (cases "n = b \<or> n \<le> 1")
  case True
  with assms show ?thesis by (auto simp: sample_index_def)
next
  case False
  have "min (2 ^ 64 - 1) (i * (b - 1)) div (n - 1) \<le> (n - 1) * (b - 1) div (n - 1)"
    using assms(1) by (intro div_le_mono min.coboundedI2 mult_le_mono1) simp
  also have "\<dots> = b - 1" using False by simp
  also have "\<dots> < b" using assms by simp
  finally show ?thesis using False by (simp add: sample_index_def)
qed

lemma sample_key_Ok: "well_versioned tx \<Longrightarrow> \<exists>k. sample_key tx = Ok k"
  by (simp add: sample_key_def hot_bucket_keys_def assert_iff primary_access_domain_key_def Let_def split: prod.splits)

lemma auto_adaptive_Ok:
  assumes "\<forall>tx \<in> set txs. well_versioned tx"
  shows "\<exists>d. auto_adaptive_decision fl env txs = Ok d"
proof -
  let ?n = "auto_adaptive_sample_len env (length txs)"
  have "\<exists>b. sample_step txs ?n a i = Ok b" if "i \<in> set [0..<?n]" for a i
  proof -
    have "sample_index ?n (length txs) i < length txs"
      using that knob_bounds(5) [where env = env and n = "length txs"] by (intro sample_index_less) auto
    with assms have "well_versioned (txs ! sample_index ?n (length txs) i)" by simp
    from sample_key_Ok [OF this] show ?thesis by (elim exE) (simp add: sample_step_def Let_def)
  qed
  from try_fold_total [where f = "sample_step txs ?n" and xs = "[0..<?n]", OF this] obtain s where
    "try_fold (sample_step txs ?n) \<lparr>ss_hits = 0, ss_pairs = 0, ss_prev_key = None, ss_hist = bt_empty,
       ss_observed = 0, ss_prev_idx = None\<rparr> [0..<?n] = Ok s"
    by blast
  with assms show ?thesis by (simp add: auto_adaptive_decision_def assert_batch_iff Let_def)
qed

section \<open>Groups of a batch\<close>

text \<open>Which of the loops makes the groups.\<close>

definition groups_of :: "environment \<Rightarrow> GroupingStrategy \<Rightarrow> Tx list \<Rightarrow> Tx list list" where
  "groups_of env selected ordered =
     (if list_all no_access ordered then [ordered]
      else if selected = AggressiveGreedy \<and> aggr_deep_scan_enabled env then dp_groups (deep_place_all env ordered)
      else gs_groups (place_all_txs ordered))"

lemma deep_start: "deep_inv \<lparr>dp_groups = [], dp_read_keys = [], dp_write_keys = [], dp_writer = bt_empty, dp_reader = bt_empty,
      dp_counters = no_counts, dp_cursor = c\<rparr>"
  by (simp add: deep_inv_def)

lemma groups_of_schedule: "\<exists>gs. is_schedule ordered gs (groups_of env selected ordered) \<and> writes_first ordered gs"
proof (cases "list_all no_access ordered")
  case True
  have none: "tx_writes (ordered ! i) = {}" if "i < length ordered" for i
    using True that by (simp add: list_all_length no_access_def)
  have "filter (\<lambda>(t, h). h = 0) (zip xs (replicate (length xs) (0 :: nat))) = zip xs (replicate (length xs) 0)" for xs :: "Tx list"
    by (rule filter_True) (auto dest: set_zip_rightD)
  with True none show ?thesis
    by (intro exI [of _ "replicate (length ordered) 0"]) (simp add: groups_of_def is_schedule_def writes_first_def)
next
  case False
  with fast.run_schedule [where ts = ordered] deep.run_schedule [OF deep_start, where ts = ordered and env = env] show ?thesis
    by (simp add: groups_of_def place_all_txs_def deep_place_all_def)
qed

lemma groups_of_mset: "mset (concat (groups_of env selected ordered)) = mset ordered"
  using fast.run_mset [where ts = ordered] deep.run_mset [OF deep_start, where ts = ordered and env = env]
  by (simp add: groups_of_def place_all_txs_def deep_place_all_def)

lemma deep_inv_fold: "deep_inv s \<Longrightarrow> deep_inv (fold (\<lambda>t s. deep_place env s t) ts s)"
  by (induction ts arbitrary: s) (simp_all add: deep_place_facts(1))

lemma build_groups:
  assumes "\<forall>tx \<in> set txs. well_versioned tx" "txs \<noteq> []"
  obtains selected ordered p where
    "build_parallel_groups_profile_with_strategy fl env txs strategy = Ok (groups_of env selected ordered, p)"
    "reorder_for_strategy env txs selected = Ok ordered" "mset ordered = mset txs" "strategy \<noteq> AutoAdaptive \<longrightarrow> selected = strategy"
    "gp_tx_count p = length txs" "gp_group_count p = length (groups_of env selected ordered)" "gp_grouped_count p = length txs"
proof -
  from auto_adaptive_Ok [OF assms(1), of fl env] obtain d where d: "auto_adaptive_decision fl env txs = Ok d" ..
  define selected where "selected = (if strategy = AutoAdaptive then if ad_use_hot_bucket d then HotBucketInterleave else Original else strategy)"
  obtain ordered where o: "reorder_for_strategy env txs selected = Ok ordered" "mset ordered = mset txs"
    using reorder_permutes [OF assms(1), of env selected] by blast
  from hot_object_share_Ok [OF assms(1), of fl] obtain x where x: "hot_object_share fl txs = Ok x" ..
  from capacity_hint_Ok [OF assms(1)] obtain n where n: "access_map_capacity_hint txs = Ok n" ..
  have sel: "(if strategy = AutoAdaptive
      then tryR (auto_adaptive_decision fl env txs) (\<lambda>d. Ok (if ad_use_hot_bucket d then HotBucketInterleave else Original))
      else Ok strategy) = Ok selected"
    by (simp add: d selected_def)
  have "length (concat (groups_of env selected ordered)) = length txs"
    using arg_cong [OF groups_of_mset, of size env selected ordered] arg_cong [OF o(2), of size] by (simp only: size_mset)
  then have len: "sum_list (map length (groups_of env selected ordered)) = length txs" by (simp add: length_concat)
  have gp: "gp_tx_count (profile_of fl txs groups share c) = length txs" "gp_group_count (profile_of fl txs groups share c) = length groups"
      "gp_grouped_count (profile_of fl txs groups share c) = sum_list (map length groups)" for groups share c
    by (simp_all add: profile_of_def Let_def)
  note steps = build_parallel_groups_profile_with_strategy_def [of fl env txs strategy] assert_batch_iff if_not_P [OF assms(2)]
    if_P [OF assms(1)] sel tryR_simps o(1)
  have "\<exists>p. build_parallel_groups_profile_with_strategy fl env txs strategy = Ok (groups_of env selected ordered, p) \<and>
      gp_tx_count p = length txs \<and> gp_group_count p = length (groups_of env selected ordered) \<and> gp_grouped_count p = length txs"
  proof (cases "list_all no_access ordered")
    case True
    with gp len show ?thesis unfolding steps by (simp add: groups_of_def)
  next
    case False
    have "\<exists>c. build_parallel_groups_profile_with_strategy fl env txs strategy =
        Ok (groups_of env selected ordered, profile_of fl txs (groups_of env selected ordered) x c)"
      unfolding steps if_not_P [OF False] groups_of_def build_parallel_groups_aggressive_profile_def n x tryR_simps Let_def
      by auto
    with gp len show ?thesis by auto
  qed
  then show thesis by (elim exE conjE) (rule that [OF _ o], assumption, simp add: selected_def)
qed

section \<open>Sample batches\<close>

text \<open>A transaction that reads and writes the given objects, and decimals with three places for the floating-point parameter.\<close>

definition rw_tx :: "u64 \<Rightarrow> u64 list \<Rightarrow> u64 list \<Rightarrow> Tx" where
  "rw_tx i rs ws = \<lparr>tx_id = i, tx_read_set = map (\<lambda>k. \<lparr>or_id = k, or_version = 0\<rparr>) rs,
     tx_write_set = map (\<lambda>k. \<lparr>or_id = k, or_version = 0\<rparr>) ws, tx_payload = []\<rparr>"

definition thousandths :: "string \<Rightarrow> nat" where
  "thousandths s = (let parts = split_on (CHR ''.'') s
     in 1000 * digits_value (hd parts) + digits_value (take 3 (concat (tl parts) @ ''000'')))"

definition fixed_point :: "nat f64_ops" where
  "fixed_point = \<lparr>fl_parse = (\<lambda>s. if list_all (\<lambda>c. is_digit c \<or> c = CHR ''.'') s then Some (thousandths s) else None),
     fl_lit = thousandths, fl_usize = (\<lambda>n. 1000 * n), fl_finite = (\<lambda>_. True), fl_add = (+),
     fl_mul = (\<lambda>a b. a * b div 1000), fl_div = (\<lambda>a b. 1000 * a div b), fl_less = (<), fl_le = (\<le>)\<rparr>"

lemma rw_tx_well_versioned: "well_versioned (rw_tx i rs ws)"
  by (auto simp: well_versioned_def one_version_def rw_tx_def)

definition deep_env :: environment where
  "deep_env name = (if name = ''TRNM_AGGR_DEEP_SCAN'' then Some ''1'' else None)"

lemma deep_env: "aggr_deep_scan_enabled deep_env" "aggr_skip_empty_stage_checks deep_env" "aggr_scan_round_robin_enabled deep_env"
  "aggr_scan_window deep_env = 0"
  subgoal by code_simp
  subgoal by (simp add: deep_env_def aggr_skip_empty_stage_checks_def env_toggle_enabled_def)
  subgoal by (simp add: deep_env_def aggr_scan_round_robin_enabled_def env_toggle_enabled_def)
  subgoal by (simp add: deep_env_def aggr_scan_window_def parse_grouped_env_usize_def parse_env_numeric_def)
  done

lemmas placement_defs = no_access_def dedup_firsts rw_tx_def read_domain_only_keys_def access_key_def push_unique_def
  min_group_of_def required_group_def require_after_def no_counts_def insert_all_def extend_set_def push_group_def Let_def

lemma deep_sample: "groups_of deep_env AggressiveGreedy [rw_tx 1 [] [7], rw_tx 2 [7] [], rw_tx 3 [7] []] =
    [[rw_tx 1 [] [7]], [rw_tx 2 [7] [], rw_tx 3 [7] []]]"
  by (simp add: groups_of_def deep_env deep_place_all_def deep_place_def placement_defs stage_checks_def vec_hashset_intersects_def)

text \<open>Strategies that keep the order of the batch.\<close>

lemma sample_groups:
  assumes "\<forall>tx \<in> set txs. well_versioned tx" "txs \<noteq> []" "selected \<in> {Original, AggressiveGreedy}"
  shows "\<exists>p. build_parallel_groups_profile_with_strategy fl env txs selected = Ok (groups_of env selected txs, p)"
proof -
  obtain sel ordered p where "build_parallel_groups_profile_with_strategy fl env txs selected = Ok (groups_of env sel ordered, p)"
      "reorder_for_strategy env txs sel = Ok ordered" "mset ordered = mset txs" "selected \<noteq> AutoAdaptive \<longrightarrow> sel = selected"
    by (rule build_groups [OF assms(1,2)])
  with assms(3) show ?thesis by (auto simp: reorder_for_strategy_def)
qed

lemma default_groups:
  assumes "\<forall>tx \<in> set txs. well_versioned tx" "\<not> list_all no_access txs"
  shows "build_parallel_groups fl env txs = Ok (gs_groups (place_all_txs txs))"
proof -
  from assms(2) have "txs \<noteq> []" by auto
  from sample_groups [OF assms(1) this, of Original fl env] assms(2) show ?thesis
    by (auto simp: build_parallel_groups_def build_parallel_groups_profile_def groups_of_def)
qed

section \<open>Properties\<close>

text \<open>C35. Conflict detection is exact on every path: the answer is whether one of the two transactions writes an
  object the other reads or writes, it does not depend on the order of the two, and the only panic
  is for a transaction that names one object at two versions.\<close>

theorem detect_conflict_exact:
  "detect_conflict a b = (if well_versioned a \<and> well_versioned b then Ok (conflicting a b) else Err AssertionFailed) \<and>
   detect_conflict b a = detect_conflict a b"
  by (auto simp: detect_conflict_eq conflicting_def)

text \<open>C14. Grouping under every strategy and environment: a batch of well-versioned transactions is
  grouped without panic, the groups are a schedule of a permutation of the batch (the batch itself
  under the original strategy), each access is in a later group than every earlier write of the
  object, and the profile counts the batch; any other batch panics.\<close>

theorem grouping_schedule:
  "if \<forall>tx \<in> set txs. well_versioned tx
   then \<exists>groups p ordered gs. build_parallel_groups_profile_with_strategy fl env txs strategy = Ok (groups, p) \<and>
     mset ordered = mset txs \<and> (strategy = Original \<longrightarrow> ordered = txs) \<and>
     is_schedule ordered gs groups \<and> writes_first ordered gs \<and> mset (concat groups) = mset txs \<and>
     gp_tx_count p = length txs \<and> gp_group_count p = length groups \<and> gp_grouped_count p = length txs
   else build_parallel_groups_profile_with_strategy fl env txs strategy = Err AssertionFailed"
proof (cases "\<forall>tx \<in> set txs. well_versioned tx")
  case True
  show ?thesis
  proof (cases "txs = []")
    case True
    then show ?thesis
      by (simp add: build_parallel_groups_profile_with_strategy_def profile_of_def Let_def is_schedule_def writes_first_def)
  next
    case False
    obtain selected ordered p where b:
      "build_parallel_groups_profile_with_strategy fl env txs strategy = Ok (groups_of env selected ordered, p)"
      "reorder_for_strategy env txs selected = Ok ordered" "mset ordered = mset txs" "strategy \<noteq> AutoAdaptive \<longrightarrow> selected = strategy"
      "gp_tx_count p = length txs" "gp_group_count p = length (groups_of env selected ordered)" "gp_grouped_count p = length txs"
      by (rule build_groups [OF \<open>\<forall>tx \<in> set txs. well_versioned tx\<close> False])
    from groups_of_schedule [of ordered env selected] obtain gs where
      gs: "is_schedule ordered gs (groups_of env selected ordered)" "writes_first ordered gs" by (elim exE conjE) (rule that)
    have "strategy = Original \<longrightarrow> ordered = txs" using b(2,4) by (auto simp: reorder_for_strategy_def)
    then show ?thesis
      unfolding if_P [OF \<open>\<forall>tx \<in> set txs. well_versioned tx\<close>]
      by (intro exI [of _ "groups_of env selected ordered"] exI [of _ p] exI [of _ ordered] exI [of _ gs] conjI)
        (simp_all only: b(1,3,5-7) gs groups_of_mset)
  qed
next
  case False
  then have "txs \<noteq> []" by auto
  with False show ?thesis
    by (simp only: build_parallel_groups_profile_with_strategy_def assert_batch_iff if_False tryR_simps)
qed

theorem grouping_schedule_witness:
  "list_all well_versioned [rw_tx 1 [] [7], rw_tx 2 [7] []] \<and>
   (\<exists>groups p. build_parallel_groups_profile_with_strategy fixed_point (\<lambda>_. None) [rw_tx 1 [] [7], rw_tx 2 [7] []] AggressiveGreedy = Ok (groups, p) \<and>
      gp_grouped_count p = 2)"
proof -
  have "\<forall>tx \<in> set [rw_tx 1 [] [7], rw_tx 2 [7] []]. well_versioned tx"
    by (simp add: rw_tx_well_versioned)
  with grouping_schedule [of "[rw_tx 1 [] [7], rw_tx 2 [7] []]" fixed_point "\<lambda>_. None" AggressiveGreedy]
  show ?thesis by (auto split: if_splits)
qed

text \<open>C27. With the deep scan enabled no two members of a group conflict: the detector says so for every pair.\<close>

theorem deep_scan_groups_independent:
  assumes "aggr_deep_scan_enabled env" "build_parallel_groups_profile_with_strategy fl env txs AggressiveGreedy = Ok (groups, p)"
    and "members \<in> set groups" "i < j" "j < length members"
  shows "detect_conflict (members ! i) (members ! j) = Ok False"
proof -
  have wv: "\<forall>tx \<in> set txs. well_versioned tx"
    using assms(2,3) by (auto simp: build_parallel_groups_profile_with_strategy_def assert_batch_iff split: if_splits)
  have ne: "txs \<noteq> []"
    using assms(2,3) by (auto simp: build_parallel_groups_profile_with_strategy_def)
  obtain selected ordered q where b:
      "build_parallel_groups_profile_with_strategy fl env txs AggressiveGreedy = Ok (groups_of env selected ordered, q)"
      "reorder_for_strategy env txs selected = Ok ordered" "mset ordered = mset txs" "AggressiveGreedy \<noteq> AutoAdaptive \<longrightarrow> selected = AggressiveGreedy"
    by (rule build_groups [OF wv ne])
  then have sel: "selected = AggressiveGreedy" and groups: "groups = groups_of env selected ordered" using assms(2) by auto
  have "set (concat groups) = set txs"
    using groups_of_mset [of env selected ordered] b(3) groups by (metis set_mset_mset)
  then have "set members \<subseteq> set txs" using assms(3) by auto
  with wv assms(4,5) have "well_versioned (members ! i)" "well_versioned (members ! j)"
    by (meson less_trans nth_mem subsetD)+
  moreover have "\<not> conflicting (members ! i) (members ! j)"
  proof (cases "list_all no_access ordered")
    case True
    with groups assms(3) have "members = ordered" by (simp add: groups_of_def)
    with True assms(4,5) show ?thesis by (simp add: list_all_length no_access_def conflicting_def)
  next
    case False
    with groups sel assms(1,3) have "members \<in> set (dp_groups (deep_place_all env ordered))" by (simp add: groups_of_def)
    moreover have "deep_inv (deep_place_all env ordered)"
      unfolding deep_place_all_def by (intro deep_inv_fold deep_start)
    ultimately have "sorted_wrt (\<lambda>a b. \<not> conflicting a b) members"
      by (auto simp: deep_inv_def group_keys_exact_def in_set_conv_nth)
    with assms(4,5) show ?thesis by (simp add: sorted_wrt_iff_nth_less)
  qed
  ultimately show ?thesis by (simp add: detect_conflict_eq)
qed

theorem deep_scan_groups_independent_witness:
  "aggr_deep_scan_enabled deep_env \<and>
   (\<exists>p. build_parallel_groups_profile_with_strategy fixed_point deep_env [rw_tx 1 [] [7], rw_tx 2 [7] [], rw_tx 3 [7] []] AggressiveGreedy =
     Ok ([[rw_tx 1 [] [7]], [rw_tx 2 [7] [], rw_tx 3 [7] []]], p)) \<and>
   detect_conflict (rw_tx 2 [7] []) (rw_tx 3 [7] []) = Ok False"
proof -
  obtain p where p: "build_parallel_groups_profile_with_strategy fixed_point deep_env [rw_tx 1 [] [7], rw_tx 2 [7] [], rw_tx 3 [7] []] AggressiveGreedy =
     Ok ([[rw_tx 1 [] [7]], [rw_tx 2 [7] [], rw_tx 3 [7] []]], p)"
    using sample_groups [of "[rw_tx 1 [] [7], rw_tx 2 [7] [], rw_tx 3 [7] []]" AggressiveGreedy fixed_point deep_env] deep_sample
    by (auto simp: rw_tx_well_versioned)
  from deep_scan_groups_independent [OF deep_env(1) p, of "[rw_tx 2 [7] [], rw_tx 3 [7] []]" 0 1] p deep_env(1) show ?thesis by auto
qed

text \<open>The default placement can put conflicting transactions into one group, and a write into a
  group before an earlier read of the object: when a transaction in a low group reads an object, it replaces the record of a
  reader in a higher group. In the first batch the second and the fourth transaction conflict and share a group; in the second
  batch the last transaction writes object 1 one group before the third transaction reads it.\<close>

lemma default_groups_may_conflict:
  "build_parallel_groups fl env [rw_tx 1 [] [2], rw_tx 2 [2, 1] [], rw_tx 3 [1] [], rw_tx 4 [] [1]] =
     Ok [[rw_tx 1 [] [2], rw_tx 3 [1] []], [rw_tx 2 [2, 1] [], rw_tx 4 [] [1]]] \<and>
   detect_conflict (rw_tx 2 [2, 1] []) (rw_tx 4 [] [1]) = Ok True \<and>
   build_parallel_groups fl env [rw_tx 1 [] [2], rw_tx 2 [2] [3], rw_tx 3 [3, 1] [], rw_tx 4 [1] [], rw_tx 5 [] [1]] =
     Ok [[rw_tx 1 [] [2], rw_tx 4 [1] []], [rw_tx 2 [2] [3], rw_tx 5 [] [1]], [rw_tx 3 [3, 1] []]]"
proof -
  have "gs_groups (place_all_txs [rw_tx 1 [] [2], rw_tx 2 [2, 1] [], rw_tx 3 [1] [], rw_tx 4 [] [1]]) =
      [[rw_tx 1 [] [2], rw_tx 3 [1] []], [rw_tx 2 [2, 1] [], rw_tx 4 [] [1]]]"
    by (simp add: place_all_txs_def place_tx_def placement_defs)
  moreover have "gs_groups (place_all_txs [rw_tx 1 [] [2], rw_tx 2 [2] [3], rw_tx 3 [3, 1] [], rw_tx 4 [1] [], rw_tx 5 [] [1]]) =
      [[rw_tx 1 [] [2], rw_tx 4 [1] []], [rw_tx 2 [2] [3], rw_tx 5 [] [1]], [rw_tx 3 [3, 1] []]]"
    by (simp add: place_all_txs_def place_tx_def placement_defs)
  moreover have "\<not> no_access (rw_tx 1 [] [2])" "conflicting (rw_tx 2 [2, 1] []) (rw_tx 4 [] [1])"
    by (simp_all add: no_access_def rw_tx_def conflicting_def)
  ultimately show ?thesis
    by (simp add: default_groups rw_tx_well_versioned detect_conflict_eq)
qed

end
