(* ===== verification/Cbor.thy ===== *)
theory Cbor
  imports Byte_Encoding
begin

text \<open>
  The deterministic CBOR of \<open>trnm-research-protocol/src/canonical.rs\<close>. An encoder is the bytes it appends; a
  decoder is a function from the input that is left to a value and the input left after it (the cursor of
  the source only moves forward). The interface \<open>codec\<close> says that decoding is exact: it succeeds exactly on
  the encoding of a value, followed by anything. Every type of the protocol implements it.
\<close>

unbundle bit_operations_syntax

named_theorems codec_iffs \<open>decoders succeed exactly on encodings\<close>

section \<open>Bytes to words\<close>

text \<open>\<open>from_be_bytes\<close>, and the value read so far.\<close>

definition be_value :: "u8 list \<Rightarrow> nat" where
  "be_value bs = foldl (\<lambda>n b. n * 256 + unat b) 0 bs"

definition from_be :: "u8 list \<Rightarrow> 'a::len word" where
  "from_be bs = word_of_nat (be_value bs)"

lemma be_value_simps [simp]: "be_value [] = 0" "be_value (bs @ [b]) = be_value bs * 256 + unat b"
  by (simp_all add: be_value_def)

lemma be_value_bound: "be_value bs < 2 ^ (8 * length bs)"
proof (induction bs rule: rev_induct)
  case (snoc b bs)
  have "unat b < 256" using unat_bound [of b] by simp
  with snoc show ?case by (simp add: power_add)
qed simp

lemma be_bytes_Suc: "be_bytes (Suc n) w = be_bytes n (drop_bit 8 w) @ [ucast w]"
  by (simp add: be_bytes_def upt_conv_Cons map_Suc_upt [symmetric] del: upt_Suc)
     (simp add: rev_map comp_def ac_simps)

lemma unat_from_be: "8 * length bs \<le> LENGTH('a) \<Longrightarrow> unat (from_be bs :: 'a::len word) = be_value bs"
proof -
  assume "8 * length bs \<le> LENGTH('a)"
  then have "(2 :: nat) ^ (8 * length bs) \<le> 2 ^ LENGTH('a)" by (intro power_increasing) auto
  with be_value_bound [of bs] have "be_value bs < 2 ^ LENGTH('a)" by linarith
  then show ?thesis by (simp add: from_be_def unsigned_of_nat take_bit_nat_eq_self)
qed

lemma be_bytes_from_be:
  "length bs = n \<Longrightarrow> 8 * n \<le> LENGTH('a) \<Longrightarrow> be_bytes n (from_be bs :: 'a::len word) = bs"
proof (induction bs arbitrary: n rule: rev_induct)
  case Nil
  then show ?case by (simp add: be_bytes_def)
next
  case (snoc b bs)
  then obtain m where n: "n = Suc m" "length bs = m" by auto
  have val: "unat (from_be (bs @ [b]) :: 'a word) = be_value bs * 256 + unat b" "unat (from_be bs :: 'a word) = be_value bs"
    using snoc.prems n by (simp_all add: unat_from_be)
  have b: "unat b < 256" using unat_bound [of b] by simp
  have "drop_bit 8 (from_be (bs @ [b]) :: 'a word) = from_be bs"
    using b unfolding word_unat_eq_iff unat_drop_bit_eq val by (simp add: drop_bit_eq_div)
  moreover have "ucast (from_be (bs @ [b]) :: 'a word) = b"
    using val b by (simp add: word_unat_eq_iff unsigned_ucast_eq take_bit_eq_mod)
  ultimately show ?case
    using snoc n by (simp add: be_bytes_Suc)
qed

lemma from_be_bytes:
  fixes w :: "'a::len word"
  assumes "8 * n = LENGTH('a)"
  shows "from_be (be_bytes n w) = w"
  using be_bytes_from_be [where 'a = 'a, of "be_bytes n w" n] assms by (simp add: be_bytes_inject)

section \<open>The encoder\<close>

text \<open>\<open>Encoder::head\<close>: the major type and a value in its shortest form.\<close>

definition enc_head :: "u8 \<Rightarrow> u64 \<Rightarrow> u8 list" where
  "enc_head major value =
     (let prefix = push_bit 5 major
      in if value \<le> 23 then [prefix OR ucast value]
         else if value \<le> 0xff then [prefix OR 24, ucast value]
         else if value \<le> 0xffff then (prefix OR 25) # u16_bytes (ucast value)
         else if value \<le> 0xffffffff then (prefix OR 26) # u32_bytes (ucast value)
         else (prefix OR 27) # u64_bytes value)"

definition enc_uint :: "u64 \<Rightarrow> u8 list" where
  "enc_uint value = enc_head 0 value"

definition enc_bytestring :: "u8 list \<Rightarrow> u8 list" where
  "enc_bytestring value = enc_head 2 (word_of_nat (length value)) @ value"

definition enc_text :: "string \<Rightarrow> u8 list" where
  "enc_text value = enc_head 3 (word_of_nat (length value)) @ ascii value"

definition enc_array :: "nat \<Rightarrow> u8 list" where
  "enc_array len = enc_head 4 (word_of_nat len)"

definition enc_bool :: "bool \<Rightarrow> u8 list" where
  "enc_bool value = [if value then 0xf5 else 0xf4]"

definition enc_null :: "u8 list" where
  "enc_null = [0xf6]"

definition enc_digest :: "hash32 \<Rightarrow> u8 list" where
  "enc_digest value = enc_bytestring (hash_bytes value)"

definition encode_option_digest :: "hash32 option \<Rightarrow> u8 list" where
  "encode_option_digest value = (case value of Some digest \<Rightarrow> enc_digest digest | None \<Rightarrow> enc_null)"

text \<open>An array of values: its length and the values.\<close>

definition enc_values :: "('a \<Rightarrow> u8 list) \<Rightarrow> 'a list \<Rightarrow> u8 list" where
  "enc_values enc values = enc_array (length values) @ concat (map enc values)"

section \<open>The decoder\<close>

datatype CanonicalDecodeError =
    UnexpectedEof
  | UnexpectedType
  | ForbiddenAdditionalInfo
  | NonMinimalEncoding
  | InvalidUtf8
  | ArrayLengthMismatch nat nat
  | ByteLengthMismatch nat nat
  | UnsupportedVersion u64
  | UnknownDiscriminant string u64
  | TrailingBytes
  | NonCanonicalRoundTrip

type_synonym 'a decoder = "u8 list \<Rightarrow> ('a \<times> u8 list, CanonicalDecodeError) result"

definition dec_finish :: "u8 list \<Rightarrow> (unit, CanonicalDecodeError) result" where
  "dec_finish bs = (if bs = [] then Ok () else Err TrailingBytes)"

definition dec_byte :: "u8 decoder" where
  "dec_byte bs = (case bs of [] \<Rightarrow> Err UnexpectedEof | b # rest \<Rightarrow> Ok (b, rest))"

definition dec_take :: "nat \<Rightarrow> u8 list decoder" where
  "dec_take len bs = (if length bs < len then Err UnexpectedEof else Ok (take len bs, drop len bs))"

definition dec_head :: "(u8 \<times> u64) decoder" where
  "dec_head bs =
     tryR (dec_byte bs) (\<lambda>(first, bs).
       let major = drop_bit 5 first; additional = first AND 0x1f
       in if additional \<le> 23 then Ok ((major, ucast additional), bs)
          else if additional = 24 then
            tryR (dec_byte bs) (\<lambda>(b, bs).
              let value = ucast b in if value < 24 then Err NonMinimalEncoding else Ok ((major, value), bs))
          else if additional = 25 then
            tryR (dec_take 2 bs) (\<lambda>(v, bs).
              let value = ucast (from_be v :: u16) in if value \<le> 0xff then Err NonMinimalEncoding else Ok ((major, value), bs))
          else if additional = 26 then
            tryR (dec_take 4 bs) (\<lambda>(v, bs).
              let value = ucast (from_be v :: u32) in if value \<le> 0xffff then Err NonMinimalEncoding else Ok ((major, value), bs))
          else if additional = 27 then
            tryR (dec_take 8 bs) (\<lambda>(v, bs).
              let value = from_be v in if value \<le> 0xffffffff then Err NonMinimalEncoding else Ok ((major, value), bs))
          else Err ForbiddenAdditionalInfo)"

definition dec_uint :: "u64 decoder" where
  "dec_uint bs = tryR (dec_head bs) (\<lambda>((major, value), bs). if major \<noteq> 0 then Err UnexpectedType else Ok (value, bs))"

definition dec_array_len :: "nat decoder" where
  "dec_array_len bs = tryR (dec_head bs) (\<lambda>((major, value), bs). if major \<noteq> 4 then Err UnexpectedType else Ok (unat value, bs))"

definition dec_array :: "nat \<Rightarrow> unit decoder" where
  "dec_array expected bs = tryR (dec_array_len bs) (\<lambda>(got, bs).
     if got \<noteq> expected then Err (ArrayLengthMismatch expected got) else Ok ((), bs))"

definition dec_bytestring :: "u8 list decoder" where
  "dec_bytestring bs = tryR (dec_head bs) (\<lambda>((major, value), bs). if major \<noteq> 2 then Err UnexpectedType else dec_take (unat value) bs)"

text \<open>\<open>bytes_exact::<32>\<close>.\<close>

definition dec_digest :: "hash32 decoder" where
  "dec_digest bs = tryR (dec_bytestring bs) (\<lambda>(v, bs).
     if length v \<noteq> 32 then Err (ByteLengthMismatch 32 (length v)) else Ok (from_be v, bs))"

text \<open>\<open>str::from_utf8\<close>: the well-formed byte sequences of Unicode (surrogates and overlong forms excluded).\<close>

definition continuation :: "u8 \<Rightarrow> bool" where
  "continuation b \<longleftrightarrow> 0x80 \<le> b \<and> b \<le> 0xbf"

fun valid_utf8 :: "u8 list \<Rightarrow> bool" where
  "valid_utf8 [] = True"
| "valid_utf8 (a # bs) =
     (if a < 0x80 then valid_utf8 bs
      else case bs of
        [] \<Rightarrow> False
      | b # bs1 \<Rightarrow>
          if 0xc2 \<le> a \<and> a \<le> 0xdf then continuation b \<and> valid_utf8 bs1
          else case bs1 of
            [] \<Rightarrow> False
          | c # bs2 \<Rightarrow>
              if 0xe0 \<le> a \<and> a \<le> 0xef
              then continuation b \<and> (a = 0xe0 \<longrightarrow> 0xa0 \<le> b) \<and> (a = 0xed \<longrightarrow> b \<le> 0x9f) \<and> continuation c \<and> valid_utf8 bs2
              else case bs2 of
                [] \<Rightarrow> False
              | d # bs3 \<Rightarrow>
                  0xf0 \<le> a \<and> a \<le> 0xf4 \<and> continuation b \<and> (a = 0xf0 \<longrightarrow> 0x90 \<le> b) \<and> (a = 0xf4 \<longrightarrow> b \<le> 0x8f) \<and>
                  continuation c \<and> continuation d \<and> valid_utf8 bs3)"

definition dec_text :: "string decoder" where
  "dec_text bs = tryR (dec_head bs) (\<lambda>((major, value), bs).
     if major \<noteq> 3 then Err UnexpectedType
     else tryR (dec_take (unat value) bs) (\<lambda>(v, bs).
       if valid_utf8 v then Ok (map (\<lambda>b. char_of (unat b)) v, bs) else Err InvalidUtf8))"

definition dec_bool :: "bool decoder" where
  "dec_bool bs = tryR (dec_byte bs) (\<lambda>(b, bs).
     if b = 0xf4 then Ok (False, bs) else if b = 0xf5 then Ok (True, bs) else Err UnexpectedType)"

definition dec_option_digest :: "hash32 option decoder" where
  "dec_option_digest bs =
     (case bs of
        b # rest \<Rightarrow> if b = 0xf6 then Ok (None, rest) else tryR (dec_digest bs) (\<lambda>(d, bs). Ok (Some d, bs))
      | [] \<Rightarrow> tryR (dec_digest bs) (\<lambda>(d, bs). Ok (Some d, bs)))"

text \<open>\<open>for _ in 0..len { values.push(decode(decoder)?) }\<close>.\<close>

fun dec_count :: "'a decoder \<Rightarrow> nat \<Rightarrow> 'a list decoder" where
  "dec_count dec 0 bs = Ok ([], bs)"
| "dec_count dec (Suc n) bs = tryR (dec bs) (\<lambda>(x, bs). tryR (dec_count dec n bs) (\<lambda>(xs, bs). Ok (x # xs, bs)))"

definition dec_values :: "'a decoder \<Rightarrow> 'a list decoder" where
  "dec_values dec bs = tryR (dec_array_len bs) (\<lambda>(len, bs). dec_count dec len bs)"

section \<open>Hashes\<close>

definition canonical_preimage :: "string \<Rightarrow> u8 list \<Rightarrow> u8 list" where
  "canonical_preimage domain bytes = ascii ''TRNM_RESEARCH_PROTOCOL_HASH_V1'' @ [0] @ u32_bytes (word_of_nat (length domain)) @
     ascii domain @ u64_bytes (word_of_nat (length bytes)) @ bytes"

definition canonical_hash :: "(u8 list \<Rightarrow> hash32) \<Rightarrow> string \<Rightarrow> u8 list \<Rightarrow> hash32" where
  "canonical_hash sha domain bytes = sha (canonical_preimage domain bytes)"

section \<open>Heads, exactly\<close>

lemma byte_parts:
  fixes major x :: u8
  assumes "major < 8" "x < 32"
  shows "drop_bit 5 (push_bit 5 major OR x) = major" "(push_bit 5 major OR x) AND 0x1f = x"
proof -
  have m: "take_bit 3 major = major" and x: "take_bit 5 x = x"
    using assms by (simp_all add: word_unat_eq_iff unsigned_take_bit_eq take_bit_nat_eq_self word_less_nat_alt)
  have bits: "bit major k \<Longrightarrow> k < 3" "bit x k \<Longrightarrow> k < 5" for k
    using bit_take_bit_iff [of 3 major k] bit_take_bit_iff [of 5 x k] m x by auto
  have mask: "(0x1f :: u8) = mask 5" by (simp add: mask_eq_exp_minus_1)
  show "drop_bit 5 (push_bit 5 major OR x) = major"
    by (rule bit_word_eqI) (auto simp: bit_simps dest: bits)
  show "(push_bit 5 major OR x) AND 0x1f = x"
    unfolding mask by (rule bit_word_eqI) (auto simp: bit_simps dest: bits)
qed

lemma byte_split:
  fixes a :: u8
  shows "push_bit 5 (drop_bit 5 a) OR (a AND 0x1f) = a" "drop_bit 5 a < 8"
proof -
  have mask: "(0x1f :: u8) = mask 5" by (simp add: mask_eq_exp_minus_1)
  show "push_bit 5 (drop_bit 5 a) OR (a AND 0x1f) = a"
    unfolding mask by (rule bit_word_eqI) (auto simp: bit_simps)
  have "unat (drop_bit 5 a) < 8"
    using unat_bound [of a] unfolding unat_drop_bit_eq by (simp add: drop_bit_eq_div)
  then show "drop_bit 5 a < 8" by (simp add: word_less_nat_alt)
qed

lemma dec_take_append: "length v = n \<Longrightarrow> dec_take n (v @ bs) = Ok (v, bs)"
  by (simp add: dec_take_def)

lemma dec_take_iff: "dec_take n bs = Ok (v, rest) \<longleftrightarrow> length v = n \<and> bs = v @ rest"
  by (auto simp: dec_take_def)

lemma dec_byte_iff: "dec_byte bs = Ok (b, rest) \<longleftrightarrow> bs = b # rest"
  by (auto simp: dec_byte_def split: list.splits)

lemma ucast_ucast_le:
  fixes v :: u64
  shows "v \<le> 0xff \<Longrightarrow> ucast (ucast v :: u8) = v" "v \<le> 0xffff \<Longrightarrow> ucast (ucast v :: u16) = v"
    "v \<le> 0xffffffff \<Longrightarrow> ucast (ucast v :: u32) = v"
  by (simp_all add: word_unat_eq_iff unsigned_ucast_eq unsigned_take_bit_eq take_bit_nat_eq_self word_le_nat_alt)

lemma dec_head_enc:
  assumes "major < 8"
  shows "dec_head (enc_head major v @ rest) = Ok ((major, v), rest)"
proof -
  note parts = byte_parts [OF assms]
  consider "v \<le> 23" | "23 < v" "v \<le> 0xff" | "0xff < v" "v \<le> 0xffff" | "0xffff < v" "v \<le> 0xffffffff" | "0xffffffff < v"
    by (meson not_le)
  then show ?thesis
  proof cases
    case 1
    then have "(ucast v :: u8) < 32" "(ucast v :: u8) \<le> 23" "ucast (ucast v :: u8) = v"
      by (simp_all add: word_less_nat_alt word_le_nat_alt unsigned_ucast_eq unsigned_take_bit_eq take_bit_nat_eq_self word_unat_eq_iff)
    with 1 parts [of "ucast v"] show ?thesis by (simp add: dec_head_def enc_head_def dec_byte_def Let_def)
  next
    case 2
    then have "\<not> v \<le> 23" "\<not> v < 24" "ucast (ucast v :: u8) = v"
      by (auto simp: ucast_ucast_le word_le_nat_alt word_less_nat_alt)
    with 2 parts [of 24] show ?thesis by (simp add: dec_head_def enc_head_def dec_byte_def Let_def)
  next
    case 3
    then have "\<not> v \<le> 23" "\<not> v \<le> 0xff" by (auto simp: word_le_nat_alt word_less_nat_alt)
    with 3 parts [of 25] show ?thesis
      by (simp add: dec_head_def enc_head_def dec_byte_def Let_def dec_take_append from_be_bytes ucast_ucast_le)
  next
    case 4
    then have "\<not> v \<le> 23" "\<not> v \<le> 0xff" "\<not> v \<le> 0xffff" by (auto simp: word_le_nat_alt word_less_nat_alt)
    with 4 parts [of 26] show ?thesis
      by (simp add: dec_head_def enc_head_def dec_byte_def Let_def dec_take_append from_be_bytes ucast_ucast_le)
  next
    case 5
    then have "\<not> v \<le> 23" "\<not> v \<le> 0xff" "\<not> v \<le> 0xffff" "\<not> v \<le> 0xffffffff" by (auto simp: word_le_nat_alt word_less_nat_alt)
    with 5 parts [of 27] show ?thesis
      by (simp add: dec_head_def enc_head_def dec_byte_def Let_def dec_take_append from_be_bytes)
  qed
qed

lemma ucast_up:
  "ucast (ucast (a :: u8) :: u64) = a" "ucast (ucast (b :: u16) :: u64) = b" "ucast (ucast (c :: u32) :: u64) = c"
  "(ucast a :: u64) \<le> 0xff" "(ucast b :: u64) \<le> 0xffff" "(ucast c :: u64) \<le> 0xffffffff" "unat (ucast a :: u64) = unat a"
proof -
  have up: "unat (ucast a :: u64) = unat a" "unat (ucast b :: u64) = unat b" "unat (ucast c :: u64) = unat c"
    using unat_bound [of a] unat_bound [of b] unat_bound [of c] by (simp_all add: unsigned_ucast_eq unsigned_take_bit_eq take_bit_nat_eq_self)
  show "ucast (ucast a :: u64) = a" "ucast (ucast b :: u64) = b" "ucast (ucast c :: u64) = c"
    using unat_bound [of a] unat_bound [of b] unat_bound [of c]
    by (simp_all add: word_unat_eq_iff unsigned_ucast_eq unsigned_take_bit_eq take_bit_nat_eq_self)
  show "(ucast a :: u64) \<le> 0xff" "(ucast b :: u64) \<le> 0xffff" "(ucast c :: u64) \<le> 0xffffffff"
    using unat_bound [of a] unat_bound [of b] unat_bound [of c] by (simp_all add: word_le_nat_alt up)
  show "unat (ucast a :: u64) = unat a" by (rule up)
qed

lemma dec_head_sound:
  assumes "dec_head bs = Ok ((major, v), rest)"
  shows "major < 8 \<and> bs = enc_head major v @ rest"
proof -
  obtain first bs1 where bs: "bs = first # bs1"
    using assms by (cases bs) (auto simp: dec_head_def dec_byte_def)
  define a where "a = first AND 0x1f"
  have dec: "dec_head bs = (if a \<le> 23 then Ok ((drop_bit 5 first, ucast a), bs1)
          else if a = 24 then tryR (dec_byte bs1) (\<lambda>(b, bs). if ucast b < (24 :: u64) then Err NonMinimalEncoding else Ok ((drop_bit 5 first, ucast b), bs))
          else if a = 25 then tryR (dec_take 2 bs1) (\<lambda>(w, bs). if ucast (from_be w :: u16) \<le> (0xff :: u64) then Err NonMinimalEncoding
              else Ok ((drop_bit 5 first, ucast (from_be w :: u16)), bs))
          else if a = 26 then tryR (dec_take 4 bs1) (\<lambda>(w, bs). if ucast (from_be w :: u32) \<le> (0xffff :: u64) then Err NonMinimalEncoding
              else Ok ((drop_bit 5 first, ucast (from_be w :: u32)), bs))
          else if a = 27 then tryR (dec_take 8 bs1) (\<lambda>(w, bs). if from_be w \<le> (0xffffffff :: u64) then Err NonMinimalEncoding
              else Ok ((drop_bit 5 first, from_be w), bs))
          else Err ForbiddenAdditionalInfo)"
    by (simp add: bs dec_head_def dec_byte_def Let_def a_def)
  have first: "push_bit 5 (drop_bit 5 first) OR a = first" "drop_bit 5 first < 8"
    using byte_split [of first] by (simp_all add: a_def)
  note mono = word_le_nat_alt word_less_nat_alt
  consider "a \<le> 23" | "a = 24" | "a = 25" | "a = 26" | "a = 27"
    using assms dec by (auto split: if_splits)
  then show ?thesis
  proof cases
    case 1
    then have "(ucast a :: u64) \<le> 23" by (simp add: mono ucast_up)
    with 1 first assms dec bs show ?thesis by (simp add: enc_head_def Let_def ucast_up)
  next
    case 2
    with assms dec obtain b where b: "bs1 = b # rest" "v = ucast b" "\<not> v < 24" "major = drop_bit 5 first"
      by (auto simp: result_simps dec_byte_iff split: if_splits)
    then have "\<not> v \<le> 23" by (simp add: mono)
    with b 2 first bs show ?thesis by (simp add: enc_head_def Let_def ucast_up)
  next
    case 3
    with assms dec obtain w where w: "bs1 = w @ rest" "length w = 2" "v = ucast (from_be w :: u16)" "\<not> v \<le> 0xff" "major = drop_bit 5 first"
      by (auto simp: result_simps dec_take_iff split: if_splits)
    then have "\<not> v \<le> 23" by (simp add: mono)
    with w 3 first bs show ?thesis by (simp add: enc_head_def Let_def ucast_up be_bytes_from_be)
  next
    case 4
    with assms dec obtain w where w: "bs1 = w @ rest" "length w = 4" "v = ucast (from_be w :: u32)" "\<not> v \<le> 0xffff" "major = drop_bit 5 first"
      by (auto simp: result_simps dec_take_iff split: if_splits)
    then have "\<not> v \<le> 23" "\<not> v \<le> 0xff" by (simp_all add: mono)
    with w 4 first bs show ?thesis by (simp add: enc_head_def Let_def ucast_up be_bytes_from_be)
  next
    case 5
    with assms dec obtain w where w: "bs1 = w @ rest" "length w = 8" "v = from_be w" "\<not> v \<le> 0xffffffff" "major = drop_bit 5 first"
      by (auto simp: result_simps dec_take_iff split: if_splits)
    then have "\<not> v \<le> 23" "\<not> v \<le> 0xff" "\<not> v \<le> 0xffff" by (simp_all add: mono)
    with w 5 first bs show ?thesis by (simp add: enc_head_def Let_def be_bytes_from_be)
  qed
qed

lemma dec_head_iff: "dec_head bs = Ok ((major, v), rest) \<longleftrightarrow> major < 8 \<and> bs = enc_head major v @ rest"
  using dec_head_enc dec_head_sound by blast

section \<open>Codecs\<close>

text \<open>What a codec promises: the decoder succeeds exactly on encodings of representable values.\<close>

locale codec =
  fixes enc :: "'a \<Rightarrow> u8 list"
    and dec :: "'a decoder"
    and ok :: "'a \<Rightarrow> bool"
  assumes dec_iff: "dec bs = Ok (x, rest) \<longleftrightarrow> ok x \<and> bs = enc x @ rest"
begin

lemma dec_enc: "ok x \<Longrightarrow> dec (enc x @ rest) = Ok (x, rest)"
  by (simp add: dec_iff)

text \<open>Encodings are prefix-free.\<close>

lemma enc_append_inject: "ok x \<Longrightarrow> ok y \<Longrightarrow> enc x @ r = enc y @ r' \<longleftrightarrow> x = y \<and> r = r'"
  by (metis dec_enc prod.inject result.inject(1))

lemma dec_count_iff:
  "dec_count dec n bs = Ok (xs, rest) \<longleftrightarrow> length xs = n \<and> list_all ok xs \<and> bs = concat (map enc xs) @ rest"
proof (induction n arbitrary: bs xs)
  case 0
  show ?case by auto
next
  case (Suc n)
  have "dec_count dec (Suc n) bs = Ok (xs, rest) \<longleftrightarrow>
      (\<exists>x bs' ys. dec bs = Ok (x, bs') \<and> dec_count dec n bs' = Ok (ys, rest) \<and> xs = x # ys)"
    by (auto simp: result_simps)
  also have "\<dots> \<longleftrightarrow> length xs = Suc n \<and> list_all ok xs \<and> bs = concat (map enc xs) @ rest"
    unfolding dec_iff Suc by (cases xs) auto
  finally show ?case .
qed

end

text \<open>Lists of values of a codec.\<close>

lemma dec_array_len_iff [codec_iffs]: "dec_array_len bs = Ok (n, rest) \<longleftrightarrow> n < 2 ^ 64 \<and> bs = enc_array n @ rest"
proof
  assume "dec_array_len bs = Ok (n, rest)"
  then obtain v where v: "dec_head bs = Ok ((4, v), rest)" "n = unat v"
    by (auto simp: dec_array_len_def result_simps split: if_splits)
  then show "n < 2 ^ 64 \<and> bs = enc_array n @ rest"
    using unat_bound [of v] by (simp add: dec_head_iff enc_array_def)
next
  assume "n < 2 ^ 64 \<and> bs = enc_array n @ rest"
  then show "dec_array_len bs = Ok (n, rest)"
    by (simp add: dec_array_len_def enc_array_def dec_head_enc unsigned_of_nat take_bit_nat_eq_self)
qed

context codec
begin

lemma dec_values_iff:
  "dec_values dec bs = Ok (xs, rest) \<longleftrightarrow> length xs < 2 ^ 64 \<and> list_all ok xs \<and> bs = enc_values enc xs @ rest"
proof -
  have "dec_values dec bs = Ok (xs, rest) \<longleftrightarrow> (\<exists>n bs'. dec_array_len bs = Ok (n, bs') \<and> dec_count dec n bs' = Ok (xs, rest))"
    by (auto simp: dec_values_def result_simps)
  also have "\<dots> \<longleftrightarrow> length xs < 2 ^ 64 \<and> list_all ok xs \<and> bs = enc_values enc xs @ rest"
    unfolding dec_array_len_iff dec_count_iff by (auto simp: enc_values_def)
  finally show ?thesis .
qed

end

lemma dec_array_iff [codec_iffs]: "dec_array n bs = Ok (u, rest) \<longleftrightarrow> n < 2 ^ 64 \<and> bs = enc_array n @ rest"
proof -
  have "dec_array n bs = Ok (u, rest) \<longleftrightarrow> dec_array_len bs = Ok (n, rest)"
    by (auto simp: dec_array_def result_simps)
  then show ?thesis by (simp only: dec_array_len_iff)
qed

lemma ex_unat: "(\<exists>v :: u64. n = unat v \<and> P v) \<longleftrightarrow> n < 2 ^ 64 \<and> P (word_of_nat n)"
proof
  assume "\<exists>v :: u64. n = unat v \<and> P v"
  then show "n < 2 ^ 64 \<and> P (word_of_nat n)" using unat_bound [where 'a = 64] by auto
next
  assume "n < 2 ^ 64 \<and> P (word_of_nat n)"
  then show "\<exists>v :: u64. n = unat v \<and> P v"
    by (intro exI [of _ "word_of_nat n"]) (simp add: unsigned_of_nat take_bit_nat_eq_self)
qed

interpretation uint: codec enc_uint dec_uint "\<lambda>_. True"
proof
  fix bs x rest
  have "dec_uint bs = Ok (x, rest) \<longleftrightarrow> dec_head bs = Ok ((0, x), rest)"
    by (auto simp: dec_uint_def result_simps)
  then show "dec_uint bs = Ok (x, rest) \<longleftrightarrow> True \<and> bs = enc_uint x @ rest"
    by (simp add: dec_head_iff enc_uint_def)
qed

interpretation bytestring: codec enc_bytestring dec_bytestring "\<lambda>v. length v < 2 ^ 64"
proof
  fix bs x rest
  have "dec_bytestring bs = Ok (x, rest) \<longleftrightarrow> (\<exists>v bs'. dec_head bs = Ok ((2, v), bs') \<and> dec_take (unat v) bs' = Ok (x, rest))"
    by (auto simp: dec_bytestring_def result_simps)
  also have "\<dots> \<longleftrightarrow> (\<exists>v. length x = unat v \<and> bs = enc_head 2 v @ x @ rest)"
    by (auto simp: dec_head_iff dec_take_iff)
  also have "\<dots> \<longleftrightarrow> length x < 2 ^ 64 \<and> bs = enc_bytestring x @ rest"
    by (simp add: ex_unat enc_bytestring_def)
  finally show "dec_bytestring bs = Ok (x, rest) \<longleftrightarrow> length x < 2 ^ 64 \<and> bs = enc_bytestring x @ rest" .
qed

interpretation digest: codec enc_digest dec_digest "\<lambda>_. True"
proof
  fix bs x rest
  have "dec_digest bs = Ok (x, rest) \<longleftrightarrow> (\<exists>v. dec_bytestring bs = Ok (v, rest) \<and> length v = 32 \<and> x = from_be v)"
    by (auto simp: dec_digest_def result_simps)
  also have "\<dots> \<longleftrightarrow> (\<exists>v. length v = 32 \<and> x = from_be v \<and> bs = enc_bytestring v @ rest)"
    unfolding bytestring.dec_iff by (rule iff_exI) auto
  also have "\<dots> \<longleftrightarrow> bs = enc_digest x @ rest"
    using be_bytes_from_be [where 'a = 256 and n = 32] from_be_bytes [of 32 x] 
    by (auto simp: enc_digest_def intro!: exI [of _ "hash_bytes x"])
  finally show "dec_digest bs = Ok (x, rest) \<longleftrightarrow> True \<and> bs = enc_digest x @ rest" by simp
qed

lemma chars_of_bytes: "ascii s = v \<longleftrightarrow> s = map (\<lambda>b. char_of (unat b)) v"
proof -
  have word: "(of_char c :: u8) = word_of_nat (of_char c)" for c
    by (simp add: of_nat_of_char)
  have up: "char_of (unat (of_char c :: u8)) = c" for c
    unfolding word by (simp add: unsigned_of_nat take_bit_eq_mod)
  have down: "of_char (char_of (unat b)) = b" for b :: u8
    unfolding word using unat_bound [of b] by simp
  show ?thesis
    unfolding ascii_def by (auto simp: comp_def up down)
qed

interpretation utf8: codec enc_text dec_text "\<lambda>s. length s < 2 ^ 64 \<and> valid_utf8 (ascii s)"
proof
  fix bs x rest
  have len: "length (ascii x) = length x" by (simp add: ascii_def)
  have "dec_text bs = Ok (x, rest) \<longleftrightarrow> (\<exists>n bs' v. dec_head bs = Ok ((3, n), bs') \<and> dec_take (unat n) bs' = Ok (v, rest) \<and>
      valid_utf8 v \<and> x = map (\<lambda>b. char_of (unat b)) v)"
    by (auto simp: dec_text_def result_simps)
  also have "\<dots> \<longleftrightarrow> (\<exists>n v. length v = unat n \<and> bs = enc_head 3 n @ v @ rest \<and> valid_utf8 v \<and> ascii x = v)"
    by (auto simp: dec_head_iff dec_take_iff chars_of_bytes)
  also have "\<dots> \<longleftrightarrow> (\<exists>n. length x = unat n \<and> bs = enc_head 3 n @ ascii x @ rest \<and> valid_utf8 (ascii x))"
    by (auto simp: len)
  also have "\<dots> \<longleftrightarrow> (length x < 2 ^ 64 \<and> valid_utf8 (ascii x)) \<and> bs = enc_text x @ rest"
    by (auto simp: ex_unat enc_text_def)
  finally show "dec_text bs = Ok (x, rest) \<longleftrightarrow> (length x < 2 ^ 64 \<and> valid_utf8 (ascii x)) \<and> bs = enc_text x @ rest" .
qed

interpretation boolean: codec enc_bool dec_bool "\<lambda>_. True"
proof
  fix bs x rest
  show "dec_bool bs = Ok (x, rest) \<longleftrightarrow> True \<and> bs = enc_bool x @ rest"
    by (cases bs) (auto simp: dec_bool_def enc_bool_def dec_byte_def)
qed

lemma enc_digest_first: "\<exists>bs. enc_digest d = 0x58 # bs"
  by (simp add: enc_digest_def enc_bytestring_def enc_head_def Let_def)

interpretation option_digest: codec encode_option_digest dec_option_digest "\<lambda>_. True"
proof
  fix bs x rest
  have "dec_option_digest bs = Ok (x, rest) \<longleftrightarrow> (x = None \<and> bs = 0xf6 # rest) \<or> (\<exists>d. x = Some d \<and> bs = enc_digest d @ rest)"
  proof (cases "\<exists>l. bs = 0xf6 # l")
    case True
    moreover have "0xf6 # l \<noteq> enc_digest d @ rest" for l d using enc_digest_first [of d] by auto
    ultimately show ?thesis by (auto simp: dec_option_digest_def)
  next
    case False
    then have "dec_option_digest bs = tryR (dec_digest bs) (\<lambda>(d, bs). Ok (Some d, bs))"
      by (cases bs) (auto simp: dec_option_digest_def)
    with False show ?thesis by (auto simp: result_simps digest.dec_iff)
  qed
  then show "dec_option_digest bs = Ok (x, rest) \<longleftrightarrow> True \<and> bs = encode_option_digest x @ rest"
    by (cases x) (auto simp: encode_option_digest_def enc_null_def)
qed

lemmas base_codecs [codec_iffs] = uint.dec_iff bytestring.dec_iff digest.dec_iff utf8.dec_iff boolean.dec_iff option_digest.dec_iff

lemma valid_utf8_ascii: "list_all (\<lambda>b. b < 0x80) bs \<Longrightarrow> valid_utf8 bs"
  by (induction bs) auto

end
