(* ===== verification/Research_Types.thy ===== *)
theory Research_Types
  imports Cbor
begin

text \<open>
  The objects and commands of the research protocol (\<open>trnm-research-protocol/src/types.rs\<close>): payloads, their validation,
  their canonical encoding and the strict decoder of the node ingress. SHA-256 and the decoder of hexadecimal digits
  are parameters; \<open>usize\<close> has 64 bits.
\<close>

section \<open>External keys\<close>

type_synonym ExternalKey = hash32

definition PROTOCOL_VERSION :: u8 where
  "PROTOCOL_VERSION = 1"

datatype ExternalKeyError = InvalidNamespace | InvalidUuid | InvalidExternalId

definition is_lower :: "u8 \<Rightarrow> bool" where
  "is_lower b \<longleftrightarrow> 0x61 \<le> b \<and> b \<le> 0x7a"

definition is_digit_byte :: "u8 \<Rightarrow> bool" where
  "is_digit_byte b \<longleftrightarrow> 0x30 \<le> b \<and> b \<le> 0x39"

definition is_graphic :: "u8 \<Rightarrow> bool" where
  "is_graphic b \<longleftrightarrow> 0x21 \<le> b \<and> b \<le> 0x7e"

definition validate_namespace :: "string \<Rightarrow> (unit, ExternalKeyError) result" where
  "validate_namespace namespace =
     (if namespace = [] \<or> length namespace > 64 \<or>
         \<not> list_all (\<lambda>b. is_lower b \<or> is_digit_byte b \<or> b \<in> set (ascii ''.-_:'')) (ascii namespace)
      then Err InvalidNamespace else Ok ())"

definition is_hex_digit :: "u8 \<Rightarrow> bool" where
  "is_hex_digit b \<longleftrightarrow> is_digit_byte b \<or> (0x61 \<le> b \<and> b \<le> 0x66)"

definition parse_canonical_uuid :: "(u8 list \<Rightarrow> u8 list option) \<Rightarrow> string \<Rightarrow> (u8 list, ExternalKeyError) result" where
  "parse_canonical_uuid hex_decode uuid =
     (let bytes = ascii uuid
      in if length uuid \<noteq> 36 \<or> bytes ! 8 \<noteq> 0x2d \<or> bytes ! 13 \<noteq> 0x2d \<or> bytes ! 18 \<noteq> 0x2d \<or> bytes ! 23 \<noteq> 0x2d
         then Err InvalidUuid
         else
           let compact = filter (\<lambda>b. b \<noteq> 0x2d) bytes
           in if \<not> list_all is_hex_digit compact then Err InvalidUuid
              else if length compact \<noteq> 32 then Err InvalidUuid
              else case hex_decode compact of
                     None \<Rightarrow> Err InvalidUuid
                   | Some raw \<Rightarrow> if length raw = 16 then Ok raw else Err InvalidUuid)"

definition key_preimage :: "string \<Rightarrow> u8 \<Rightarrow> u8 list \<Rightarrow> u8 list" where
  "key_preimage namespace id_kind external_id = ascii ''TRNM_RESEARCH_EXTERNAL_KEY_V1'' @ [0] @
     u16_bytes (word_of_nat (length namespace)) @ ascii namespace @ [id_kind] @
     u16_bytes (word_of_nat (length external_id)) @ external_id"

definition derive_external_key :: "(u8 list \<Rightarrow> hash32) \<Rightarrow> string \<Rightarrow> u8 \<Rightarrow> u8 list \<Rightarrow> ExternalKey" where
  "derive_external_key sha namespace id_kind external_id = sha (key_preimage namespace id_kind external_id)"

definition from_uuid :: "(u8 list \<Rightarrow> hash32) \<Rightarrow> (u8 list \<Rightarrow> u8 list option) \<Rightarrow> string \<Rightarrow> string \<Rightarrow> (ExternalKey, ExternalKeyError) result" where
  "from_uuid sha hex_decode namespace uuid =
     tryR (validate_namespace namespace) (\<lambda>_.
     tryR (parse_canonical_uuid hex_decode uuid) (\<lambda>raw.
     Ok (derive_external_key sha namespace 1 raw)))"

definition from_external_id :: "(u8 list \<Rightarrow> hash32) \<Rightarrow> string \<Rightarrow> string \<Rightarrow> (ExternalKey, ExternalKeyError) result" where
  "from_external_id sha namespace external_id =
     tryR (validate_namespace namespace) (\<lambda>_.
     if external_id = [] \<or> length external_id > 256 then Err InvalidExternalId
     else if \<not> list_all (\<lambda>b. is_graphic b \<and> b \<noteq> 0x5c) (ascii external_id) then Err InvalidExternalId
     else Ok (derive_external_key sha namespace 2 (ascii external_id)))"

section \<open>Objects and commands\<close>

datatype ResearchObjectKind =
    MatchEvidenceKind
  | EvaluationCommitmentKind
  | WorkloadReceiptKind
  | ResearchClaimKind
  | LicenseDeclarationKind
  | ClaimChallengeKind
  | ClaimResolutionKind

fun object_kind_tag :: "ResearchObjectKind \<Rightarrow> u64" where
  "object_kind_tag MatchEvidenceKind = 1"
| "object_kind_tag EvaluationCommitmentKind = 2"
| "object_kind_tag WorkloadReceiptKind = 3"
| "object_kind_tag ResearchClaimKind = 4"
| "object_kind_tag LicenseDeclarationKind = 5"
| "object_kind_tag ClaimChallengeKind = 6"
| "object_kind_tag ClaimResolutionKind = 7"

lemma kind_tag_inject: "object_kind_tag a = object_kind_tag b \<longleftrightarrow> a = b"
  by (cases a; cases b) simp_all

text \<open>The derived order of the kinds is that of their discriminants.\<close>

instantiation ResearchObjectKind :: linorder
begin

definition less_eq_ResearchObjectKind :: "ResearchObjectKind \<Rightarrow> ResearchObjectKind \<Rightarrow> bool" where
  "a \<le> b \<longleftrightarrow> object_kind_tag a \<le> object_kind_tag b"

definition less_ResearchObjectKind :: "ResearchObjectKind \<Rightarrow> ResearchObjectKind \<Rightarrow> bool" where
  "a < b \<longleftrightarrow> object_kind_tag a < object_kind_tag b"

instance
  by standard (simp_all add: less_eq_ResearchObjectKind_def less_ResearchObjectKind_def less_le_not_le linear,
      simp add: order_antisym flip: kind_tag_inject)

end

record ObjectRefV1 =
  rf_kind :: ResearchObjectKind
  rf_key :: ExternalKey
  rf_version :: u64

definition ref_order :: "ObjectRefV1 \<Rightarrow> ResearchObjectKind \<times> ExternalKey \<times> u64" where
  "ref_order r = (rf_kind r, rf_key r, rf_version r)"

record MatchEvidenceCommitmentV1 =
  me_commitment_id :: ExternalKey
  me_match_id :: ExternalKey
  me_challenge_id :: ExternalKey
  me_event_root :: hash32
  me_roster_root :: hash32
  me_ruleset_hash :: hash32
  me_dataset_hash :: hash32
  me_archive_hash :: hash32
  me_event_count :: u64
  me_completed_at_unix_s :: u64

record EvaluationCommitmentV1 =
  ev_evaluation_id :: ExternalKey
  ev_match_evidence_ref :: ObjectRefV1
  ev_submission_hash :: hash32
  ev_rubric_hash :: hash32
  ev_evaluation_hash :: hash32
  ev_reproduction_hash :: "hash32 option"
  ev_score_bps :: u16
  ev_accepted :: bool
  ev_completed_at_unix_s :: u64

datatype ContributionRole = Researcher | DataProvider | Evaluator | Reproducer | AgentOperator

record ContributorWorkV1 =
  cw_contributor :: ExternalKey
  cw_role :: ContributionRole
  cw_accepted_work_units :: u64
  cw_contribution_hash :: hash32

record IssueWorkloadReceiptV1 =
  iw_receipt_id :: ExternalKey
  iw_evaluation_ref :: ObjectRefV1
  iw_contributors :: "ContributorWorkV1 list"
  iw_total_accepted_work_units :: u64
  iw_policy_hash :: hash32
  iw_issued_at_unix_s :: u64

record ClaimShareV1 =
  cs_contributor :: ExternalKey
  cs_share_bps :: u16

record CreateResearchClaimV1 =
  cc_claim_id :: ExternalKey
  cc_workload_receipt_ref :: ObjectRefV1
  cc_evidence_refs :: "ObjectRefV1 list"
  cc_artifact_hash :: hash32
  cc_claim_scope_hash :: hash32
  cc_claimants :: "ClaimShareV1 list"
  cc_created_at_unix_s :: u64

datatype LicenseScope = Artifact | Dataset | Method | AllClaimedMaterial

record DeclareLicenseV1 =
  dl_declaration_id :: ExternalKey
  dl_claim_ref :: ObjectRefV1
  dl_licensor :: ExternalKey
  dl_scope :: LicenseScope
  dl_spdx_expression :: string
  dl_additional_terms_hash :: "hash32 option"
  dl_effective_at_unix_s :: u64

datatype ChallengeReason = Authorship | ContributionAllocation | EvidenceIntegrity | Reproducibility | LicenseConflict

record ChallengeResearchClaimV1 =
  cl_challenge_id :: ExternalKey
  cl_claim_ref :: ObjectRefV1
  cl_challenger :: ExternalKey
  cl_reason :: ChallengeReason
  cl_evidence_hash :: hash32
  cl_opened_at_unix_s :: u64

datatype ClaimResolutionDecision = Uphold | Reject | AmendContributorShares | RequireLicenseAmendment

record ClaimResolutionV1 =
  cn_resolution_id :: ExternalKey
  cn_challenge_ref :: ObjectRefV1
  cn_decision :: ClaimResolutionDecision
  cn_resolution_hash :: hash32
  cn_amended_claimants :: "ClaimShareV1 list"
  cn_decided_at_unix_s :: u64

datatype ResearchCommandV1 =
    MatchEvidenceCommitment MatchEvidenceCommitmentV1
  | EvaluationCommitment EvaluationCommitmentV1
  | IssueWorkloadReceipt IssueWorkloadReceiptV1
  | CreateResearchClaim CreateResearchClaimV1
  | DeclareLicense DeclareLicenseV1
  | ChallengeResearchClaim ChallengeResearchClaimV1
  | ResolveResearchClaim ClaimResolutionV1

datatype ClaimStatus = Active | Challenged | Rejected | Amended | LicenseAmendmentRequired

datatype ClaimChallengeStatus = Open | Resolved

section \<open>Validation\<close>

datatype ResearchPayloadValidationError =
    ZeroExternalKey string
  | ZeroObjectVersion string
  | WrongReferenceKind string ResearchObjectKind ResearchObjectKind
  | ZeroDigest string
  | ZeroValue string
  | ZeroTimestamp
  | InvalidCollectionSize string
  | NonCanonicalOrdering string
  | BasisPointsOutOfRange string
  | ClaimShareTotalMismatch u32
  | WorkUnitTotalMismatch u64 u64
  | WorkUnitOverflow
  | InconsistentEvaluation
  | InvalidSpdxExpression
  | UnexpectedAmendedClaimants

type_synonym validation = "(unit, ResearchPayloadValidationError) result"

definition validate_key :: "string \<Rightarrow> ExternalKey \<Rightarrow> validation" where
  "validate_key field key = (if key = 0 then Err (ZeroExternalKey field) else Ok ())"

definition validate_ref :: "string \<Rightarrow> ObjectRefV1 \<Rightarrow> validation" where
  "validate_ref field r = tryR (validate_key field (rf_key r)) (\<lambda>_.
     if rf_version r = 0 then Err (ZeroObjectVersion field) else Ok ())"

definition validate_hash :: "string \<Rightarrow> hash32 \<Rightarrow> validation" where
  "validate_hash field d = (if d = 0 then Err (ZeroDigest field) else Ok ())"

definition validate_positive :: "string \<Rightarrow> u64 \<Rightarrow> validation" where
  "validate_positive field value = (if value = 0 then Err (ZeroValue field) else Ok ())"

definition validate_timestamp :: "u64 \<Rightarrow> validation" where
  "validate_timestamp timestamp = (if timestamp = 0 then Err ZeroTimestamp else Ok ())"

definition validate_ref_kind :: "string \<Rightarrow> ObjectRefV1 \<Rightarrow> ResearchObjectKind \<Rightarrow> validation" where
  "validate_ref_kind field r expected = tryR (validate_ref field r) (\<lambda>_.
     if rf_kind r \<noteq> expected then Err (WrongReferenceKind field expected (rf_kind r)) else Ok ())"

text \<open>\<open>previous.is_some_and(|value| value >= key)\<close>.\<close>

definition not_after :: "'k::linorder option \<Rightarrow> 'k \<Rightarrow> bool" where
  "not_after previous key = (case previous of None \<Rightarrow> False | Some value \<Rightarrow> value \<ge> key)"

definition evidence_step :: "(ResearchObjectKind \<times> ExternalKey \<times> u64) option \<Rightarrow> ObjectRefV1 \<Rightarrow>
    ((ResearchObjectKind \<times> ExternalKey \<times> u64) option, ResearchPayloadValidationError) result" where
  "evidence_step previous r = tryR (validate_ref ''evidence_ref'' r) (\<lambda>_.
     if \<not> (rf_kind r = MatchEvidenceKind \<or> rf_kind r = EvaluationCommitmentKind)
     then Err (WrongReferenceKind ''evidence_ref'' EvaluationCommitmentKind (rf_kind r))
     else if not_after previous (ref_order r) then Err (NonCanonicalOrdering ''evidence_refs'')
     else Ok (Some (ref_order r)))"

definition validate_evidence_refs :: "ObjectRefV1 list \<Rightarrow> validation" where
  "validate_evidence_refs refs =
     (if refs = [] \<or> length refs > 64 then Err (InvalidCollectionSize ''evidence_refs'')
      else tryR (try_fold evidence_step None refs) (\<lambda>_. Ok ()))"

definition validate_share :: "ClaimShareV1 \<Rightarrow> validation" where
  "validate_share share = tryR (validate_key ''claimant'' (cs_contributor share)) (\<lambda>_.
     if cs_share_bps share = 0 \<or> cs_share_bps share > 10000 then Err (BasisPointsOutOfRange ''share_bps'') else Ok ())"

definition share_step :: "u32 \<times> ExternalKey option \<Rightarrow> ClaimShareV1 \<Rightarrow> (u32 \<times> ExternalKey option, ResearchPayloadValidationError) result" where
  "share_step st share = (case st of (acc, previous) \<Rightarrow>
     tryR (validate_share share) (\<lambda>_.
     if not_after previous (cs_contributor share) then Err (NonCanonicalOrdering ''claimants'')
     else Ok (acc + ucast (cs_share_bps share), Some (cs_contributor share))))"

definition validate_claim_shares :: "ClaimShareV1 list \<Rightarrow> bool \<Rightarrow> validation" where
  "validate_claim_shares shares allow_empty =
     (if (\<not> allow_empty \<and> shares = []) \<or> length shares > 128 then Err (InvalidCollectionSize ''claimants'')
      else tryR (try_fold share_step (0, None) shares) (\<lambda>(acc, _).
        if \<not> allow_empty \<and> acc \<noteq> 10000 then Err (ClaimShareTotalMismatch acc) else Ok ()))"

definition double_space :: "string \<Rightarrow> bool" where
  "double_space s = list_ex (\<lambda>(a, b). a = CHR 0x20 \<and> b = CHR 0x20) (zip s (tl s))"

definition validate_spdx :: "string \<Rightarrow> validation" where
  "validate_spdx expression =
     (if expression = [] \<or> length expression > 128 \<or> trim expression \<noteq> expression \<or>
         \<not> list_all (\<lambda>b. is_graphic b \<or> b = 0x20) (ascii expression) \<or> double_space expression
      then Err InvalidSpdxExpression else Ok ())"

definition validate_match :: "MatchEvidenceCommitmentV1 \<Rightarrow> validation" where
  "validate_match m =
     tryR (validate_key ''commitment_id'' (me_commitment_id m)) (\<lambda>_.
     tryR (validate_key ''match_id'' (me_match_id m)) (\<lambda>_.
     tryR (validate_key ''challenge_id'' (me_challenge_id m)) (\<lambda>_.
     tryR (validate_hash ''event_root'' (me_event_root m)) (\<lambda>_.
     tryR (validate_hash ''roster_root'' (me_roster_root m)) (\<lambda>_.
     tryR (validate_hash ''ruleset_hash'' (me_ruleset_hash m)) (\<lambda>_.
     tryR (validate_hash ''dataset_hash'' (me_dataset_hash m)) (\<lambda>_.
     tryR (validate_hash ''archive_hash'' (me_archive_hash m)) (\<lambda>_.
     tryR (validate_positive ''event_count'' (me_event_count m)) (\<lambda>_.
     validate_timestamp (me_completed_at_unix_s m))))))))))"

definition validate_evaluation :: "EvaluationCommitmentV1 \<Rightarrow> validation" where
  "validate_evaluation e =
     tryR (validate_key ''evaluation_id'' (ev_evaluation_id e)) (\<lambda>_.
     tryR (validate_ref_kind ''match_evidence_ref'' (ev_match_evidence_ref e) MatchEvidenceKind) (\<lambda>_.
     tryR (validate_hash ''submission_hash'' (ev_submission_hash e)) (\<lambda>_.
     tryR (validate_hash ''rubric_hash'' (ev_rubric_hash e)) (\<lambda>_.
     tryR (validate_hash ''evaluation_hash'' (ev_evaluation_hash e)) (\<lambda>_.
     tryR (case ev_reproduction_hash e of Some h \<Rightarrow> validate_hash ''reproduction_hash'' h | None \<Rightarrow> Ok ()) (\<lambda>_.
     if ev_score_bps e > 10000 then Err (BasisPointsOutOfRange ''score_bps'')
     else if ev_accepted e \<and> ev_score_bps e = 0 then Err InconsistentEvaluation
     else validate_timestamp (ev_completed_at_unix_s e)))))))"

definition validate_contribution :: "ContributorWorkV1 \<Rightarrow> validation" where
  "validate_contribution c =
     tryR (validate_key ''contributor'' (cw_contributor c)) (\<lambda>_.
     tryR (validate_positive ''accepted_work_units'' (cw_accepted_work_units c)) (\<lambda>_.
     validate_hash ''contribution_hash'' (cw_contribution_hash c)))"

definition contribution_step :: "u64 \<times> ExternalKey option \<Rightarrow> ContributorWorkV1 \<Rightarrow> (u64 \<times> ExternalKey option, ResearchPayloadValidationError) result" where
  "contribution_step st c = (case st of (acc, previous) \<Rightarrow>
     tryR (validate_contribution c) (\<lambda>_.
     if not_after previous (cw_contributor c) then Err (NonCanonicalOrdering ''contributors'')
     else tryR (ok_or (checked_add acc (cw_accepted_work_units c)) WorkUnitOverflow) (\<lambda>acc'.
       Ok (acc', Some (cw_contributor c)))))"

definition validate_workload :: "IssueWorkloadReceiptV1 \<Rightarrow> validation" where
  "validate_workload w =
     tryR (validate_key ''receipt_id'' (iw_receipt_id w)) (\<lambda>_.
     tryR (validate_ref_kind ''evaluation_ref'' (iw_evaluation_ref w) EvaluationCommitmentKind) (\<lambda>_.
     if iw_contributors w = [] \<or> length (iw_contributors w) > 128 then Err (InvalidCollectionSize ''contributors'')
     else tryR (try_fold contribution_step (0, None) (iw_contributors w)) (\<lambda>(acc, _).
       if acc = 0 \<or> acc \<noteq> iw_total_accepted_work_units w
       then Err (WorkUnitTotalMismatch (iw_total_accepted_work_units w) acc)
       else tryR (validate_hash ''policy_hash'' (iw_policy_hash w)) (\<lambda>_.
         validate_timestamp (iw_issued_at_unix_s w)))))"

definition validate_claim :: "CreateResearchClaimV1 \<Rightarrow> validation" where
  "validate_claim c =
     tryR (validate_key ''claim_id'' (cc_claim_id c)) (\<lambda>_.
     tryR (validate_ref_kind ''workload_receipt_ref'' (cc_workload_receipt_ref c) WorkloadReceiptKind) (\<lambda>_.
     tryR (validate_evidence_refs (cc_evidence_refs c)) (\<lambda>_.
     tryR (validate_hash ''artifact_hash'' (cc_artifact_hash c)) (\<lambda>_.
     tryR (validate_hash ''claim_scope_hash'' (cc_claim_scope_hash c)) (\<lambda>_.
     tryR (validate_claim_shares (cc_claimants c) False) (\<lambda>_.
     validate_timestamp (cc_created_at_unix_s c)))))))"

definition validate_license :: "DeclareLicenseV1 \<Rightarrow> validation" where
  "validate_license l =
     tryR (validate_key ''declaration_id'' (dl_declaration_id l)) (\<lambda>_.
     tryR (validate_ref_kind ''claim_ref'' (dl_claim_ref l) ResearchClaimKind) (\<lambda>_.
     tryR (validate_key ''licensor'' (dl_licensor l)) (\<lambda>_.
     tryR (validate_spdx (dl_spdx_expression l)) (\<lambda>_.
     tryR (case dl_additional_terms_hash l of Some h \<Rightarrow> validate_hash ''additional_terms_hash'' h | None \<Rightarrow> Ok ()) (\<lambda>_.
     validate_timestamp (dl_effective_at_unix_s l))))))"

definition validate_challenge :: "ChallengeResearchClaimV1 \<Rightarrow> validation" where
  "validate_challenge c =
     tryR (validate_key ''challenge_id'' (cl_challenge_id c)) (\<lambda>_.
     tryR (validate_ref_kind ''claim_ref'' (cl_claim_ref c) ResearchClaimKind) (\<lambda>_.
     tryR (validate_key ''challenger'' (cl_challenger c)) (\<lambda>_.
     tryR (validate_hash ''evidence_hash'' (cl_evidence_hash c)) (\<lambda>_.
     validate_timestamp (cl_opened_at_unix_s c)))))"

definition validate_resolution :: "ClaimResolutionV1 \<Rightarrow> validation" where
  "validate_resolution r =
     tryR (validate_key ''resolution_id'' (cn_resolution_id r)) (\<lambda>_.
     tryR (validate_ref_kind ''challenge_ref'' (cn_challenge_ref r) ClaimChallengeKind) (\<lambda>_.
     tryR (validate_hash ''resolution_hash'' (cn_resolution_hash r)) (\<lambda>_.
     tryR (if cn_decision r = AmendContributorShares then validate_claim_shares (cn_amended_claimants r) False
           else if cn_amended_claimants r \<noteq> [] then Err UnexpectedAmendedClaimants else Ok ()) (\<lambda>_.
     validate_timestamp (cn_decided_at_unix_s r)))))"

fun validate_command :: "ResearchCommandV1 \<Rightarrow> validation" where
  "validate_command (MatchEvidenceCommitment p) = validate_match p"
| "validate_command (EvaluationCommitment p) = validate_evaluation p"
| "validate_command (IssueWorkloadReceipt p) = validate_workload p"
| "validate_command (CreateResearchClaim p) = validate_claim p"
| "validate_command (DeclareLicense p) = validate_license p"
| "validate_command (ChallengeResearchClaim p) = validate_challenge p"
| "validate_command (ResolveResearchClaim p) = validate_resolution p"

definition object_ref_new :: "ResearchObjectKind \<Rightarrow> ExternalKey \<Rightarrow> u64 \<Rightarrow> ObjectRefV1" where
  "object_ref_new kind key version = \<lparr>rf_kind = kind, rf_key = key, rf_version = version\<rparr>"

fun primary_object_ref :: "ResearchCommandV1 \<Rightarrow> ObjectRefV1" where
  "primary_object_ref (MatchEvidenceCommitment p) = object_ref_new MatchEvidenceKind (me_commitment_id p) 1"
| "primary_object_ref (EvaluationCommitment p) = object_ref_new EvaluationCommitmentKind (ev_evaluation_id p) 1"
| "primary_object_ref (IssueWorkloadReceipt p) = object_ref_new WorkloadReceiptKind (iw_receipt_id p) 1"
| "primary_object_ref (CreateResearchClaim p) = object_ref_new ResearchClaimKind (cc_claim_id p) 1"
| "primary_object_ref (DeclareLicense p) = object_ref_new LicenseDeclarationKind (dl_declaration_id p) 1"
| "primary_object_ref (ChallengeResearchClaim p) = object_ref_new ClaimChallengeKind (cl_challenge_id p) 1"
| "primary_object_ref (ResolveResearchClaim p) = object_ref_new ClaimResolutionKind (cn_resolution_id p) 1"

end
