(* ===== verification/Research_Codec.thy ===== *)
theory Research_Codec
  imports Research_Types
begin

text \<open>
  The canonical encoding of the objects and commands of the research protocol and the strict decoder of the
  node ingress (\<open>types.rs\<close>: the \<open>CanonicalCbor\<close> implementations and the \<open>decode_*\<close> functions). Every type is a \<open>codec\<close>.
\<close>

section \<open>Encoders\<close>

abbreviation enc_version :: "u8 list" where "enc_version \<equiv> enc_uint (ucast PROTOCOL_VERSION)"

definition enc_kind :: "ResearchObjectKind \<Rightarrow> u8 list" where
  "enc_kind k = enc_uint (object_kind_tag k)"

definition enc_ObjectRef :: "ObjectRefV1 \<Rightarrow> u8 list" where
  "enc_ObjectRef r = enc_array 4 @ enc_version @ enc_kind (rf_kind r) @ enc_digest (rf_key r) @ enc_uint (rf_version r)"

definition enc_Match :: "MatchEvidenceCommitmentV1 \<Rightarrow> u8 list" where
  "enc_Match m = enc_array 11 @ enc_version @ enc_digest (me_commitment_id m) @ enc_digest (me_match_id m) @
     enc_digest (me_challenge_id m) @ enc_digest (me_event_root m) @ enc_digest (me_roster_root m) @
     enc_digest (me_ruleset_hash m) @ enc_digest (me_dataset_hash m) @ enc_digest (me_archive_hash m) @
     enc_uint (me_event_count m) @ enc_uint (me_completed_at_unix_s m)"

definition enc_Evaluation :: "EvaluationCommitmentV1 \<Rightarrow> u8 list" where
  "enc_Evaluation e = enc_array 10 @ enc_version @ enc_digest (ev_evaluation_id e) @ enc_ObjectRef (ev_match_evidence_ref e) @
     enc_digest (ev_submission_hash e) @ enc_digest (ev_rubric_hash e) @ enc_digest (ev_evaluation_hash e) @
     encode_option_digest (ev_reproduction_hash e) @ enc_uint (ucast (ev_score_bps e)) @ enc_bool (ev_accepted e) @
     enc_uint (ev_completed_at_unix_s e)"

fun role_tag :: "ContributionRole \<Rightarrow> u64" where
  "role_tag Researcher = 1"
| "role_tag DataProvider = 2"
| "role_tag Evaluator = 3"
| "role_tag Reproducer = 4"
| "role_tag AgentOperator = 5"

definition enc_Contribution :: "ContributorWorkV1 \<Rightarrow> u8 list" where
  "enc_Contribution c = enc_array 5 @ enc_version @ enc_digest (cw_contributor c) @ enc_uint (role_tag (cw_role c)) @
     enc_uint (cw_accepted_work_units c) @ enc_digest (cw_contribution_hash c)"

definition enc_Workload :: "IssueWorkloadReceiptV1 \<Rightarrow> u8 list" where
  "enc_Workload w = enc_array 7 @ enc_version @ enc_digest (iw_receipt_id w) @ enc_ObjectRef (iw_evaluation_ref w) @
     enc_values enc_Contribution (iw_contributors w) @ enc_uint (iw_total_accepted_work_units w) @
     enc_digest (iw_policy_hash w) @ enc_uint (iw_issued_at_unix_s w)"

definition enc_Share :: "ClaimShareV1 \<Rightarrow> u8 list" where
  "enc_Share c = enc_array 3 @ enc_version @ enc_digest (cs_contributor c) @ enc_uint (ucast (cs_share_bps c))"

definition enc_Claim :: "CreateResearchClaimV1 \<Rightarrow> u8 list" where
  "enc_Claim c = enc_array 8 @ enc_version @ enc_digest (cc_claim_id c) @ enc_ObjectRef (cc_workload_receipt_ref c) @
     enc_values enc_ObjectRef (cc_evidence_refs c) @ enc_digest (cc_artifact_hash c) @ enc_digest (cc_claim_scope_hash c) @
     enc_values enc_Share (cc_claimants c) @ enc_uint (cc_created_at_unix_s c)"

fun scope_tag :: "LicenseScope \<Rightarrow> u64" where
  "scope_tag Artifact = 1"
| "scope_tag Dataset = 2"
| "scope_tag Method = 3"
| "scope_tag AllClaimedMaterial = 4"

definition enc_License :: "DeclareLicenseV1 \<Rightarrow> u8 list" where
  "enc_License l = enc_array 8 @ enc_version @ enc_digest (dl_declaration_id l) @ enc_ObjectRef (dl_claim_ref l) @
     enc_digest (dl_licensor l) @ enc_uint (scope_tag (dl_scope l)) @ enc_text (dl_spdx_expression l) @
     encode_option_digest (dl_additional_terms_hash l) @ enc_uint (dl_effective_at_unix_s l)"

fun reason_tag :: "ChallengeReason \<Rightarrow> u64" where
  "reason_tag Authorship = 1"
| "reason_tag ContributionAllocation = 2"
| "reason_tag EvidenceIntegrity = 3"
| "reason_tag Reproducibility = 4"
| "reason_tag LicenseConflict = 5"

definition enc_Challenge :: "ChallengeResearchClaimV1 \<Rightarrow> u8 list" where
  "enc_Challenge c = enc_array 7 @ enc_version @ enc_digest (cl_challenge_id c) @ enc_ObjectRef (cl_claim_ref c) @
     enc_digest (cl_challenger c) @ enc_uint (reason_tag (cl_reason c)) @ enc_digest (cl_evidence_hash c) @
     enc_uint (cl_opened_at_unix_s c)"

fun decision_tag :: "ClaimResolutionDecision \<Rightarrow> u64" where
  "decision_tag Uphold = 1"
| "decision_tag Reject = 2"
| "decision_tag AmendContributorShares = 3"
| "decision_tag RequireLicenseAmendment = 4"

definition enc_Resolution :: "ClaimResolutionV1 \<Rightarrow> u8 list" where
  "enc_Resolution r = enc_array 7 @ enc_version @ enc_digest (cn_resolution_id r) @ enc_ObjectRef (cn_challenge_ref r) @
     enc_uint (decision_tag (cn_decision r)) @ enc_digest (cn_resolution_hash r) @ enc_values enc_Share (cn_amended_claimants r) @
     enc_uint (cn_decided_at_unix_s r)"

fun enc_payload :: "ResearchCommandV1 \<Rightarrow> u8 list" where
  "enc_payload (MatchEvidenceCommitment p) = enc_uint 1 @ enc_Match p"
| "enc_payload (EvaluationCommitment p) = enc_uint 2 @ enc_Evaluation p"
| "enc_payload (IssueWorkloadReceipt p) = enc_uint 3 @ enc_Workload p"
| "enc_payload (CreateResearchClaim p) = enc_uint 4 @ enc_Claim p"
| "enc_payload (DeclareLicense p) = enc_uint 5 @ enc_License p"
| "enc_payload (ChallengeResearchClaim p) = enc_uint 6 @ enc_Challenge p"
| "enc_payload (ResolveResearchClaim p) = enc_uint 7 @ enc_Resolution p"

definition enc_Command :: "ResearchCommandV1 \<Rightarrow> u8 list" where
  "enc_Command c = enc_array 3 @ enc_version @ enc_payload c"

section \<open>Decoders\<close>

definition decode_version :: "unit decoder" where
  "decode_version bs = tryR (dec_uint bs) (\<lambda>(version, bs).
     if version \<noteq> ucast PROTOCOL_VERSION then Err (UnsupportedVersion version) else Ok ((), bs))"

text \<open>A discriminant: the value of the first matching tag, or an error that names the type.\<close>

definition decode_tag :: "string \<Rightarrow> (u64 \<times> 'a) list \<Rightarrow> 'a decoder" where
  "decode_tag name tags bs = tryR (dec_uint bs) (\<lambda>(value, bs).
     case map_of tags value of Some x \<Rightarrow> Ok (x, bs) | None \<Rightarrow> Err (UnknownDiscriminant name value))"

definition decode_kind :: "ResearchObjectKind decoder" where
  "decode_kind = decode_tag ''ResearchObjectKind''
     [(1, MatchEvidenceKind), (2, EvaluationCommitmentKind), (3, WorkloadReceiptKind), (4, ResearchClaimKind),
      (5, LicenseDeclarationKind), (6, ClaimChallengeKind), (7, ClaimResolutionKind)]"

definition decode_role :: "ContributionRole decoder" where
  "decode_role = decode_tag ''ContributionRole'' [(1, Researcher), (2, DataProvider), (3, Evaluator), (4, Reproducer), (5, AgentOperator)]"

definition decode_license_scope :: "LicenseScope decoder" where
  "decode_license_scope = decode_tag ''LicenseScope'' [(1, Artifact), (2, Dataset), (3, Method), (4, AllClaimedMaterial)]"

definition decode_challenge_reason :: "ChallengeReason decoder" where
  "decode_challenge_reason = decode_tag ''ChallengeReason''
     [(1, Authorship), (2, ContributionAllocation), (3, EvidenceIntegrity), (4, Reproducibility), (5, LicenseConflict)]"

definition decode_resolution_decision :: "ClaimResolutionDecision decoder" where
  "decode_resolution_decision = decode_tag ''ClaimResolutionDecision''
     [(1, Uphold), (2, Reject), (3, AmendContributorShares), (4, RequireLicenseAmendment)]"

text \<open>\<open>u16::try_from(decoder.uint()?)\<close>; the error carries the value, or its maximum for a score.\<close>

definition decode_u16 :: "string \<Rightarrow> (u64 \<Rightarrow> u64) \<Rightarrow> u16 decoder" where
  "decode_u16 name report bs = tryR (dec_uint bs) (\<lambda>(value, bs).
     if value > 0xffff then Err (UnknownDiscriminant name (report value)) else Ok (ucast value, bs))"

definition decode_object_ref :: "ObjectRefV1 decoder" where
  "decode_object_ref bs =
     tryR (dec_array 4 bs) (\<lambda>(_, bs). tryR (decode_version bs) (\<lambda>(_, bs).
     tryR (decode_kind bs) (\<lambda>(kind, bs). tryR (dec_digest bs) (\<lambda>(key, bs). tryR (dec_uint bs) (\<lambda>(version, bs).
     Ok (\<lparr>rf_kind = kind, rf_key = key, rf_version = version\<rparr>, bs))))))"

definition decode_match :: "MatchEvidenceCommitmentV1 decoder" where
  "decode_match bs =
     tryR (dec_array 11 bs) (\<lambda>(_, bs). tryR (decode_version bs) (\<lambda>(_, bs).
     tryR (dec_digest bs) (\<lambda>(commitment_id, bs). tryR (dec_digest bs) (\<lambda>(match_id, bs). tryR (dec_digest bs) (\<lambda>(challenge_id, bs).
     tryR (dec_digest bs) (\<lambda>(event_root, bs). tryR (dec_digest bs) (\<lambda>(roster_root, bs). tryR (dec_digest bs) (\<lambda>(ruleset_hash, bs).
     tryR (dec_digest bs) (\<lambda>(dataset_hash, bs). tryR (dec_digest bs) (\<lambda>(archive_hash, bs).
     tryR (dec_uint bs) (\<lambda>(event_count, bs). tryR (dec_uint bs) (\<lambda>(completed_at, bs).
     Ok (\<lparr>me_commitment_id = commitment_id, me_match_id = match_id, me_challenge_id = challenge_id, me_event_root = event_root,
          me_roster_root = roster_root, me_ruleset_hash = ruleset_hash, me_dataset_hash = dataset_hash,
          me_archive_hash = archive_hash, me_event_count = event_count, me_completed_at_unix_s = completed_at\<rparr>, bs)))))))))))))"

definition decode_evaluation :: "EvaluationCommitmentV1 decoder" where
  "decode_evaluation bs =
     tryR (dec_array 10 bs) (\<lambda>(_, bs). tryR (decode_version bs) (\<lambda>(_, bs).
     tryR (dec_digest bs) (\<lambda>(evaluation_id, bs). tryR (decode_object_ref bs) (\<lambda>(match_evidence_ref, bs).
     tryR (dec_digest bs) (\<lambda>(submission_hash, bs). tryR (dec_digest bs) (\<lambda>(rubric_hash, bs). tryR (dec_digest bs) (\<lambda>(evaluation_hash, bs).
     tryR (dec_option_digest bs) (\<lambda>(reproduction_hash, bs). tryR (decode_u16 ''score_bps'' (\<lambda>_. - 1) bs) (\<lambda>(score_bps, bs).
     tryR (dec_bool bs) (\<lambda>(accepted, bs). tryR (dec_uint bs) (\<lambda>(completed_at, bs).
     Ok (\<lparr>ev_evaluation_id = evaluation_id, ev_match_evidence_ref = match_evidence_ref, ev_submission_hash = submission_hash,
          ev_rubric_hash = rubric_hash, ev_evaluation_hash = evaluation_hash, ev_reproduction_hash = reproduction_hash,
          ev_score_bps = score_bps, ev_accepted = accepted, ev_completed_at_unix_s = completed_at\<rparr>, bs))))))))))))"

definition decode_contribution :: "ContributorWorkV1 decoder" where
  "decode_contribution bs =
     tryR (dec_array 5 bs) (\<lambda>(_, bs). tryR (decode_version bs) (\<lambda>(_, bs).
     tryR (dec_digest bs) (\<lambda>(contributor, bs). tryR (decode_role bs) (\<lambda>(role, bs).
     tryR (dec_uint bs) (\<lambda>(units, bs). tryR (dec_digest bs) (\<lambda>(contribution_hash, bs).
     Ok (\<lparr>cw_contributor = contributor, cw_role = role, cw_accepted_work_units = units,
          cw_contribution_hash = contribution_hash\<rparr>, bs)))))))"

definition decode_workload :: "IssueWorkloadReceiptV1 decoder" where
  "decode_workload bs =
     tryR (dec_array 7 bs) (\<lambda>(_, bs). tryR (decode_version bs) (\<lambda>(_, bs).
     tryR (dec_digest bs) (\<lambda>(receipt_id, bs). tryR (decode_object_ref bs) (\<lambda>(evaluation_ref, bs).
     tryR (dec_values decode_contribution bs) (\<lambda>(contributors, bs). tryR (dec_uint bs) (\<lambda>(units, bs).
     tryR (dec_digest bs) (\<lambda>(policy_hash, bs). tryR (dec_uint bs) (\<lambda>(issued_at, bs).
     Ok (\<lparr>iw_receipt_id = receipt_id, iw_evaluation_ref = evaluation_ref, iw_contributors = contributors,
          iw_total_accepted_work_units = units, iw_policy_hash = policy_hash, iw_issued_at_unix_s = issued_at\<rparr>, bs)))))))))"

definition decode_claim_share :: "ClaimShareV1 decoder" where
  "decode_claim_share bs =
     tryR (dec_array 3 bs) (\<lambda>(_, bs). tryR (decode_version bs) (\<lambda>(_, bs).
     tryR (dec_digest bs) (\<lambda>(contributor, bs). tryR (decode_u16 ''share_bps'' (\<lambda>v. v) bs) (\<lambda>(share_bps, bs).
     Ok (\<lparr>cs_contributor = contributor, cs_share_bps = share_bps\<rparr>, bs)))))"

definition decode_claim :: "CreateResearchClaimV1 decoder" where
  "decode_claim bs =
     tryR (dec_array 8 bs) (\<lambda>(_, bs). tryR (decode_version bs) (\<lambda>(_, bs).
     tryR (dec_digest bs) (\<lambda>(claim_id, bs). tryR (decode_object_ref bs) (\<lambda>(workload_receipt_ref, bs).
     tryR (dec_values decode_object_ref bs) (\<lambda>(evidence_refs, bs).
     tryR (dec_digest bs) (\<lambda>(artifact_hash, bs). tryR (dec_digest bs) (\<lambda>(claim_scope_hash, bs).
     tryR (dec_values decode_claim_share bs) (\<lambda>(claimants, bs). tryR (dec_uint bs) (\<lambda>(created_at, bs).
     Ok (\<lparr>cc_claim_id = claim_id, cc_workload_receipt_ref = workload_receipt_ref, cc_evidence_refs = evidence_refs,
          cc_artifact_hash = artifact_hash, cc_claim_scope_hash = claim_scope_hash, cc_claimants = claimants,
          cc_created_at_unix_s = created_at\<rparr>, bs))))))))))"

definition decode_license :: "DeclareLicenseV1 decoder" where
  "decode_license bs =
     tryR (dec_array 8 bs) (\<lambda>(_, bs). tryR (decode_version bs) (\<lambda>(_, bs).
     tryR (dec_digest bs) (\<lambda>(declaration_id, bs). tryR (decode_object_ref bs) (\<lambda>(claim_ref, bs).
     tryR (dec_digest bs) (\<lambda>(licensor, bs). tryR (decode_license_scope bs) (\<lambda>(scope, bs).
     tryR (dec_text bs) (\<lambda>(spdx_expression, bs). tryR (dec_option_digest bs) (\<lambda>(additional_terms_hash, bs).
     tryR (dec_uint bs) (\<lambda>(effective_at, bs).
     Ok (\<lparr>dl_declaration_id = declaration_id, dl_claim_ref = claim_ref, dl_licensor = licensor, dl_scope = scope,
          dl_spdx_expression = spdx_expression, dl_additional_terms_hash = additional_terms_hash,
          dl_effective_at_unix_s = effective_at\<rparr>, bs))))))))))"

definition decode_challenge :: "ChallengeResearchClaimV1 decoder" where
  "decode_challenge bs =
     tryR (dec_array 7 bs) (\<lambda>(_, bs). tryR (decode_version bs) (\<lambda>(_, bs).
     tryR (dec_digest bs) (\<lambda>(challenge_id, bs). tryR (decode_object_ref bs) (\<lambda>(claim_ref, bs).
     tryR (dec_digest bs) (\<lambda>(challenger, bs). tryR (decode_challenge_reason bs) (\<lambda>(reason, bs).
     tryR (dec_digest bs) (\<lambda>(evidence_hash, bs). tryR (dec_uint bs) (\<lambda>(opened_at, bs).
     Ok (\<lparr>cl_challenge_id = challenge_id, cl_claim_ref = claim_ref, cl_challenger = challenger, cl_reason = reason,
          cl_evidence_hash = evidence_hash, cl_opened_at_unix_s = opened_at\<rparr>, bs)))))))))"

definition decode_resolution :: "ClaimResolutionV1 decoder" where
  "decode_resolution bs =
     tryR (dec_array 7 bs) (\<lambda>(_, bs). tryR (decode_version bs) (\<lambda>(_, bs).
     tryR (dec_digest bs) (\<lambda>(resolution_id, bs). tryR (decode_object_ref bs) (\<lambda>(challenge_ref, bs).
     tryR (decode_resolution_decision bs) (\<lambda>(decision, bs). tryR (dec_digest bs) (\<lambda>(resolution_hash, bs).
     tryR (dec_values decode_claim_share bs) (\<lambda>(amended_claimants, bs). tryR (dec_uint bs) (\<lambda>(decided_at, bs).
     Ok (\<lparr>cn_resolution_id = resolution_id, cn_challenge_ref = challenge_ref, cn_decision = decision,
          cn_resolution_hash = resolution_hash, cn_amended_claimants = amended_claimants, cn_decided_at_unix_s = decided_at\<rparr>, bs)))))))))"

definition wrap :: "('a \<Rightarrow> 'b) \<Rightarrow> 'a decoder \<Rightarrow> 'b decoder" where
  "wrap f dec bs = tryR (dec bs) (\<lambda>(x, bs). Ok (f x, bs))"

definition decode_payload :: "u64 \<Rightarrow> ResearchCommandV1 decoder" where
  "decode_payload tag bs =
     (if tag = 1 then wrap MatchEvidenceCommitment decode_match bs
      else if tag = 2 then wrap EvaluationCommitment decode_evaluation bs
      else if tag = 3 then wrap IssueWorkloadReceipt decode_workload bs
      else if tag = 4 then wrap CreateResearchClaim decode_claim bs
      else if tag = 5 then wrap DeclareLicense decode_license bs
      else if tag = 6 then wrap ChallengeResearchClaim decode_challenge bs
      else if tag = 7 then wrap ResolveResearchClaim decode_resolution bs
      else Err (UnknownDiscriminant ''ResearchCommandV1'' tag))"

definition decode_command :: "ResearchCommandV1 decoder" where
  "decode_command bs =
     tryR (dec_array 3 bs) (\<lambda>(_, bs). tryR (decode_version bs) (\<lambda>(_, bs).
     tryR (dec_uint bs) (\<lambda>(tag, bs). decode_payload tag bs)))"

datatype ResearchCommandDecodeError =
    Canonical CanonicalDecodeError
  | InvalidPayloadDecoded ResearchPayloadValidationError

text \<open>\<open>?\<close> with \<open>From\<close>: the error is wrapped.\<close>

definition map_err :: "('e \<Rightarrow> 'f) \<Rightarrow> ('a, 'e) result \<Rightarrow> ('a, 'f) result" where
  "map_err f r = (case r of Ok x \<Rightarrow> Ok x | Err e \<Rightarrow> Err (f e))"

definition command_from_canonical_bytes :: "u8 list \<Rightarrow> (ResearchCommandV1, ResearchCommandDecodeError) result" where
  "command_from_canonical_bytes bytes =
     tryR (map_err Canonical (decode_command bytes)) (\<lambda>(command, rest).
     tryR (map_err Canonical (dec_finish rest)) (\<lambda>_.
     if enc_Command command \<noteq> bytes then Err (Canonical NonCanonicalRoundTrip)
     else tryR (map_err InvalidPayloadDecoded (validate_command command)) (\<lambda>_. Ok command)))"

section \<open>Every type is a codec\<close>

lemma decode_version_iff [codec_iffs]: "decode_version bs = Ok (u, rest) \<longleftrightarrow> bs = enc_version @ rest"
proof -
  have "decode_version bs = Ok (u, rest) \<longleftrightarrow> dec_uint bs = Ok (ucast PROTOCOL_VERSION, rest)"
    by (auto simp: decode_version_def result_simps)
  then show ?thesis by (simp add: codec_iffs)
qed

lemma decode_tag_iff:
  assumes "\<And>v x. map_of tags v = Some x \<longleftrightarrow> v = tag x"
  shows "decode_tag name tags bs = Ok (x, rest) \<longleftrightarrow> bs = enc_uint (tag x) @ rest"
proof -
  have "decode_tag name tags bs = Ok (x, rest) \<longleftrightarrow> (\<exists>v. dec_uint bs = Ok (v, rest) \<and> map_of tags v = Some x)"
    by (auto simp: decode_tag_def result_simps split: option.splits)
  then show ?thesis by (simp add: assms codec_iffs)
qed

lemma decode_kind_iff [codec_iffs]: "decode_kind bs = Ok (k, rest) \<longleftrightarrow> bs = enc_kind k @ rest"
  unfolding decode_kind_def enc_kind_def
proof (rule decode_tag_iff)
  show "map_of [(1, MatchEvidenceKind), (2, EvaluationCommitmentKind), (3, WorkloadReceiptKind), (4, ResearchClaimKind),
      (5, LicenseDeclarationKind), (6, ClaimChallengeKind), (7, ClaimResolutionKind)] v = Some x \<longleftrightarrow> v = object_kind_tag x" for v x
    by (cases x) auto
qed

lemma decode_role_iff [codec_iffs]: "decode_role bs = Ok (k, rest) \<longleftrightarrow> bs = enc_uint (role_tag k) @ rest"
  unfolding decode_role_def
proof (rule decode_tag_iff)
  show "map_of [(1, Researcher), (2, DataProvider), (3, Evaluator), (4, Reproducer), (5, AgentOperator)] v = Some x \<longleftrightarrow> v = role_tag x" for v x
    by (cases x) auto
qed

lemma decode_scope_iff [codec_iffs]: "decode_license_scope bs = Ok (k, rest) \<longleftrightarrow> bs = enc_uint (scope_tag k) @ rest"
  unfolding decode_license_scope_def
proof (rule decode_tag_iff)
  show "map_of [(1, Artifact), (2, Dataset), (3, Method), (4, AllClaimedMaterial)] v = Some x \<longleftrightarrow> v = scope_tag x" for v x
    by (cases x) auto
qed

lemma decode_reason_iff [codec_iffs]: "decode_challenge_reason bs = Ok (k, rest) \<longleftrightarrow> bs = enc_uint (reason_tag k) @ rest"
  unfolding decode_challenge_reason_def
proof (rule decode_tag_iff)
  show "map_of [(1, Authorship), (2, ContributionAllocation), (3, EvidenceIntegrity), (4, Reproducibility), (5, LicenseConflict)] v = Some x \<longleftrightarrow>
      v = reason_tag x" for v x
    by (cases x) auto
qed

lemma decode_decision_iff [codec_iffs]: "decode_resolution_decision bs = Ok (k, rest) \<longleftrightarrow> bs = enc_uint (decision_tag k) @ rest"
  unfolding decode_resolution_decision_def
proof (rule decode_tag_iff)
  show "map_of [(1, Uphold), (2, Reject), (3, AmendContributorShares), (4, RequireLicenseAmendment)] v = Some x \<longleftrightarrow> v = decision_tag x" for v x
    by (cases x) auto
qed

lemma decode_u16_iff [codec_iffs]: "decode_u16 name report bs = Ok (w, rest) \<longleftrightarrow> bs = enc_uint (ucast w) @ rest"
proof -
  have "decode_u16 name report bs = Ok (w, rest) \<longleftrightarrow> (\<exists>v. dec_uint bs = Ok (v, rest) \<and> v \<le> 0xffff \<and> w = ucast v)"
    by (auto simp: decode_u16_def result_simps not_less)
  also have "\<dots> \<longleftrightarrow> dec_uint bs = Ok (ucast w, rest)"
    using ucast_up(2,5) [of w] ucast_ucast_le(2) by auto
  finally show ?thesis by (simp add: codec_iffs)
qed

interpretation object_ref: codec enc_ObjectRef decode_object_ref "\<lambda>_. True"
proof
  fix bs r rest
  show "decode_object_ref bs = Ok (r, rest) \<longleftrightarrow> True \<and> bs = enc_ObjectRef r @ rest"
    by (cases r) (simp add: decode_object_ref_def result_simps codec_iffs split_paired_Ex enc_ObjectRef_def)
qed

interpretation contribution: codec enc_Contribution decode_contribution "\<lambda>_. True"
proof
  fix bs r rest
  show "decode_contribution bs = Ok (r, rest) \<longleftrightarrow> True \<and> bs = enc_Contribution r @ rest"
    by (cases r) (simp add: decode_contribution_def result_simps codec_iffs split_paired_Ex enc_Contribution_def)
qed

interpretation claim_share: codec enc_Share decode_claim_share "\<lambda>_. True"
proof
  fix bs r rest
  show "decode_claim_share bs = Ok (r, rest) \<longleftrightarrow> True \<and> bs = enc_Share r @ rest"
    by (cases r) (simp add: decode_claim_share_def result_simps codec_iffs split_paired_Ex enc_Share_def)
qed

lemmas element_codecs [codec_iffs] = object_ref.dec_iff contribution.dec_iff claim_share.dec_iff
  object_ref.dec_values_iff contribution.dec_values_iff claim_share.dec_values_iff

lemma list_all_True [simp]: "list_all (\<lambda>_. True) xs"
  by (induction xs) simp_all

text \<open>What can be represented: vectors and strings whose length fits 64 bits, and well-formed text.\<close>

fun representable :: "ResearchCommandV1 \<Rightarrow> bool" where
  "representable (IssueWorkloadReceipt p) \<longleftrightarrow> length (iw_contributors p) < 2 ^ 64"
| "representable (CreateResearchClaim p) \<longleftrightarrow> length (cc_evidence_refs p) < 2 ^ 64 \<and> length (cc_claimants p) < 2 ^ 64"
| "representable (DeclareLicense p) \<longleftrightarrow> length (dl_spdx_expression p) < 2 ^ 64 \<and> valid_utf8 (ascii (dl_spdx_expression p))"
| "representable (ResolveResearchClaim p) \<longleftrightarrow> length (cn_amended_claimants p) < 2 ^ 64"
| "representable _ \<longleftrightarrow> True"

interpretation match: codec enc_Match decode_match "\<lambda>_. True"
proof
  fix bs r rest
  show "decode_match bs = Ok (r, rest) \<longleftrightarrow> True \<and> bs = enc_Match r @ rest"
    by (cases r) (simp add: decode_match_def result_simps codec_iffs split_paired_Ex enc_Match_def)
qed

interpretation evaluation: codec enc_Evaluation decode_evaluation "\<lambda>_. True"
proof
  fix bs r rest
  show "decode_evaluation bs = Ok (r, rest) \<longleftrightarrow> True \<and> bs = enc_Evaluation r @ rest"
    by (cases r) (simp add: decode_evaluation_def result_simps codec_iffs split_paired_Ex enc_Evaluation_def)
qed

interpretation workload: codec enc_Workload decode_workload "\<lambda>w. representable (IssueWorkloadReceipt w)"
proof
  fix bs r rest
  show "decode_workload bs = Ok (r, rest) \<longleftrightarrow> representable (IssueWorkloadReceipt r) \<and> bs = enc_Workload r @ rest"
    by (cases r) (auto simp add: decode_workload_def result_simps codec_iffs split_paired_Ex enc_Workload_def)
qed

interpretation claim: codec enc_Claim decode_claim "\<lambda>c. representable (CreateResearchClaim c)"
proof
  fix bs r rest
  show "decode_claim bs = Ok (r, rest) \<longleftrightarrow> representable (CreateResearchClaim r) \<and> bs = enc_Claim r @ rest"
    by (cases r) (auto simp add: decode_claim_def result_simps codec_iffs split_paired_Ex enc_Claim_def)
qed

interpretation license: codec enc_License decode_license "\<lambda>l. representable (DeclareLicense l)"
proof
  fix bs r rest
  show "decode_license bs = Ok (r, rest) \<longleftrightarrow> representable (DeclareLicense r) \<and> bs = enc_License r @ rest"
    by (cases r) (auto simp add: decode_license_def result_simps codec_iffs split_paired_Ex enc_License_def)
qed

interpretation challenge: codec enc_Challenge decode_challenge "\<lambda>_. True"
proof
  fix bs r rest
  show "decode_challenge bs = Ok (r, rest) \<longleftrightarrow> True \<and> bs = enc_Challenge r @ rest"
    by (cases r) (simp add: decode_challenge_def result_simps codec_iffs split_paired_Ex enc_Challenge_def)
qed

interpretation resolution: codec enc_Resolution decode_resolution "\<lambda>r. representable (ResolveResearchClaim r)"
proof
  fix bs r rest
  show "decode_resolution bs = Ok (r, rest) \<longleftrightarrow> representable (ResolveResearchClaim r) \<and> bs = enc_Resolution r @ rest"
    by (cases r) (auto simp add: decode_resolution_def result_simps codec_iffs split_paired_Ex enc_Resolution_def)
qed

lemmas payload_codecs [codec_iffs] = match.dec_iff evaluation.dec_iff workload.dec_iff claim.dec_iff license.dec_iff
  challenge.dec_iff resolution.dec_iff

lemma wrap_iff: "wrap f dec bs = Ok (y, rest) \<longleftrightarrow> (\<exists>x. y = f x \<and> dec bs = Ok (x, rest))"
  by (auto simp: wrap_def result_simps)

lemma decode_payload_iff:
  "decode_payload tag bs = Ok (c, rest) \<longleftrightarrow> representable c \<and> enc_uint tag @ bs = enc_payload c @ rest"
  by (cases c) (auto simp: decode_payload_def wrap_iff codec_iffs uint.enc_append_inject)

interpretation command: codec enc_Command decode_command representable
proof
  fix bs c rest
  have "decode_command bs = Ok (c, rest) \<longleftrightarrow>
      (\<exists>tag bs'. bs = enc_array 3 @ enc_version @ enc_uint tag @ bs' \<and> decode_payload tag bs' = Ok (c, rest))"
    by (auto simp: decode_command_def result_simps codec_iffs split_paired_Ex)
  also have "\<dots> \<longleftrightarrow> representable c \<and> bs = enc_Command c @ rest"
  proof
    assume *: "representable c \<and> bs = enc_Command c @ rest"
    obtain tag bs' where "enc_payload c @ rest = enc_uint tag @ bs'" by (cases c) auto
    with * show "\<exists>tag bs'. bs = enc_array 3 @ enc_version @ enc_uint tag @ bs' \<and> decode_payload tag bs' = Ok (c, rest)"
      by (intro exI [of _ tag] exI [of _ bs']) (simp add: enc_Command_def decode_payload_iff)
  qed (auto simp: enc_Command_def decode_payload_iff)
  finally show "decode_command bs = Ok (c, rest) \<longleftrightarrow> representable c \<and> bs = enc_Command c @ rest" .
qed

section \<open>The ingress\<close>

lemma map_err_eq_Ok [result_simps]: "map_err f r = Ok x \<longleftrightarrow> r = Ok x"
  by (simp add: map_err_def split: result.splits)

lemma graphic_ascii: "list_all (\<lambda>b. is_graphic b \<or> b = 0x20) bs \<Longrightarrow> valid_utf8 bs"
  by (rule valid_utf8_ascii) (auto simp: list_all_iff is_graphic_def word_less_nat_alt word_le_nat_alt)

lemma validate_spdx_utf8: "validate_spdx s = Ok u \<Longrightarrow> length s \<le> 128 \<and> valid_utf8 (ascii s)"
  by (auto simp: validate_spdx_def graphic_ascii split: if_splits)

lemma validate_claim_shares_length: "validate_claim_shares xs b = Ok u \<Longrightarrow> length xs \<le> 128"
  by (auto simp: validate_claim_shares_def split: if_splits)

lemma valid_representable: "validate_command c = Ok u \<Longrightarrow> representable c"
proof (cases c)
  case (IssueWorkloadReceipt p)
  then show "validate_command c = Ok u \<Longrightarrow> representable c"
    by (auto simp: validate_workload_def result_simps)
next
  case (CreateResearchClaim p)
  then show "validate_command c = Ok u \<Longrightarrow> representable c"
    by (auto simp: validate_claim_def validate_evidence_refs_def result_simps dest: validate_claim_shares_length)
next
  case (DeclareLicense p)
  then show "validate_command c = Ok u \<Longrightarrow> representable c"
    by (auto simp: validate_license_def result_simps dest: validate_spdx_utf8)
next
  case (ResolveResearchClaim p)
  then show "validate_command c = Ok u \<Longrightarrow> representable c"
    by (auto simp: validate_resolution_def result_simps split: if_splits dest: validate_claim_shares_length)
qed auto

lemma command_bytes_iff: "command_from_canonical_bytes bytes = Ok c \<longleftrightarrow> validate_command c = Ok () \<and> bytes = enc_Command c"
  using valid_representable [of c "()"]
  by (auto simp: command_from_canonical_bytes_def result_simps command.dec_iff dec_finish_def split_paired_Ex)

end
