(* ===== verification/Research_Command.thy ===== *)
theory Research_Command
  imports Research_Codec
begin

text \<open>
  Signed commands of the research protocol (\<open>trnm-research-protocol/src/command.rs\<close>): the envelope, what its signature
  covers, which role may send which command, and the strict decoder. SHA-256 and Ed25519 are parameters.
\<close>

record research_crypto =
  rc_sha256 :: "u8 list \<Rightarrow> hash32"
  rc_valid_key :: "hash32 \<Rightarrow> bool"
  rc_verify_strict :: "hash32 \<Rightarrow> u8 list \<Rightarrow> u8 list \<Rightarrow> bool"

section \<open>Envelopes\<close>

definition CANONICAL_ENCODING :: string where
  "CANONICAL_ENCODING = ''rfc8949-deterministic-cbor-array-v1''"

datatype AuthorityRole = NakamaAuthority | HeptaAuthority

fun authority_tag :: "AuthorityRole \<Rightarrow> u64" where
  "authority_tag NakamaAuthority = 1"
| "authority_tag HeptaAuthority = 2"

record SignedResearchCommandV1 =
  sg_chain_id :: string
  sg_command_id :: ExternalKey
  sg_signer_did :: string
  sg_signer_role :: AuthorityRole
  sg_nonce :: u64
  sg_public_key :: hash32
  sg_command :: ResearchCommandV1
  sg_signature :: "u8 list"

datatype SignedResearchCommandValidationError =
    CanonicalDecode CanonicalDecodeError
  | EncodingMismatch string
  | InvalidChainId
  | InvalidSignerDid
  | ZeroNonce
  | InvalidPublicKey
  | InvalidSignature
  | UnauthorizedCommand AuthorityRole string
  | Payload ResearchPayloadValidationError

fun command_type :: "ResearchCommandV1 \<Rightarrow> string" where
  "command_type (MatchEvidenceCommitment _) = ''match_evidence_commitment_v1''"
| "command_type (EvaluationCommitment _) = ''evaluation_commitment_v1''"
| "command_type (IssueWorkloadReceipt _) = ''issue_workload_receipt_v1''"
| "command_type (CreateResearchClaim _) = ''create_research_claim_v1''"
| "command_type (DeclareLicense _) = ''declare_license_v1''"
| "command_type (ChallengeResearchClaim _) = ''challenge_research_claim_v1''"
| "command_type (ResolveResearchClaim _) = ''resolve_research_claim_v1''"

definition enc_envelope :: "SignedResearchCommandV1 \<Rightarrow> u8 list" where
  "enc_envelope s = enc_version @ enc_text CANONICAL_ENCODING @ enc_text (sg_chain_id s) @ enc_digest (sg_command_id s) @
     enc_text (sg_signer_did s) @ enc_uint (authority_tag (sg_signer_role s)) @ enc_uint (sg_nonce s) @
     enc_digest (sg_public_key s) @ enc_Command (sg_command s)"

definition signing_bytes :: "SignedResearchCommandV1 \<Rightarrow> u8 list" where
  "signing_bytes s = enc_array 9 @ enc_envelope s"

definition enc_Signed :: "SignedResearchCommandV1 \<Rightarrow> u8 list" where
  "enc_Signed s = enc_array 10 @ enc_envelope s @ enc_bytestring (sg_signature s)"

definition command_fingerprint :: "research_crypto \<Rightarrow> SignedResearchCommandV1 \<Rightarrow> hash32" where
  "command_fingerprint rc s = canonical_hash (rc_sha256 rc) ''trnm-research-command-fingerprint-v1'' (signing_bytes s)"

definition payload_hash :: "research_crypto \<Rightarrow> SignedResearchCommandV1 \<Rightarrow> hash32" where
  "payload_hash rc s = canonical_hash (rc_sha256 rc) ''trnm-research-command-payload-v1'' (enc_Command (sg_command s))"

section \<open>Validation\<close>

definition validate_chain_id :: "string \<Rightarrow> (unit, SignedResearchCommandValidationError) result" where
  "validate_chain_id chain_id =
     (if chain_id = [] \<or> length chain_id > 64 \<or>
         \<not> list_all (\<lambda>b. is_lower b \<or> is_digit_byte b \<or> b \<in> set (ascii ''-_.:'')) (ascii chain_id)
      then Err InvalidChainId else Ok ())"

definition well_formed_did :: "string \<Rightarrow> bool" where
  "well_formed_did did \<longleftrightarrow> \<not> (length did < 5 \<or> length did > 192 \<or> \<not> starts_with did ''did:'' \<or> \<not> list_all is_graphic (ascii did))"

definition validate_did :: "string \<Rightarrow> (unit, SignedResearchCommandValidationError) result" where
  "validate_did did = (if \<not> well_formed_did did then Err InvalidSignerDid else Ok ())"

fun role_authorized :: "AuthorityRole \<Rightarrow> ResearchCommandV1 \<Rightarrow> bool" where
  "role_authorized NakamaAuthority (MatchEvidenceCommitment _) = True"
| "role_authorized HeptaAuthority (EvaluationCommitment _) = True"
| "role_authorized HeptaAuthority (IssueWorkloadReceipt _) = True"
| "role_authorized HeptaAuthority (CreateResearchClaim _) = True"
| "role_authorized HeptaAuthority (DeclareLicense _) = True"
| "role_authorized HeptaAuthority (ChallengeResearchClaim _) = True"
| "role_authorized HeptaAuthority (ResolveResearchClaim _) = True"
| "role_authorized _ _ = False"

definition validate_unsigned :: "SignedResearchCommandV1 \<Rightarrow> (unit, SignedResearchCommandValidationError) result" where
  "validate_unsigned s =
     tryR (validate_chain_id (sg_chain_id s)) (\<lambda>_.
     tryR (map_err Payload (validate_key ''command_id'' (sg_command_id s))) (\<lambda>_.
     tryR (validate_did (sg_signer_did s)) (\<lambda>_.
     if sg_nonce s = 0 then Err ZeroNonce
     else if sg_public_key s = 0 then Err InvalidPublicKey
     else tryR (map_err Payload (validate_command (sg_command s))) (\<lambda>_.
       if \<not> role_authorized (sg_signer_role s) (sg_command s)
       then Err (UnauthorizedCommand (sg_signer_role s) (command_type (sg_command s)))
       else Ok ()))))"

definition signed_validate :: "research_crypto \<Rightarrow> SignedResearchCommandV1 \<Rightarrow> (unit, SignedResearchCommandValidationError) result" where
  "signed_validate rc s =
     tryR (validate_unsigned s) (\<lambda>_.
     if length (sg_signature s) \<noteq> 64 then Err InvalidSignature
     else if \<not> rc_valid_key rc (sg_public_key s) then Err InvalidPublicKey
     else if \<not> rc_verify_strict rc (sg_public_key s) (signing_bytes s) (sg_signature s) then Err InvalidSignature
     else Ok ())"

text \<open>Signing: the public key and the signature come from the signing key of the caller.\<close>

definition sign :: "hash32 \<Rightarrow> (u8 list \<Rightarrow> u8 list) \<Rightarrow> string \<Rightarrow> ExternalKey \<Rightarrow> string \<Rightarrow> AuthorityRole \<Rightarrow> u64 \<Rightarrow> ResearchCommandV1 \<Rightarrow>
    (SignedResearchCommandV1, SignedResearchCommandValidationError) result" where
  "sign public_key sign_with chain_id command_id signer_did signer_role nonce command =
     (let signed = \<lparr>sg_chain_id = chain_id, sg_command_id = command_id, sg_signer_did = signer_did, sg_signer_role = signer_role,
           sg_nonce = nonce, sg_public_key = public_key, sg_command = command, sg_signature = []\<rparr>
      in tryR (validate_unsigned signed) (\<lambda>_. Ok (signed\<lparr>sg_signature := sign_with (signing_bytes signed)\<rparr>)))"

definition decode_authority_role :: "AuthorityRole decoder" where
  "decode_authority_role = decode_tag ''AuthorityRole'' [(1, NakamaAuthority), (2, HeptaAuthority)]"

definition signed_from_canonical_bytes :: "research_crypto \<Rightarrow> u8 list \<Rightarrow> (SignedResearchCommandV1, SignedResearchCommandValidationError) result" where
  "signed_from_canonical_bytes rc bytes =
     tryR (map_err CanonicalDecode (dec_array 10 bytes)) (\<lambda>(_, bs).
     tryR (map_err CanonicalDecode (decode_version bs)) (\<lambda>(_, bs).
     tryR (map_err CanonicalDecode (dec_text bs)) (\<lambda>(encoding, bs).
     if encoding \<noteq> CANONICAL_ENCODING then Err (EncodingMismatch encoding)
     else
       tryR (map_err CanonicalDecode (dec_text bs)) (\<lambda>(chain_id, bs).
       tryR (map_err CanonicalDecode (dec_digest bs)) (\<lambda>(command_id, bs).
       tryR (map_err CanonicalDecode (dec_text bs)) (\<lambda>(signer_did, bs).
       tryR (map_err CanonicalDecode (decode_authority_role bs)) (\<lambda>(signer_role, bs).
       tryR (map_err CanonicalDecode (dec_uint bs)) (\<lambda>(nonce, bs).
       tryR (map_err CanonicalDecode (dec_digest bs)) (\<lambda>(public_key, bs).
       tryR (map_err CanonicalDecode (decode_command bs)) (\<lambda>(command, bs).
       tryR (map_err CanonicalDecode (dec_bytestring bs)) (\<lambda>(signature, bs).
       tryR (map_err CanonicalDecode (dec_finish bs)) (\<lambda>_.
         let signed = \<lparr>sg_chain_id = chain_id, sg_command_id = command_id, sg_signer_did = signer_did, sg_signer_role = signer_role,
               sg_nonce = nonce, sg_public_key = public_key, sg_command = command, sg_signature = signature\<rparr>
         in if enc_Signed signed \<noteq> bytes then Err (CanonicalDecode NonCanonicalRoundTrip)
            else tryR (signed_validate rc signed) (\<lambda>_. Ok signed)))))))))))))"

section \<open>The decoder is exact\<close>

lemma decode_authority_role_iff [codec_iffs]: "decode_authority_role bs = Ok (k, rest) \<longleftrightarrow> bs = enc_uint (authority_tag k) @ rest"
  unfolding decode_authority_role_def
proof (rule decode_tag_iff)
  show "map_of [(1, NakamaAuthority), (2, HeptaAuthority)] v = Some x \<longleftrightarrow> v = authority_tag x" for v x
    by (cases x) auto
qed

lemma did_utf8: "well_formed_did did \<Longrightarrow> length did \<le> 192 \<and> valid_utf8 (ascii did)"
  by (auto simp: well_formed_did_def list_all_iff intro!: graphic_ascii)

lemma chain_id_utf8: "validate_chain_id c = Ok u \<Longrightarrow> length c \<le> 64 \<and> valid_utf8 (ascii c)"
proof -
  assume "validate_chain_id c = Ok u"
  then have "length c \<le> 64" "list_all (\<lambda>b. is_lower b \<or> is_digit_byte b \<or> b \<in> set (ascii ''-_.:'')) (ascii c)"
    by (auto simp: validate_chain_id_def split: if_splits)
  moreover have "is_lower b \<or> is_digit_byte b \<or> b \<in> set (ascii ''-_.:'') \<Longrightarrow> b < 0x80" for b
    by (auto simp: is_lower_def is_digit_byte_def ascii_def word_less_nat_alt word_le_nat_alt)
  ultimately show ?thesis by (auto intro!: valid_utf8_ascii simp: list_all_iff)
qed

lemma encoding_utf8: "valid_utf8 (ascii CANONICAL_ENCODING)" "length CANONICAL_ENCODING < 2 ^ 64"
  by (rule valid_utf8_ascii) (simp_all add: CANONICAL_ENCODING_def ascii_def)

lemma signed_validD:
  assumes "signed_validate rc s = Ok u"
  shows "validate_chain_id (sg_chain_id s) = Ok ()" "well_formed_did (sg_signer_did s)" "validate_command (sg_command s) = Ok ()"
    "role_authorized (sg_signer_role s) (sg_command s)" "length (sg_signature s) = 64" "sg_command_id s \<noteq> 0"
    "rc_verify_strict rc (sg_public_key s) (signing_bytes s) (sg_signature s)"
  using assms
  by (auto simp: signed_validate_def validate_unsigned_def validate_did_def validate_key_def result_simps split: if_splits)

lemma signed_bytes_iff:
  "signed_from_canonical_bytes rc bytes = Ok s \<longleftrightarrow> signed_validate rc s = Ok () \<and> bytes = enc_Signed s"
proof
  assume "signed_from_canonical_bytes rc bytes = Ok s"
  then show "signed_validate rc s = Ok () \<and> bytes = enc_Signed s"
    by (auto simp: signed_from_canonical_bytes_def result_simps Let_def split_paired_Ex)
next
  assume *: "signed_validate rc s = Ok () \<and> bytes = enc_Signed s"
  then have "signed_validate rc s = Ok ()" ..
  note d = signed_validD [OF this]
  note texts = chain_id_utf8 [OF d(1)] did_utf8 [OF d(2)] encoding_utf8 valid_representable [OF d(3)] d(5)
  have "bytes = enc_array 10 @ enc_version @ enc_text CANONICAL_ENCODING @ enc_text (sg_chain_id s) @ enc_digest (sg_command_id s) @
     enc_text (sg_signer_did s) @ enc_uint (authority_tag (sg_signer_role s)) @ enc_uint (sg_nonce s) @
     enc_digest (sg_public_key s) @ enc_Command (sg_command s) @ enc_bytestring (sg_signature s) @ []"
    using * by (simp add: enc_Signed_def enc_envelope_def)
  with * texts show "signed_from_canonical_bytes rc bytes = Ok s"
    by (cases s) (simp add: signed_from_canonical_bytes_def result_simps Let_def split_paired_Ex codec_iffs command.dec_iff dec_finish_def)
qed

end
