(* ===== verification/Research_State.thy ===== *)
theory Research_State
  imports Research_Command Ordered_Map
begin

text \<open>
  The research ledger (\<open>trnm-research-protocol/src/state.rs\<close>): the authority set, the maps of objects, the handler of
  signed commands, and snapshots. A handler returns the state it leaves and its result; \<open>expect\<close> on a missing
  object is the error \<open>Panicked\<close>. \<open>object_version += 1\<close> wraps at 64 bits, as in release builds.
\<close>

section \<open>Authorities\<close>

record AuthorityIdentityV1 =
  ai_signer_did :: string
  ai_public_key :: hash32

record AuthoritySetV1 =
  as_nakama_authorities :: "AuthorityIdentityV1 list"
  as_hepta_authorities :: "AuthorityIdentityV1 list"

section \<open>Objects\<close>

record MatchEvidenceObjectV1 =
  mo_object_ref :: ObjectRefV1
  mo_commitment :: MatchEvidenceCommitmentV1

record EvaluationCommitmentObjectV1 =
  eo_object_ref :: ObjectRefV1
  eo_commitment :: EvaluationCommitmentV1

record WorkloadReceiptObjectV1 =
  wo_object_ref :: ObjectRefV1
  wo_receipt :: IssueWorkloadReceiptV1

record ResearchClaimObjectV1 =
  co_object_ref :: ObjectRefV1
  co_claim :: CreateResearchClaimV1
  co_current_claimants :: "ClaimShareV1 list"
  co_status :: ClaimStatus
  co_active_challenge :: "ExternalKey option"

record LicenseDeclarationObjectV1 =
  lo_object_ref :: ObjectRefV1
  lo_declaration :: DeclareLicenseV1

record ClaimChallengeObjectV1 =
  ho_object_ref :: ObjectRefV1
  ho_challenge :: ChallengeResearchClaimV1
  ho_status :: ClaimChallengeStatus
  ho_resolution_ref :: "ObjectRefV1 option"

record ClaimResolutionObjectV1 =
  so_object_ref :: ObjectRefV1
  so_resolution :: ClaimResolutionV1

record AppliedCommandRecordV1 =
  ap_command_id :: ExternalKey
  ap_fingerprint :: hash32
  ap_primary_object_ref :: ObjectRefV1

record ResearchProtocolSnapshotV1 =
  ps_protocol_version :: u8
  ps_authorities :: AuthoritySetV1
  ps_matches :: "MatchEvidenceObjectV1 list"
  ps_evaluations :: "EvaluationCommitmentObjectV1 list"
  ps_workload_receipts :: "WorkloadReceiptObjectV1 list"
  ps_claims :: "ResearchClaimObjectV1 list"
  ps_licenses :: "LicenseDeclarationObjectV1 list"
  ps_challenges :: "ClaimChallengeObjectV1 list"
  ps_resolutions :: "ClaimResolutionObjectV1 list"
  ps_applied_commands :: "AppliedCommandRecordV1 list"

datatype ApplyOutcome =
    Applied ObjectRefV1 "ObjectRefV1 list"
  | Idempotent ObjectRefV1 "ObjectRefV1 list"

record ResearchProtocolState =
  rs_authorities :: AuthoritySetV1
  rs_matches :: "(ExternalKey, MatchEvidenceObjectV1) btree"
  rs_evaluations :: "(ExternalKey, EvaluationCommitmentObjectV1) btree"
  rs_workload_receipts :: "(ExternalKey, WorkloadReceiptObjectV1) btree"
  rs_claims :: "(ExternalKey, ResearchClaimObjectV1) btree"
  rs_licenses :: "(ExternalKey, LicenseDeclarationObjectV1) btree"
  rs_challenges :: "(ExternalKey, ClaimChallengeObjectV1) btree"
  rs_resolutions :: "(ExternalKey, ClaimResolutionObjectV1) btree"
  rs_applied_commands :: "(ExternalKey, AppliedCommandRecordV1) btree"

datatype ProtocolStateError =
    InvalidCommand SignedResearchCommandValidationError
  | InvalidPayload ResearchPayloadValidationError
  | AlteredReplay ExternalKey
  | InvalidAuthoritySet
  | UnauthorizedAuthority string AuthorityRole hash32
  | DuplicateObject ResearchObjectKind ExternalKey
  | MissingReferencedObject ObjectRefV1
  | ObjectVersionMismatch ObjectRefV1 u64
  | RejectedEvaluationCannotIssueWorkload
  | ClaimantWithoutAcceptedWork
  | ClaimMissingWorkloadEvaluation
  | LicensorIsNotClaimant
  | ClaimNotLicensable ClaimStatus
  | ClaimNotChallengeable ClaimStatus
  | ChallengeAlreadyResolved
  | ChallengeClaimStateMismatch
  | TimestampRegression
  | UnsupportedSnapshotVersion u8
  | InvalidSnapshotGraph
  | Panicked

section \<open>The authority set\<close>

definition identity_validate :: "AuthorityIdentityV1 \<Rightarrow> (unit, ProtocolStateError) result" where
  "identity_validate i =
     (if \<not> well_formed_did (ai_signer_did i) \<or> ai_public_key i = 0 then Err InvalidAuthoritySet else Ok ())"

definition identity_new :: "string \<Rightarrow> hash32 \<Rightarrow> (AuthorityIdentityV1, ProtocolStateError) result" where
  "identity_new signer_did public_key =
     (let identity = \<lparr>ai_signer_did = signer_did, ai_public_key = public_key\<rparr>
      in tryR (identity_validate identity) (\<lambda>_. Ok identity))"

definition identity_key :: "AuthorityIdentityV1 \<Rightarrow> string \<times> hash32" where
  "identity_key i = (ai_signer_did i, ai_public_key i)"

definition identity_step :: "(string \<times> hash32) option \<Rightarrow> AuthorityIdentityV1 \<Rightarrow> ((string \<times> hash32) option, ProtocolStateError) result" where
  "identity_step previous i = tryR (identity_validate i) (\<lambda>_.
     if not_after previous (identity_key i) then Err InvalidAuthoritySet else Ok (Some (identity_key i)))"

definition validate_authority_bucket :: "AuthorityIdentityV1 list \<Rightarrow> (unit, ProtocolStateError) result" where
  "validate_authority_bucket identities =
     (if length identities > 128 then Err InvalidAuthoritySet
      else tryR (try_fold identity_step None identities) (\<lambda>_. Ok ()))"

definition authorities_validate :: "AuthoritySetV1 \<Rightarrow> (unit, ProtocolStateError) result" where
  "authorities_validate a =
     tryR (validate_authority_bucket (as_nakama_authorities a)) (\<lambda>_.
     tryR (validate_authority_bucket (as_hepta_authorities a)) (\<lambda>_. Ok ()))"

definition authorities_new :: "AuthorityIdentityV1 list \<Rightarrow> AuthorityIdentityV1 list \<Rightarrow> (AuthoritySetV1, ProtocolStateError) result" where
  "authorities_new nakama hepta =
     (let a = \<lparr>as_nakama_authorities = sort_key identity_key nakama, as_hepta_authorities = sort_key identity_key hepta\<rparr>
      in tryR (authorities_validate a) (\<lambda>_. Ok a))"

text \<open>\<open>binary_search_by(..).is_ok()\<close> on a sorted slice: the key is present. Validated buckets are sorted.\<close>

definition authorizes :: "AuthoritySetV1 \<Rightarrow> SignedResearchCommandV1 \<Rightarrow> bool" where
  "authorizes a sc =
     (let bucket = (case sg_signer_role sc of NakamaAuthority \<Rightarrow> as_nakama_authorities a | HeptaAuthority \<Rightarrow> as_hepta_authorities a)
      in list_ex (\<lambda>i. identity_key i = (sg_signer_did sc, sg_public_key sc)) bucket)"

definition with_authorities :: "AuthoritySetV1 \<Rightarrow> (ResearchProtocolState, ProtocolStateError) result" where
  "with_authorities a = tryR (authorities_validate a) (\<lambda>_.
     Ok \<lparr>rs_authorities = a, rs_matches = bt_empty, rs_evaluations = bt_empty, rs_workload_receipts = bt_empty, rs_claims = bt_empty,
         rs_licenses = bt_empty, rs_challenges = bt_empty, rs_resolutions = bt_empty, rs_applied_commands = bt_empty\<rparr>)"

section \<open>References\<close>

definition actual_version :: "ResearchProtocolState \<Rightarrow> ResearchObjectKind \<Rightarrow> ExternalKey \<Rightarrow> u64 option" where
  "actual_version s kind key =
     (case kind of
        MatchEvidenceKind \<Rightarrow> map_option (\<lambda>x. rf_version (mo_object_ref x)) (bt_get (rs_matches s) key)
      | EvaluationCommitmentKind \<Rightarrow> map_option (\<lambda>x. rf_version (eo_object_ref x)) (bt_get (rs_evaluations s) key)
      | WorkloadReceiptKind \<Rightarrow> map_option (\<lambda>x. rf_version (wo_object_ref x)) (bt_get (rs_workload_receipts s) key)
      | ResearchClaimKind \<Rightarrow> map_option (\<lambda>x. rf_version (co_object_ref x)) (bt_get (rs_claims s) key)
      | LicenseDeclarationKind \<Rightarrow> map_option (\<lambda>x. rf_version (lo_object_ref x)) (bt_get (rs_licenses s) key)
      | ClaimChallengeKind \<Rightarrow> map_option (\<lambda>x. rf_version (ho_object_ref x)) (bt_get (rs_challenges s) key)
      | ClaimResolutionKind \<Rightarrow> map_option (\<lambda>x. rf_version (so_object_ref x)) (bt_get (rs_resolutions s) key))"

definition require_ref :: "ResearchProtocolState \<Rightarrow> ObjectRefV1 \<Rightarrow> (unit, ProtocolStateError) result" where
  "require_ref s r =
     (case actual_version s (rf_kind r) (rf_key r) of
        None \<Rightarrow> Err (MissingReferencedObject r)
      | Some actual \<Rightarrow> if actual \<noteq> rf_version r then Err (ObjectVersionMismatch r actual) else Ok ())"

definition require_ref_relaxed :: "ResearchProtocolState \<Rightarrow> ObjectRefV1 \<Rightarrow> (unit, ProtocolStateError) result" where
  "require_ref_relaxed s r =
     (if actual_version s (rf_kind r) (rf_key r) \<noteq> None then Ok () else Err (MissingReferencedObject r))"

definition ensure_absent :: "(ExternalKey, 'v) btree \<Rightarrow> ResearchObjectKind \<Rightarrow> ExternalKey \<Rightarrow> (unit, ProtocolStateError) result" where
  "ensure_absent m kind key = (if bt_contains m key then Err (DuplicateObject kind key) else Ok ())"

section \<open>Commands\<close>

type_synonym 'r handler = "ResearchProtocolState \<times> ('r, ProtocolStateError) result"

definition apply_match :: "ResearchProtocolState \<Rightarrow> MatchEvidenceCommitmentV1 \<Rightarrow> ObjectRefV1 handler" where
  "apply_match s p =
     (let r = object_ref_new MatchEvidenceKind (me_commitment_id p) 1
      in tryS s (ensure_absent (rs_matches s) (rf_kind r) (me_commitment_id p)) (\<lambda>_.
         (s\<lparr>rs_matches := bt_insert (me_commitment_id p) \<lparr>mo_object_ref = r, mo_commitment = p\<rparr> (rs_matches s)\<rparr>, Ok r)))"

definition apply_evaluation :: "ResearchProtocolState \<Rightarrow> EvaluationCommitmentV1 \<Rightarrow> ObjectRefV1 handler" where
  "apply_evaluation s p =
     tryS s (require_ref s (ev_match_evidence_ref p)) (\<lambda>_.
     tryS s (ok_or (bt_get (rs_matches s) (rf_key (ev_match_evidence_ref p))) Panicked) (\<lambda>match_object.
     if ev_completed_at_unix_s p < me_completed_at_unix_s (mo_commitment match_object) then (s, Err TimestampRegression)
     else
       let r = object_ref_new EvaluationCommitmentKind (ev_evaluation_id p) 1
       in tryS s (ensure_absent (rs_evaluations s) (rf_kind r) (ev_evaluation_id p)) (\<lambda>_.
          (s\<lparr>rs_evaluations := bt_insert (ev_evaluation_id p) \<lparr>eo_object_ref = r, eo_commitment = p\<rparr> (rs_evaluations s)\<rparr>, Ok r))))"

definition apply_workload :: "ResearchProtocolState \<Rightarrow> IssueWorkloadReceiptV1 \<Rightarrow> ObjectRefV1 handler" where
  "apply_workload s p =
     tryS s (require_ref s (iw_evaluation_ref p)) (\<lambda>_.
     tryS s (ok_or (bt_get (rs_evaluations s) (rf_key (iw_evaluation_ref p))) Panicked) (\<lambda>evaluation.
     if \<not> ev_accepted (eo_commitment evaluation) then (s, Err RejectedEvaluationCannotIssueWorkload)
     else if iw_issued_at_unix_s p < ev_completed_at_unix_s (eo_commitment evaluation) then (s, Err TimestampRegression)
     else
       let r = object_ref_new WorkloadReceiptKind (iw_receipt_id p) 1
       in tryS s (ensure_absent (rs_workload_receipts s) (rf_kind r) (iw_receipt_id p)) (\<lambda>_.
          (s\<lparr>rs_workload_receipts := bt_insert (iw_receipt_id p) \<lparr>wo_object_ref = r, wo_receipt = p\<rparr> (rs_workload_receipts s)\<rparr>, Ok r))))"

text \<open>\<open>claimants.iter().any(|share| !contributor_keys.contains(..))\<close>.\<close>

definition outside_contributors :: "IssueWorkloadReceiptV1 \<Rightarrow> ClaimShareV1 list \<Rightarrow> bool" where
  "outside_contributors receipt shares =
     list_ex (\<lambda>share. cs_contributor share \<notin> set (map cw_contributor (iw_contributors receipt))) shares"

definition apply_claim :: "ResearchProtocolState \<Rightarrow> CreateResearchClaimV1 \<Rightarrow> ObjectRefV1 handler" where
  "apply_claim s p =
     tryS s (require_ref s (cc_workload_receipt_ref p)) (\<lambda>_.
     tryS s (try_fold (\<lambda>_ r. require_ref s r) () (cc_evidence_refs p)) (\<lambda>_.
     tryS s (ok_or (bt_get (rs_workload_receipts s) (rf_key (cc_workload_receipt_ref p))) Panicked) (\<lambda>workload.
     if outside_contributors (wo_receipt workload) (cc_claimants p) then (s, Err ClaimantWithoutAcceptedWork)
     else if iw_evaluation_ref (wo_receipt workload) \<notin> set (cc_evidence_refs p) then (s, Err ClaimMissingWorkloadEvaluation)
     else if cc_created_at_unix_s p < iw_issued_at_unix_s (wo_receipt workload) then (s, Err TimestampRegression)
     else
       let r = object_ref_new ResearchClaimKind (cc_claim_id p) 1
       in tryS s (ensure_absent (rs_claims s) (rf_kind r) (cc_claim_id p)) (\<lambda>_.
          (s\<lparr>rs_claims := bt_insert (cc_claim_id p) \<lparr>co_object_ref = r, co_claim = p, co_current_claimants = cc_claimants p,
               co_status = Active, co_active_challenge = None\<rparr> (rs_claims s)\<rparr>, Ok r)))))"

definition apply_license :: "ResearchProtocolState \<Rightarrow> DeclareLicenseV1 \<Rightarrow> ObjectRefV1 handler" where
  "apply_license s p =
     tryS s (require_ref s (dl_claim_ref p)) (\<lambda>_.
     tryS s (ok_or (bt_get (rs_claims s) (rf_key (dl_claim_ref p))) Panicked) (\<lambda>claim.
     if co_status claim = Challenged \<or> co_status claim = Rejected then (s, Err (ClaimNotLicensable (co_status claim)))
     else if \<not> list_ex (\<lambda>share. cs_contributor share = dl_licensor p) (co_current_claimants claim) then (s, Err LicensorIsNotClaimant)
     else if dl_effective_at_unix_s p < cc_created_at_unix_s (co_claim claim) then (s, Err TimestampRegression)
     else
       let r = object_ref_new LicenseDeclarationKind (dl_declaration_id p) 1
       in tryS s (ensure_absent (rs_licenses s) (rf_kind r) (dl_declaration_id p)) (\<lambda>_.
          (s\<lparr>rs_licenses := bt_insert (dl_declaration_id p) \<lparr>lo_object_ref = r, lo_declaration = p\<rparr> (rs_licenses s)\<rparr>, Ok r))))"

definition bump_ref :: "ObjectRefV1 \<Rightarrow> ObjectRefV1" where
  "bump_ref r = r\<lparr>rf_version := rf_version r + 1\<rparr>"

definition apply_challenge :: "ResearchProtocolState \<Rightarrow> ChallengeResearchClaimV1 \<Rightarrow> ObjectRefV1 handler" where
  "apply_challenge s p =
     tryS s (require_ref s (cl_claim_ref p)) (\<lambda>_.
     tryS s (ok_or (bt_get (rs_claims s) (rf_key (cl_claim_ref p))) Panicked) (\<lambda>claim.
     if \<not> (co_status claim = Active \<or> co_status claim = Amended \<or> co_status claim = LicenseAmendmentRequired)
     then (s, Err (ClaimNotChallengeable (co_status claim)))
     else if cl_opened_at_unix_s p < cc_created_at_unix_s (co_claim claim) then (s, Err TimestampRegression)
     else
       let r = object_ref_new ClaimChallengeKind (cl_challenge_id p) 1
       in tryS s (ensure_absent (rs_challenges s) (rf_kind r) (cl_challenge_id p)) (\<lambda>_.
          let s1 = s\<lparr>rs_challenges := bt_insert (cl_challenge_id p) \<lparr>ho_object_ref = r, ho_challenge = p, ho_status = Open,
                      ho_resolution_ref = None\<rparr> (rs_challenges s)\<rparr>
          in tryS s1 (ok_or (bt_get (rs_claims s1) (rf_key (cl_claim_ref p))) Panicked) (\<lambda>claim.
             (s1\<lparr>rs_claims := bt_insert (rf_key (cl_claim_ref p)) (claim\<lparr>co_object_ref := bump_ref (co_object_ref claim),
                   co_status := Challenged, co_active_challenge := Some (cl_challenge_id p)\<rparr>) (rs_claims s1)\<rparr>, Ok r)))))"

text \<open>What a decision does to the claim, after its version and its challenge have been updated.\<close>

definition decide_claim :: "ClaimResolutionV1 \<Rightarrow> ResearchClaimObjectV1 \<Rightarrow> ResearchClaimObjectV1" where
  "decide_claim p claim =
     (case cn_decision p of
        Uphold \<Rightarrow> claim\<lparr>co_status := Active\<rparr>
      | Reject \<Rightarrow> claim\<lparr>co_status := Rejected\<rparr>
      | AmendContributorShares \<Rightarrow> claim\<lparr>co_current_claimants := cn_amended_claimants p, co_status := Amended\<rparr>
      | RequireLicenseAmendment \<Rightarrow> claim\<lparr>co_status := LicenseAmendmentRequired\<rparr>)"

definition check_amendment :: "ResearchProtocolState \<Rightarrow> ResearchClaimObjectV1 \<Rightarrow> ClaimResolutionV1 \<Rightarrow> (unit, ProtocolStateError) result" where
  "check_amendment s claim p =
     (if cn_decision p = AmendContributorShares then
        tryR (ok_or (bt_get (rs_workload_receipts s) (rf_key (cc_workload_receipt_ref (co_claim claim))))
                (MissingReferencedObject (cc_workload_receipt_ref (co_claim claim)))) (\<lambda>workload.
        if outside_contributors (wo_receipt workload) (cn_amended_claimants p) then Err ClaimantWithoutAcceptedWork else Ok ())
      else Ok ())"

definition apply_resolution :: "ResearchProtocolState \<Rightarrow> ClaimResolutionV1 \<Rightarrow> ObjectRefV1 handler" where
  "apply_resolution s p =
     tryS s (require_ref s (cn_challenge_ref p)) (\<lambda>_.
     tryS s (ok_or (bt_get (rs_challenges s) (rf_key (cn_challenge_ref p))) Panicked) (\<lambda>challenge.
     if ho_status challenge \<noteq> Open then (s, Err ChallengeAlreadyResolved)
     else if cn_decided_at_unix_s p < cl_opened_at_unix_s (ho_challenge challenge) then (s, Err TimestampRegression)
     else
       let claim_key = rf_key (cl_claim_ref (ho_challenge challenge))
       in tryS s (ok_or (bt_get (rs_claims s) claim_key) (MissingReferencedObject (cl_claim_ref (ho_challenge challenge)))) (\<lambda>claim.
          if co_status claim \<noteq> Challenged \<or> co_active_challenge claim \<noteq> Some (rf_key (cn_challenge_ref p))
          then (s, Err ChallengeClaimStateMismatch)
          else tryS s (check_amendment s claim p) (\<lambda>_.
            let r = object_ref_new ClaimResolutionKind (cn_resolution_id p) 1
            in tryS s (ensure_absent (rs_resolutions s) (rf_kind r) (cn_resolution_id p)) (\<lambda>_.
               let s1 = s\<lparr>rs_resolutions := bt_insert (cn_resolution_id p) \<lparr>so_object_ref = r, so_resolution = p\<rparr> (rs_resolutions s)\<rparr>
               in tryS s1 (ok_or (bt_get (rs_challenges s1) (rf_key (cn_challenge_ref p))) Panicked) (\<lambda>challenge.
                  let s2 = s1\<lparr>rs_challenges := bt_insert (rf_key (cn_challenge_ref p))
                             (challenge\<lparr>ho_object_ref := bump_ref (ho_object_ref challenge), ho_status := Resolved,
                                ho_resolution_ref := Some r\<rparr>) (rs_challenges s1)\<rparr>
                  in tryS s2 (ok_or (bt_get (rs_claims s2) claim_key) Panicked) (\<lambda>claim.
                     (s2\<lparr>rs_claims := bt_insert claim_key
                        (decide_claim p (claim\<lparr>co_object_ref := bump_ref (co_object_ref claim), co_active_challenge := None\<rparr>)) (rs_claims s2)\<rparr>,
                      Ok r))))))))"

fun apply_command :: "ResearchProtocolState \<Rightarrow> ResearchCommandV1 \<Rightarrow> ObjectRefV1 handler" where
  "apply_command s (MatchEvidenceCommitment p) = apply_match s p"
| "apply_command s (EvaluationCommitment p) = apply_evaluation s p"
| "apply_command s (IssueWorkloadReceipt p) = apply_workload s p"
| "apply_command s (CreateResearchClaim p) = apply_claim s p"
| "apply_command s (DeclareLicense p) = apply_license s p"
| "apply_command s (ChallengeResearchClaim p) = apply_challenge s p"
| "apply_command s (ResolveResearchClaim p) = apply_resolution s p"

definition changed_object_refs_for :: "ResearchProtocolState \<Rightarrow> ResearchCommandV1 \<Rightarrow> ObjectRefV1 \<Rightarrow>
    (ObjectRefV1 list, ProtocolStateError) result" where
  "changed_object_refs_for s command primary =
     tryR (case command of
        ChallengeResearchClaim p \<Rightarrow>
          tryR (ok_or (bt_get (rs_claims s) (rf_key (cl_claim_ref p))) (MissingReferencedObject (cl_claim_ref p))) (\<lambda>claim.
          Ok [primary, co_object_ref claim])
      | ResolveResearchClaim p \<Rightarrow>
          tryR (ok_or (bt_get (rs_challenges s) (rf_key (cn_challenge_ref p))) (MissingReferencedObject (cn_challenge_ref p))) (\<lambda>challenge.
          tryR (ok_or (bt_get (rs_claims s) (rf_key (cl_claim_ref (ho_challenge challenge))))
                  (MissingReferencedObject (cl_claim_ref (ho_challenge challenge)))) (\<lambda>claim.
          Ok [primary, ho_object_ref challenge, co_object_ref claim]))
      | _ \<Rightarrow> Ok [primary]) (\<lambda>refs. Ok (sort_key ref_order refs))"

definition research_apply :: "research_crypto \<Rightarrow> ResearchProtocolState \<Rightarrow> SignedResearchCommandV1 \<Rightarrow> ApplyOutcome handler" where
  "research_apply rc s sc =
     tryS s (map_err InvalidCommand (signed_validate rc sc)) (\<lambda>_.
     if \<not> authorizes (rs_authorities s) sc
     then (s, Err (UnauthorizedAuthority (sg_signer_did sc) (sg_signer_role sc) (sg_public_key sc)))
     else
       let fingerprint = command_fingerprint rc sc
       in case bt_get (rs_applied_commands s) (sg_command_id sc) of
            Some existing \<Rightarrow>
              if ap_fingerprint existing = fingerprint then (s, Ok (Idempotent (ap_primary_object_ref existing) []))
              else (s, Err (AlteredReplay (sg_command_id sc)))
          | None \<Rightarrow>
              tryM (apply_command s (sg_command sc)) (\<lambda>s1 primary.
                let s2 = s1\<lparr>rs_applied_commands := bt_insert (sg_command_id sc)
                      \<lparr>ap_command_id = sg_command_id sc, ap_fingerprint = fingerprint, ap_primary_object_ref = primary\<rparr>
                      (rs_applied_commands s1)\<rparr>
                in tryS s2 (changed_object_refs_for s2 (sg_command sc) primary) (\<lambda>changed.
                   (s2, Ok (Applied primary changed)))))"

end
