(* ===== verification/Research_Snapshot.thy ===== *)
theory Research_Snapshot
  imports Research_State
begin

text \<open>
  Persistence of the research ledger (\<open>trnm-research-protocol/src/state.rs\<close>): the canonical bytes of objects and
  snapshots, the export of a snapshot and its import, which rebuilds the maps and checks the object graph.
\<close>

section \<open>Canonical bytes of the objects\<close>

definition enc_Identity :: "AuthorityIdentityV1 \<Rightarrow> u8 list" where
  "enc_Identity i = enc_array 3 @ enc_version @ enc_text (ai_signer_did i) @ enc_digest (ai_public_key i)"

definition enc_AuthoritySet :: "AuthoritySetV1 \<Rightarrow> u8 list" where
  "enc_AuthoritySet a = enc_array 3 @ enc_version @ enc_values enc_Identity (as_nakama_authorities a) @
     enc_values enc_Identity (as_hepta_authorities a)"

definition enc_MatchObject :: "MatchEvidenceObjectV1 \<Rightarrow> u8 list" where
  "enc_MatchObject x = enc_array 3 @ enc_version @ enc_ObjectRef (mo_object_ref x) @ enc_Match (mo_commitment x)"

definition enc_EvaluationObject :: "EvaluationCommitmentObjectV1 \<Rightarrow> u8 list" where
  "enc_EvaluationObject x = enc_array 3 @ enc_version @ enc_ObjectRef (eo_object_ref x) @ enc_Evaluation (eo_commitment x)"

definition enc_WorkloadObject :: "WorkloadReceiptObjectV1 \<Rightarrow> u8 list" where
  "enc_WorkloadObject x = enc_array 3 @ enc_version @ enc_ObjectRef (wo_object_ref x) @ enc_Workload (wo_receipt x)"

fun claim_status_tag :: "ClaimStatus \<Rightarrow> u64" where
  "claim_status_tag Active = 1"
| "claim_status_tag Challenged = 2"
| "claim_status_tag Rejected = 3"
| "claim_status_tag Amended = 4"
| "claim_status_tag LicenseAmendmentRequired = 5"

fun challenge_status_tag :: "ClaimChallengeStatus \<Rightarrow> u64" where
  "challenge_status_tag Open = 1"
| "challenge_status_tag Resolved = 2"

definition enc_ClaimObject :: "ResearchClaimObjectV1 \<Rightarrow> u8 list" where
  "enc_ClaimObject x = enc_array 6 @ enc_version @ enc_ObjectRef (co_object_ref x) @ enc_Claim (co_claim x) @
     enc_values enc_Share (co_current_claimants x) @ enc_uint (claim_status_tag (co_status x)) @
     (case co_active_challenge x of Some key \<Rightarrow> enc_digest key | None \<Rightarrow> enc_null)"

definition enc_LicenseObject :: "LicenseDeclarationObjectV1 \<Rightarrow> u8 list" where
  "enc_LicenseObject x = enc_array 3 @ enc_version @ enc_ObjectRef (lo_object_ref x) @ enc_License (lo_declaration x)"

definition enc_ChallengeObject :: "ClaimChallengeObjectV1 \<Rightarrow> u8 list" where
  "enc_ChallengeObject x = enc_array 5 @ enc_version @ enc_ObjectRef (ho_object_ref x) @ enc_Challenge (ho_challenge x) @
     enc_uint (challenge_status_tag (ho_status x)) @
     (case ho_resolution_ref x of Some r \<Rightarrow> enc_ObjectRef r | None \<Rightarrow> enc_null)"

definition enc_ResolutionObject :: "ClaimResolutionObjectV1 \<Rightarrow> u8 list" where
  "enc_ResolutionObject x = enc_array 3 @ enc_version @ enc_ObjectRef (so_object_ref x) @ enc_Resolution (so_resolution x)"

definition enc_AppliedRecord :: "AppliedCommandRecordV1 \<Rightarrow> u8 list" where
  "enc_AppliedRecord x = enc_array 4 @ enc_version @ enc_digest (ap_command_id x) @ enc_digest (ap_fingerprint x) @
     enc_ObjectRef (ap_primary_object_ref x)"

definition enc_Snapshot :: "ResearchProtocolSnapshotV1 \<Rightarrow> u8 list" where
  "enc_Snapshot p = enc_array 10 @ enc_uint (ucast (ps_protocol_version p)) @ enc_AuthoritySet (ps_authorities p) @
     enc_values enc_MatchObject (ps_matches p) @
     enc_values enc_EvaluationObject (ps_evaluations p) @
     enc_values enc_WorkloadObject (ps_workload_receipts p) @
     enc_values enc_ClaimObject (ps_claims p) @
     enc_values enc_LicenseObject (ps_licenses p) @
     enc_values enc_ChallengeObject (ps_challenges p) @
     enc_values enc_ResolutionObject (ps_resolutions p) @
     enc_values enc_AppliedRecord (ps_applied_commands p)"

section \<open>Export\<close>

definition export_snapshot :: "ResearchProtocolState \<Rightarrow> ResearchProtocolSnapshotV1" where
  "export_snapshot s =
     \<lparr>ps_protocol_version = PROTOCOL_VERSION,
      ps_authorities = rs_authorities s,
      ps_matches = bt_values (rs_matches s),
      ps_evaluations = bt_values (rs_evaluations s),
      ps_workload_receipts = bt_values (rs_workload_receipts s),
      ps_claims = bt_values (rs_claims s),
      ps_licenses = bt_values (rs_licenses s),
      ps_challenges = bt_values (rs_challenges s),
      ps_resolutions = bt_values (rs_resolutions s),
      ps_applied_commands = bt_values (rs_applied_commands s)\<rparr>"

definition canonical_snapshot_bytes :: "ResearchProtocolState \<Rightarrow> u8 list" where
  "canonical_snapshot_bytes s = enc_Snapshot (export_snapshot s)"

definition canonical_snapshot_hash :: "research_crypto \<Rightarrow> ResearchProtocolState \<Rightarrow> hash32" where
  "canonical_snapshot_hash rc s = canonical_hash (rc_sha256 rc) ''trnm-research-protocol-snapshot-v1'' (canonical_snapshot_bytes s)"

definition current_object_refs :: "ResearchProtocolState \<Rightarrow> ObjectRefV1 list" where
  "current_object_refs s = sort_key ref_order
     (map mo_object_ref (bt_values (rs_matches s)) @
      map eo_object_ref (bt_values (rs_evaluations s)) @
      map wo_object_ref (bt_values (rs_workload_receipts s)) @
      map co_object_ref (bt_values (rs_claims s)) @
      map lo_object_ref (bt_values (rs_licenses s)) @
      map ho_object_ref (bt_values (rs_challenges s)) @
      map so_object_ref (bt_values (rs_resolutions s)))"

definition object_canonical_bytes :: "ResearchProtocolState \<Rightarrow> ObjectRefV1 \<Rightarrow> (u8 list, ProtocolStateError) result" where
  "object_canonical_bytes s r = tryR (require_ref s r) (\<lambda>_.
     ok_or (case rf_kind r of
        MatchEvidenceKind \<Rightarrow> map_option enc_MatchObject (bt_get (rs_matches s) (rf_key r))
      | EvaluationCommitmentKind \<Rightarrow> map_option enc_EvaluationObject (bt_get (rs_evaluations s) (rf_key r))
      | WorkloadReceiptKind \<Rightarrow> map_option enc_WorkloadObject (bt_get (rs_workload_receipts s) (rf_key r))
      | ResearchClaimKind \<Rightarrow> map_option enc_ClaimObject (bt_get (rs_claims s) (rf_key r))
      | LicenseDeclarationKind \<Rightarrow> map_option enc_LicenseObject (bt_get (rs_licenses s) (rf_key r))
      | ClaimChallengeKind \<Rightarrow> map_option enc_ChallengeObject (bt_get (rs_challenges s) (rf_key r))
      | ClaimResolutionKind \<Rightarrow> map_option enc_ResolutionObject (bt_get (rs_resolutions s) (rf_key r))) Panicked)"

definition object_leaf_hash :: "research_crypto \<Rightarrow> ResearchProtocolState \<Rightarrow> ObjectRefV1 \<Rightarrow> (hash32, ProtocolStateError) result" where
  "object_leaf_hash rc s r = tryR (object_canonical_bytes s r) (\<lambda>bytes.
     Ok (canonical_hash (rc_sha256 rc) ''trnm-research-protocol-object-leaf-v1'' bytes))"

section \<open>Import\<close>

definition collect_step :: "ResearchObjectKind \<Rightarrow> ('v \<Rightarrow> ObjectRefV1) \<Rightarrow> (ExternalKey, 'v) btree \<Rightarrow> 'v \<Rightarrow>
    ((ExternalKey, 'v) btree, ProtocolStateError) result" where
  "collect_step expected_kind object_ref m x =
     (let reference = object_ref x
      in if rf_kind reference \<noteq> expected_kind \<or> rf_version reference = 0 then Err InvalidSnapshotGraph
         else if bt_contains m (rf_key reference) then Err (DuplicateObject expected_kind (rf_key reference))
         else Ok (bt_insert (rf_key reference) x m))"

definition collect_objects :: "'v list \<Rightarrow> ResearchObjectKind \<Rightarrow> ('v \<Rightarrow> ObjectRefV1) \<Rightarrow>
    ((ExternalKey, 'v) btree, ProtocolStateError) result" where
  "collect_objects objects expected_kind object_ref = try_fold (collect_step expected_kind object_ref) bt_empty objects"

definition collect_record :: "(ExternalKey, AppliedCommandRecordV1) btree \<Rightarrow> AppliedCommandRecordV1 \<Rightarrow>
    ((ExternalKey, AppliedCommandRecordV1) btree, ProtocolStateError) result" where
  "collect_record m x =
     (if ap_command_id x = 0 \<or> bt_contains m (ap_command_id x) then Err InvalidSnapshotGraph
      else Ok (bt_insert (ap_command_id x) x m))"

definition collect_command_records :: "AppliedCommandRecordV1 list \<Rightarrow>
    ((ExternalKey, AppliedCommandRecordV1) btree, ProtocolStateError) result" where
  "collect_command_records records = try_fold collect_record bt_empty records"

definition validate_snapshot_object_ref :: "ObjectRefV1 \<Rightarrow> ResearchObjectKind \<Rightarrow> ExternalKey \<Rightarrow> (unit, ProtocolStateError) result" where
  "validate_snapshot_object_ref r expected_kind expected_key =
     (if rf_kind r \<noteq> expected_kind \<or> rf_key r \<noteq> expected_key \<or> rf_version r = 0 then Err InvalidSnapshotGraph else Ok ())"

text \<open>The bodies of the loops of \<open>validate_snapshot_graph\<close>.\<close>

definition graph_match :: "MatchEvidenceObjectV1 \<Rightarrow> (unit, ProtocolStateError) result" where
  "graph_match x =
     tryR (map_err InvalidPayload (validate_match (mo_commitment x))) (\<lambda>_.
     tryR (validate_snapshot_object_ref (mo_object_ref x) MatchEvidenceKind (me_commitment_id (mo_commitment x))) (\<lambda>_.
     if rf_version (mo_object_ref x) \<noteq> 1 then Err InvalidSnapshotGraph else Ok ()))"

definition graph_evaluation :: "ResearchProtocolState \<Rightarrow> EvaluationCommitmentObjectV1 \<Rightarrow> (unit, ProtocolStateError) result" where
  "graph_evaluation s x =
     tryR (map_err InvalidPayload (validate_evaluation (eo_commitment x))) (\<lambda>_.
     tryR (validate_snapshot_object_ref (eo_object_ref x) EvaluationCommitmentKind (ev_evaluation_id (eo_commitment x))) (\<lambda>_.
     if rf_version (eo_object_ref x) \<noteq> 1 then Err InvalidSnapshotGraph
     else require_ref s (ev_match_evidence_ref (eo_commitment x))))"

definition graph_workload :: "ResearchProtocolState \<Rightarrow> WorkloadReceiptObjectV1 \<Rightarrow> (unit, ProtocolStateError) result" where
  "graph_workload s x =
     tryR (map_err InvalidPayload (validate_workload (wo_receipt x))) (\<lambda>_.
     tryR (validate_snapshot_object_ref (wo_object_ref x) WorkloadReceiptKind (iw_receipt_id (wo_receipt x))) (\<lambda>_.
     if rf_version (wo_object_ref x) \<noteq> 1 then Err InvalidSnapshotGraph
     else tryR (require_ref s (iw_evaluation_ref (wo_receipt x))) (\<lambda>_.
       if \<not> (case bt_get (rs_evaluations s) (rf_key (iw_evaluation_ref (wo_receipt x))) of
              Some evaluation \<Rightarrow> ev_accepted (eo_commitment evaluation) | None \<Rightarrow> False)
       then Err InvalidSnapshotGraph else Ok ())))"

definition graph_claim :: "ResearchProtocolState \<Rightarrow> ResearchClaimObjectV1 \<Rightarrow> (unit, ProtocolStateError) result" where
  "graph_claim s x =
     tryR (map_err InvalidPayload (validate_claim (co_claim x))) (\<lambda>_.
     tryR (validate_snapshot_object_ref (co_object_ref x) ResearchClaimKind (cc_claim_id (co_claim x))) (\<lambda>_.
     tryR (map_err InvalidPayload (validate_claim_shares (co_current_claimants x) False)) (\<lambda>_.
     tryR (require_ref s (cc_workload_receipt_ref (co_claim x))) (\<lambda>_.
     let challenge_consistent =
       (case co_status x of Challenged \<Rightarrow> co_active_challenge x \<noteq> None | _ \<Rightarrow> co_active_challenge x = None)
     in if \<not> challenge_consistent then Err InvalidSnapshotGraph else Ok ()))))"

definition graph_license :: "ResearchProtocolState \<Rightarrow> LicenseDeclarationObjectV1 \<Rightarrow> (unit, ProtocolStateError) result" where
  "graph_license s x =
     tryR (map_err InvalidPayload (validate_license (lo_declaration x))) (\<lambda>_.
     tryR (validate_snapshot_object_ref (lo_object_ref x) LicenseDeclarationKind (dl_declaration_id (lo_declaration x))) (\<lambda>_.
     if rf_version (lo_object_ref x) \<noteq> 1 then Err InvalidSnapshotGraph
     else if \<not> bt_contains (rs_claims s) (rf_key (dl_claim_ref (lo_declaration x))) then Err InvalidSnapshotGraph
     else Ok ()))"

definition graph_challenge :: "ResearchProtocolState \<Rightarrow> ClaimChallengeObjectV1 \<Rightarrow> (unit, ProtocolStateError) result" where
  "graph_challenge s x =
     tryR (map_err InvalidPayload (validate_challenge (ho_challenge x))) (\<lambda>_.
     tryR (validate_snapshot_object_ref (ho_object_ref x) ClaimChallengeKind (cl_challenge_id (ho_challenge x))) (\<lambda>_.
     if \<not> bt_contains (rs_claims s) (rf_key (cl_claim_ref (ho_challenge x))) then Err InvalidSnapshotGraph
     else
       let status_consistent =
         (case ho_status x of
            Open \<Rightarrow> rf_version (ho_object_ref x) = 1 \<and> ho_resolution_ref x = None
          | Resolved \<Rightarrow> rf_version (ho_object_ref x) = 2 \<and> ho_resolution_ref x \<noteq> None)
       in if \<not> status_consistent then Err InvalidSnapshotGraph else Ok ()))"

definition graph_resolution :: "ResearchProtocolState \<Rightarrow> ClaimResolutionObjectV1 \<Rightarrow> (unit, ProtocolStateError) result" where
  "graph_resolution s x =
     tryR (map_err InvalidPayload (validate_resolution (so_resolution x))) (\<lambda>_.
     tryR (validate_snapshot_object_ref (so_object_ref x) ClaimResolutionKind (cn_resolution_id (so_resolution x))) (\<lambda>_.
     if rf_version (so_object_ref x) \<noteq> 1 then Err InvalidSnapshotGraph
     else if \<not> bt_contains (rs_challenges s) (rf_key (cn_challenge_ref (so_resolution x))) then Err InvalidSnapshotGraph
     else Ok ()))"

definition graph_record :: "ResearchProtocolState \<Rightarrow> AppliedCommandRecordV1 \<Rightarrow> (unit, ProtocolStateError) result" where
  "graph_record s x =
     (if ap_fingerprint x = 0 then Err InvalidSnapshotGraph else require_ref_relaxed s (ap_primary_object_ref x))"

definition validate_snapshot_graph :: "ResearchProtocolState \<Rightarrow> (unit, ProtocolStateError) result" where
  "validate_snapshot_graph s =
     tryR (authorities_validate (rs_authorities s)) (\<lambda>_.
     tryR (try_fold (\<lambda>_. graph_match) () (bt_values (rs_matches s))) (\<lambda>_.
     tryR (try_fold (\<lambda>_. graph_evaluation s) () (bt_values (rs_evaluations s))) (\<lambda>_.
     tryR (try_fold (\<lambda>_. graph_workload s) () (bt_values (rs_workload_receipts s))) (\<lambda>_.
     tryR (try_fold (\<lambda>_. graph_claim s) () (bt_values (rs_claims s))) (\<lambda>_.
     tryR (try_fold (\<lambda>_. graph_license s) () (bt_values (rs_licenses s))) (\<lambda>_.
     tryR (try_fold (\<lambda>_. graph_challenge s) () (bt_values (rs_challenges s))) (\<lambda>_.
     tryR (try_fold (\<lambda>_. graph_resolution s) () (bt_values (rs_resolutions s))) (\<lambda>_.
     tryR (try_fold (\<lambda>_. graph_record s) () (bt_values (rs_applied_commands s))) (\<lambda>_.
     Ok ())))))))))"

definition from_snapshot :: "ResearchProtocolSnapshotV1 \<Rightarrow> (ResearchProtocolState, ProtocolStateError) result" where
  "from_snapshot p =
     (if ps_protocol_version p \<noteq> PROTOCOL_VERSION then Err (UnsupportedSnapshotVersion (ps_protocol_version p))
      else
        tryR (authorities_validate (ps_authorities p)) (\<lambda>_.
        tryR (collect_objects (ps_matches p) MatchEvidenceKind mo_object_ref) (\<lambda>matches.
        tryR (collect_objects (ps_evaluations p) EvaluationCommitmentKind eo_object_ref) (\<lambda>evaluations.
        tryR (collect_objects (ps_workload_receipts p) WorkloadReceiptKind wo_object_ref) (\<lambda>workload_receipts.
        tryR (collect_objects (ps_claims p) ResearchClaimKind co_object_ref) (\<lambda>claims.
        tryR (collect_objects (ps_licenses p) LicenseDeclarationKind lo_object_ref) (\<lambda>licenses.
        tryR (collect_objects (ps_challenges p) ClaimChallengeKind ho_object_ref) (\<lambda>challenges.
        tryR (collect_objects (ps_resolutions p) ClaimResolutionKind so_object_ref) (\<lambda>resolutions.
        tryR (collect_command_records (ps_applied_commands p)) (\<lambda>applied_commands.
        let state = \<lparr>rs_authorities = ps_authorities p, rs_matches = matches, rs_evaluations = evaluations,
              rs_workload_receipts = workload_receipts, rs_claims = claims, rs_licenses = licenses, rs_challenges = challenges,
              rs_resolutions = resolutions, rs_applied_commands = applied_commands\<rparr>
        in tryR (validate_snapshot_graph state) (\<lambda>_. Ok state)))))))))))"

end
