(* ===== verification/Research_Ledger.thy ===== *)
theory Research_Ledger
  imports Research_Snapshot
begin

text \<open>
  Invariants of the research ledger. Every object conforms to the state it lives in (\<open>conf_...\<close>); objects other than claims and
  challenges never change and nothing is ever removed (\<open>extends\<close>), so conformance is monotone and each operation
  only has to establish it for what it writes. The open challenges are exactly the active challenges of the claims
  (\<open>disputes_ok\<close>).
\<close>

section \<open>Maps whose entries satisfy a predicate\<close>

definition all_entries :: "('k::linorder \<Rightarrow> 'v \<Rightarrow> bool) \<Rightarrow> ('k, 'v) btree \<Rightarrow> bool" where
  "all_entries P m \<longleftrightarrow> (\<forall>k v. bt_get m k = Some v \<longrightarrow> P k v)"

lemma all_entries_empty [simp]: "all_entries P bt_empty"
  by (simp add: all_entries_def)

lemma all_entries_insert: "P k v \<Longrightarrow> all_entries P m \<Longrightarrow> all_entries P (bt_insert k v m)"
  by (simp add: all_entries_def)

lemma all_entries_mono: "all_entries P m \<Longrightarrow> (\<And>k v. P k v \<Longrightarrow> Q k v) \<Longrightarrow> all_entries Q m"
  by (simp add: all_entries_def)

lemma all_entries_get: "all_entries P m \<Longrightarrow> bt_get m k = Some v \<Longrightarrow> P k v"
  by (simp add: all_entries_def)

definition grows :: "('k::linorder, 'v) btree \<Rightarrow> ('k, 'v) btree \<Rightarrow> bool" where
  "grows m m' \<longleftrightarrow> (\<forall>k v. bt_get m k = Some v \<longrightarrow> bt_get m' k = Some v)"

lemma grows_refl [simp]: "grows m m"
  by (simp add: grows_def)

lemma grows_trans: "grows m m' \<Longrightarrow> grows m' m'' \<Longrightarrow> grows m m''"
  by (simp add: grows_def)

lemma grows_insert: "bt_get m k = None \<Longrightarrow> grows m (bt_insert k v m)"
  by (auto simp: grows_def)

lemma grows_get: "grows m m' \<Longrightarrow> bt_get m k = Some v \<Longrightarrow> bt_get m' k = Some v"
  by (simp add: grows_def)

text \<open>A map that keeps its keys and, at each key, a part of the value that never changes.\<close>

definition keeps :: "('v \<Rightarrow> 'p) \<Rightarrow> ('k::linorder, 'v) btree \<Rightarrow> ('k, 'v) btree \<Rightarrow> bool" where
  "keeps part m m' \<longleftrightarrow> (\<forall>k v. bt_get m k = Some v \<longrightarrow> (\<exists>v'. bt_get m' k = Some v' \<and> part v' = part v))"

lemma keeps_refl [simp]: "keeps part m m"
  by (simp add: keeps_def)

lemma keeps_trans: "keeps part m m' \<Longrightarrow> keeps part m' m'' \<Longrightarrow> keeps part m m''"
  unfolding keeps_def by metis

lemma keeps_insert: "(\<And>w. bt_get m k = Some w \<Longrightarrow> part v = part w) \<Longrightarrow> keeps part m (bt_insert k v m)"
  by (auto simp: keeps_def)

section \<open>Extension of a ledger\<close>

definition extends :: "ResearchProtocolState \<Rightarrow> ResearchProtocolState \<Rightarrow> bool" where
  "extends s s' \<longleftrightarrow> rs_authorities s' = rs_authorities s \<and>
     grows (rs_matches s) (rs_matches s') \<and> grows (rs_evaluations s) (rs_evaluations s') \<and>
     grows (rs_workload_receipts s) (rs_workload_receipts s') \<and> keeps co_claim (rs_claims s) (rs_claims s') \<and>
     grows (rs_licenses s) (rs_licenses s') \<and> keeps ho_challenge (rs_challenges s) (rs_challenges s') \<and>
     grows (rs_resolutions s) (rs_resolutions s') \<and> grows (rs_applied_commands s) (rs_applied_commands s')"

lemma extends_refl: "extends s s"
  by (simp add: extends_def)

lemma extends_trans: "extends s s' \<Longrightarrow> extends s' s'' \<Longrightarrow> extends s s''"
  unfolding extends_def by (auto intro: grows_trans keeps_trans)

section \<open>Conformance of the objects\<close>

definition conf_match :: "ExternalKey \<Rightarrow> MatchEvidenceObjectV1 \<Rightarrow> bool" where
  "conf_match k x \<longleftrightarrow> validate_match (mo_commitment x) = Ok () \<and> k = me_commitment_id (mo_commitment x) \<and>
     mo_object_ref x = object_ref_new MatchEvidenceKind k 1"

definition conf_evaluation :: "ResearchProtocolState \<Rightarrow> ExternalKey \<Rightarrow> EvaluationCommitmentObjectV1 \<Rightarrow> bool" where
  "conf_evaluation s k x \<longleftrightarrow> validate_evaluation (eo_commitment x) = Ok () \<and> k = ev_evaluation_id (eo_commitment x) \<and>
     eo_object_ref x = object_ref_new EvaluationCommitmentKind k 1 \<and>
     require_ref s (ev_match_evidence_ref (eo_commitment x)) = Ok ()"

definition conf_workload :: "ResearchProtocolState \<Rightarrow> ExternalKey \<Rightarrow> WorkloadReceiptObjectV1 \<Rightarrow> bool" where
  "conf_workload s k x \<longleftrightarrow> validate_workload (wo_receipt x) = Ok () \<and> k = iw_receipt_id (wo_receipt x) \<and>
     wo_object_ref x = object_ref_new WorkloadReceiptKind k 1 \<and> require_ref s (iw_evaluation_ref (wo_receipt x)) = Ok () \<and>
     (\<exists>e. bt_get (rs_evaluations s) (rf_key (iw_evaluation_ref (wo_receipt x))) = Some e \<and> ev_accepted (eo_commitment e))"

definition conf_claim :: "ResearchProtocolState \<Rightarrow> ExternalKey \<Rightarrow> ResearchClaimObjectV1 \<Rightarrow> bool" where
  "conf_claim s k x \<longleftrightarrow> validate_claim (co_claim x) = Ok () \<and> k = cc_claim_id (co_claim x) \<and>
     rf_kind (co_object_ref x) = ResearchClaimKind \<and> rf_key (co_object_ref x) = k \<and>
     validate_claim_shares (co_current_claimants x) False = Ok () \<and>
     require_ref s (cc_workload_receipt_ref (co_claim x)) = Ok () \<and>
     (\<forall>r \<in> set (cc_evidence_refs (co_claim x)). require_ref s r = Ok ()) \<and>
     (\<exists>w. bt_get (rs_workload_receipts s) (rf_key (cc_workload_receipt_ref (co_claim x))) = Some w \<and>
        \<not> outside_contributors (wo_receipt w) (co_current_claimants x))"

definition conf_license :: "ResearchProtocolState \<Rightarrow> ExternalKey \<Rightarrow> LicenseDeclarationObjectV1 \<Rightarrow> bool" where
  "conf_license s k x \<longleftrightarrow> validate_license (lo_declaration x) = Ok () \<and> k = dl_declaration_id (lo_declaration x) \<and>
     lo_object_ref x = object_ref_new LicenseDeclarationKind k 1 \<and>
     bt_contains (rs_claims s) (rf_key (dl_claim_ref (lo_declaration x)))"

definition conf_challenge :: "ResearchProtocolState \<Rightarrow> ExternalKey \<Rightarrow> ClaimChallengeObjectV1 \<Rightarrow> bool" where
  "conf_challenge s k x \<longleftrightarrow> validate_challenge (ho_challenge x) = Ok () \<and> k = cl_challenge_id (ho_challenge x) \<and>
     bt_contains (rs_claims s) (rf_key (cl_claim_ref (ho_challenge x))) \<and>
     (case ho_status x of
        Open \<Rightarrow> ho_object_ref x = object_ref_new ClaimChallengeKind k 1 \<and> ho_resolution_ref x = None
      | Resolved \<Rightarrow> ho_object_ref x = object_ref_new ClaimChallengeKind k 2 \<and>
          (\<exists>r y. ho_resolution_ref x = Some r \<and> bt_get (rs_resolutions s) (rf_key r) = Some y \<and>
             rf_key (cn_challenge_ref (so_resolution y)) = k))"

definition conf_resolution :: "ResearchProtocolState \<Rightarrow> ExternalKey \<Rightarrow> ClaimResolutionObjectV1 \<Rightarrow> bool" where
  "conf_resolution s k x \<longleftrightarrow> validate_resolution (so_resolution x) = Ok () \<and> k = cn_resolution_id (so_resolution x) \<and>
     so_object_ref x = object_ref_new ClaimResolutionKind k 1 \<and>
     bt_contains (rs_challenges s) (rf_key (cn_challenge_ref (so_resolution x)))"

definition conf_record :: "ResearchProtocolState \<Rightarrow> ExternalKey \<Rightarrow> AppliedCommandRecordV1 \<Rightarrow> bool" where
  "conf_record s k x \<longleftrightarrow> k = ap_command_id x \<and> k \<noteq> 0 \<and> require_ref_relaxed s (ap_primary_object_ref x) = Ok ()"

definition ledger_ok :: "ResearchProtocolState \<Rightarrow> bool" where
  "ledger_ok s \<longleftrightarrow> authorities_validate (rs_authorities s) = Ok () \<and> all_entries conf_match (rs_matches s) \<and>
     all_entries (conf_evaluation s) (rs_evaluations s) \<and> all_entries (conf_workload s) (rs_workload_receipts s) \<and>
     all_entries (conf_claim s) (rs_claims s) \<and> all_entries (conf_license s) (rs_licenses s) \<and>
     all_entries (conf_challenge s) (rs_challenges s) \<and> all_entries (conf_resolution s) (rs_resolutions s) \<and>
     all_entries (conf_record s) (rs_applied_commands s)"

text \<open>The versions of the claims count at most the accepted commands, and are not zero unless they wrap.\<close>

definition versions_ok :: "nat \<Rightarrow> (ExternalKey, ResearchClaimObjectV1) btree \<Rightarrow> bool" where
  "versions_ok n claims \<longleftrightarrow>
     all_entries (\<lambda>_ x. 0 < unat (rf_version (co_object_ref x)) \<and> unat (rf_version (co_object_ref x)) \<le> n) claims"

definition open_on :: "ResearchProtocolState \<Rightarrow> ExternalKey \<Rightarrow> ExternalKey \<Rightarrow> bool" where
  "open_on s k h \<longleftrightarrow> (\<exists>x. bt_get (rs_challenges s) h = Some x \<and> ho_status x = Open \<and> rf_key (cl_claim_ref (ho_challenge x)) = k)"

definition disputes_ok :: "ResearchProtocolState \<Rightarrow> bool" where
  "disputes_ok s \<longleftrightarrow> all_entries (\<lambda>k x. (co_status x = Challenged \<longleftrightarrow> co_active_challenge x \<noteq> None) \<and>
     (\<forall>h. open_on s k h \<longleftrightarrow> co_active_challenge x = Some h)) (rs_claims s)"

section \<open>What valid payloads refer to\<close>

lemma try_fold_unit_iff: "try_fold (\<lambda>_. f) () xs = Ok u \<longleftrightarrow> (\<forall>x \<in> set xs. f x = Ok ())"
  by (induction xs) (auto simp: result_simps)

lemmas validators = validate_key_def validate_ref_kind_def validate_ref_def

lemma validate_match_id: "validate_match p = Ok u \<Longrightarrow> me_commitment_id p \<noteq> 0"
  by (auto simp: validate_match_def validators result_simps)

lemma validate_evaluation_ref:
  "validate_evaluation p = Ok u \<Longrightarrow> rf_kind (ev_match_evidence_ref p) = MatchEvidenceKind"
  by (auto simp: validate_evaluation_def validators result_simps)

lemma validate_workload_ref:
  "validate_workload p = Ok u \<Longrightarrow> rf_kind (iw_evaluation_ref p) = EvaluationCommitmentKind"
  by (auto simp: validate_workload_def validators result_simps)

lemma evidence_fold_kinds:
  "try_fold evidence_step prev refs = Ok y \<Longrightarrow> r \<in> set refs \<Longrightarrow> rf_kind r = MatchEvidenceKind \<or> rf_kind r = EvaluationCommitmentKind"
  by (induction refs arbitrary: prev) (auto simp: evidence_step_def result_simps)

lemma validate_claim_refs:
  assumes "validate_claim p = Ok u"
  shows "rf_kind (cc_workload_receipt_ref p) = WorkloadReceiptKind" "validate_claim_shares (cc_claimants p) False = Ok ()"
    "r \<in> set (cc_evidence_refs p) \<Longrightarrow> rf_kind r = MatchEvidenceKind \<or> rf_kind r = EvaluationCommitmentKind"
  using assms
  by (auto simp: validate_claim_def validators validate_evidence_refs_def result_simps dest: evidence_fold_kinds)

lemma validate_license_ref: "validate_license p = Ok u \<Longrightarrow> rf_kind (dl_claim_ref p) = ResearchClaimKind"
  by (auto simp: validate_license_def validators result_simps)

lemma validate_challenge_ref: "validate_challenge p = Ok u \<Longrightarrow> rf_kind (cl_claim_ref p) = ResearchClaimKind"
  by (auto simp: validate_challenge_def validators result_simps)

lemma validate_resolution_ref:
  assumes "validate_resolution p = Ok u"
  shows "rf_kind (cn_challenge_ref p) = ClaimChallengeKind"
    "cn_decision p = AmendContributorShares \<Longrightarrow> validate_claim_shares (cn_amended_claimants p) False = Ok ()"
  using assms by (auto simp: validate_resolution_def validators result_simps)

lemma require_ref_iff: "require_ref s r = Ok u \<longleftrightarrow> actual_version s (rf_kind r) (rf_key r) = Some (rf_version r)"
  by (auto simp: require_ref_def split: option.splits if_splits)

lemma require_ref_relaxed_iff: "require_ref_relaxed s r = Ok u \<longleftrightarrow> actual_version s (rf_kind r) (rf_key r) \<noteq> None"
  by (auto simp: require_ref_relaxed_def)

lemma ensure_absent_iff: "ensure_absent m kind k = Ok u \<longleftrightarrow> bt_get m k = None"
  by (auto simp: ensure_absent_def bt_contains_def)

section \<open>Conformance is monotone\<close>

text \<open>References to objects that never change stay valid; references to the others stay present.\<close>

lemma require_ref_extends:
  assumes "extends s s'" and "require_ref s r = Ok ()"
    and "rf_kind r \<notin> {ResearchClaimKind, ClaimChallengeKind}"
  shows "require_ref s' r = Ok ()"
  using assms
  by (cases "rf_kind r") (auto simp: require_ref_iff actual_version_def extends_def grows_def)

lemma contains_keeps: "keeps part m m' \<Longrightarrow> bt_contains m k \<Longrightarrow> bt_contains m' k"
  by (auto simp: keeps_def bt_contains_iff)

lemma require_ref_relaxed_extends:
  assumes "extends s s'" and "require_ref_relaxed s r = Ok ()"
  shows "require_ref_relaxed s' r = Ok ()"
  using assms
  by (cases "rf_kind r") (fastforce simp: require_ref_relaxed_iff actual_version_def extends_def grows_def keeps_def)+

lemma conf_evaluation_extends: "extends s s' \<Longrightarrow> conf_evaluation s k x \<Longrightarrow> conf_evaluation s' k x"
  using validate_evaluation_ref [of "eo_commitment x" "()"]
  by (auto simp: conf_evaluation_def intro: require_ref_extends)

lemma evaluations_extends:
  "extends s s' \<Longrightarrow> bt_get (rs_evaluations s) k = Some e \<Longrightarrow> bt_get (rs_evaluations s') k = Some e"
  by (simp add: extends_def grows_def)

lemma conf_workload_extends: "extends s s' \<Longrightarrow> conf_workload s k x \<Longrightarrow> conf_workload s' k x"
  using validate_workload_ref [of "wo_receipt x" "()"]
  by (auto simp: conf_workload_def dest: evaluations_extends intro: require_ref_extends)

lemma conf_claim_extends:
  assumes "extends s s'" and "conf_claim s k x"
  shows "conf_claim s' k x"
proof -
  from assms(2) have valid: "validate_claim (co_claim x) = Ok ()" by (simp add: conf_claim_def)
  have "require_ref s' r = Ok ()" if "r \<in> set (cc_evidence_refs (co_claim x))" for r
    using assms that validate_claim_refs(3) [OF valid that] by (intro require_ref_extends [OF assms(1)]) (auto simp: conf_claim_def)
  moreover have "require_ref s' (cc_workload_receipt_ref (co_claim x)) = Ok ()"
    using assms validate_claim_refs(1) [OF valid] by (intro require_ref_extends [OF assms(1)]) (auto simp: conf_claim_def)
  moreover have "grows (rs_workload_receipts s) (rs_workload_receipts s')"
    using assms(1) by (simp add: extends_def)
  ultimately show ?thesis
    using assms(2) by (auto simp: conf_claim_def dest: grows_get)
qed

lemma conf_license_extends: "extends s s' \<Longrightarrow> conf_license s k x \<Longrightarrow> conf_license s' k x"
  by (auto simp: conf_license_def extends_def intro: contains_keeps)

lemma conf_challenge_extends: "extends s s' \<Longrightarrow> conf_challenge s k x \<Longrightarrow> conf_challenge s' k x"
  by (cases "ho_status x") (auto simp: conf_challenge_def extends_def intro: contains_keeps dest: grows_get)

lemma conf_resolution_extends: "extends s s' \<Longrightarrow> conf_resolution s k x \<Longrightarrow> conf_resolution s' k x"
  by (auto simp: conf_resolution_def extends_def intro: contains_keeps)

lemma conf_record_extends: "extends s s' \<Longrightarrow> conf_record s k x \<Longrightarrow> conf_record s' k x"
  by (auto simp: conf_record_def intro: require_ref_relaxed_extends)

lemmas conf_extends = conf_evaluation_extends conf_workload_extends conf_claim_extends conf_license_extends conf_challenge_extends
  conf_resolution_extends conf_record_extends

lemma ledger_extends:
  assumes "ledger_ok s" and ext: "extends s s'"
  shows "authorities_validate (rs_authorities s') = Ok ()" "all_entries conf_match (rs_matches s)"
    "all_entries (conf_evaluation s') (rs_evaluations s)" "all_entries (conf_workload s') (rs_workload_receipts s)"
    "all_entries (conf_claim s') (rs_claims s)" "all_entries (conf_license s') (rs_licenses s)"
    "all_entries (conf_challenge s') (rs_challenges s)" "all_entries (conf_resolution s') (rs_resolutions s)"
    "all_entries (conf_record s') (rs_applied_commands s)"
  using assms by (auto simp: ledger_ok_def extends_def [of s s'] elim!: all_entries_mono intro: conf_extends [OF ext])

section \<open>What the operations write\<close>

lemma apply_match_Ok:
  assumes "apply_match s p = (s', Ok r)"
  shows "bt_get (rs_matches s) (me_commitment_id p) = None \<and> r = object_ref_new MatchEvidenceKind (me_commitment_id p) 1 \<and>
    s' = s\<lparr>rs_matches := bt_insert (me_commitment_id p) \<lparr>mo_object_ref = r, mo_commitment = p\<rparr> (rs_matches s)\<rparr>"
  using assms by (auto simp: apply_match_def Let_def result_simps ensure_absent_iff)

lemma apply_evaluation_Ok:
  assumes "apply_evaluation s p = (s', Ok r)"
  shows "bt_get (rs_evaluations s) (ev_evaluation_id p) = None \<and> r = object_ref_new EvaluationCommitmentKind (ev_evaluation_id p) 1 \<and>
    require_ref s (ev_match_evidence_ref p) = Ok () \<and>
    s' = s\<lparr>rs_evaluations := bt_insert (ev_evaluation_id p) \<lparr>eo_object_ref = r, eo_commitment = p\<rparr> (rs_evaluations s)\<rparr>"
  using assms by (auto simp: apply_evaluation_def Let_def result_simps ensure_absent_iff)

lemma apply_workload_Ok:
  assumes "apply_workload s p = (s', Ok r)"
  shows "bt_get (rs_workload_receipts s) (iw_receipt_id p) = None \<and> r = object_ref_new WorkloadReceiptKind (iw_receipt_id p) 1 \<and>
    require_ref s (iw_evaluation_ref p) = Ok () \<and>
    (\<exists>e. bt_get (rs_evaluations s) (rf_key (iw_evaluation_ref p)) = Some e \<and> ev_accepted (eo_commitment e)) \<and>
    s' = s\<lparr>rs_workload_receipts := bt_insert (iw_receipt_id p) \<lparr>wo_object_ref = r, wo_receipt = p\<rparr> (rs_workload_receipts s)\<rparr>"
  using assms by (auto simp: apply_workload_def Let_def result_simps ensure_absent_iff)

lemma apply_claim_Ok:
  assumes "apply_claim s p = (s', Ok r)"
  shows "bt_get (rs_claims s) (cc_claim_id p) = None \<and> r = object_ref_new ResearchClaimKind (cc_claim_id p) 1 \<and>
    require_ref s (cc_workload_receipt_ref p) = Ok () \<and> (\<forall>e \<in> set (cc_evidence_refs p). require_ref s e = Ok ()) \<and>
    (\<exists>w. bt_get (rs_workload_receipts s) (rf_key (cc_workload_receipt_ref p)) = Some w \<and>
       \<not> outside_contributors (wo_receipt w) (cc_claimants p)) \<and>
    s' = s\<lparr>rs_claims := bt_insert (cc_claim_id p) \<lparr>co_object_ref = r, co_claim = p, co_current_claimants = cc_claimants p,
               co_status = Active, co_active_challenge = None\<rparr> (rs_claims s)\<rparr>"
  using assms by (auto simp: apply_claim_def Let_def result_simps ensure_absent_iff try_fold_unit_iff)

lemma apply_license_Ok:
  assumes "apply_license s p = (s', Ok r)"
  shows "bt_get (rs_licenses s) (dl_declaration_id p) = None \<and> r = object_ref_new LicenseDeclarationKind (dl_declaration_id p) 1 \<and>
    bt_contains (rs_claims s) (rf_key (dl_claim_ref p)) \<and>
    s' = s\<lparr>rs_licenses := bt_insert (dl_declaration_id p) \<lparr>lo_object_ref = r, lo_declaration = p\<rparr> (rs_licenses s)\<rparr>"
  using assms by (auto simp: apply_license_def Let_def result_simps ensure_absent_iff bt_contains_iff)

lemma apply_challenge_Ok:
  assumes "apply_challenge s p = (s', Ok r)"
  obtains c where "bt_get (rs_challenges s) (cl_challenge_id p) = None" "r = object_ref_new ClaimChallengeKind (cl_challenge_id p) 1"
    "bt_get (rs_claims s) (rf_key (cl_claim_ref p)) = Some c" "co_status c \<noteq> Challenged" "co_status c \<noteq> Rejected"
    "s' = s\<lparr>rs_challenges := bt_insert (cl_challenge_id p) \<lparr>ho_object_ref = r, ho_challenge = p, ho_status = Open,
                ho_resolution_ref = None\<rparr> (rs_challenges s),
             rs_claims := bt_insert (rf_key (cl_claim_ref p)) (c\<lparr>co_object_ref := bump_ref (co_object_ref c),
                co_status := Challenged, co_active_challenge := Some (cl_challenge_id p)\<rparr>) (rs_claims s)\<rparr>"
  using assms by (auto simp: apply_challenge_def Let_def result_simps ensure_absent_iff)

lemma apply_resolution_Ok:
  assumes "apply_resolution s p = (s', Ok r)"
  obtains h c where "bt_get (rs_resolutions s) (cn_resolution_id p) = None" "r = object_ref_new ClaimResolutionKind (cn_resolution_id p) 1"
    "bt_get (rs_challenges s) (rf_key (cn_challenge_ref p)) = Some h" "ho_status h = Open"
    "bt_get (rs_claims s) (rf_key (cl_claim_ref (ho_challenge h))) = Some c" "co_status c = Challenged"
    "co_active_challenge c = Some (rf_key (cn_challenge_ref p))" "check_amendment s c p = Ok ()"
    "s' = s\<lparr>rs_resolutions := bt_insert (cn_resolution_id p) \<lparr>so_object_ref = r, so_resolution = p\<rparr> (rs_resolutions s),
             rs_challenges := bt_insert (rf_key (cn_challenge_ref p))
               (h\<lparr>ho_object_ref := bump_ref (ho_object_ref h), ho_status := Resolved, ho_resolution_ref := Some r\<rparr>) (rs_challenges s),
             rs_claims := bt_insert (rf_key (cl_claim_ref (ho_challenge h)))
               (decide_claim p (c\<lparr>co_object_ref := bump_ref (co_object_ref c), co_active_challenge := None\<rparr>)) (rs_claims s)\<rparr>"
  using assms by (auto simp: apply_resolution_def Let_def result_simps ensure_absent_iff)

lemma decide_claim_simps [simp]:
  "co_claim (decide_claim p c) = co_claim c" "co_object_ref (decide_claim p c) = co_object_ref c"
  "co_active_challenge (decide_claim p c) = co_active_challenge c" "co_status (decide_claim p c) \<noteq> Challenged"
  "co_current_claimants (decide_claim p c) =
     (if cn_decision p = AmendContributorShares then cn_amended_claimants p else co_current_claimants c)"
  by (auto simp: decide_claim_def split: ClaimResolutionDecision.splits)

lemma bump_ref_simps [simp]:
  "rf_kind (bump_ref r) = rf_kind r" "rf_key (bump_ref r) = rf_key r" "rf_version (bump_ref r) = rf_version r + 1"
  "bump_ref (object_ref_new kind k v) = object_ref_new kind k (v + 1)"
  by (simp_all add: bump_ref_def object_ref_new_def)

lemma object_ref_new_simps [simp]:
  "rf_kind (object_ref_new kind k v) = kind" "rf_key (object_ref_new kind k v) = k" "rf_version (object_ref_new kind k v) = v"
  by (simp_all add: object_ref_new_def)

section \<open>Nothing is lost\<close>

lemma apply_command_extends:
  assumes "apply_command s c = (s', Ok r)"
  shows "extends s s' \<and> rs_applied_commands s' = rs_applied_commands s"
  using assms
  by (cases c) (auto simp: extends_def intro!: grows_insert keeps_insert
    dest!: apply_match_Ok apply_evaluation_Ok apply_workload_Ok apply_claim_Ok apply_license_Ok
    elim!: apply_challenge_Ok apply_resolution_Ok)

section \<open>Operations keep the ledger well formed\<close>

lemma share_amendment:
  assumes "check_amendment s c p = Ok ()" and "conf_claim s k c" and "validate_resolution p = Ok ()"
  shows "conf_claim s k (decide_claim p (c\<lparr>co_object_ref := bump_ref (co_object_ref c), co_active_challenge := None\<rparr>))"
  using assms validate_resolution_ref(2) [OF assms(3)]
  by (auto simp: check_amendment_def conf_claim_def result_simps)

lemma challenge_ledger_ok:
  assumes "ledger_ok s" and "validate_challenge p = Ok ()" and "apply_challenge s p = (s', Ok r)"
  shows "ledger_ok s'"
proof -
  from apply_command_extends [of s "ChallengeResearchClaim p"] assms(3) have ext: "extends s s'" by simp
  note old = ledger_extends [OF assms(1) ext]
  from assms(3) show ?thesis
  proof (rule apply_challenge_Ok)
    fix k
    assume a: "bt_get (rs_challenges s) (cl_challenge_id p) = None" "r = object_ref_new ClaimChallengeKind (cl_challenge_id p) 1"
      "bt_get (rs_claims s) (rf_key (cl_claim_ref p)) = Some k"
      "s' = s\<lparr>rs_challenges := bt_insert (cl_challenge_id p) \<lparr>ho_object_ref = r, ho_challenge = p, ho_status = Open,
              ho_resolution_ref = None\<rparr> (rs_challenges s),
           rs_claims := bt_insert (rf_key (cl_claim_ref p)) (k\<lparr>co_object_ref := bump_ref (co_object_ref k),
              co_status := Challenged, co_active_challenge := Some (cl_challenge_id p)\<rparr>) (rs_claims s)\<rparr>"
    have "conf_challenge s (cl_challenge_id p) \<lparr>ho_object_ref = r, ho_challenge = p, ho_status = Open, ho_resolution_ref = None\<rparr>"
      using a assms(2) by (simp add: conf_challenge_def bt_contains_iff)
    note challenge = conf_challenge_extends [OF ext this]
    have "conf_claim s' (rf_key (cl_claim_ref p)) k"
      using old(5) a(3) by (rule all_entries_get)
    then have "conf_claim s' (rf_key (cl_claim_ref p)) (k\<lparr>co_object_ref := bump_ref (co_object_ref k),
              co_status := Challenged, co_active_challenge := Some (cl_challenge_id p)\<rparr>)"
      by (simp add: conf_claim_def)
    with challenge old a(4) show ?thesis
      by (auto simp: ledger_ok_def intro!: all_entries_insert)
  qed
qed

lemma resolution_ledger_ok:
  assumes "ledger_ok s" and "validate_resolution p = Ok ()" and "apply_resolution s p = (s', Ok r)"
  shows "ledger_ok s'"
proof -
  from apply_command_extends [of s "ResolveResearchClaim p"] assms(3) have ext: "extends s s'" by simp
  note old = ledger_extends [OF assms(1) ext]
  from assms(3) show ?thesis
  proof (rule apply_resolution_Ok)
    fix h k
    assume a: "r = object_ref_new ClaimResolutionKind (cn_resolution_id p) 1"
      "bt_get (rs_challenges s) (rf_key (cn_challenge_ref p)) = Some h" "ho_status h = Open"
      "bt_get (rs_claims s) (rf_key (cl_claim_ref (ho_challenge h))) = Some k" "check_amendment s k p = Ok ()"
      "s' = s\<lparr>rs_resolutions := bt_insert (cn_resolution_id p) \<lparr>so_object_ref = r, so_resolution = p\<rparr> (rs_resolutions s),
           rs_challenges := bt_insert (rf_key (cn_challenge_ref p))
             (h\<lparr>ho_object_ref := bump_ref (ho_object_ref h), ho_status := Resolved, ho_resolution_ref := Some r\<rparr>) (rs_challenges s),
           rs_claims := bt_insert (rf_key (cl_claim_ref (ho_challenge h)))
             (decide_claim p (k\<lparr>co_object_ref := bump_ref (co_object_ref k), co_active_challenge := None\<rparr>)) (rs_claims s)\<rparr>"
    have "conf_claim s (rf_key (cl_claim_ref (ho_challenge h))) k"
      using assms(1) a(4) by (auto simp: ledger_ok_def intro: all_entries_get)
    note claim = conf_claim_extends [OF ext share_amendment [OF a(5) this assms(2)]]
    have "conf_resolution s (cn_resolution_id p) \<lparr>so_object_ref = r, so_resolution = p\<rparr>"
      using a(1,2) assms(2) by (simp add: conf_resolution_def bt_contains_iff)
    note resolution = conf_resolution_extends [OF ext this]
    have "conf_challenge s' (rf_key (cn_challenge_ref p)) h"
      using old(7) a(2) by (rule all_entries_get)
    then have "conf_challenge s' (rf_key (cn_challenge_ref p))
        (h\<lparr>ho_object_ref := bump_ref (ho_object_ref h), ho_status := Resolved, ho_resolution_ref := Some r\<rparr>)"
      using a(1,3,6) by (simp add: conf_challenge_def)
    with claim resolution old show ?thesis
      using a(6) by (auto simp: ledger_ok_def intro!: all_entries_insert)
  qed
qed

lemma apply_command_ledger_ok:
  assumes "ledger_ok s" and "validate_command c = Ok ()" and "apply_command s c = (s', Ok r)"
  shows "ledger_ok s'"
proof -
  from apply_command_extends [OF assms(3)] have ext: "extends s s'" by simp
  note old = ledger_extends [OF assms(1) ext]
  show ?thesis
  proof (cases c)
    case (MatchEvidenceCommitment p)
    with assms old apply_match_Ok [of s p s' r] show ?thesis
      by (auto simp: ledger_ok_def conf_match_def intro!: all_entries_insert)
  next
    case (EvaluationCommitment p)
    with assms(3) have "apply_evaluation s p = (s', Ok r)" by simp
    note a = apply_evaluation_Ok [OF this]
    with EvaluationCommitment assms(2) have "conf_evaluation s (ev_evaluation_id p) \<lparr>eo_object_ref = r, eo_commitment = p\<rparr>"
      by (simp add: conf_evaluation_def)
    from conf_evaluation_extends [OF ext this] a old show ?thesis
      by (auto simp: ledger_ok_def intro!: all_entries_insert)
  next
    case (IssueWorkloadReceipt p)
    with assms(3) have "apply_workload s p = (s', Ok r)" by simp
    note a = apply_workload_Ok [OF this]
    with IssueWorkloadReceipt assms(2) have "conf_workload s (iw_receipt_id p) \<lparr>wo_object_ref = r, wo_receipt = p\<rparr>"
      by (simp add: conf_workload_def)
    from conf_workload_extends [OF ext this] a old show ?thesis
      by (auto simp: ledger_ok_def intro!: all_entries_insert)
  next
    case (CreateResearchClaim p)
    with assms(3) have "apply_claim s p = (s', Ok r)" by simp
    note a = apply_claim_Ok [OF this]
    with CreateResearchClaim assms(2) validate_claim_refs(2) [of p "()"]
    have "conf_claim s (cc_claim_id p) \<lparr>co_object_ref = r, co_claim = p, co_current_claimants = cc_claimants p,
               co_status = Active, co_active_challenge = None\<rparr>"
      by (simp add: conf_claim_def)
    from conf_claim_extends [OF ext this] a old show ?thesis
      by (auto simp: ledger_ok_def intro!: all_entries_insert)
  next
    case (DeclareLicense p)
    with assms(3) have "apply_license s p = (s', Ok r)" by simp
    note a = apply_license_Ok [OF this]
    with DeclareLicense assms(2) have "conf_license s (dl_declaration_id p) \<lparr>lo_object_ref = r, lo_declaration = p\<rparr>"
      by (simp add: conf_license_def)
    from conf_license_extends [OF ext this] a old show ?thesis
      by (auto simp: ledger_ok_def intro!: all_entries_insert)
  next
    case (ChallengeResearchClaim p)
    with assms show ?thesis by (auto intro: challenge_ledger_ok)
  next
    case (ResolveResearchClaim p)
    with assms show ?thesis by (auto intro: resolution_ledger_ok)
  qed
qed

lemma apply_command_primary: "apply_command s c = (s', Ok r) \<Longrightarrow> r = primary_object_ref c \<and> require_ref_relaxed s' r = Ok ()"
  by (cases c) (auto simp: require_ref_relaxed_iff actual_version_def
    dest!: apply_match_Ok apply_evaluation_Ok apply_workload_Ok apply_claim_Ok apply_license_Ok
    elim!: apply_challenge_Ok apply_resolution_Ok)

section \<open>Disputes and versions\<close>

lemma open_on_claim: "ledger_ok s \<Longrightarrow> open_on s k h \<Longrightarrow> bt_get (rs_claims s) k \<noteq> None"
proof -
  assume "ledger_ok s" and "open_on s k h"
  then obtain x where "bt_get (rs_challenges s) h = Some x" "rf_key (cl_claim_ref (ho_challenge x)) = k"
      "all_entries (conf_challenge s) (rs_challenges s)"
    by (auto simp: open_on_def ledger_ok_def)
  then show ?thesis by (auto simp: conf_challenge_def bt_contains_def dest: all_entries_get)
qed

lemma disputes_cong:
  "rs_claims s' = rs_claims s \<Longrightarrow> rs_challenges s' = rs_challenges s \<Longrightarrow> disputes_ok s' \<longleftrightarrow> disputes_ok s"
  by (simp add: disputes_ok_def open_on_def)

lemma open_on_insert:
  "open_on (s\<lparr>rs_challenges := bt_insert h x m, rs_claims := n\<rparr>) k h' \<longleftrightarrow>
     (if h' = h then ho_status x = Open \<and> rf_key (cl_claim_ref (ho_challenge x)) = k else open_on (s\<lparr>rs_challenges := m\<rparr>) k h')"
  by (auto simp: open_on_def)

lemma disputes_get:
  assumes "disputes_ok s" and "bt_get (rs_claims s) k = Some x"
  shows "co_status x = Challenged \<longleftrightarrow> co_active_challenge x \<noteq> None" "open_on s k h \<longleftrightarrow> co_active_challenge x = Some h"
  using assms by (auto simp: disputes_ok_def all_entries_def)

lemma challenge_disputes_ok:
  assumes "disputes_ok s" and "apply_challenge s p = (s', Ok r)"
  shows "disputes_ok s'"
  using assms(2)
proof (rule apply_challenge_Ok)
  fix c
  assume new: "bt_get (rs_challenges s) (cl_challenge_id p) = None"
    and c: "bt_get (rs_claims s) (rf_key (cl_claim_ref p)) = Some c" "co_status c \<noteq> Challenged"
    and s': "s' = s\<lparr>rs_challenges := bt_insert (cl_challenge_id p) \<lparr>ho_object_ref = r, ho_challenge = p, ho_status = Open,
                ho_resolution_ref = None\<rparr> (rs_challenges s),
             rs_claims := bt_insert (rf_key (cl_claim_ref p)) (c\<lparr>co_object_ref := bump_ref (co_object_ref c),
                co_status := Challenged, co_active_challenge := Some (cl_challenge_id p)\<rparr>) (rs_claims s)\<rparr>"
  have opened: "open_on s' k h \<longleftrightarrow> (if h = cl_challenge_id p then k = rf_key (cl_claim_ref p) else open_on s k h)" for k h
    unfolding s' open_on_insert by (auto simp: open_on_def)
  have "co_active_challenge v \<noteq> Some (cl_challenge_id p)" if "bt_get (rs_claims s) k = Some v" for k v
    using new disputes_get(2) [OF assms(1) that, of "cl_challenge_id p"] by (simp add: open_on_def)
  moreover have "\<not> open_on s (rf_key (cl_claim_ref p)) h" for h
    using disputes_get [OF assms(1) c(1)] c(2) by simp
  ultimately show ?thesis
    using assms(1) unfolding disputes_ok_def opened by (auto simp: s' all_entries_def)
qed

lemma resolution_disputes_ok:
  assumes "disputes_ok s" and "apply_resolution s p = (s', Ok r)"
  shows "disputes_ok s'"
  using assms(2)
proof (rule apply_resolution_Ok)
  fix h :: ClaimChallengeObjectV1 and c
  let ?k = "rf_key (cl_claim_ref (ho_challenge h))"
  assume h: "bt_get (rs_challenges s) (rf_key (cn_challenge_ref p)) = Some h" "ho_status h = Open"
    and c: "bt_get (rs_claims s) ?k = Some c" "co_active_challenge c = Some (rf_key (cn_challenge_ref p))"
    and s': "s' = s\<lparr>rs_resolutions := bt_insert (cn_resolution_id p) \<lparr>so_object_ref = r, so_resolution = p\<rparr> (rs_resolutions s),
             rs_challenges := bt_insert (rf_key (cn_challenge_ref p))
               (h\<lparr>ho_object_ref := bump_ref (ho_object_ref h), ho_status := Resolved, ho_resolution_ref := Some r\<rparr>) (rs_challenges s),
             rs_claims := bt_insert ?k
               (decide_claim p (c\<lparr>co_object_ref := bump_ref (co_object_ref c), co_active_challenge := None\<rparr>)) (rs_claims s)\<rparr>"
  have closed: "open_on s' k h' \<longleftrightarrow> h' \<noteq> rf_key (cn_challenge_ref p) \<and> open_on s k h'" for k h'
    unfolding s' open_on_insert by (auto simp: open_on_def)
  have "open_on s ?k h' \<longleftrightarrow> h' = rf_key (cn_challenge_ref p)" for h'
    using disputes_get(2) [OF assms(1) c(1)] c(2) by auto
  moreover have "co_active_challenge v = Some (rf_key (cn_challenge_ref p)) \<longleftrightarrow> k = ?k" if "bt_get (rs_claims s) k = Some v" for k v
    using h disputes_get(2) [OF assms(1) that, of "rf_key (cn_challenge_ref p)"] by (auto simp: open_on_def)
  ultimately show ?thesis
    using assms(1) unfolding disputes_ok_def closed by (auto simp: s' all_entries_def)
qed

lemma apply_command_disputes_ok:
  assumes "ledger_ok s" and "disputes_ok s" and "apply_command s c = (s', Ok r)"
  shows "disputes_ok s'"
proof (cases c)
  case (CreateResearchClaim p)
  with assms(3) have "apply_claim s p = (s', Ok r)" by simp
  note a = apply_claim_Ok [OF this]
  then have "open_on s' = open_on s" by (simp add: open_on_def fun_eq_iff)
  with a assms(2) open_on_claim [OF assms(1), of "cc_claim_id p"] show ?thesis
    by (auto simp: disputes_ok_def intro!: all_entries_insert)
next
  case (ChallengeResearchClaim p)
  with assms show ?thesis by (auto intro: challenge_disputes_ok)
next
  case (ResolveResearchClaim p)
  with assms show ?thesis by (auto intro: resolution_disputes_ok)
qed (use assms(3) in \<open>auto intro!: disputes_cong [THEN iffD2, OF _ _ assms(2)]
    dest!: apply_match_Ok apply_evaluation_Ok apply_workload_Ok apply_license_Ok\<close>)

lemma versions_mono: "versions_ok n m \<Longrightarrow> n \<le> n' \<Longrightarrow> versions_ok n' m"
  unfolding versions_ok_def by (erule all_entries_mono) simp

lemma versions_insert:
  "versions_ok n m \<Longrightarrow> 0 < unat (rf_version (co_object_ref x)) \<Longrightarrow> unat (rf_version (co_object_ref x)) \<le> Suc n \<Longrightarrow>
     versions_ok (Suc n) (bt_insert k x m)"
  using versions_mono [of n m "Suc n"] by (simp add: versions_ok_def all_entries_insert)

lemma versions_bump:
  assumes "versions_ok n m" and "bt_get m k = Some x" and "Suc n < 2 ^ 64"
  shows "0 < unat (rf_version (co_object_ref x) + 1)" "unat (rf_version (co_object_ref x) + 1) \<le> Suc n"
proof -
  have "unat (rf_version (co_object_ref x)) \<le> n"
    using all_entries_get [OF assms(1) [unfolded versions_ok_def] assms(2)] by simp
  with assms(3) have "unat (rf_version (co_object_ref x) + 1) = Suc (unat (rf_version (co_object_ref x)))"
    by (simp add: unat_word_ariths)
  with \<open>unat (rf_version (co_object_ref x)) \<le> n\<close>
  show "0 < unat (rf_version (co_object_ref x) + 1)" "unat (rf_version (co_object_ref x) + 1) \<le> Suc n" by simp_all
qed

lemma apply_command_versions_ok:
  assumes "versions_ok n (rs_claims s)" and "Suc n < 2 ^ 64" and "apply_command s c = (s', Ok r)"
  shows "versions_ok (Suc n) (rs_claims s')"
proof (cases c)
  case (ChallengeResearchClaim p)
  with assms(3) have "apply_challenge s p = (s', Ok r)" by simp
  then show ?thesis
    by (rule apply_challenge_Ok) (simp add: versions_insert versions_bump [OF assms(1) _ assms(2)] assms(1))
next
  case (ResolveResearchClaim p)
  with assms(3) have "apply_resolution s p = (s', Ok r)" by simp
  then show ?thesis
    by (rule apply_resolution_Ok) (simp add: versions_insert versions_bump [OF assms(1) _ assms(2)] assms(1))
qed (use assms(1,3) versions_mono [OF assms(1), of "Suc n"] in \<open>auto intro!: versions_insert
    dest!: apply_match_Ok apply_evaluation_Ok apply_workload_Ok apply_claim_Ok apply_license_Ok\<close>)

section \<open>Rejections\<close>

text \<open>A handler rejects cleanly if it leaves the state as it was and does not panic.\<close>

definition clean :: "'s \<Rightarrow> 's \<times> ('r, ProtocolStateError) result \<Rightarrow> bool" where
  "clean s m \<longleftrightarrow> (case snd m of Ok _ \<Rightarrow> True | Err e \<Rightarrow> fst m = s \<and> e \<noteq> Panicked)"

lemma clean_simps [simp]: "clean s (s', Ok x)" "clean s (s', Err e) \<longleftrightarrow> s' = s \<and> e \<noteq> Panicked"
  by (simp_all add: clean_def)

lemma clean_tryS: "r \<noteq> Err Panicked \<Longrightarrow> (\<And>x. r = Ok x \<Longrightarrow> clean s (k x)) \<Longrightarrow> clean s (tryS s r k)"
  by (cases r) auto

lemma clean_reject: "e \<noteq> Panicked \<Longrightarrow> (\<not> b \<Longrightarrow> clean s m) \<Longrightarrow> clean s (if b then (s, Err e) else m)"
  by simp

lemma clean_get: "bt_get m k = Some v \<Longrightarrow> clean s (f v) \<Longrightarrow> clean s (tryS s' (ok_or (bt_get m k) e) f)"
  by simp

lemma clean_lookup: "e \<noteq> Panicked \<Longrightarrow> (\<And>v. x = Some v \<Longrightarrow> clean s (f v)) \<Longrightarrow> clean s (tryS s (ok_or x e) f)"
  by (cases x) simp_all

text \<open>Valid payloads have references of the right kinds, so no \<open>expect\<close> fails.\<close>

lemma require_ref_present:
  "require_ref s r = Ok u \<Longrightarrow> rf_kind r = MatchEvidenceKind \<Longrightarrow> \<exists>x. bt_get (rs_matches s) (rf_key r) = Some x"
  "require_ref s r = Ok u \<Longrightarrow> rf_kind r = EvaluationCommitmentKind \<Longrightarrow> \<exists>x. bt_get (rs_evaluations s) (rf_key r) = Some x"
  "require_ref s r = Ok u \<Longrightarrow> rf_kind r = WorkloadReceiptKind \<Longrightarrow> \<exists>x. bt_get (rs_workload_receipts s) (rf_key r) = Some x"
  "require_ref s r = Ok u \<Longrightarrow> rf_kind r = ResearchClaimKind \<Longrightarrow> \<exists>x. bt_get (rs_claims s) (rf_key r) = Some x"
  "require_ref s r = Ok u \<Longrightarrow> rf_kind r = ClaimChallengeKind \<Longrightarrow> \<exists>x. bt_get (rs_challenges s) (rf_key r) = Some x"
  by (auto simp: require_ref_iff actual_version_def)

lemma check_errors:
  "require_ref s r \<noteq> Err Panicked" "ensure_absent m kind k \<noteq> Err Panicked" "check_amendment s claim p \<noteq> Err Panicked"
  "try_fold (\<lambda>_. require_ref s) () refs \<noteq> Err Panicked"
proof -
  show ref: "require_ref s r \<noteq> Err Panicked" for r by (simp add: require_ref_def split: option.splits)
  show "ensure_absent m kind k \<noteq> Err Panicked" by (simp add: ensure_absent_def)
  show "check_amendment s claim p \<noteq> Err Panicked"
    by (simp add: check_amendment_def tryR_def ok_or_def split: option.splits result.splits)
  show "try_fold (\<lambda>_. require_ref s) () refs \<noteq> Err Panicked"
    by (induction refs) (auto simp: tryR_def ref split: result.splits)
qed

lemmas clean_intros = clean_tryS [OF check_errors(1)] clean_tryS [OF check_errors(2)] clean_tryS [OF check_errors(3)]
  clean_tryS [OF check_errors(4)] clean_reject clean_lookup

lemma apply_command_clean:
  assumes "validate_command c = Ok ()"
  shows "clean s (apply_command s c)"
proof (cases c)
  case (MatchEvidenceCommitment p)
  then show ?thesis by (auto simp: apply_match_def Let_def intro!: clean_intros)
next
  case (EvaluationCommitment p)
  with assms have "validate_evaluation p = Ok ()" by simp
  note present = require_ref_present(1) [OF _ validate_evaluation_ref [OF this]]
  show ?thesis
    unfolding EvaluationCommitment apply_command.simps apply_evaluation_def Let_def
    by (rule clean_intros, drule present, elim exE, rule clean_get, assumption) (intro clean_intros; simp)
next
  case (IssueWorkloadReceipt p)
  with assms have "validate_workload p = Ok ()" by simp
  note present = require_ref_present(2) [OF _ validate_workload_ref [OF this]]
  show ?thesis
    unfolding IssueWorkloadReceipt apply_command.simps apply_workload_def Let_def
    by (rule clean_intros, drule present, elim exE, rule clean_get, assumption) (intro clean_intros; simp)
next
  case (CreateResearchClaim p)
  with assms have "validate_claim p = Ok ()" by simp
  note present = require_ref_present(3) [OF _ validate_claim_refs(1) [OF this]]
  show ?thesis
    unfolding CreateResearchClaim apply_command.simps apply_claim_def Let_def
    by (rule clean_intros, drule present, rule clean_intros, elim exE, rule clean_get, assumption) (intro clean_intros; simp)
next
  case (DeclareLicense p)
  with assms have "validate_license p = Ok ()" by simp
  note present = require_ref_present(4) [OF _ validate_license_ref [OF this]]
  show ?thesis
    unfolding DeclareLicense apply_command.simps apply_license_def Let_def
    by (rule clean_intros, drule present, elim exE, rule clean_get, assumption) (intro clean_intros; simp)
next
  case (ChallengeResearchClaim p)
  with assms have "validate_challenge p = Ok ()" by simp
  note present = require_ref_present(4) [OF _ validate_challenge_ref [OF this]]
  show ?thesis
    unfolding ChallengeResearchClaim apply_command.simps apply_challenge_def Let_def
    by (rule clean_intros, drule present, elim exE, rule clean_get, assumption) (intro clean_intros; simp)
next
  case (ResolveResearchClaim p)
  with assms have "validate_resolution p = Ok ()" by simp
  note present = require_ref_present(5) [OF _ validate_resolution_ref(1) [OF this]]
  show ?thesis
    unfolding ResolveResearchClaim apply_command.simps apply_resolution_def Let_def
    by (rule clean_intros, drule present, elim exE, rule clean_get, assumption) (intro clean_intros; simp)
qed

end
