(* ===== verification/Research_Properties.thy ===== *)
theory Research_Properties
  imports Research_Ledger
begin

text \<open>
  Properties of the research protocol: the exactness of the wire format, the handling of commands (rejections, replays,
  authority), the invariant of claims, and the round trip of snapshots.
\<close>

section \<open>Shares of a claim\<close>

lemma share_fold:
  assumes "try_fold share_step (acc, prev) shares = Ok (acc', prev')" and "unat acc + 10000 * length shares < 2 ^ 32"
  shows "unat acc' = unat acc + (\<Sum>x\<leftarrow>shares. unat (cs_share_bps x)) \<and> strictly_sorted (map cs_contributor shares) \<and>
    (case shares of [] \<Rightarrow> True | x # _ \<Rightarrow> \<not> not_after prev (cs_contributor x))"
  using assms
proof (induction shares arbitrary: acc prev)
  case (Cons x xs)
  from Cons.prems(1) have bps: "cs_share_bps x \<le> 10000" and after: "\<not> not_after prev (cs_contributor x)"
    and rest: "try_fold share_step (acc + ucast (cs_share_bps x), Some (cs_contributor x)) xs = Ok (acc', prev')"
    by (auto simp: share_step_def [of _ x] validate_share_def [of x] result_simps not_less)
  from bps have "unat (cs_share_bps x) \<le> 10000" by (simp add: word_le_nat_alt)
  with Cons.prems(2) have acc: "unat (acc + ucast (cs_share_bps x)) = unat acc + unat (cs_share_bps x)"
    by (simp add: unat_word_ariths unsigned_ucast_eq unsigned_take_bit_eq take_bit_nat_eq_self)
  with \<open>unat (cs_share_bps x) \<le> 10000\<close> Cons.prems(2) Cons.IH [OF rest] after show ?case
    by (cases xs) (auto simp: not_after_def)
qed simp

lemma valid_shares:
  assumes "validate_claim_shares shares False = Ok u"
  shows "shares \<noteq> []" "(\<Sum>x\<leftarrow>shares. unat (cs_share_bps x)) = 10000" "strictly_sorted (map cs_contributor shares)"
proof -
  from assms obtain prev where "shares \<noteq> []" "length shares \<le> 128" "try_fold share_step (0, None) shares = Ok (10000, prev)"
    by (auto simp: validate_claim_shares_def result_simps not_less split: prod.splits)
  with share_fold [of 0 None shares 10000 prev]
  show "shares \<noteq> []" "(\<Sum>x\<leftarrow>shares. unat (cs_share_bps x)) = 10000" "strictly_sorted (map cs_contributor shares)"
    by simp_all
qed

section \<open>The handler of signed commands\<close>

lemma changed_object_refs_Ok:
  assumes "apply_command s c = (s1, Ok r)" and "rs_claims s2 = rs_claims s1" and "rs_challenges s2 = rs_challenges s1"
  shows "\<exists>refs. changed_object_refs_for s2 c r = Ok refs"
  using assms
  by (cases c) (auto simp: changed_object_refs_for_def elim!: apply_challenge_Ok apply_resolution_Ok)

lemma research_apply_Ok:
  assumes "research_apply rc s c = (s', Ok out)"
  obtains (replay) x where "signed_validate rc c = Ok ()" "authorizes (rs_authorities s) c"
      "bt_get (rs_applied_commands s) (sg_command_id c) = Some x" "ap_fingerprint x = command_fingerprint rc c"
      "s' = s" "out = Idempotent (ap_primary_object_ref x) []"
  | (fresh) s1 r refs where "signed_validate rc c = Ok ()" "authorizes (rs_authorities s) c"
      "bt_get (rs_applied_commands s) (sg_command_id c) = None" "apply_command s (sg_command c) = (s1, Ok r)"
      "s' = s1\<lparr>rs_applied_commands := bt_insert (sg_command_id c) \<lparr>ap_command_id = sg_command_id c,
         ap_fingerprint = command_fingerprint rc c, ap_primary_object_ref = r\<rparr> (rs_applied_commands s1)\<rparr>"
      "out = Applied r refs"
  using assms by (auto simp: research_apply_def Let_def result_simps split: option.splits if_splits)

lemma research_apply_clean: "clean s (research_apply rc s c)"
proof -
  have "clean s (tryM (apply_command s (sg_command c)) (\<lambda>s1 primary.
      let s2 = s1\<lparr>rs_applied_commands := f s1 primary\<rparr>
      in tryS s2 (changed_object_refs_for s2 (sg_command c) primary) (\<lambda>changed. (s2, Ok (g primary changed)))))"
    if valid: "signed_validate rc c = Ok ()" for f g
  proof (cases "apply_command s (sg_command c)")
    case (Pair s1 res)
    show ?thesis
    proof (cases res)
      case (Ok r)
      with Pair changed_object_refs_Ok [of s "sg_command c" s1 r "s1\<lparr>rs_applied_commands := f s1 r\<rparr>"] show ?thesis
        by (auto simp: Let_def)
    next
      case (Err e)
      with Pair apply_command_clean [OF signed_validD(3) [OF valid], of s] show ?thesis by simp
    qed
  qed
  then show ?thesis
    by (cases "signed_validate rc c") (auto simp: research_apply_def Let_def map_err_def split: option.splits)
qed

interpretation ledger: fail_closed "research_apply rc"
proof
  show "research_apply rc s c = (s', Err e) \<Longrightarrow> s' = s" for s c s' e
    using research_apply_clean [of s rc c] by simp
qed

lemma research_apply_extends: "research_apply rc s c = (s', Ok out) \<Longrightarrow> extends s s'"
proof (erule research_apply_Ok)
  fix s1 r
  assume "apply_command s (sg_command c) = (s1, Ok r)" and none: "bt_get (rs_applied_commands s) (sg_command_id c) = None"
    and s': "s' = s1\<lparr>rs_applied_commands := bt_insert (sg_command_id c) \<lparr>ap_command_id = sg_command_id c,
         ap_fingerprint = command_fingerprint rc c, ap_primary_object_ref = r\<rparr> (rs_applied_commands s1)\<rparr>"
  then have "extends s s1" "rs_applied_commands s1 = rs_applied_commands s" by (auto dest: apply_command_extends)
  with none s' show ?thesis by (auto simp: extends_def intro: grows_insert)
qed (simp add: extends_refl)

lemma research_run_extends: "extends s (run (research_apply rc) s cs)"
  by (rule ledger.run_related) (auto intro: extends_refl extends_trans research_apply_extends)

definition ledger_inv :: "ResearchProtocolState \<Rightarrow> bool" where
  "ledger_inv s \<longleftrightarrow> ledger_ok s \<and> disputes_ok s"

interpretation ledger: invariant_machine "research_apply rc" ledger_inv
proof
  fix s c s' and out :: ApplyOutcome
  assume inv: "ledger_inv s" and ok: "research_apply rc s c = (s', Ok out)"
  note ext = research_apply_extends [OF ok]
  from ok show "ledger_inv s'"
  proof (cases rule: research_apply_Ok)
    case replay
    with inv show ?thesis by simp
  next
    case (fresh s1 r refs)
    note valid = signed_validD [OF fresh(1)]
    from inv have "ledger_ok s1" "disputes_ok s1"
      using apply_command_ledger_ok [OF _ valid(3) fresh(4)] apply_command_disputes_ok [OF _ _ fresh(4)] by (auto simp: ledger_inv_def)
    moreover have "extends s1 s'"
      using fresh(3,5) apply_command_extends [OF fresh(4)] by (simp add: extends_def grows_insert)
    moreover have "disputes_ok s' \<longleftrightarrow> disputes_ok s1"
      by (rule disputes_cong) (simp_all add: fresh(5))
    moreover have "conf_record s' (sg_command_id c) \<lparr>ap_command_id = sg_command_id c,
         ap_fingerprint = command_fingerprint rc c, ap_primary_object_ref = r\<rparr>"
      using valid(6) require_ref_relaxed_extends [OF \<open>extends s1 s'\<close> conjunct2 [OF apply_command_primary [OF fresh(4)]]]
      by (simp add: conf_record_def)
    ultimately show ?thesis
      unfolding ledger_inv_def ledger_ok_def [of s']
      using ledger_extends [of s1 s'] by (simp add: fresh(5) all_entries_insert)
  qed
qed

lemma with_authorities_inv:
  assumes "with_authorities a = Ok s"
  shows "ledger_inv s" "versions_ok n (rs_claims s)" "rs_applied_commands s = bt_empty"
  using assms by (auto simp: with_authorities_def result_simps ledger_inv_def ledger_ok_def disputes_ok_def versions_ok_def)

text \<open>Versions and fingerprints along a history.\<close>

lemma research_run_history:
  fixes rc :: research_crypto and cs :: "SignedResearchCommandV1 list"
  assumes "with_authorities a = Ok s0"
  defines "s \<equiv> run (research_apply rc) s0 cs" and "h \<equiv> accepted (research_apply rc) s0 cs"
  shows "length h < 2 ^ 64 \<Longrightarrow> versions_ok (length h) (rs_claims s)"
    and "bt_get (rs_applied_commands s) k = Some x \<Longrightarrow> \<exists>c \<in> set h. ap_fingerprint x = command_fingerprint rc c"
proof -
  let ?P = "\<lambda>x h. (length h < 2 ^ 64 \<longrightarrow> versions_ok (length h) (rs_claims x)) \<and>
    all_entries (\<lambda>_ x. \<exists>c \<in> set h. ap_fingerprint x = command_fingerprint rc c) (rs_applied_commands x)"
  have "?P s h"
    unfolding s_def h_def
  proof (rule ledger.run_history [where P = ?P])
    show "?P s0 []" using with_authorities_inv [OF assms(1)] by simp
  next
    fix x h c y and r :: ApplyOutcome
    assume P: "?P x h" and ok: "research_apply rc x c = (y, Ok r)"
    from ok show "?P y (h @ [c])"
    proof (cases rule: research_apply_Ok)
      case replay
      with P show ?thesis by (auto intro: versions_mono elim!: all_entries_mono)
    next
      case (fresh s1 q refs)
      from P have "all_entries (\<lambda>_ x. \<exists>d \<in> set (h @ [c]). ap_fingerprint x = command_fingerprint rc d) (rs_applied_commands x)"
        by (auto elim!: all_entries_mono)
      with P fresh(5) apply_command_extends [OF fresh(4)] show ?thesis
        by (auto intro!: all_entries_insert apply_command_versions_ok [OF _ _ fresh(4)])
    qed
  qed
  then show "length h < 2 ^ 64 \<Longrightarrow> versions_ok (length h) (rs_claims s)"
    and "bt_get (rs_applied_commands s) k = Some x \<Longrightarrow> \<exists>c \<in> set h. ap_fingerprint x = command_fingerprint rc c"
    by (auto dest: all_entries_get)
qed

section \<open>Snapshots\<close>

text \<open>Collecting the values of a map gives the map back when each value knows its key.\<close>

lemma all_entries_join:
  "all_entries P m \<Longrightarrow> all_entries Q m \<Longrightarrow> (\<And>k v. P k v \<Longrightarrow> Q k v \<Longrightarrow> R k v) \<Longrightarrow> all_entries R m"
  by (simp add: all_entries_def)

lemma collect_fold:
  assumes "\<And>acc k v. (k, v) \<in> set es \<Longrightarrow> \<not> bt_contains acc k \<Longrightarrow> f acc v = Ok (bt_insert k v acc)"
    and "distinct (map fst es)" and "\<And>k. k \<in> fst ` set es \<Longrightarrow> \<not> bt_contains acc k"
  shows "\<exists>m. try_fold f acc (map snd es) = Ok m \<and> bt_get m = bt_get acc ++ map_of es"
  using assms
proof (induction es arbitrary: acc)
  case (Cons e es)
  obtain k v where e: "e = (k, v)" by fastforce
  with Cons.prems have step: "f acc v = Ok (bt_insert k v acc)" by simp
  have "\<exists>m. try_fold f (bt_insert k v acc) (map snd es) = Ok m \<and> bt_get m = bt_get (bt_insert k v acc) ++ map_of es"
  proof (rule Cons.IH)
    show "\<not> bt_contains (bt_insert k v acc) k'" if "k' \<in> fst ` set es" for k'
      using that Cons.prems(2,3) [unfolded e] by (auto simp: bt_contains_def)
  qed (use Cons.prems in auto)
  moreover have "bt_get (bt_insert k v acc) ++ map_of es = bt_get acc ++ map_of (e # es)"
    using Cons.prems(2) e by (simp add: bt.get_ins map_add_upd_left dom_map_of_conv_image_fst)
  ultimately show ?case by (simp only: e list.map snd_conv try_fold.simps step tryR_simps)
qed simp

lemma collect_values:
  assumes "\<And>acc k v. bt_get m k = Some v \<Longrightarrow> \<not> bt_contains acc k \<Longrightarrow> f acc v = Ok (bt_insert k v acc)"
  shows "try_fold f bt_empty (bt_values m) = Ok m"
proof -
  obtain m' where "try_fold f bt_empty (bt_values m) = Ok m'" "bt_get m' = bt_get bt_empty ++ map_of (entries m)"
    using collect_fold [of "entries m" f bt_empty] assms bt.iter_distinct [of m]
    by (auto simp: entries_get bt_contains_def bt_values_def)
  moreover from this(2) have "m' = m"
    by (intro bt_ext) (simp add: bt.get_iter map_add_def split: option.splits)
  ultimately show ?thesis by simp
qed

lemma collect_objects_values:
  assumes "all_entries (\<lambda>k v. rf_kind (ref_of v) = kind \<and> rf_key (ref_of v) = k \<and> rf_version (ref_of v) \<noteq> 0) m"
  shows "collect_objects (bt_values m) kind ref_of = Ok m"
  unfolding collect_objects_def
  by (rule collect_values) (use assms in \<open>auto simp: collect_step_def Let_def dest: all_entries_get\<close>)

lemma collect_records_values:
  assumes "all_entries (\<lambda>k x. k = ap_command_id x \<and> k \<noteq> 0) m"
  shows "collect_command_records (bt_values m) = Ok m"
  unfolding collect_command_records_def
  by (rule collect_values) (use assms in \<open>auto simp: collect_record_def dest: all_entries_get\<close>)

lemma graph_loop: "try_fold (\<lambda>_. f) () (bt_values m) = Ok u \<longleftrightarrow> all_entries (\<lambda>_ x. f x = Ok ()) m"
  by (auto simp: try_fold_unit_iff bt_values_mem all_entries_def)

lemmas graph_defs = graph_match_def graph_evaluation_def graph_workload_def graph_claim_def graph_license_def graph_challenge_def
  graph_resolution_def graph_record_def validate_snapshot_object_ref_def map_err_def
  conf_match_def conf_evaluation_def conf_workload_def conf_claim_def conf_license_def conf_challenge_def conf_resolution_def conf_record_def

lemma conf_graph:
  "conf_match k a \<Longrightarrow> graph_match a = Ok ()"
  "conf_evaluation s k b \<Longrightarrow> graph_evaluation s b = Ok ()"
  "conf_workload s k c \<Longrightarrow> graph_workload s c = Ok ()"
  "conf_claim s k d \<Longrightarrow> rf_version (co_object_ref d) \<noteq> 0 \<Longrightarrow> (co_status d = Challenged \<longleftrightarrow> co_active_challenge d \<noteq> None) \<Longrightarrow>
     graph_claim s d = Ok ()"
  "conf_license s k e \<Longrightarrow> graph_license s e = Ok ()"
  "conf_challenge s k f \<Longrightarrow> graph_challenge s f = Ok ()"
  "conf_resolution s k g \<Longrightarrow> graph_resolution s g = Ok ()"
  "conf_record s k h \<Longrightarrow> ap_fingerprint h \<noteq> 0 \<Longrightarrow> graph_record s h = Ok ()"
  by (auto simp: graph_defs split: ClaimStatus.splits ClaimChallengeStatus.splits)

lemma ledger_graph:
  assumes inv: "ledger_inv s" and versions: "versions_ok n (rs_claims s)"
    and prints: "all_entries (\<lambda>_ x. ap_fingerprint x \<noteq> 0) (rs_applied_commands s)"
  shows "validate_snapshot_graph s = Ok ()"
proof -
  from inv have ok: "ledger_ok s" and disputes: "disputes_ok s" by (simp_all add: ledger_inv_def)
  note ok = ok [unfolded ledger_ok_def]
  have "graph_claim s x = Ok ()" if "bt_get (rs_claims s) k = Some x" for k x
    using all_entries_get [OF _ that, of "conf_claim s"] all_entries_get [OF versions [unfolded versions_ok_def] that]
      ok disputes_get(1) [OF disputes that]
    by (intro conf_graph) auto
  then have "all_entries (\<lambda>_ x. graph_claim s x = Ok ()) (rs_claims s)" by (simp add: all_entries_def)
  moreover have "all_entries (\<lambda>_ x. graph_record s x = Ok ()) (rs_applied_commands s)"
    using prints by (rule all_entries_join [of "conf_record s", rotated]) (use ok in \<open>auto intro: conf_graph(8)\<close>)
  moreover have "all_entries (\<lambda>_ x. graph_match x = Ok ()) (rs_matches s)"
    "all_entries (\<lambda>_ x. graph_evaluation s x = Ok ()) (rs_evaluations s)"
    "all_entries (\<lambda>_ x. graph_workload s x = Ok ()) (rs_workload_receipts s)"
    "all_entries (\<lambda>_ x. graph_license s x = Ok ()) (rs_licenses s)"
    "all_entries (\<lambda>_ x. graph_challenge s x = Ok ()) (rs_challenges s)"
    "all_entries (\<lambda>_ x. graph_resolution s x = Ok ()) (rs_resolutions s)"
    using ok by (auto intro: conf_graph elim!: all_entries_mono)
  ultimately show ?thesis
    using ok by (simp add: validate_snapshot_graph_def result_simps graph_loop)
qed

lemma ledger_import:
  assumes inv: "ledger_inv s" and "versions_ok n (rs_claims s)" and "all_entries (\<lambda>_ x. ap_fingerprint x \<noteq> 0) (rs_applied_commands s)"
  shows "from_snapshot (export_snapshot s) = Ok s"
proof -
  from inv have ok: "ledger_ok s" by (simp add: ledger_inv_def)
  have "all_entries (\<lambda>k v. rf_kind (co_object_ref v) = ResearchClaimKind \<and> rf_key (co_object_ref v) = k \<and> rf_version (co_object_ref v) \<noteq> 0) (rs_claims s)"
    using assms(2) unfolding versions_ok_def
    by (rule all_entries_join [of "conf_claim s", rotated]) (use ok in \<open>auto simp: ledger_ok_def conf_claim_def\<close>)
  moreover have "all_entries (\<lambda>k v. rf_kind (ho_object_ref v) = ClaimChallengeKind \<and> rf_key (ho_object_ref v) = k \<and> rf_version (ho_object_ref v) \<noteq> 0) (rs_challenges s)"
    using ok by (auto simp: ledger_ok_def conf_challenge_def elim!: all_entries_mono split: ClaimChallengeStatus.splits)
  moreover have
    "all_entries (\<lambda>k v. rf_kind (mo_object_ref v) = MatchEvidenceKind \<and> rf_key (mo_object_ref v) = k \<and> rf_version (mo_object_ref v) \<noteq> 0) (rs_matches s)"
    "all_entries (\<lambda>k v. rf_kind (eo_object_ref v) = EvaluationCommitmentKind \<and> rf_key (eo_object_ref v) = k \<and> rf_version (eo_object_ref v) \<noteq> 0) (rs_evaluations s)"
    "all_entries (\<lambda>k v. rf_kind (wo_object_ref v) = WorkloadReceiptKind \<and> rf_key (wo_object_ref v) = k \<and> rf_version (wo_object_ref v) \<noteq> 0) (rs_workload_receipts s)"
    "all_entries (\<lambda>k v. rf_kind (lo_object_ref v) = LicenseDeclarationKind \<and> rf_key (lo_object_ref v) = k \<and> rf_version (lo_object_ref v) \<noteq> 0) (rs_licenses s)"
    "all_entries (\<lambda>k v. rf_kind (so_object_ref v) = ClaimResolutionKind \<and> rf_key (so_object_ref v) = k \<and> rf_version (so_object_ref v) \<noteq> 0) (rs_resolutions s)"
    "all_entries (\<lambda>k x. k = ap_command_id x \<and> k \<noteq> 0) (rs_applied_commands s)"
    using ok by (auto simp: ledger_ok_def conf_match_def conf_evaluation_def conf_workload_def conf_license_def conf_resolution_def
      conf_record_def elim!: all_entries_mono)
  moreover have self: "\<lparr>rs_authorities = rs_authorities s, rs_matches = rs_matches s, rs_evaluations = rs_evaluations s,
      rs_workload_receipts = rs_workload_receipts s, rs_claims = rs_claims s, rs_licenses = rs_licenses s,
      rs_challenges = rs_challenges s, rs_resolutions = rs_resolutions s, rs_applied_commands = rs_applied_commands s\<rparr> = s"
    by (cases s) simp
  ultimately show ?thesis
    using ok ledger_graph [OF assms]
    by (simp add: Let_def self from_snapshot_def export_snapshot_def ledger_ok_def collect_objects_values collect_records_values)
qed

section \<open>A sample ledger\<close>

text \<open>A match, its evaluation, a receipt, a claim with two claimants, and a challenge of the claim.\<close>

definition trial_rc :: research_crypto where
  "trial_rc = \<lparr>rc_sha256 = (\<lambda>bytes. 1 + ucast (sum_list bytes)), rc_valid_key = (\<lambda>_. True), rc_verify_strict = (\<lambda>_ _ _. True)\<rparr>"

definition trial_authorities :: AuthoritySetV1 where
  "trial_authorities = \<lparr>as_nakama_authorities = [\<lparr>ai_signer_did = ''did:n'', ai_public_key = 1\<rparr>],
     as_hepta_authorities = [\<lparr>ai_signer_did = ''did:h'', ai_public_key = 2\<rparr>]\<rparr>"

definition trial_signed :: "AuthorityRole \<Rightarrow> ExternalKey \<Rightarrow> ResearchCommandV1 \<Rightarrow> SignedResearchCommandV1" where
  "trial_signed role key command =
     \<lparr>sg_chain_id = ''c'', sg_command_id = key, sg_signer_did = (case role of NakamaAuthority \<Rightarrow> ''did:n'' | HeptaAuthority \<Rightarrow> ''did:h''),
      sg_signer_role = role, sg_nonce = 1, sg_public_key = (case role of NakamaAuthority \<Rightarrow> 1 | HeptaAuthority \<Rightarrow> 2),
      sg_command = command, sg_signature = replicate 64 0\<rparr>"

definition trial_match :: MatchEvidenceCommitmentV1 where
  "trial_match = \<lparr>me_commitment_id = 10, me_match_id = 11, me_challenge_id = 12, me_event_root = 1, me_roster_root = 1, me_ruleset_hash = 1,
     me_dataset_hash = 1, me_archive_hash = 1, me_event_count = 1, me_completed_at_unix_s = 100\<rparr>"

definition trial_evaluation :: EvaluationCommitmentV1 where
  "trial_evaluation = \<lparr>ev_evaluation_id = 20, ev_match_evidence_ref = object_ref_new MatchEvidenceKind 10 1, ev_submission_hash = 1,
     ev_rubric_hash = 1, ev_evaluation_hash = 1, ev_reproduction_hash = None, ev_score_bps = 9000, ev_accepted = True,
     ev_completed_at_unix_s = 200\<rparr>"

definition trial_receipt :: IssueWorkloadReceiptV1 where
  "trial_receipt = \<lparr>iw_receipt_id = 30, iw_evaluation_ref = object_ref_new EvaluationCommitmentKind 20 1,
     iw_contributors = [\<lparr>cw_contributor = 31, cw_role = Researcher, cw_accepted_work_units = 6, cw_contribution_hash = 1\<rparr>,
                        \<lparr>cw_contributor = 32, cw_role = Evaluator, cw_accepted_work_units = 4, cw_contribution_hash = 1\<rparr>],
     iw_total_accepted_work_units = 10, iw_policy_hash = 1, iw_issued_at_unix_s = 300\<rparr>"

definition trial_claim :: CreateResearchClaimV1 where
  "trial_claim = \<lparr>cc_claim_id = 40, cc_workload_receipt_ref = object_ref_new WorkloadReceiptKind 30 1,
     cc_evidence_refs = [object_ref_new EvaluationCommitmentKind 20 1], cc_artifact_hash = 1, cc_claim_scope_hash = 1,
     cc_claimants = [\<lparr>cs_contributor = 31, cs_share_bps = 6000\<rparr>, \<lparr>cs_contributor = 32, cs_share_bps = 4000\<rparr>],
     cc_created_at_unix_s = 400\<rparr>"

definition trial_challenge :: ChallengeResearchClaimV1 where
  "trial_challenge = \<lparr>cl_challenge_id = 50, cl_claim_ref = object_ref_new ResearchClaimKind 40 1, cl_challenger = 51,
     cl_reason = Authorship, cl_evidence_hash = 1, cl_opened_at_unix_s = 500\<rparr>"

definition trial_commands :: "SignedResearchCommandV1 list" where
  "trial_commands =
     [trial_signed NakamaAuthority 1 (MatchEvidenceCommitment trial_match), trial_signed HeptaAuthority 2 (EvaluationCommitment trial_evaluation),
      trial_signed HeptaAuthority 3 (IssueWorkloadReceipt trial_receipt), trial_signed HeptaAuthority 4 (CreateResearchClaim trial_claim),
      trial_signed HeptaAuthority 5 (ChallengeResearchClaim trial_challenge)]"

definition trial_start :: ResearchProtocolState where
  "trial_start = \<lparr>rs_authorities = trial_authorities, rs_matches = bt_empty, rs_evaluations = bt_empty, rs_workload_receipts = bt_empty,
     rs_claims = bt_empty, rs_licenses = bt_empty, rs_challenges = bt_empty, rs_resolutions = bt_empty, rs_applied_commands = bt_empty\<rparr>"

lemmas trial_payloads = trial_match_def trial_evaluation_def trial_receipt_def trial_claim_def trial_challenge_def

lemma trial_fingerprint: "command_fingerprint trial_rc c \<noteq> 0"
proof -
  have "1 + (ucast b :: hash32) \<noteq> 0" for b :: u8
  proof -
    have "unat b < 256" using unat_bound [of b] by simp
    then have "unat (1 + (ucast b :: hash32)) = Suc (unat b)"
      by (simp add: unat_word_ariths unsigned_ucast_eq unsigned_take_bit_eq take_bit_nat_eq_self)
    then show ?thesis by (metis nat.distinct(1) unat_0)
  qed
  then show ?thesis by (simp add: command_fingerprint_def canonical_hash_def trial_rc_def)
qed

lemma trial_dids: "well_formed_did ''did:n''" "well_formed_did ''did:h''"
  by (simp_all add: well_formed_did_def starts_with_def is_graphic_def ascii_def)

lemma trial_valid: "k \<noteq> 0 \<Longrightarrow> validate_command c = Ok () \<Longrightarrow> role_authorized role c \<Longrightarrow> signed_validate trial_rc (trial_signed role k c) = Ok ()"
  by (cases role) (simp_all add: signed_validate_def validate_unsigned_def trial_signed_def validate_chain_id_def validate_key_def
    validate_did_def trial_dids trial_rc_def map_err_def is_lower_def ascii_def)

lemma trial_authorities_ok: "with_authorities trial_authorities = Ok trial_start"
  by (simp add: trial_start_def with_authorities_def trial_authorities_def authorities_validate_def validate_authority_bucket_def
    identity_step_def identity_validate_def trial_dids not_after_def)

lemma trial_apply:
  assumes "k \<noteq> 0" "validate_command c = Ok ()" "role_authorized role c" "rs_authorities s = trial_authorities"
    "bt_get (rs_applied_commands s) k = None" "apply_command s c = (s1, Ok r)"
  shows "\<exists>f refs. research_apply trial_rc s (trial_signed role k c) = (s1\<lparr>rs_applied_commands := bt_insert k
    \<lparr>ap_command_id = k, ap_fingerprint = f, ap_primary_object_ref = r\<rparr> (rs_applied_commands s1)\<rparr>, Ok (Applied r refs))"
proof -
  let ?s2 = "s1\<lparr>rs_applied_commands := bt_insert k
    \<lparr>ap_command_id = k, ap_fingerprint = command_fingerprint trial_rc (trial_signed role k c), ap_primary_object_ref = r\<rparr> (rs_applied_commands s1)\<rparr>"
  obtain refs where "changed_object_refs_for ?s2 c r = Ok refs"
    using changed_object_refs_Ok [OF assms(6), of ?s2] by auto
  moreover have "authorizes trial_authorities (trial_signed role k c)"
    by (cases role) (simp_all add: authorizes_def trial_authorities_def trial_signed_def identity_key_def)
  moreover have "sg_command_id (trial_signed role k c) = k" "sg_command (trial_signed role k c) = c"
    by (simp_all add: trial_signed_def)
  ultimately show ?thesis
    using assms trial_valid [OF assms(1-3)] by (auto simp: research_apply_def map_err_def Let_def)
qed

lemma trial_payloads_valid:
  "validate_match trial_match = Ok ()" "validate_evaluation trial_evaluation = Ok ()" "validate_workload trial_receipt = Ok ()"
  "validate_claim trial_claim = Ok ()" "validate_challenge trial_challenge = Ok ()"
proof -
  show "validate_match trial_match = Ok ()"
    by (simp add: trial_match_def validate_match_def validators validate_hash_def validate_positive_def validate_timestamp_def)
  show "validate_evaluation trial_evaluation = Ok ()"
    by (simp add: trial_evaluation_def validate_evaluation_def validators validate_hash_def validate_timestamp_def)
  show "validate_workload trial_receipt = Ok ()"
    by (simp add: trial_receipt_def validate_workload_def validators validate_hash_def validate_positive_def validate_timestamp_def
      contribution_step_def validate_contribution_def not_after_def checked_add_def)
  show "validate_claim trial_claim = Ok ()"
    by (simp add: trial_claim_def validate_claim_def validators validate_hash_def validate_timestamp_def validate_evidence_refs_def evidence_step_def
      validate_claim_shares_def share_step_def validate_share_def not_after_def)
  show "validate_challenge trial_challenge = Ok ()"
    by (simp add: trial_challenge_def validate_challenge_def validators validate_hash_def validate_timestamp_def)
qed

definition trial_claim_object :: ResearchClaimObjectV1 where
  "trial_claim_object = \<lparr>co_object_ref = object_ref_new ResearchClaimKind 40 2, co_claim = trial_claim, co_current_claimants = cc_claimants trial_claim,
     co_status = Challenged, co_active_challenge = Some 50\<rparr>"

text \<open>The states the sample goes through, whatever the fingerprints in the records of its commands are.\<close>

definition trial_matches :: "(ExternalKey, MatchEvidenceObjectV1) btree" where
  "trial_matches = bt_insert 10 \<lparr>mo_object_ref = object_ref_new MatchEvidenceKind 10 1, mo_commitment = trial_match\<rparr> bt_empty"

definition trial_evaluations :: "(ExternalKey, EvaluationCommitmentObjectV1) btree" where
  "trial_evaluations = bt_insert 20 \<lparr>eo_object_ref = object_ref_new EvaluationCommitmentKind 20 1, eo_commitment = trial_evaluation\<rparr> bt_empty"

definition trial_receipts :: "(ExternalKey, WorkloadReceiptObjectV1) btree" where
  "trial_receipts = bt_insert 30 \<lparr>wo_object_ref = object_ref_new WorkloadReceiptKind 30 1, wo_receipt = trial_receipt\<rparr> bt_empty"

definition trial_claims :: "(ExternalKey, ResearchClaimObjectV1) btree" where
  "trial_claims = bt_insert 40 \<lparr>co_object_ref = object_ref_new ResearchClaimKind 40 1, co_claim = trial_claim,
     co_current_claimants = cc_claimants trial_claim, co_status = Active, co_active_challenge = None\<rparr> bt_empty"

definition trial_challenges :: "(ExternalKey, ClaimChallengeObjectV1) btree" where
  "trial_challenges = bt_insert 50 \<lparr>ho_object_ref = object_ref_new ClaimChallengeKind 50 1, ho_challenge = trial_challenge,
     ho_status = Open, ho_resolution_ref = None\<rparr> bt_empty"

lemma trial_steps:
  fixes s :: ResearchProtocolState
  shows "rs_matches s = bt_empty \<Longrightarrow> apply_command s (MatchEvidenceCommitment trial_match) =
     (s\<lparr>rs_matches := trial_matches\<rparr>, Ok (object_ref_new MatchEvidenceKind 10 1))"
  "rs_matches s = trial_matches \<Longrightarrow> rs_evaluations s = bt_empty \<Longrightarrow> apply_command s (EvaluationCommitment trial_evaluation) =
     (s\<lparr>rs_evaluations := trial_evaluations\<rparr>, Ok (object_ref_new EvaluationCommitmentKind 20 1))"
  "rs_evaluations s = trial_evaluations \<Longrightarrow> rs_workload_receipts s = bt_empty \<Longrightarrow> apply_command s (IssueWorkloadReceipt trial_receipt) =
     (s\<lparr>rs_workload_receipts := trial_receipts\<rparr>, Ok (object_ref_new WorkloadReceiptKind 30 1))"
  "rs_evaluations s = trial_evaluations \<Longrightarrow> rs_workload_receipts s = trial_receipts \<Longrightarrow> rs_claims s = bt_empty \<Longrightarrow>
     apply_command s (CreateResearchClaim trial_claim) = (s\<lparr>rs_claims := trial_claims\<rparr>, Ok (object_ref_new ResearchClaimKind 40 1))"
  "rs_claims s = trial_claims \<Longrightarrow> rs_challenges s = bt_empty \<Longrightarrow>
     apply_command s (ChallengeResearchClaim trial_challenge) =
       (s\<lparr>rs_challenges := trial_challenges, rs_claims := bt_insert 40 trial_claim_object trial_claims\<rparr>, Ok (object_ref_new ClaimChallengeKind 50 1))"
  by (simp_all add: apply_match_def apply_evaluation_def apply_workload_def apply_claim_def apply_license_def apply_challenge_def Let_def
    ensure_absent_def bt_contains_def require_ref_def actual_version_def outside_contributors_def object_ref_new_def
    trial_matches_def trial_evaluations_def trial_receipts_def trial_claims_def trial_challenges_def trial_claim_object_def trial_payloads bump_ref_def)

lemma trial_run:
  "\<exists>rec. run (research_apply trial_rc) trial_start trial_commands = trial_start\<lparr>rs_matches := trial_matches, rs_evaluations := trial_evaluations,
     rs_workload_receipts := trial_receipts, rs_claims := bt_insert 40 trial_claim_object trial_claims, rs_challenges := trial_challenges,
     rs_applied_commands := rec\<rparr>"
proof -
  note ok = trial_payloads_valid
  obtain f1 o1 where 1: "research_apply trial_rc trial_start (trial_signed NakamaAuthority 1 (MatchEvidenceCommitment trial_match)) =
      (trial_start\<lparr>rs_matches := trial_matches, rs_applied_commands := bt_insert 1 f1 bt_empty\<rparr>, o1)" (is "_ = (?s1, _)")
    using trial_apply [OF _ _ _ _ _ trial_steps(1) [of trial_start], of 1 NakamaAuthority] ok by (auto simp: trial_start_def)
  obtain f2 o2 where 2: "research_apply trial_rc ?s1 (trial_signed HeptaAuthority 2 (EvaluationCommitment trial_evaluation)) =
      (?s1\<lparr>rs_evaluations := trial_evaluations, rs_applied_commands := bt_insert 2 f2 (bt_insert 1 f1 bt_empty)\<rparr>, o2)" (is "_ = (?s2, _)")
    using trial_apply [OF _ _ _ _ _ trial_steps(2) [of ?s1], of 2 HeptaAuthority] ok by (auto simp: trial_start_def)
  obtain f3 o3 where 3: "research_apply trial_rc ?s2 (trial_signed HeptaAuthority 3 (IssueWorkloadReceipt trial_receipt)) =
      (?s2\<lparr>rs_workload_receipts := trial_receipts, rs_applied_commands := bt_insert 3 f3 (bt_insert 2 f2 (bt_insert 1 f1 bt_empty))\<rparr>, o3)"
      (is "_ = (?s3, _)")
    using trial_apply [OF _ _ _ _ _ trial_steps(3) [of ?s2], of 3 HeptaAuthority] ok by (auto simp: trial_start_def)
  obtain f4 o4 where 4: "research_apply trial_rc ?s3 (trial_signed HeptaAuthority 4 (CreateResearchClaim trial_claim)) =
      (?s3\<lparr>rs_claims := trial_claims, rs_applied_commands := bt_insert 4 f4 (bt_insert 3 f3 (bt_insert 2 f2 (bt_insert 1 f1 bt_empty)))\<rparr>, o4)"
      (is "_ = (?s4, _)")
    using trial_apply [OF _ _ _ _ _ trial_steps(4) [of ?s3], of 4 HeptaAuthority] ok by (auto simp: trial_start_def)
  obtain f5 o5 where 5: "research_apply trial_rc ?s4 (trial_signed HeptaAuthority 5 (ChallengeResearchClaim trial_challenge)) =
      (?s4\<lparr>rs_challenges := trial_challenges, rs_claims := bt_insert 40 trial_claim_object trial_claims,
         rs_applied_commands := bt_insert 5 f5 (bt_insert 4 f4 (bt_insert 3 f3 (bt_insert 2 f2 (bt_insert 1 f1 bt_empty))))\<rparr>, o5)"
    using trial_apply [OF _ _ _ _ _ trial_steps(5) [of ?s4], of 5 HeptaAuthority] ok by (auto simp: trial_start_def)
  show ?thesis
    unfolding trial_commands_def run.simps 1 fst_conv 2 3 4 5 by (auto simp: trial_start_def)
qed

section \<open>Properties\<close>

lemma accepted_subset: "set (accepted exec s cs) \<subseteq> set cs"
  by (induction cs arbitrary: s) auto

lemma length_accepted: "length (accepted exec s cs) \<le> length cs"
  by (induction cs arbitrary: s) (auto intro: le_SucI)

text \<open>
  C10. Every reachable ledger is well typed. Whatever signed commands are sent to a fresh ledger (fewer than \<open>2 ^ 64\<close> of
  them, none with an all-zero fingerprint), the state passes the object-graph validation of snapshots, and importing
  its exported snapshot gives the state back.
\<close>

theorem research_typed:
  assumes "with_authorities a = Ok s0" and "length cs < 2 ^ 64" and "list_all (\<lambda>c. command_fingerprint rc c \<noteq> 0) cs"
  shows "validate_snapshot_graph (run (research_apply rc) s0 cs) = Ok () \<and>
    from_snapshot (export_snapshot (run (research_apply rc) s0 cs)) = Ok (run (research_apply rc) s0 cs)"
proof -
  let ?s = "run (research_apply rc) s0 cs" and ?h = "accepted (research_apply rc) s0 cs"
  have inv: "ledger_inv ?s"
    using with_authorities_inv(1) [OF assms(1)] by (rule ledger.run_keeps_inv)
  have versions: "versions_ok (length ?h) (rs_claims ?s)"
    using assms(2) length_accepted [of "research_apply rc" s0 cs] by (intro research_run_history(1) [OF assms(1)]) simp
  have "all_entries (\<lambda>_ x. ap_fingerprint x \<noteq> 0) (rs_applied_commands ?s)"
    using research_run_history(2) [OF assms(1), of rc cs] assms(3) accepted_subset [of "research_apply rc" s0 cs]
    by (fastforce simp: all_entries_def list_all_iff)
  with inv versions show ?thesis by (auto intro: ledger_graph ledger_import)
qed

theorem research_typed_witness:
  "with_authorities trial_authorities = Ok trial_start \<and> length trial_commands < 2 ^ 64 \<and>
   list_all (\<lambda>c. command_fingerprint trial_rc c \<noteq> 0) trial_commands \<and>
   bt_get (rs_claims (run (research_apply trial_rc) trial_start trial_commands)) 40 = Some trial_claim_object \<and>
   from_snapshot (export_snapshot (run (research_apply trial_rc) trial_start trial_commands)) =
     Ok (run (research_apply trial_rc) trial_start trial_commands)"
proof -
  have "length trial_commands < 2 ^ 64" by (simp add: trial_commands_def)
  moreover have "list_all (\<lambda>c. command_fingerprint trial_rc c \<noteq> 0) trial_commands"
    by (simp add: list_all_iff trial_fingerprint)
  moreover have "bt_get (rs_claims (run (research_apply trial_rc) trial_start trial_commands)) 40 = Some trial_claim_object"
    using trial_run by auto
  ultimately show ?thesis using research_typed [OF trial_authorities_ok] trial_authorities_ok by blast
qed

text \<open>
  C9. Claims. In every reachable ledger the current shares of a claim are held by distinct contributors in key order and
  add up to exactly 10000 basis points, every holder contributed to the receipt of the claim, whose evaluation was accepted,
  the evidence of the claim is present at the version it names, and the open challenges of the claim are none, or
  exactly its active challenge when its status is Challenged.
\<close>

theorem research_claims:
  assumes "with_authorities a = Ok s0" and "s = run (research_apply rc) s0 cs" and "bt_get (rs_claims s) k = Some x"
  shows "(\<Sum>y\<leftarrow>co_current_claimants x. unat (cs_share_bps y)) = 10000 \<and> strictly_sorted (map cs_contributor (co_current_claimants x)) \<and>
    (\<exists>w e. bt_get (rs_workload_receipts s) (rf_key (cc_workload_receipt_ref (co_claim x))) = Some w \<and>
       set (map cs_contributor (co_current_claimants x)) \<subseteq> set (map cw_contributor (iw_contributors (wo_receipt w))) \<and>
       bt_get (rs_evaluations s) (rf_key (iw_evaluation_ref (wo_receipt w))) = Some e \<and> ev_accepted (eo_commitment e)) \<and>
    (\<forall>r \<in> set (cc_evidence_refs (co_claim x)). require_ref s r = Ok ()) \<and>
    {h. open_on s k h} = (if co_status x = Challenged then {the (co_active_challenge x)} else {})"
proof -
  have inv: "ledger_inv s"
    unfolding assms(2) using with_authorities_inv(1) [OF assms(1)] by (rule ledger.run_keeps_inv)
  then have claim: "conf_claim s k x"
    using all_entries_get [OF _ assms(3), of "conf_claim s"] by (simp add: ledger_inv_def ledger_ok_def)
  then obtain w where w: "bt_get (rs_workload_receipts s) (rf_key (cc_workload_receipt_ref (co_claim x))) = Some w"
      "\<not> outside_contributors (wo_receipt w) (co_current_claimants x)"
    by (auto simp: conf_claim_def)
  from inv have "conf_workload s (rf_key (cc_workload_receipt_ref (co_claim x))) w"
    using all_entries_get [OF _ w(1), of "conf_workload s"] by (simp add: ledger_inv_def ledger_ok_def)
  then obtain e where e: "bt_get (rs_evaluations s) (rf_key (iw_evaluation_ref (wo_receipt w))) = Some e" "ev_accepted (eo_commitment e)"
    by (auto simp: conf_workload_def)
  have held: "set (map cs_contributor (co_current_claimants x)) \<subseteq> set (map cw_contributor (iw_contributors (wo_receipt w)))"
    using w(2) by (auto simp: outside_contributors_def list_ex_iff)
  have opened: "{h. open_on s k h} = (if co_status x = Challenged then {the (co_active_challenge x)} else {})"
    using inv disputes_get(1) [OF _ assms(3)] disputes_get(2) [OF _ assms(3)]
    by (cases "co_active_challenge x") (auto simp: ledger_inv_def)
  have evidence: "\<forall>r \<in> set (cc_evidence_refs (co_claim x)). require_ref s r = Ok ()"
    and "validate_claim_shares (co_current_claimants x) False = Ok ()"
    using claim by (simp_all add: conf_claim_def)
  note shares = valid_shares [OF this(2)]
  show ?thesis
    by (intro conjI exI [of _ w] exI [of _ e]) (fact shares w e held opened evidence)+
qed

theorem research_claims_witness:
  "bt_get (rs_claims (run (research_apply trial_rc) trial_start trial_commands)) 40 = Some trial_claim_object \<and>
   {h. open_on (run (research_apply trial_rc) trial_start trial_commands) 40 h} = {50}"
proof -
  have claim: "bt_get (rs_claims (run (research_apply trial_rc) trial_start trial_commands)) 40 = Some trial_claim_object"
    using trial_run by auto
  with research_claims [OF trial_authorities_ok refl claim] show ?thesis by (simp add: trial_claim_object_def)
qed

text \<open>The object a command is about, in either outcome.\<close>

fun outcome_primary :: "ApplyOutcome \<Rightarrow> ObjectRefV1" where
  "outcome_primary (Applied r _) = r"
| "outcome_primary (Idempotent r _) = r"

lemma replayed:
  assumes "bt_get (rs_applied_commands s) (sg_command_id c) = Some x" and "signed_validate rc c = Ok ()" and "authorizes (rs_authorities s) c"
  shows "research_apply rc s c = (s, if ap_fingerprint x = command_fingerprint rc c then Ok (Idempotent (ap_primary_object_ref x) [])
     else Err (AlteredReplay (sg_command_id c)))"
  using assms by (simp add: research_apply_def map_err_def)

lemma research_apply_recorded:
  assumes "research_apply rc s c = (s', Ok out)"
  shows "signed_validate rc c = Ok () \<and> authorizes (rs_authorities s) c \<and>
    (\<exists>x. bt_get (rs_applied_commands s') (sg_command_id c) = Some x \<and> ap_fingerprint x = command_fingerprint rc c \<and>
       ap_primary_object_ref x = outcome_primary out)"
  using assms by (rule research_apply_Ok) auto

text \<open>
  C8. Commands take effect at most once and only on authority. A rejected command changes nothing and never panics. An accepted
  one carries a signature of an authority of the ledger whose role covers the command; sent again at any later time it changes
  nothing and returns the same object, and any other command under its id is refused as altered.
\<close>

theorem research_exactly_once:
  assumes "research_apply rc s c = (s', res)"
  shows "case res of
      Err e \<Rightarrow> s' = s \<and> e \<noteq> Panicked
    | Ok out \<Rightarrow>
        rc_verify_strict rc (sg_public_key c) (signing_bytes c) (sg_signature c) \<and> authorizes (rs_authorities s) c \<and>
        role_authorized (sg_signer_role c) (sg_command c) \<and>
        research_apply rc (run (research_apply rc) s' cs) c = (run (research_apply rc) s' cs, Ok (Idempotent (outcome_primary out) [])) \<and>
        (sg_command_id d = sg_command_id c \<longrightarrow> command_fingerprint rc d \<noteq> command_fingerprint rc c \<longrightarrow>
           (\<exists>e. research_apply rc (run (research_apply rc) s' cs) d = (run (research_apply rc) s' cs, Err e)))"
proof (cases res)
  case (Err e)
  with assms research_apply_clean [of s rc c] show ?thesis by simp
next
  case (Ok out)
  let ?t = "run (research_apply rc) s' cs"
  from assms Ok have ok: "research_apply rc s c = (s', Ok out)" by simp
  from research_apply_recorded [OF this] obtain x where valid: "signed_validate rc c = Ok ()" and auth: "authorizes (rs_authorities s) c"
    and x: "bt_get (rs_applied_commands s') (sg_command_id c) = Some x" "ap_fingerprint x = command_fingerprint rc c"
      "ap_primary_object_ref x = outcome_primary out"
    by blast
  have "extends s s'" "extends s' ?t"
    using research_apply_extends [OF ok] research_run_extends [of s' rc cs] by simp_all
  with x(1) have later: "bt_get (rs_applied_commands ?t) (sg_command_id c) = Some x" "rs_authorities ?t = rs_authorities s"
    by (auto simp: extends_def dest: grows_get)
  have "\<exists>e. research_apply rc ?t d = (?t, Err e)"
    if "sg_command_id d = sg_command_id c" and "command_fingerprint rc d \<noteq> command_fingerprint rc c"
  proof (cases "research_apply rc ?t d")
    case (Pair t r)
    with research_apply_clean [of ?t rc d] research_apply_recorded [of rc ?t d t "ok_of r"] that later(1) x(2)
      grows_get [of "rs_applied_commands ?t" "rs_applied_commands t"] research_apply_extends [of rc ?t d t "ok_of r"]
    show ?thesis by (cases r) (auto simp: extends_def)
  qed
  then show ?thesis
    using Ok replayed [OF later(1) valid] auth later(2) x(2,3) signed_validD [OF valid] by simp
qed

theorem research_exactly_once_witness:
  "\<exists>s' refs t. research_apply trial_rc trial_start (trial_signed NakamaAuthority 1 (MatchEvidenceCommitment trial_match)) =
     (s', Ok (Applied (object_ref_new MatchEvidenceKind 10 1) refs)) \<and>
   t = run (research_apply trial_rc) s' trial_commands \<and>
   research_apply trial_rc t (trial_signed NakamaAuthority 1 (MatchEvidenceCommitment trial_match)) =
     (t, Ok (Idempotent (object_ref_new MatchEvidenceKind 10 1) []))"
proof -
  have "\<exists>s' refs. research_apply trial_rc trial_start (trial_signed NakamaAuthority 1 (MatchEvidenceCommitment trial_match)) =
     (s', Ok (Applied (object_ref_new MatchEvidenceKind 10 1) refs))"
    using trial_apply [OF _ _ _ _ _ trial_steps(1) [of trial_start], of 1 NakamaAuthority] trial_payloads_valid by (auto simp: trial_start_def)
  then obtain s' refs where *: "research_apply trial_rc trial_start (trial_signed NakamaAuthority 1 (MatchEvidenceCommitment trial_match)) =
     (s', Ok (Applied (object_ref_new MatchEvidenceKind 10 1) refs))" by blast
  with research_exactly_once [OF this, of trial_commands] show ?thesis by auto
qed

text \<open>
  C21. The wire format is exact. A byte string decodes to a signed command precisely when the command passes validation
  and the bytes are its canonical encoding: no second encoding of a command is accepted, and every valid command is accepted.
\<close>

theorem research_codec:
  "signed_from_canonical_bytes rc bytes = Ok c \<longleftrightarrow> signed_validate rc c = Ok () \<and> bytes = enc_Signed c"
  by (rule signed_bytes_iff)

end
