(* ===== verification/Mempool_Lanes.thy ===== *)
theory Mempool_Lanes
  imports Prelude
begin

text \<open>
  Ingress lanes of the mempool (\<open>trnm-mempool/src/lib.rs\<close>): a bounded queue with a set of seen ids, and the gate with a normal
  and a critical lane, spill-over between them, cached id sets that repair themselves, and a fairness counter. A \<open>HashSet\<close>
  is a finite set, a \<open>VecDeque\<close> a list with its front first; \<open>usize\<close> is \<open>nat\<close>, and the sum of two queue lengths does not saturate.
\<close>

section \<open>Data\<close>

datatype AdmitOutcome = Accepted | Duplicate | Backpressured

datatype IngressClass = Normal | Critical

record LaneQosSnapshot =
  qs_normal_queued :: nat
  qs_critical_queued :: nat
  qs_total_queued :: nat
  qs_normal_headroom :: nat
  qs_critical_headroom :: nat
  qs_total_headroom :: nat
  qs_fresh_normal_admissible :: bool
  qs_fresh_critical_admissible :: bool

record AdmissionGate =
  ag_capacity :: nat
  ag_queue :: "u64 list"
  ag_seen :: "u64 set"

record LaneAdmissionGate =
  lg_normal :: AdmissionGate
  lg_critical :: AdmissionGate
  lg_total_capacity :: nat
  lg_seen_global :: "u64 set"
  lg_critical_served_streak :: nat
  lg_critical_burst_limit :: nat
  lg_normal_has_dedicated_capacity :: bool

section \<open>One queue\<close>

definition gate_new :: "nat \<Rightarrow> AdmissionGate" where
  "gate_new capacity = \<lparr>ag_capacity = capacity, ag_queue = [], ag_seen = {}\<rparr>"

definition gate_admit :: "AdmissionGate \<Rightarrow> u64 \<Rightarrow> AdmissionGate \<times> AdmitOutcome" where
  "gate_admit g tx_id =
     (if length (ag_queue g) \<ge> ag_capacity g then (g, if tx_id \<in> ag_seen g then Duplicate else Backpressured)
      else if tx_id \<in> ag_seen g then (g, Duplicate)
      else (g\<lparr>ag_seen := insert tx_id (ag_seen g), ag_queue := ag_queue g @ [tx_id]\<rparr>, Accepted))"

definition gate_pop_ready :: "AdmissionGate \<Rightarrow> AdmissionGate \<times> u64 option" where
  "gate_pop_ready g =
     (case ag_queue g of
        [] \<Rightarrow> (g, None)
      | tx # rest \<Rightarrow>
          let seen = ag_seen g - {tx}
          in (g\<lparr>ag_queue := rest, ag_seen := (if rest = [] \<and> seen \<noteq> {} then {} else seen)\<rparr>, Some tx))"

section \<open>Two lanes\<close>

definition clear_seen_caches :: "LaneAdmissionGate \<Rightarrow> LaneAdmissionGate" where
  "clear_seen_caches g = g\<lparr>lg_normal := (lg_normal g)\<lparr>ag_seen := {}\<rparr>, lg_critical := (lg_critical g)\<lparr>ag_seen := {}\<rparr>, lg_seen_global := {}\<rparr>"

definition lane_total :: "LaneAdmissionGate \<Rightarrow> nat" where
  "lane_total g = length (ag_queue (lg_normal g)) + length (ag_queue (lg_critical g))"

definition lane_is_idle :: "LaneAdmissionGate \<Rightarrow> bool" where
  "lane_is_idle g = (lane_total g = 0)"

definition reset_idle_state :: "LaneAdmissionGate \<Rightarrow> bool \<Rightarrow> LaneAdmissionGate" where
  "reset_idle_state g preserve_zero_capacity_seen =
     (let g1 = (if \<not> (preserve_zero_capacity_seen \<and> lg_total_capacity g = 0 \<or>
                       ag_seen (lg_normal g) = {} \<and> ag_seen (lg_critical g) = {} \<and> lg_seen_global g = {})
                then clear_seen_caches g else g)
      in if lg_critical_served_streak g1 \<noteq> 0 then g1\<lparr>lg_critical_served_streak := 0\<rparr> else g1)"

definition rebuild_lane_seen_from_queues :: "LaneAdmissionGate \<Rightarrow> LaneAdmissionGate" where
  "rebuild_lane_seen_from_queues g = g\<lparr>lg_normal := (lg_normal g)\<lparr>ag_seen := set (ag_queue (lg_normal g))\<rparr>,
     lg_critical := (lg_critical g)\<lparr>ag_seen := set (ag_queue (lg_critical g))\<rparr>\<rparr>"

definition rebuild_global_seen_from_queues :: "LaneAdmissionGate \<Rightarrow> LaneAdmissionGate" where
  "rebuild_global_seen_from_queues g = g\<lparr>lg_seen_global := set (ag_queue (lg_normal g)) \<union> set (ag_queue (lg_critical g))\<rparr>"

definition lane_local_seen_total :: "LaneAdmissionGate \<Rightarrow> nat" where
  "lane_local_seen_total g = card (ag_seen (lg_normal g)) + card (ag_seen (lg_critical g))"

definition rebuild_seen_from_queues :: "LaneAdmissionGate \<Rightarrow> LaneAdmissionGate" where
  "rebuild_seen_from_queues g = rebuild_global_seen_from_queues (rebuild_lane_seen_from_queues g)"

definition repair_global_seen_after_pop :: "LaneAdmissionGate \<Rightarrow> u64 \<Rightarrow> LaneAdmissionGate" where
  "repair_global_seen_after_pop g drained_id =
     (if drained_id \<notin> lg_seen_global g then
        if lane_is_idle g then g\<lparr>lg_seen_global := {}\<rparr> else rebuild_global_seen_from_queues g
      else
        let g1 = g\<lparr>lg_seen_global := lg_seen_global g - {drained_id}\<rparr>
        in if card (lg_seen_global g1) \<noteq> lane_total g1 then
             if lane_total g1 = 0 then g1\<lparr>lg_seen_global := {}\<rparr> else rebuild_global_seen_from_queues g1
           else g1)"

definition maybe_warm_normal_fairness :: "LaneAdmissionGate \<Rightarrow> bool \<Rightarrow> AdmitOutcome \<Rightarrow> LaneAdmissionGate" where
  "maybe_warm_normal_fairness g normal_was_empty out =
     (if lg_normal_has_dedicated_capacity g \<and> out = Accepted \<and> normal_was_empty \<and>
         ag_queue (lg_normal g) \<noteq> [] \<and> ag_queue (lg_critical g) \<noteq> []
      then g\<lparr>lg_critical_served_streak := lg_critical_burst_limit g\<rparr> else g)"

definition critical_free_slots :: "LaneAdmissionGate \<Rightarrow> nat" where
  "critical_free_slots g = ag_capacity (lg_critical g) - length (ag_queue (lg_critical g))"

definition critical_backlog_active :: "LaneAdmissionGate \<Rightarrow> bool" where
  "critical_backlog_active g = (ag_queue (lg_critical g) \<noteq> [])"

definition critical_has_borrowable_headroom :: "LaneAdmissionGate \<Rightarrow> bool" where
  "critical_has_borrowable_headroom g = (critical_free_slots g > 0)"

definition normal_uses_reserve_only_mode :: "LaneAdmissionGate \<Rightarrow> bool" where
  "normal_uses_reserve_only_mode g = (ag_capacity (lg_normal g) = 0)"

definition normal_can_borrow_last_idle_critical_slot :: "LaneAdmissionGate \<Rightarrow> bool" where
  "normal_can_borrow_last_idle_critical_slot g =
     (\<not> normal_uses_reserve_only_mode g \<and> \<not> critical_backlog_active g \<and> critical_free_slots g = 1)"

definition normal_has_surplus_critical_headroom :: "LaneAdmissionGate \<Rightarrow> bool" where
  "normal_has_surplus_critical_headroom g = (critical_free_slots g > 1)"

definition normal_can_borrow_critical_headroom :: "LaneAdmissionGate \<Rightarrow> bool" where
  "normal_can_borrow_critical_headroom g =
     (if normal_uses_reserve_only_mode g then critical_has_borrowable_headroom g
      else if normal_can_borrow_last_idle_critical_slot g then True
      else normal_has_surplus_critical_headroom g)"

definition critical_can_borrow_normal_headroom :: "LaneAdmissionGate \<Rightarrow> bool" where
  "critical_can_borrow_normal_headroom g = (length (ag_queue (lg_normal g)) < ag_capacity (lg_normal g))"

definition queues_contain_tx :: "LaneAdmissionGate \<Rightarrow> u64 \<Rightarrow> bool \<Rightarrow> bool \<Rightarrow> bool" where
  "queues_contain_tx g tx_id in_normal_seen in_critical_seen =
     (if in_normal_seen \<and> in_critical_seen then tx_id \<in> set (ag_queue (lg_normal g)) \<or> tx_id \<in> set (ag_queue (lg_critical g))
      else if in_normal_seen then tx_id \<in> set (ag_queue (lg_normal g))
      else if in_critical_seen then tx_id \<in> set (ag_queue (lg_critical g))
      else False)"

section \<open>Classification of probes\<close>

definition classify_duplicate_probe :: "bool \<Rightarrow> AdmitOutcome" where
  "classify_duplicate_probe is_duplicate = (if is_duplicate then Duplicate else Backpressured)"

definition seen_caches_contain_tx :: "LaneAdmissionGate \<Rightarrow> u64 \<Rightarrow> bool" where
  "seen_caches_contain_tx g tx_id = (tx_id \<in> lg_seen_global g \<or> tx_id \<in> ag_seen (lg_normal g) \<or> tx_id \<in> ag_seen (lg_critical g))"

definition classify_seen_probe :: "LaneAdmissionGate \<Rightarrow> u64 \<Rightarrow> AdmitOutcome" where
  "classify_seen_probe g tx_id = classify_duplicate_probe (seen_caches_contain_tx g tx_id)"

definition classify_hard_stop_probe :: "LaneAdmissionGate \<Rightarrow> u64 \<Rightarrow> AdmitOutcome" where
  "classify_hard_stop_probe g tx_id = classify_seen_probe g tx_id"

definition classify_bounded_retry_probe :: "bool \<Rightarrow> AdmitOutcome" where
  "classify_bounded_retry_probe is_duplicate = classify_duplicate_probe is_duplicate"

text \<open>\<open>Option::or_else\<close>.\<close>

definition or_else :: "'a option \<Rightarrow> 'a option \<Rightarrow> 'a option" where
  "or_else x y = (case x of Some v \<Rightarrow> Some v | None \<Rightarrow> y)"

definition classify_retry_probe_when_blocked :: "bool \<Rightarrow> bool \<Rightarrow> AdmitOutcome option" where
  "classify_retry_probe_when_blocked blocked is_duplicate =
     (if blocked then Some (classify_bounded_retry_probe is_duplicate) else None)"

definition classify_duplicate_after_open_headroom :: "bool \<Rightarrow> AdmitOutcome option" where
  "classify_duplicate_after_open_headroom is_duplicate = (if is_duplicate then Some Duplicate else None)"

definition classify_duplicate_or_retry_probe :: "bool \<Rightarrow> bool \<Rightarrow> AdmitOutcome option" where
  "classify_duplicate_or_retry_probe blocked is_duplicate =
     or_else (classify_duplicate_after_open_headroom is_duplicate) (classify_retry_probe_when_blocked blocked is_duplicate)"

definition classify_guarded_probe :: "bool \<Rightarrow> bool \<Rightarrow> AdmitOutcome option" where
  "classify_guarded_probe guard_blocks is_duplicate = classify_duplicate_or_retry_probe guard_blocks is_duplicate"

definition lane_has_global_headroom :: "LaneAdmissionGate \<Rightarrow> nat \<Rightarrow> bool" where
  "lane_has_global_headroom g queued = (queued < lg_total_capacity g)"

definition lane_is_globally_saturated :: "LaneAdmissionGate \<Rightarrow> nat \<Rightarrow> bool" where
  "lane_is_globally_saturated g queued = (\<not> lane_has_global_headroom g queued)"

definition classify_pre_admission_probe :: "LaneAdmissionGate \<Rightarrow> nat \<Rightarrow> bool \<Rightarrow> AdmitOutcome option" where
  "classify_pre_admission_probe g queued is_duplicate = classify_guarded_probe (lane_is_globally_saturated g queued) is_duplicate"

definition normal_queue_has_headroom :: "LaneAdmissionGate \<Rightarrow> bool" where
  "normal_queue_has_headroom g = (length (ag_queue (lg_normal g)) < ag_capacity (lg_normal g))"

definition critical_queue_has_headroom :: "LaneAdmissionGate \<Rightarrow> bool" where
  "critical_queue_has_headroom g = (length (ag_queue (lg_critical g)) < ag_capacity (lg_critical g))"

definition normal_has_admission_headroom :: "LaneAdmissionGate \<Rightarrow> bool" where
  "normal_has_admission_headroom g = (normal_queue_has_headroom g \<or> normal_can_borrow_critical_headroom g)"

definition critical_has_admission_headroom :: "LaneAdmissionGate \<Rightarrow> bool" where
  "critical_has_admission_headroom g = (critical_queue_has_headroom g \<or> critical_can_borrow_normal_headroom g)"

definition normal_backpressure_guard_blocks :: "LaneAdmissionGate \<Rightarrow> bool" where
  "normal_backpressure_guard_blocks g = (\<not> normal_has_admission_headroom g)"

definition critical_backpressure_guard_blocks :: "LaneAdmissionGate \<Rightarrow> bool" where
  "critical_backpressure_guard_blocks g = (\<not> critical_has_admission_headroom g)"

fun lane_backpressure_guard_blocks :: "LaneAdmissionGate \<Rightarrow> IngressClass \<Rightarrow> bool" where
  "lane_backpressure_guard_blocks g Normal = normal_backpressure_guard_blocks g"
| "lane_backpressure_guard_blocks g Critical = critical_backpressure_guard_blocks g"

definition reserve_slot_guard_blocks_with_lane_total :: "LaneAdmissionGate \<Rightarrow> nat \<Rightarrow> IngressClass \<Rightarrow> bool" where
  "reserve_slot_guard_blocks_with_lane_total g queued class =
     (lane_backpressure_guard_blocks g class \<and> lane_has_global_headroom g queued)"

definition classify_reserved_slot_guard_probe :: "LaneAdmissionGate \<Rightarrow> nat \<Rightarrow> IngressClass \<Rightarrow> bool \<Rightarrow> AdmitOutcome option" where
  "classify_reserved_slot_guard_probe g queued class is_duplicate =
     classify_guarded_probe (reserve_slot_guard_blocks_with_lane_total g queued class) is_duplicate"

definition classify_headroom_probe :: "LaneAdmissionGate \<Rightarrow> nat \<Rightarrow> IngressClass \<Rightarrow> bool \<Rightarrow> AdmitOutcome option" where
  "classify_headroom_probe g queued class is_duplicate =
     or_else (classify_pre_admission_probe g queued is_duplicate) (classify_reserved_slot_guard_probe g queued class is_duplicate)"

definition fresh_admissible :: "LaneAdmissionGate \<Rightarrow> IngressClass \<Rightarrow> bool" where
  "fresh_admissible g class = (lane_has_global_headroom g (lane_total g) \<and> \<not> lane_backpressure_guard_blocks g class)"

definition finish_admission :: "LaneAdmissionGate \<Rightarrow> u64 \<Rightarrow> AdmitOutcome \<Rightarrow> LaneAdmissionGate \<times> AdmitOutcome" where
  "finish_admission g tx_id out = (if out = Accepted then g\<lparr>lg_seen_global := insert tx_id (lg_seen_global g)\<rparr> else g, out)"

section \<open>Operations of the gate\<close>

text \<open>\<open>usize::MAX\<close>, for \<open>saturating_mul\<close> and \<open>saturating_add\<close>.\<close>

definition usize_max :: nat where
  "usize_max = 2 ^ 64 - 1"

definition lane_new :: "nat \<Rightarrow> nat \<Rightarrow> LaneAdmissionGate" where
  "lane_new total_capacity critical_reserve =
     (let reserve = min critical_reserve total_capacity; normal_cap = total_capacity - reserve
      in \<lparr>lg_normal = gate_new normal_cap, lg_critical = gate_new reserve, lg_total_capacity = total_capacity, lg_seen_global = {},
          lg_critical_served_streak = 0, lg_critical_burst_limit = max (min usize_max (reserve * 2)) 1,
          lg_normal_has_dedicated_capacity = (normal_cap > 0)\<rparr>)"

text \<open>The first part of \<open>admit\<close>: an idle gate is reset, stale caches are rebuilt.\<close>

definition sync_caches :: "LaneAdmissionGate \<Rightarrow> LaneAdmissionGate" where
  "sync_caches g =
     (if lane_is_idle g then reset_idle_state g False
      else if lane_local_seen_total g \<noteq> lane_total g then rebuild_seen_from_queues g
      else if card (lg_seen_global g) \<noteq> lane_total g then rebuild_global_seen_from_queues g
      else g)"

text \<open>A hit in the lane-wide cache is confirmed against the lanes.\<close>

definition confirm_duplicate :: "LaneAdmissionGate \<Rightarrow> u64 \<Rightarrow> LaneAdmissionGate \<times> bool" where
  "confirm_duplicate g tx_id =
     (let in_normal_seen = tx_id \<in> ag_seen (lg_normal g); in_critical_seen = tx_id \<in> ag_seen (lg_critical g)
      in if \<not> in_normal_seen \<and> \<not> in_critical_seen then
           let g1 = rebuild_seen_from_queues g in (g1, tx_id \<in> lg_seen_global g1)
         else if \<not> queues_contain_tx g tx_id in_normal_seen in_critical_seen then
           let g1 = rebuild_seen_from_queues g in (g1, tx_id \<in> lg_seen_global g1)
         else (g, True))"

text \<open>A miss is checked against the caches of the lanes.\<close>

definition probe_lanes :: "LaneAdmissionGate \<Rightarrow> u64 \<Rightarrow> LaneAdmissionGate \<times> bool" where
  "probe_lanes g tx_id =
     (let in_normal_seen = tx_id \<in> ag_seen (lg_normal g); in_critical_seen = tx_id \<in> ag_seen (lg_critical g)
      in if in_normal_seen \<or> in_critical_seen then
           if queues_contain_tx g tx_id in_normal_seen in_critical_seen
           then (g\<lparr>lg_seen_global := insert tx_id (lg_seen_global g)\<rparr>, True)
           else let g1 = rebuild_seen_from_queues g in (g1, tx_id \<in> lg_seen_global g1)
         else if lane_local_seen_total g \<noteq> lane_total g \<and>
                 (tx_id \<in> set (ag_queue (lg_normal g)) \<or> tx_id \<in> set (ag_queue (lg_critical g))) then
           let g1 = rebuild_seen_from_queues g in (g1, tx_id \<in> lg_seen_global g1)
         else (g, False))"

fun admit_to_lane :: "LaneAdmissionGate \<Rightarrow> u64 \<Rightarrow> IngressClass \<Rightarrow> LaneAdmissionGate \<times> AdmitOutcome" where
  "admit_to_lane g tx_id Normal =
     (let normal_was_empty = (ag_queue (lg_normal g) = []);
          (normal, primary) = gate_admit (lg_normal g) tx_id;
          g1 = g\<lparr>lg_normal := normal\<rparr>;
          (g2, out) = (if primary = Backpressured \<and> normal_can_borrow_critical_headroom g1
                       then let (critical, out) = gate_admit (lg_critical g1) tx_id in (g1\<lparr>lg_critical := critical\<rparr>, out)
                       else (g1, primary))
      in (maybe_warm_normal_fairness g2 normal_was_empty out, out))"
| "admit_to_lane g tx_id Critical =
     (let normal_was_empty = (ag_queue (lg_normal g) = []);
          (critical, primary) = gate_admit (lg_critical g) tx_id;
          g1 = g\<lparr>lg_critical := critical\<rparr>;
          (g2, out) = (if primary = Backpressured \<and> critical_can_borrow_normal_headroom g1
                       then let (normal, out) = gate_admit (lg_normal g1) tx_id in (g1\<lparr>lg_normal := normal\<rparr>, out)
                       else (g1, primary))
      in (maybe_warm_normal_fairness g2 normal_was_empty out, out))"

definition lane_admit :: "LaneAdmissionGate \<Rightarrow> u64 \<Rightarrow> IngressClass \<Rightarrow> LaneAdmissionGate \<times> AdmitOutcome" where
  "lane_admit g tx_id class =
     (if lg_total_capacity g = 0 then (g, classify_hard_stop_probe g tx_id)
      else
        let queued = lane_total g; lane_was_empty = lane_is_idle g;
            g1 = sync_caches g;
            (g2, dup) = (if \<not> lane_was_empty \<and> tx_id \<in> lg_seen_global g1 then confirm_duplicate g1 tx_id else (g1, False));
            (g3, is_duplicate) = (if \<not> dup \<and> \<not> lane_was_empty then probe_lanes g2 tx_id else (g2, dup))
        in case classify_headroom_probe g3 queued class is_duplicate of
             Some out \<Rightarrow> (g3, out)
           | None \<Rightarrow> let (g4, out) = admit_to_lane g3 tx_id class in finish_admission g4 tx_id out)"

definition prefer_normal_on_pop :: "LaneAdmissionGate \<Rightarrow> bool" where
  "prefer_normal_on_pop g = (lg_normal_has_dedicated_capacity g \<and> lg_critical_served_streak g \<ge> lg_critical_burst_limit g \<and>
     ag_queue (lg_normal g) \<noteq> [])"

definition record_pop_fairness :: "LaneAdmissionGate \<Rightarrow> bool \<Rightarrow> LaneAdmissionGate" where
  "record_pop_fairness g served_critical =
     (if lg_normal_has_dedicated_capacity g then
        if served_critical then
          g\<lparr>lg_critical_served_streak := min (min usize_max (lg_critical_served_streak g + 1)) (lg_critical_burst_limit g)\<rparr>
        else if ag_queue (lg_normal g) \<noteq> [] \<and> ag_queue (lg_critical g) \<noteq> [] then
          g\<lparr>lg_critical_served_streak := lg_critical_burst_limit g - 1\<rparr>
        else g\<lparr>lg_critical_served_streak := 0\<rparr>
      else g\<lparr>lg_critical_served_streak := 0\<rparr>)"

definition queued_counts :: "LaneAdmissionGate \<Rightarrow> nat \<times> nat \<times> nat" where
  "queued_counts g = (length (ag_queue (lg_normal g)), length (ag_queue (lg_critical g)), lane_total g)"

definition qos_snapshot :: "LaneAdmissionGate \<Rightarrow> LaneQosSnapshot" where
  "qos_snapshot g =
     \<lparr>qs_normal_queued = length (ag_queue (lg_normal g)),
      qs_critical_queued = length (ag_queue (lg_critical g)),
      qs_total_queued = lane_total g,
      qs_normal_headroom = ag_capacity (lg_normal g) - length (ag_queue (lg_normal g)),
      qs_critical_headroom = ag_capacity (lg_critical g) - length (ag_queue (lg_critical g)),
      qs_total_headroom = lg_total_capacity g - lane_total g,
      qs_fresh_normal_admissible = fresh_admissible g Normal,
      qs_fresh_critical_admissible = fresh_admissible g Critical\<rparr>"

text \<open>Taking from a lane: the id and whether it came from the critical lane.\<close>

definition pop_normal :: "LaneAdmissionGate \<Rightarrow> LaneAdmissionGate \<times> (u64 \<times> bool) option" where
  "pop_normal g = (let (lane, popped) = gate_pop_ready (lg_normal g) in (g\<lparr>lg_normal := lane\<rparr>, map_option (\<lambda>tx. (tx, False)) popped))"

definition pop_critical :: "LaneAdmissionGate \<Rightarrow> LaneAdmissionGate \<times> (u64 \<times> bool) option" where
  "pop_critical g = (let (lane, popped) = gate_pop_ready (lg_critical g) in (g\<lparr>lg_critical := lane\<rparr>, map_option (\<lambda>tx. (tx, True)) popped))"

text \<open>\<open>if let Some(id) = first { .. } else { second }\<close>.\<close>

definition pop_either :: "LaneAdmissionGate \<times> (u64 \<times> bool) option \<Rightarrow> (LaneAdmissionGate \<Rightarrow> LaneAdmissionGate \<times> (u64 \<times> bool) option) \<Rightarrow>
    LaneAdmissionGate \<times> (u64 \<times> bool) option" where
  "pop_either first second = (case first of (g, Some r) \<Rightarrow> (g, Some r) | (g, None) \<Rightarrow> second g)"

definition lane_pop_ready :: "LaneAdmissionGate \<Rightarrow> LaneAdmissionGate \<times> u64 option" where
  "lane_pop_ready g =
     (if lane_is_idle g then (reset_idle_state g True, None)
      else
        case (if prefer_normal_on_pop g then pop_either (pop_normal g) pop_critical else pop_either (pop_critical g) pop_normal) of
          (g1, None) \<Rightarrow> (g1, None)
        | (g1, Some (tx, served_critical)) \<Rightarrow>
            let g2 = record_pop_fairness g1 served_critical;
                g3 = repair_global_seen_after_pop g2 tx;
                g4 = (if ag_queue (lg_normal g3) = [] \<and> ag_queue (lg_critical g3) = [] then reset_idle_state g3 False else g3)
            in (g4, Some tx))"

end
