(* ===== verification/Mempool_Fairness.thy ===== *)
theory Mempool_Fairness
  imports Mempool_Lanes "HOL-Library.Multiset"
begin

text \<open>
  What the two-lane gate promises. Its caches always agree with its queues, so that it behaves as two plain queues without any cache
  (\<open>spec_admit\<close>, \<open>spec_pop\<close>). On the plain queues the waiting time of the normal lane is bounded, and that of the critical lane is not.
\<close>

section \<open>Two plain queues\<close>

record lane_spec =
  sp_normal :: "u64 list"
  sp_critical :: "u64 list"
  sp_streak :: nat

record lane_limits =
  ll_normal :: nat
  ll_critical :: nat
  ll_burst :: nat

text \<open>The lane that takes a fresh id.\<close>

fun spec_lane :: "lane_limits \<Rightarrow> lane_spec \<Rightarrow> IngressClass \<Rightarrow> IngressClass option" where
  "spec_lane l s Normal =
     (if length (sp_normal s) < ll_normal l then Some Normal
      else if (if ll_normal l = 0 then length (sp_critical s) < ll_critical l
               else length (sp_critical s) + 1 < ll_critical l \<or> sp_critical s = [] \<and> ll_critical l = 1)
      then Some Critical else None)"
| "spec_lane l s Critical =
     (if length (sp_critical s) < ll_critical l then Some Critical
      else if length (sp_normal s) < ll_normal l then Some Normal else None)"

definition spec_admit :: "lane_limits \<Rightarrow> lane_spec \<Rightarrow> u64 \<Rightarrow> IngressClass \<Rightarrow> lane_spec \<times> AdmitOutcome" where
  "spec_admit l s tx cls =
     (if tx \<in> set (sp_normal s) \<union> set (sp_critical s) then (s, Duplicate)
      else case spec_lane l s cls of
          None \<Rightarrow> (s, Backpressured)
        | Some Normal \<Rightarrow> (s\<lparr>sp_normal := sp_normal s @ [tx],
            sp_streak := (if sp_normal s = [] \<and> sp_critical s \<noteq> [] then ll_burst l else sp_streak s)\<rparr>, Accepted)
        | Some Critical \<Rightarrow> (s\<lparr>sp_critical := sp_critical s @ [tx]\<rparr>, Accepted))"

definition spec_pop :: "lane_limits \<Rightarrow> lane_spec \<Rightarrow> lane_spec \<times> u64 option" where
  "spec_pop l s =
     (if sp_normal s \<noteq> [] \<and> (sp_critical s = [] \<or> ll_normal l > 0 \<and> sp_streak s \<ge> ll_burst l) then
        (s\<lparr>sp_normal := tl (sp_normal s), sp_streak := (if tl (sp_normal s) \<noteq> [] \<and> sp_critical s \<noteq> [] then ll_burst l - 1 else 0)\<rparr>,
         Some (hd (sp_normal s)))
      else if sp_critical s \<noteq> [] then
        (s\<lparr>sp_critical := tl (sp_critical s),
           sp_streak := (if ll_normal l = 0 \<or> sp_normal s = [] \<and> tl (sp_critical s) = [] then 0 else min (sp_streak s + 1) (ll_burst l))\<rparr>,
         Some (hd (sp_critical s)))
      else (s, None))"

section \<open>The gate implements them\<close>

definition lane_abs :: "LaneAdmissionGate \<Rightarrow> lane_spec" where
  "lane_abs g = \<lparr>sp_normal = ag_queue (lg_normal g), sp_critical = ag_queue (lg_critical g), sp_streak = lg_critical_served_streak g\<rparr>"

definition limits_of :: "LaneAdmissionGate \<Rightarrow> lane_limits" where
  "limits_of g = \<lparr>ll_normal = ag_capacity (lg_normal g), ll_critical = ag_capacity (lg_critical g), ll_burst = lg_critical_burst_limit g\<rparr>"

definition lanes_ok :: "LaneAdmissionGate \<Rightarrow> bool" where
  "lanes_ok g \<longleftrightarrow>
     ag_seen (lg_normal g) = set (ag_queue (lg_normal g)) \<and> ag_seen (lg_critical g) = set (ag_queue (lg_critical g)) \<and>
     lg_seen_global g = set (ag_queue (lg_normal g)) \<union> set (ag_queue (lg_critical g)) \<and>
     distinct (ag_queue (lg_normal g) @ ag_queue (lg_critical g)) \<and>
     length (ag_queue (lg_normal g)) \<le> ag_capacity (lg_normal g) \<and> length (ag_queue (lg_critical g)) \<le> ag_capacity (lg_critical g) \<and>
     lg_total_capacity g = ag_capacity (lg_normal g) + ag_capacity (lg_critical g) \<and>
     (lg_normal_has_dedicated_capacity g \<longleftrightarrow> ag_capacity (lg_normal g) > 0) \<and>
     1 \<le> lg_critical_burst_limit g \<and> lg_critical_burst_limit g \<le> usize_max \<and> lg_critical_served_streak g \<le> lg_critical_burst_limit g \<and>
     (lane_is_idle g \<longrightarrow> lg_critical_served_streak g = 0)"

lemma lane_new_ok: "lanes_ok (lane_new c r)"
  by (auto simp: lanes_ok_def lane_new_def gate_new_def Let_def usize_max_def)

lemma lanes_okD:
  assumes "lanes_ok g"
  shows "card (ag_seen (lg_normal g)) = length (ag_queue (lg_normal g))"
    "card (ag_seen (lg_critical g)) = length (ag_queue (lg_critical g))" "card (lg_seen_global g) = lane_total g"
  using assms by (auto simp: lanes_ok_def lane_total_def distinct_card card_Un_disjoint)

lemma sync_caches_ok: "lanes_ok g \<Longrightarrow> sync_caches g = g"
  using lanes_okD [of g]
  by (auto simp: sync_caches_def lane_local_seen_total_def lane_total_def lane_is_idle_def reset_idle_state_def lanes_ok_def)

lemma confirm_duplicate_ok: "lanes_ok g \<Longrightarrow> tx \<in> lg_seen_global g \<Longrightarrow> confirm_duplicate g tx = (g, True)"
  by (auto simp: confirm_duplicate_def queues_contain_tx_def lanes_ok_def Let_def)

lemma probe_lanes_ok: "lanes_ok g \<Longrightarrow> tx \<notin> lg_seen_global g \<Longrightarrow> probe_lanes g tx = (g, False)"
  using lanes_okD [of g] by (auto simp: probe_lanes_def lanes_ok_def Let_def lane_local_seen_total_def lane_total_def)

lemma lane_admit_ok:
  assumes "lanes_ok g"
  shows "lane_admit g tx cls =
    (case classify_headroom_probe g (lane_total g) cls (tx \<in> lg_seen_global g) of
       Some out \<Rightarrow> (g, out)
     | None \<Rightarrow> let (g4, out) = admit_to_lane g tx cls in finish_admission g4 tx out)"
proof (cases "lane_is_idle g")
  case True
  with assms have "tx \<notin> lg_seen_global g" by (auto simp: lanes_ok_def lane_is_idle_def lane_total_def)
  moreover have "classify_headroom_probe g (lane_total g) cls False = Some (classify_hard_stop_probe g tx)" if "lg_total_capacity g = 0"
    using that assms True \<open>tx \<notin> lg_seen_global g\<close>
    by (auto simp: classify_headroom_probe_def classify_pre_admission_probe_def classify_guarded_probe_def classify_duplicate_or_retry_probe_def
      classify_duplicate_after_open_headroom_def classify_retry_probe_when_blocked_def lane_is_globally_saturated_def lane_has_global_headroom_def
      or_else_def classify_bounded_retry_probe_def classify_duplicate_probe_def classify_hard_stop_probe_def classify_seen_probe_def
      seen_caches_contain_tx_def lanes_ok_def)
  ultimately show ?thesis using True by (simp add: lane_admit_def sync_caches_ok [OF assms] Let_def)
next
  case False
  with assms have "lg_total_capacity g \<noteq> 0" by (auto simp: lanes_ok_def lane_is_idle_def lane_total_def)
  with False confirm_duplicate_ok [OF assms] probe_lanes_ok [OF assms] show ?thesis
    by (cases "tx \<in> lg_seen_global g") (simp_all add: lane_admit_def sync_caches_ok [OF assms])
qed

lemmas probe_defs = classify_headroom_probe_def classify_pre_admission_probe_def classify_reserved_slot_guard_probe_def classify_guarded_probe_def
  classify_duplicate_or_retry_probe_def classify_duplicate_after_open_headroom_def classify_retry_probe_when_blocked_def or_else_def
  classify_bounded_retry_probe_def classify_duplicate_probe_def lane_is_globally_saturated_def lane_has_global_headroom_def
  reserve_slot_guard_blocks_with_lane_total_def

lemmas headroom_defs = normal_backpressure_guard_blocks_def critical_backpressure_guard_blocks_def normal_has_admission_headroom_def
  critical_has_admission_headroom_def normal_queue_has_headroom_def critical_queue_has_headroom_def critical_can_borrow_normal_headroom_def
  normal_can_borrow_critical_headroom_def normal_uses_reserve_only_mode_def critical_has_borrowable_headroom_def
  normal_can_borrow_last_idle_critical_slot_def critical_backlog_active_def critical_free_slots_def normal_has_surplus_critical_headroom_def

text \<open>A fresh id is turned away exactly when no lane takes it.\<close>

lemma guard_blocks_iff:
  assumes "lanes_ok g"
  shows "lane_backpressure_guard_blocks g cls \<longleftrightarrow> spec_lane (limits_of g) (lane_abs g) cls = None"
  using assms by (cases cls) (auto simp: headroom_defs lane_abs_def limits_of_def lanes_ok_def)

lemma headroom_probe_ok:
  assumes "lanes_ok g"
  shows "classify_headroom_probe g (lane_total g) cls dup =
    (if dup then Some Duplicate else if spec_lane (limits_of g) (lane_abs g) cls = None then Some Backpressured else None)"
proof -
  have "spec_lane (limits_of g) (lane_abs g) cls = None" if "lg_total_capacity g \<le> lane_total g"
    using that assms by (cases cls) (auto simp: lane_total_def lane_abs_def limits_of_def lanes_ok_def)
  then show ?thesis
    by (auto simp: probe_defs guard_blocks_iff [OF assms])
qed

text \<open>The state after a fresh id has been put into a lane.\<close>

fun put :: "LaneAdmissionGate \<Rightarrow> u64 \<Rightarrow> IngressClass \<Rightarrow> LaneAdmissionGate" where
  "put g tx Normal = g\<lparr>lg_normal := (lg_normal g)\<lparr>ag_seen := insert tx (ag_seen (lg_normal g)), ag_queue := ag_queue (lg_normal g) @ [tx]\<rparr>,
     lg_critical_served_streak := (if ag_queue (lg_normal g) = [] \<and> ag_queue (lg_critical g) \<noteq> [] then lg_critical_burst_limit g
        else lg_critical_served_streak g), lg_seen_global := insert tx (lg_seen_global g)\<rparr>"
| "put g tx Critical = g\<lparr>lg_critical := (lg_critical g)\<lparr>ag_seen := insert tx (ag_seen (lg_critical g)), ag_queue := ag_queue (lg_critical g) @ [tx]\<rparr>,
     lg_seen_global := insert tx (lg_seen_global g)\<rparr>"

lemma admit_to_lane_put:
  assumes "lanes_ok g" and "tx \<notin> lg_seen_global g" and "spec_lane (limits_of g) (lane_abs g) cls = Some lane"
  shows "(let (g4, out) = admit_to_lane g tx cls in finish_admission g4 tx out) = (put g tx lane, Accepted)"
proof -
  have dedicated: "length (ag_queue (lg_normal g)) < ag_capacity (lg_normal g) \<Longrightarrow> lg_normal_has_dedicated_capacity g"
    using assms(1) by (auto simp: lanes_ok_def)
  have fresh: "tx \<notin> ag_seen (lg_normal g)" "tx \<notin> ag_seen (lg_critical g)"
    using assms(1,2) by (auto simp: lanes_ok_def)
  show ?thesis
    using assms(3) dedicated fresh
    by (cases cls; cases lane)
      (auto simp: gate_admit_def Let_def maybe_warm_normal_fairness_def finish_admission_def headroom_defs lane_abs_def limits_of_def split: if_splits)
qed

lemma put_ok:
  assumes "lanes_ok g" and "tx \<notin> lg_seen_global g" and "spec_lane (limits_of g) (lane_abs g) cls = Some lane"
  shows "lanes_ok (put g tx lane)"
  using assms
  by (cases cls; cases lane) (auto simp: lanes_ok_def lane_is_idle_def lane_total_def lane_abs_def limits_of_def split: if_splits)

lemma lane_admit_refines:
  assumes ok: "lanes_ok g" and admit: "lane_admit g tx cls = (g', out)"
  shows "lanes_ok g' \<and> limits_of g' = limits_of g \<and> spec_admit (limits_of g) (lane_abs g) tx cls = (lane_abs g', out)"
proof (cases "tx \<in> lg_seen_global g")
  case True
  with ok admit show ?thesis
    by (auto simp: lane_admit_ok headroom_probe_ok spec_admit_def lane_abs_def lanes_ok_def)
next
  case False
  then have fresh: "tx \<notin> set (sp_normal (lane_abs g)) \<union> set (sp_critical (lane_abs g))"
    using ok by (auto simp: lanes_ok_def lane_abs_def)
  show ?thesis
  proof (cases "spec_lane (limits_of g) (lane_abs g) cls")
    case None
    with False fresh ok admit show ?thesis by (simp add: lane_admit_ok headroom_probe_ok spec_admit_def)
  next
    case (Some lane)
    with False ok admit have "g' = put g tx lane" "out = Accepted"
      using admit_to_lane_put [OF ok False Some] by (simp_all add: lane_admit_ok headroom_probe_ok)
    with put_ok [OF ok False Some] fresh Some show ?thesis
      by (cases lane) (auto simp: spec_admit_def lane_abs_def limits_of_def)
  qed
qed

lemma gate_pop_ready_ok:
  assumes "ag_seen l = set (ag_queue l)" and "distinct (ag_queue l)"
  shows "gate_pop_ready l = (case ag_queue l of [] \<Rightarrow> (l, None)
     | tx # rest \<Rightarrow> (l\<lparr>ag_queue := rest, ag_seen := set rest\<rparr>, Some tx))"
  using assms by (auto simp: gate_pop_ready_def Let_def split: list.splits)

text \<open>The state after the front of a lane has been taken.\<close>

fun take_from :: "LaneAdmissionGate \<Rightarrow> IngressClass \<Rightarrow> LaneAdmissionGate" where
  "take_from g Normal = g\<lparr>lg_normal := (lg_normal g)\<lparr>ag_queue := tl (ag_queue (lg_normal g)), ag_seen := set (tl (ag_queue (lg_normal g)))\<rparr>,
     lg_critical_served_streak := (if tl (ag_queue (lg_normal g)) \<noteq> [] \<and> ag_queue (lg_critical g) \<noteq> [] then lg_critical_burst_limit g - 1 else 0),
     lg_seen_global := set (tl (ag_queue (lg_normal g))) \<union> set (ag_queue (lg_critical g))\<rparr>"
| "take_from g Critical = g\<lparr>lg_critical := (lg_critical g)\<lparr>ag_queue := tl (ag_queue (lg_critical g)), ag_seen := set (tl (ag_queue (lg_critical g)))\<rparr>,
     lg_critical_served_streak := (if ag_capacity (lg_normal g) = 0 \<or> ag_queue (lg_normal g) = [] \<and> tl (ag_queue (lg_critical g)) = [] then 0
        else min (lg_critical_served_streak g + 1) (lg_critical_burst_limit g)),
     lg_seen_global := set (ag_queue (lg_normal g)) \<union> set (tl (ag_queue (lg_critical g)))\<rparr>"

lemma take_from_ok:
  assumes "lanes_ok g"
  shows "lanes_ok (take_from g lane)" "limits_of (take_from g lane) = limits_of g"
  using assms
  by (cases lane; cases "ag_queue (lg_normal g)"; cases "ag_queue (lg_critical g)";
      auto simp: lanes_ok_def limits_of_def lane_is_idle_def lane_total_def)+

lemma repair_ok:
  assumes "distinct (ag_queue (lg_normal g) @ ag_queue (lg_critical g))" and "tx \<notin> set (ag_queue (lg_normal g)) \<union> set (ag_queue (lg_critical g))"
    and "lg_seen_global g = insert tx (set (ag_queue (lg_normal g)) \<union> set (ag_queue (lg_critical g)))"
  shows "repair_global_seen_after_pop g tx = g\<lparr>lg_seen_global := set (ag_queue (lg_normal g)) \<union> set (ag_queue (lg_critical g))\<rparr>"
proof -
  have "insert tx (set (ag_queue (lg_normal g)) \<union> set (ag_queue (lg_critical g))) - {tx} = set (ag_queue (lg_normal g)) \<union> set (ag_queue (lg_critical g))"
    using assms(2) by auto
  moreover have "card (set (ag_queue (lg_normal g)) \<union> set (ag_queue (lg_critical g))) = lane_total g"
    using assms(1) by (simp add: lane_total_def distinct_card card_Un_disjoint)
  ultimately show ?thesis
    using assms(3) by (simp add: repair_global_seen_after_pop_def lane_total_def)
qed

lemma finish_pop:
  assumes "distinct (ag_queue (lg_normal g) @ ag_queue (lg_critical g))" and "tx \<notin> set (ag_queue (lg_normal g)) \<union> set (ag_queue (lg_critical g))"
    and "lg_seen_global g = insert tx (set (ag_queue (lg_normal g)) \<union> set (ag_queue (lg_critical g)))"
    and "ag_seen (lg_normal g) = set (ag_queue (lg_normal g))" "ag_seen (lg_critical g) = set (ag_queue (lg_critical g))"
  shows "(let g3 = repair_global_seen_after_pop g tx
     in if ag_queue (lg_normal g3) = [] \<and> ag_queue (lg_critical g3) = [] then reset_idle_state g3 False else g3) =
     g\<lparr>lg_seen_global := set (ag_queue (lg_normal g)) \<union> set (ag_queue (lg_critical g)),
       lg_critical_served_streak := (if ag_queue (lg_normal g) = [] \<and> ag_queue (lg_critical g) = [] then 0 else lg_critical_served_streak g)\<rparr>"
  unfolding repair_ok [OF assms(1-3)] using assms(4,5) by (simp add: Let_def reset_idle_state_def)

text \<open>What the end of \<open>pop_ready\<close> makes of a state from which the front of a lane is gone.\<close>

definition settle_pop :: "LaneAdmissionGate \<Rightarrow> u64 \<Rightarrow> bool \<Rightarrow> LaneAdmissionGate" where
  "settle_pop g tx served_critical =
     (let g3 = repair_global_seen_after_pop (record_pop_fairness g served_critical) tx
      in if ag_queue (lg_normal g3) = [] \<and> ag_queue (lg_critical g3) = [] then reset_idle_state g3 False else g3)"

lemma record_pop_fairness_fields [simp]:
  "lg_normal (record_pop_fairness g b) = lg_normal g" "lg_critical (record_pop_fairness g b) = lg_critical g"
  "lg_seen_global (record_pop_fairness g b) = lg_seen_global g"
  by (simp_all add: record_pop_fairness_def)

lemma settle_normal:
  assumes ok: "lanes_ok g" and q: "ag_queue (lg_normal g) = x # xs"
  shows "settle_pop (g\<lparr>lg_normal := (lg_normal g)\<lparr>ag_queue := xs, ag_seen := set xs\<rparr>\<rparr>) x False = take_from g Normal"
proof -
  let ?g = "g\<lparr>lg_normal := (lg_normal g)\<lparr>ag_queue := xs, ag_seen := set xs\<rparr>\<rparr>"
  have dedicated: "lg_normal_has_dedicated_capacity g" using ok q by (auto simp: lanes_ok_def)
  have "settle_pop ?g x False = (record_pop_fairness ?g False)\<lparr>lg_seen_global := set xs \<union> set (ag_queue (lg_critical g)),
       lg_critical_served_streak := (if xs = [] \<and> ag_queue (lg_critical g) = [] then 0 else lg_critical_served_streak (record_pop_fairness ?g False))\<rparr>"
    unfolding settle_pop_def by (subst finish_pop) (use ok q in \<open>auto simp: lanes_ok_def\<close>)
  then show ?thesis
    using dedicated q by (simp add: record_pop_fairness_def)
qed

lemma settle_critical:
  assumes ok: "lanes_ok g" and q: "ag_queue (lg_critical g) = x # xs"
  shows "settle_pop (g\<lparr>lg_critical := (lg_critical g)\<lparr>ag_queue := xs, ag_seen := set xs\<rparr>\<rparr>) x True = take_from g Critical"
proof -
  let ?g = "g\<lparr>lg_critical := (lg_critical g)\<lparr>ag_queue := xs, ag_seen := set xs\<rparr>\<rparr>"
  have "settle_pop ?g x True = (record_pop_fairness ?g True)\<lparr>lg_seen_global := set (ag_queue (lg_normal g)) \<union> set xs,
       lg_critical_served_streak := (if ag_queue (lg_normal g) = [] \<and> xs = [] then 0 else lg_critical_served_streak (record_pop_fairness ?g True))\<rparr>"
    unfolding settle_pop_def by (subst finish_pop) (use ok q in \<open>auto simp: lanes_ok_def\<close>)
  moreover have "min (min usize_max (Suc (lg_critical_served_streak g))) (lg_critical_burst_limit g) = min (Suc (lg_critical_served_streak g)) (lg_critical_burst_limit g)"
    using ok by (auto simp: lanes_ok_def)
  ultimately show ?thesis
    using ok q by (simp add: record_pop_fairness_def lanes_ok_def)
qed

lemma lane_pop_take:
  assumes ok: "lanes_ok g"
  shows "lane_pop_ready g =
    (if ag_queue (lg_normal g) \<noteq> [] \<and> (ag_queue (lg_critical g) = [] \<or> ag_capacity (lg_normal g) > 0 \<and>
         lg_critical_served_streak g \<ge> lg_critical_burst_limit g)
     then (take_from g Normal, Some (hd (ag_queue (lg_normal g))))
     else if ag_queue (lg_critical g) \<noteq> [] then (take_from g Critical, Some (hd (ag_queue (lg_critical g))))
     else (g, None))"
proof (cases "lane_is_idle g")
  case True
  with ok show ?thesis
    by (simp add: lane_pop_ready_def lane_is_idle_def lane_total_def reset_idle_state_def lanes_ok_def)
next
  case False
  have pops: "gate_pop_ready (lg_normal g) = (case ag_queue (lg_normal g) of [] \<Rightarrow> (lg_normal g, None)
      | tx # rest \<Rightarrow> ((lg_normal g)\<lparr>ag_queue := rest, ag_seen := set rest\<rparr>, Some tx))"
    "gate_pop_ready (lg_critical g) = (case ag_queue (lg_critical g) of [] \<Rightarrow> (lg_critical g, None)
      | tx # rest \<Rightarrow> ((lg_critical g)\<lparr>ag_queue := rest, ag_seen := set rest\<rparr>, Some tx))"
    using ok by (auto simp: lanes_ok_def intro: gate_pop_ready_ok)
  have settle: "lane_pop_ready g =
      (case (if prefer_normal_on_pop g then pop_either (pop_normal g) pop_critical else pop_either (pop_critical g) pop_normal) of
         (g1, None) \<Rightarrow> (g1, None) | (g1, Some (tx, b)) \<Rightarrow> (settle_pop g1 tx b, Some tx))"
    using False by (simp add: lane_pop_ready_def settle_pop_def Let_def split: prod.splits option.splits)
  have "lg_normal_has_dedicated_capacity g \<longleftrightarrow> ag_capacity (lg_normal g) > 0" using ok by (simp add: lanes_ok_def)
  with False show ?thesis
    unfolding settle
    by (cases "ag_queue (lg_normal g)"; cases "ag_queue (lg_critical g)")
      (auto simp: prefer_normal_on_pop_def pop_either_def pop_normal_def pop_critical_def pops settle_normal [OF ok] settle_critical [OF ok]
        lane_is_idle_def lane_total_def Let_def)
qed

lemma lane_abs_take:
  "spec_pop (limits_of g) (lane_abs g) =
    (if ag_queue (lg_normal g) \<noteq> [] \<and> (ag_queue (lg_critical g) = [] \<or> ag_capacity (lg_normal g) > 0 \<and>
         lg_critical_served_streak g \<ge> lg_critical_burst_limit g)
     then (lane_abs (take_from g Normal), Some (hd (ag_queue (lg_normal g))))
     else if ag_queue (lg_critical g) \<noteq> [] then (lane_abs (take_from g Critical), Some (hd (ag_queue (lg_critical g))))
     else (lane_abs g, None))"
  by (simp add: spec_pop_def lane_abs_def limits_of_def)

lemma lane_pop_refines:
  assumes ok: "lanes_ok g" and pop: "lane_pop_ready g = (g', out)"
  shows "lanes_ok g' \<and> limits_of g' = limits_of g \<and> spec_pop (limits_of g) (lane_abs g) = (lane_abs g', out)"
proof -
  consider "g' = g" "spec_pop (limits_of g) (lane_abs g) = (lane_abs g', out)"
    | lane where "g' = take_from g lane" "spec_pop (limits_of g) (lane_abs g) = (lane_abs g', out)"
    using pop unfolding lane_pop_take [OF ok] lane_abs_take by (metis prod.inject)
  then show ?thesis
    using ok take_from_ok [OF ok] by cases simp_all
qed

section \<open>Histories\<close>

datatype lane_op = AdmitOp u64 IngressClass | PopOp

datatype lane_out = Admitted AdmitOutcome | Popped "u64 option"

fun trace :: "('g \<Rightarrow> 'o \<Rightarrow> 'g \<times> 'r) \<Rightarrow> 'g \<Rightarrow> 'o list \<Rightarrow> 'g \<times> 'r list" where
  "trace step g [] = (g, [])"
| "trace step g (op # ops) = (let (g1, out) = step g op; (g2, outs) = trace step g1 ops in (g2, out # outs))"

fun lane_step :: "LaneAdmissionGate \<Rightarrow> lane_op \<Rightarrow> LaneAdmissionGate \<times> lane_out" where
  "lane_step g (AdmitOp tx cls) = map_prod (\<lambda>g. g) Admitted (lane_admit g tx cls)"
| "lane_step g PopOp = map_prod (\<lambda>g. g) Popped (lane_pop_ready g)"

fun gate_step :: "AdmissionGate \<Rightarrow> lane_op \<Rightarrow> AdmissionGate \<times> lane_out" where
  "gate_step g (AdmitOp tx cls) = map_prod (\<lambda>g. g) Admitted (gate_admit g tx)"
| "gate_step g PopOp = map_prod (\<lambda>g. g) Popped (gate_pop_ready g)"

fun spec_step :: "lane_limits \<Rightarrow> lane_spec \<Rightarrow> lane_op \<Rightarrow> lane_spec \<times> lane_out" where
  "spec_step l s (AdmitOp tx cls) = map_prod (\<lambda>s. s) Admitted (spec_admit l s tx cls)"
| "spec_step l s PopOp = map_prod (\<lambda>s. s) Popped (spec_pop l s)"

text \<open>The ids a history put into the queues and took from them.\<close>

fun admitted_ids :: "lane_op list \<Rightarrow> lane_out list \<Rightarrow> u64 list" where
  "admitted_ids (AdmitOp tx cls # ops) (out # outs) = (if out = Admitted Accepted then tx # admitted_ids ops outs else admitted_ids ops outs)"
| "admitted_ids (PopOp # ops) (out # outs) = admitted_ids ops outs"
| "admitted_ids _ _ = []"

fun popped_ids :: "lane_out list \<Rightarrow> u64 list" where
  "popped_ids (Popped (Some tx) # outs) = tx # popped_ids outs"
| "popped_ids (_ # outs) = popped_ids outs"
| "popped_ids [] = []"

fun is_pop :: "lane_op \<Rightarrow> bool" where
  "is_pop PopOp = True"
| "is_pop _ = False"

text \<open>A queue of ids: an accepted id enters, a popped id was in the queue and leaves it, and only an empty queue has nothing to pop.\<close>

locale id_queue =
  fixes step :: "'g \<Rightarrow> lane_op \<Rightarrow> 'g \<times> lane_out" and contents :: "'g \<Rightarrow> u64 multiset" and inv :: "'g \<Rightarrow> bool"
  assumes admit_law: "inv g \<Longrightarrow> step g (AdmitOp tx cls) = (g', out) \<Longrightarrow>
      inv g' \<and> (\<exists>r. out = Admitted r \<and> contents g' = (if r = Accepted then add_mset tx (contents g) else contents g))"
    and pop_law: "inv g \<Longrightarrow> step g PopOp = (g', out) \<Longrightarrow>
      inv g' \<and> (out = Popped None \<and> contents g = {#} \<and> contents g' = {#} \<or> (\<exists>tx. out = Popped (Some tx) \<and> contents g = add_mset tx (contents g')))"
begin

lemma history:
  "inv g \<Longrightarrow> trace step g ops = (g', outs) \<Longrightarrow>
     inv g' \<and> contents g + mset (admitted_ids ops outs) = contents g' + mset (popped_ids outs)"
proof (induction ops arbitrary: g outs)
  case (Cons op ops)
  obtain g1 out where step: "step g op = (g1, out)" by fastforce
  obtain outs1 where rest: "trace step g1 ops = (g', outs1)" "outs = out # outs1"
    using Cons.prems(2) step by (auto split: prod.splits)
  show ?case
  proof (cases op)
    case (AdmitOp tx cls)
    with admit_law [OF Cons.prems(1), of tx cls g1 out] step obtain r where r: "inv g1" "out = Admitted r"
        "contents g1 = (if r = Accepted then add_mset tx (contents g) else contents g)" by auto
    with Cons.IH [OF r(1) rest(1)] rest(2) AdmitOp show ?thesis by (auto simp: add_ac)
  next
    case PopOp
    with pop_law [OF Cons.prems(1), of g1 out] step have *: "inv g1"
      "out = Popped None \<and> contents g = {#} \<and> contents g1 = {#} \<or> (\<exists>tx. out = Popped (Some tx) \<and> contents g = add_mset tx (contents g1))" by auto
    with Cons.IH [OF *(1) rest(1)] rest(2) PopOp show ?thesis by (auto simp: add_ac)
  qed
qed simp

end

definition spec_contents :: "lane_spec \<Rightarrow> u64 multiset" where
  "spec_contents s = mset (sp_normal s) + mset (sp_critical s)"

lemma spec_admit_contents:
  "spec_admit l s tx cls = (s', r) \<Longrightarrow> spec_contents s' = (if r = Accepted then add_mset tx (spec_contents s) else spec_contents s)"
  by (auto simp: spec_admit_def spec_contents_def split: if_splits option.splits IngressClass.splits)

lemma spec_pop_contents:
  "spec_pop l s = (s', r) \<Longrightarrow>
     r = None \<and> spec_contents s = {#} \<and> spec_contents s' = {#} \<or> (\<exists>tx. r = Some tx \<and> spec_contents s = add_mset tx (spec_contents s'))"
  by (cases "sp_normal s"; cases "sp_critical s") (auto simp: spec_pop_def spec_contents_def split: if_splits)

definition lane_contents :: "LaneAdmissionGate \<Rightarrow> u64 multiset" where
  "lane_contents g = mset (ag_queue (lg_normal g)) + mset (ag_queue (lg_critical g))"

lemma lane_contents_abs: "lane_contents g = spec_contents (lane_abs g)"
  by (simp add: lane_contents_def spec_contents_def lane_abs_def)

interpretation lanes: id_queue lane_step lane_contents lanes_ok
proof
  fix g g' :: LaneAdmissionGate and tx cls out
  assume ok: "lanes_ok g"
  { assume "lane_step g (AdmitOp tx cls) = (g', out)"
    then obtain r where r: "lane_admit g tx cls = (g', r)" "out = Admitted r" by (cases "lane_admit g tx cls") auto
    from lane_admit_refines [OF ok r(1)] r(2)
    show "lanes_ok g' \<and> (\<exists>r. out = Admitted r \<and> lane_contents g' = (if r = Accepted then add_mset tx (lane_contents g) else lane_contents g))"
      by (auto simp: lane_contents_abs dest: spec_admit_contents) }
  { assume "lane_step g PopOp = (g', out)"
    then obtain r where r: "lane_pop_ready g = (g', r)" "out = Popped r" by (cases "lane_pop_ready g") auto
    from lane_pop_refines [OF ok r(1)] r(2)
    show "lanes_ok g' \<and> (out = Popped None \<and> lane_contents g = {#} \<and> lane_contents g' = {#} \<or>
        (\<exists>tx. out = Popped (Some tx) \<and> lane_contents g = add_mset tx (lane_contents g')))"
      by (auto simp: lane_contents_abs dest: spec_pop_contents) }
qed

definition gate_ok :: "AdmissionGate \<Rightarrow> bool" where
  "gate_ok g \<longleftrightarrow> ag_seen g = set (ag_queue g) \<and> distinct (ag_queue g) \<and> length (ag_queue g) \<le> ag_capacity g"

lemma gate_admit_ok:
  assumes "gate_ok g" and "gate_admit g tx = (g', r)"
  shows "gate_ok g' \<and> mset (ag_queue g') = (if r = Accepted then add_mset tx (mset (ag_queue g)) else mset (ag_queue g))"
  using assms by (cases g) (auto simp: gate_ok_def gate_admit_def split: if_splits)

lemma gate_pop_ok:
  assumes "gate_ok g" and "gate_pop_ready g = (g', r)"
  shows "gate_ok g' \<and> (r = None \<and> mset (ag_queue g) = {#} \<and> mset (ag_queue g') = {#} \<or>
    (\<exists>tx. r = Some tx \<and> mset (ag_queue g) = add_mset tx (mset (ag_queue g'))))"
  using assms by (cases "ag_queue g") (auto simp: gate_ok_def gate_pop_ready_def)

interpretation gate: id_queue gate_step "\<lambda>g. mset (ag_queue g)" gate_ok
proof
  fix g g' :: AdmissionGate and tx cls out
  assume ok: "gate_ok g"
  { assume "gate_step g (AdmitOp tx cls) = (g', out)"
    then obtain r where r: "gate_admit g tx = (g', r)" "out = Admitted r" by (cases "gate_admit g tx") auto
    from gate_admit_ok [OF ok r(1)] r(2)
    show "gate_ok g' \<and> (\<exists>r. out = Admitted r \<and> mset (ag_queue g') = (if r = Accepted then add_mset tx (mset (ag_queue g)) else mset (ag_queue g)))"
      by blast }
  { assume "gate_step g PopOp = (g', out)"
    then obtain r where r: "gate_pop_ready g = (g', r)" "out = Popped r" by (cases "gate_pop_ready g") auto
    from gate_pop_ok [OF ok r(1)] r(2)
    show "gate_ok g' \<and> (out = Popped None \<and> mset (ag_queue g) = {#} \<and> mset (ag_queue g') = {#} \<or>
        (\<exists>tx. out = Popped (Some tx) \<and> mset (ag_queue g) = add_mset tx (mset (ag_queue g'))))"
      by blast }
qed

lemma trace_refines:
  assumes "lanes_ok g" and "trace lane_step g ops = (g', outs)"
  shows "trace (spec_step (limits_of g)) (lane_abs g) ops = (lane_abs g', outs) \<and> limits_of g' = limits_of g"
  using assms
proof (induction ops arbitrary: g outs)
  case (Cons op ops)
  obtain g1 out where step: "lane_step g op = (g1, out)" by fastforce
  obtain outs1 where rest: "trace lane_step g1 ops = (g', outs1)" "outs = out # outs1"
    using Cons.prems(2) step by (auto split: prod.splits)
  have "lanes_ok g1 \<and> limits_of g1 = limits_of g \<and> spec_step (limits_of g) (lane_abs g) op = (lane_abs g1, out)"
    using step lane_admit_refines [OF Cons.prems(1)] lane_pop_refines [OF Cons.prems(1)]
    by (cases op) (fastforce simp: map_prod_def split: prod.splits)+
  with Cons.IH [of g1 outs1] rest show ?case by simp
qed simp

section \<open>How long an id waits\<close>

text \<open>The pops after which the id at index \<open>i\<close> of the normal lane has left, whatever arrives in between.\<close>

definition wait_bound :: "lane_limits \<Rightarrow> lane_spec \<Rightarrow> nat \<Rightarrow> nat" where
  "wait_bound l s i = i * (ll_burst l + 1) + (ll_burst l - sp_streak s + 1)"

lemma spec_admit_keeps_normal:
  assumes "spec_admit l s tx cls = (s', r)" and "i < length (sp_normal s)"
  shows "i < length (sp_normal s') \<and> sp_normal s' ! i = sp_normal s ! i \<and> sp_streak s' = sp_streak s"
  using assms by (auto simp: spec_admit_def nth_append split: if_splits option.splits IngressClass.splits)

lemma spec_pop_wait:
  assumes pop: "spec_pop l s = (s', r)" and i: "i < length (sp_normal s)" and lim: "0 < ll_normal l"
  shows "r = Some (sp_normal s ! i) \<or>
    (\<exists>j < length (sp_normal s'). sp_normal s' ! j = sp_normal s ! i \<and> wait_bound l s' j < wait_bound l s i)"
proof (cases "sp_critical s = [] \<or> sp_streak s \<ge> ll_burst l")
  case True
  moreover have "sp_normal s \<noteq> []" using i by auto
  ultimately have s': "r = Some (hd (sp_normal s))" "sp_normal s' = tl (sp_normal s)"
    using pop lim by (auto simp: spec_pop_def)
  show ?thesis
  proof (cases i)
    case 0
    with s' i show ?thesis by (simp add: hd_conv_nth)
  next
    case (Suc j)
    with s' i have "j < length (sp_normal s')" "sp_normal s' ! j = sp_normal s ! i" by (auto simp: nth_tl)
    moreover have "wait_bound l s' j < wait_bound l s i" using Suc by (simp add: wait_bound_def)
    ultimately show ?thesis by blast
  qed
next
  case False
  with pop i lim have "sp_normal s' = sp_normal s" "sp_streak s' = sp_streak s + 1" by (auto simp: spec_pop_def split: if_splits)
  moreover from this False have "ll_burst l - sp_streak s' < ll_burst l - sp_streak s" by auto
  then have "wait_bound l s' i < wait_bound l s i" unfolding wait_bound_def by linarith
  ultimately show ?thesis using i by auto
qed

lemma spec_wait:
  assumes "0 < ll_normal l" and "i < length (sp_normal s)" and "wait_bound l s i \<le> length (filter is_pop ops)"
  shows "Popped (Some (sp_normal s ! i)) \<in> set (snd (trace (spec_step l) s ops))"
  using assms(2,3)
proof (induction ops arbitrary: s i)
  case Nil
  then show ?case by (simp add: wait_bound_def)
next
  case (Cons op ops)
  show ?case
  proof (cases op)
    case (AdmitOp tx cls)
    obtain s' r where s': "spec_admit l s tx cls = (s', r)" by fastforce
    with spec_admit_keeps_normal [OF s' Cons.prems(1)] Cons.IH [of i s'] Cons.prems(2) AdmitOp show ?thesis
      by (auto simp: wait_bound_def split: prod.splits)
  next
    case PopOp
    obtain s' r where s': "spec_pop l s = (s', r)" by fastforce
    from spec_pop_wait [OF s' Cons.prems(1) assms(1)] consider "r = Some (sp_normal s ! i)"
      | j where "j < length (sp_normal s')" "sp_normal s' ! j = sp_normal s ! i" "wait_bound l s' j < wait_bound l s i" by blast
    then show ?thesis
    proof cases
      case 2
      with Cons.IH [of j s'] Cons.prems(2) s' PopOp show ?thesis by (auto split: prod.splits)
    qed (use s' PopOp in \<open>auto split: prod.splits\<close>)
  qed
qed

text \<open>One critical id against a stream of normal ids that arrive one at a time.\<close>

lemma spec_starved:
  assumes "0 < ll_normal l" and "x \<noteq> y"
  shows "\<exists>st. trace (spec_step l) \<lparr>sp_normal = [], sp_critical = [x], sp_streak = s\<rparr> (concat (replicate n [AdmitOp y Normal, PopOp])) =
    (\<lparr>sp_normal = [], sp_critical = [x], sp_streak = st\<rparr>, concat (replicate n [Admitted Accepted, Popped (Some y)]))"
proof (induction n arbitrary: s)
  case (Suc n)
  from Suc [of 0] assms show ?case by (auto simp: spec_admit_def spec_pop_def)
qed simp

end
