(* ===== verification/Mempool_Admission.thy ===== *)
theory Mempool_Admission
  imports Mempool_Fairness Ordered_Map
begin

text \<open>
  Typed admission of signed envelopes (\<open>trnm-mempool/src/typed_admission.rs\<close>). The envelope, the admission hooks, the nonce
  authority and its reservations are traits of the caller. An envelope is the record of what its methods return during one admission,
  its digest being read twice. Every other call out is appended with its answer to a journal, and the callbacks are one function that
  answers from the journal so far, so that they may keep any state. A reservation is named by the position of the call
  that made it. A \<open>HashMap\<close> is read by key only and is a \<open>btree\<close>; dropping a lease is written out where Rust does it.
\<close>

section \<open>Data\<close>

definition DEFAULT_MAX_ADMISSION_BODY_BYTES :: u64 where
  "DEFAULT_MAX_ADMISSION_BODY_BYTES = 1024 * 1024"

datatype AdmissionReject =
    CanonicalValidationUnavailable | CanonicalValidationFailed | CanonicalDigestChanged | ZeroDigest | ZeroSignerId
  | SignerIdentityUnavailable | EmptyBody | BodyTooLarge | InvalidNonce | InvalidResourceLimits | ResourceLimitExceeded
  | SignatureUnavailable | SignatureRejected | ReplayCheckUnavailable | Replay | RecheckUnavailable | RecheckFailed
  | ReservationUnavailable | ReservationStateConflict | SlotIdExhausted | InconsistentState

definition digest_from_bytes :: "hash32 \<Rightarrow> (hash32, AdmissionReject) result" where
  "digest_from_bytes bytes = (if bytes = 0 then Err ZeroDigest else Ok bytes)"

definition signer_from_bytes :: "hash32 \<Rightarrow> (hash32, AdmissionReject) result" where
  "signer_from_bytes bytes = (if bytes = 0 then Err ZeroSignerId else Ok bytes)"

record ResourceLimits =
  rl_max_gas :: u64
  rl_max_bytes :: u64

definition limits_validate :: "ResourceLimits \<Rightarrow> u64 \<Rightarrow> u64 \<Rightarrow> (unit, AdmissionReject) result" where
  "limits_validate l body_len configured_max_body_bytes =
     (if rl_max_gas l = 0 \<or> rl_max_bytes l = 0 then Err InvalidResourceLimits
      else if body_len > rl_max_bytes l \<or> body_len > configured_max_body_bytes then Err ResourceLimitExceeded
      else Ok ())"

record SignedEnvelopeView =
  ev_probed_digest :: hash32
  ev_canonical_digest :: hash32
  ev_canonical_signer_id :: "(hash32, AdmissionReject) result"
  ev_canonical_body :: "u8 list"
  ev_nonce :: u64
  ev_fee_limit :: u128
  ev_resource_limits :: ResourceLimits
  ev_validate_canonical :: "(unit, AdmissionReject) result"

record SignedEnvelopeMetadata =
  md_digest :: hash32
  md_signer_id :: hash32
  md_body :: "u8 list"
  md_nonce :: u64
  md_fee_limit :: u128
  md_resource_limits :: ResourceLimits

definition sequence_key :: "SignedEnvelopeMetadata \<Rightarrow> hash32 \<times> u64" where
  "sequence_key m = (md_signer_id m, md_nonce m)"

datatype TypedAdmitOutcome = TypedAccepted | TypedDuplicate | TypedBackpressured | Rejected AdmissionReject

section \<open>Calls to the owner's code\<close>

datatype callout =
    VerifySignature SignedEnvelopeView SignedEnvelopeMetadata
  | CheckReplay SignedEnvelopeMetadata
  | Recheck SignedEnvelopeMetadata
  | ReservePendingNonce SignedEnvelopeView SignedEnvelopeMetadata
  | Handoff nat
  | Commit nat
  | Release nat

type_synonym answer = "(unit, AdmissionReject) result"
type_synonym journal = "(callout \<times> answer) list"
type_synonym callbacks = "journal \<Rightarrow> callout \<Rightarrow> answer"

definition call_out :: "callbacks \<Rightarrow> callout \<Rightarrow> journal \<Rightarrow> journal \<times> answer" where
  "call_out cb c j = (j @ [(c, cb j c)], cb j c)"

section \<open>Leases\<close>

datatype PendingNonceReservationState = Reserved | HandedOff | Committed | Released

record PendingNonceLease =
  pl_reservation :: "nat option"
  pl_state :: PendingNonceReservationState

definition lease_new :: "nat \<Rightarrow> PendingNonceLease" where
  "lease_new reservation = \<lparr>pl_reservation = Some reservation, pl_state = Reserved\<rparr>"

type_synonym 'a lease_step = "(PendingNonceLease \<times> journal) \<times> ('a, AdmissionReject) result"

definition lease_handoff :: "callbacks \<Rightarrow> PendingNonceLease \<Rightarrow> journal \<Rightarrow> unit lease_step" where
  "lease_handoff cb l j =
     (if pl_state l \<noteq> Reserved then ((l, j), Err ReservationStateConflict)
      else tryS (l, j) (ok_or (pl_reservation l) ReservationUnavailable) (\<lambda>t.
        let (j1, r) = call_out cb (Handoff t) j
        in tryS (l, j1) r (\<lambda>_. ((l\<lparr>pl_state := HandedOff\<rparr>, j1), Ok ()))))"

definition lease_commit :: "callbacks \<Rightarrow> PendingNonceLease \<Rightarrow> journal \<Rightarrow> unit lease_step" where
  "lease_commit cb l j =
     (if pl_state l \<noteq> HandedOff then ((l, j), Err ReservationStateConflict)
      else tryS (l, j) (ok_or (pl_reservation l) ReservationUnavailable) (\<lambda>t.
        let (j1, r) = call_out cb (Commit t) j
        in tryS (l, j1) r (\<lambda>_. ((l\<lparr>pl_state := Committed, pl_reservation := None\<rparr>, j1), Ok ()))))"

definition lease_release :: "callbacks \<Rightarrow> PendingNonceLease \<Rightarrow> journal \<Rightarrow> unit lease_step" where
  "lease_release cb l j =
     (if pl_state l = Committed \<or> pl_state l = Released then ((l, j), Err ReservationStateConflict)
      else
        let l1 = l\<lparr>pl_state := Released, pl_reservation := None\<rparr>
        in case pl_reservation l of
            None \<Rightarrow> ((l1, j), Err ReservationUnavailable)
          | Some t \<Rightarrow> let (j1, r) = call_out cb (Release t) j in ((l1, j1), r))"

definition lease_cancel :: "callbacks \<Rightarrow> PendingNonceLease \<Rightarrow> journal \<Rightarrow> unit lease_step" where
  "lease_cancel cb l j =
     (if pl_state l \<noteq> Reserved then ((l, j), Err ReservationStateConflict) else lease_release cb l j)"

definition lease_drop :: "callbacks \<Rightarrow> PendingNonceLease \<Rightarrow> journal \<Rightarrow> journal" where
  "lease_drop cb l j =
     (if pl_state l = Reserved \<or> pl_state l = HandedOff then snd (fst (lease_release cb l j)) else j)"

definition drop_lease :: "callbacks \<Rightarrow> PendingNonceLease option \<Rightarrow> journal \<Rightarrow> journal" where
  "drop_lease cb l j = (case l of None \<Rightarrow> j | Some l \<Rightarrow> lease_drop cb l j)"

record PendingNonceAdmission =
  pa_metadata :: SignedEnvelopeMetadata
  pa_lease :: "PendingNonceLease option"

text \<open>The lifecycle methods of a popped item: each passes to the lease, if the item has one.\<close>

definition on_lease :: "(PendingNonceLease \<Rightarrow> journal \<Rightarrow> unit lease_step) \<Rightarrow> PendingNonceAdmission \<Rightarrow> journal \<Rightarrow>
    (PendingNonceAdmission \<times> journal) \<times> answer" where
  "on_lease f a j =
     (case pa_lease a of
        None \<Rightarrow> ((a, j), Err ReservationUnavailable)
      | Some l \<Rightarrow> let ((l1, j1), r) = f l j in ((a\<lparr>pa_lease := Some l1\<rparr>, j1), r))"

definition admission_handoff :: "callbacks \<Rightarrow> PendingNonceAdmission \<Rightarrow> journal \<Rightarrow> (PendingNonceAdmission \<times> journal) \<times> answer" where
  "admission_handoff cb = on_lease (lease_handoff cb)"

definition admission_commit :: "callbacks \<Rightarrow> PendingNonceAdmission \<Rightarrow> journal \<Rightarrow> (PendingNonceAdmission \<times> journal) \<times> answer" where
  "admission_commit cb = on_lease (lease_commit cb)"

definition admission_release :: "callbacks \<Rightarrow> PendingNonceAdmission \<Rightarrow> journal \<Rightarrow> (PendingNonceAdmission \<times> journal) \<times> answer" where
  "admission_release cb = on_lease (lease_release cb)"

definition admission_cancel :: "callbacks \<Rightarrow> PendingNonceAdmission \<Rightarrow> journal \<Rightarrow> (PendingNonceAdmission \<times> journal) \<times> answer" where
  "admission_cancel cb = on_lease (lease_cancel cb)"

definition reservation_state :: "PendingNonceAdmission \<Rightarrow> (PendingNonceReservationState, AdmissionReject) result" where
  "reservation_state a = ok_or (map_option pl_state (pa_lease a)) ReservationUnavailable"

definition into_metadata :: "callbacks \<Rightarrow> PendingNonceAdmission \<Rightarrow> journal \<Rightarrow> journal \<times> SignedEnvelopeMetadata" where
  "into_metadata cb a j = (drop_lease cb (pa_lease a) j, pa_metadata a)"

section \<open>The gate\<close>

record TypedAdmissionGate =
  tg_lanes :: LaneAdmissionGate
  tg_max_body_bytes :: u64
  tg_next_slot :: u64
  tg_by_slot :: "(u64, SignedEnvelopeMetadata) btree"
  tg_slot_by_digest :: "(hash32, u64) btree"
  tg_pending_reservations :: "(u64, PendingNonceLease) btree"

definition typed_new :: "nat \<Rightarrow> nat \<Rightarrow> u64 \<Rightarrow> TypedAdmissionGate" where
  "typed_new total_capacity critical_reserve max_body_bytes =
     \<lparr>tg_lanes = lane_new total_capacity critical_reserve, tg_max_body_bytes = max_body_bytes, tg_next_slot = 1,
      tg_by_slot = bt_empty, tg_slot_by_digest = bt_empty, tg_pending_reservations = bt_empty\<rparr>"

definition with_default_body_limit :: "nat \<Rightarrow> nat \<Rightarrow> TypedAdmissionGate" where
  "with_default_body_limit total_capacity critical_reserve = typed_new total_capacity critical_reserve DEFAULT_MAX_ADMISSION_BODY_BYTES"

definition contains_digest :: "TypedAdmissionGate \<Rightarrow> hash32 \<Rightarrow> bool" where
  "contains_digest g digest = bt_contains (tg_slot_by_digest g) digest"

text \<open>\<open>u64::try_from(body.len())\<close>.\<close>

definition body_length :: "u8 list \<Rightarrow> (u64, AdmissionReject) result" where
  "body_length body = (if length body < 2 ^ 64 then Ok (of_nat (length body)) else Err BodyTooLarge)"

definition metadata_from :: "TypedAdmissionGate \<Rightarrow> SignedEnvelopeView \<Rightarrow> hash32 \<Rightarrow> (SignedEnvelopeMetadata, AdmissionReject) result" where
  "metadata_from g envelope probed_digest =
     tryR (ev_validate_canonical envelope) (\<lambda>_.
     let digest = ev_canonical_digest envelope
     in if digest \<noteq> probed_digest then Err CanonicalDigestChanged
     else tryR (digest_from_bytes digest) (\<lambda>_.
     tryR (ev_canonical_signer_id envelope) (\<lambda>signer_id.
     let body = ev_canonical_body envelope
     in if body = [] then Err EmptyBody
     else tryR (body_length body) (\<lambda>body_len.
     if body_len > tg_max_body_bytes g then Err BodyTooLarge
     else let nonce = ev_nonce envelope
     in if nonce = 0 then Err InvalidNonce
     else let resource_limits = ev_resource_limits envelope
     in tryR (limits_validate resource_limits body_len (tg_max_body_bytes g)) (\<lambda>_.
     Ok \<lparr>md_digest = digest, md_signer_id = signer_id, md_body = body, md_nonce = nonce,
         md_fee_limit = ev_fee_limit envelope, md_resource_limits = resource_limits\<rparr>)))))"

text \<open>Outside an admission the digest is read twice as well.\<close>

definition canonical_metadata_v0 :: "TypedAdmissionGate \<Rightarrow> SignedEnvelopeView \<Rightarrow> (SignedEnvelopeMetadata, AdmissionReject) result" where
  "canonical_metadata_v0 g envelope = metadata_from g envelope (ev_probed_digest envelope)"

definition validate_duplicate :: "TypedAdmissionGate \<Rightarrow> SignedEnvelopeView \<Rightarrow> hash32 \<Rightarrow> u64 \<Rightarrow> (unit, AdmissionReject) result" where
  "validate_duplicate g envelope probed_digest slot =
     tryR (ev_validate_canonical envelope) (\<lambda>_.
     let digest = ev_canonical_digest envelope
     in if digest \<noteq> probed_digest then Err CanonicalDigestChanged
     else tryR (digest_from_bytes digest) (\<lambda>_.
     tryR (ev_canonical_signer_id envelope) (\<lambda>signer_id.
     tryR (ok_or (bt_get (tg_by_slot g) slot) InconsistentState) (\<lambda>queued.
     if md_digest queued \<noteq> digest \<or> md_signer_id queued \<noteq> signer_id then Err CanonicalValidationFailed
     else let body = ev_canonical_body envelope
     in if body = [] then Err EmptyBody
     else tryR (body_length body) (\<lambda>body_len.
     if body_len > tg_max_body_bytes g then Err BodyTooLarge
     else let nonce = ev_nonce envelope
     in if nonce = 0 then Err InvalidNonce
     else let resource_limits = ev_resource_limits envelope
     in tryR (limits_validate resource_limits body_len (tg_max_body_bytes g)) (\<lambda>_.
     if md_body queued \<noteq> body \<or> md_nonce queued \<noteq> nonce \<or> md_fee_limit queued \<noteq> ev_fee_limit envelope \<or>
        md_resource_limits queued \<noteq> resource_limits
     then Err CanonicalValidationFailed else Ok ()))))))"

fun probe_slots :: "nat \<Rightarrow> u64 \<Rightarrow> (u64, SignedEnvelopeMetadata) btree \<Rightarrow> u64 \<times> (u64, AdmissionReject) result" where
  "probe_slots 0 next_slot by_slot = (next_slot, Err SlotIdExhausted)"
| "probe_slots (Suc n) next_slot by_slot =
     (let candidate = next_slot; next_slot = (case checked_add next_slot 1 of Some s \<Rightarrow> s | None \<Rightarrow> 1)
      in if candidate \<noteq> 0 \<and> \<not> bt_contains by_slot candidate then (next_slot, Ok candidate)
         else probe_slots n next_slot by_slot)"

definition allocate_slot :: "TypedAdmissionGate \<Rightarrow> TypedAdmissionGate \<times> (u64, AdmissionReject) result" where
  "allocate_slot g =
     (let (next_slot, r) = probe_slots (min usize_max (length (entries (tg_by_slot g)) + 1) + 1) (tg_next_slot g) (tg_by_slot g)
      in (g\<lparr>tg_next_slot := next_slot\<rparr>, r))"

definition fresh_admissible_for :: "TypedAdmissionGate \<Rightarrow> IngressClass \<Rightarrow> bool" where
  "fresh_admissible_for g cls =
     (let snapshot = qos_snapshot (tg_lanes g)
      in case cls of Normal \<Rightarrow> qs_fresh_normal_admissible snapshot | Critical \<Rightarrow> qs_fresh_critical_admissible snapshot)"

definition reject_of :: "('a, AdmissionReject) result \<Rightarrow> ('a \<Rightarrow> 's \<times> TypedAdmitOutcome) \<Rightarrow> 's \<Rightarrow> 's \<times> TypedAdmitOutcome" where
  "reject_of r k s = (case r of Ok x \<Rightarrow> k x | Err reason \<Rightarrow> (s, Rejected reason))"

definition duplicate_outcome :: "(unit, AdmissionReject) result \<Rightarrow> TypedAdmitOutcome" where
  "duplicate_outcome r = (case r of Ok _ \<Rightarrow> TypedDuplicate | Err reason \<Rightarrow> Rejected reason)"

text \<open>An accepted slot enters both indexes.\<close>

definition index_slot :: "TypedAdmissionGate \<Rightarrow> u64 \<Rightarrow> SignedEnvelopeMetadata \<Rightarrow> TypedAdmissionGate" where
  "index_slot g slot m =
     g\<lparr>tg_slot_by_digest := bt_insert (md_digest m) slot (tg_slot_by_digest g), tg_by_slot := bt_insert slot m (tg_by_slot g)\<rparr>"

definition admit_signed :: "callbacks \<Rightarrow> TypedAdmissionGate \<times> journal \<Rightarrow> SignedEnvelopeView \<Rightarrow> IngressClass \<Rightarrow>
    (TypedAdmissionGate \<times> journal) \<times> TypedAdmitOutcome" where
  "admit_signed cb s envelope cls =
     (let (g, j) = s; digest = ev_probed_digest envelope
      in case bt_get (tg_slot_by_digest g) digest of
        Some slot \<Rightarrow> ((g, j), duplicate_outcome (validate_duplicate g envelope digest slot))
      | None \<Rightarrow>
        if \<not> fresh_admissible_for g cls then ((g, j), TypedBackpressured)
        else reject_of (metadata_from g envelope digest) (\<lambda>metadata.
          let (j1, r) = call_out cb (VerifySignature envelope metadata) j
          in reject_of r (\<lambda>_.
          let (j2, r) = call_out cb (CheckReplay metadata) j1
          in reject_of r (\<lambda>_.
          let (j3, r) = call_out cb (Recheck metadata) j2
          in reject_of r (\<lambda>_.
          let (g1, r) = allocate_slot g
          in reject_of r (\<lambda>slot.
          let (lanes, out) = lane_admit (tg_lanes g1) slot cls; g2 = g1\<lparr>tg_lanes := lanes\<rparr>
          in case out of
              Accepted \<Rightarrow> ((index_slot g2 slot metadata, j3), TypedAccepted)
            | Duplicate \<Rightarrow> ((g2, j3), TypedDuplicate)
            | Backpressured \<Rightarrow> ((g2, j3), TypedBackpressured)) (g1, j3)) (g, j3)) (g, j2)) (g, j1)) (g, j))"

definition admit_signed_with_pending_nonce :: "callbacks \<Rightarrow> TypedAdmissionGate \<times> journal \<Rightarrow> SignedEnvelopeView \<Rightarrow> IngressClass \<Rightarrow>
    (TypedAdmissionGate \<times> journal) \<times> TypedAdmitOutcome" where
  "admit_signed_with_pending_nonce cb s envelope cls =
     (let (g, j) = s; digest = ev_probed_digest envelope
      in case bt_get (tg_slot_by_digest g) digest of
        Some slot \<Rightarrow> ((g, j), duplicate_outcome (validate_duplicate g envelope digest slot))
      | None \<Rightarrow>
        if \<not> fresh_admissible_for g cls then ((g, j), TypedBackpressured)
        else reject_of (metadata_from g envelope digest) (\<lambda>metadata.
          let (j1, r) = call_out cb (VerifySignature envelope metadata) j
          in reject_of r (\<lambda>_.
          let (j2, r) = call_out cb (ReservePendingNonce envelope metadata) j1
          in reject_of r (\<lambda>_.
          let lease = lease_new (length j1); (j3, r) = call_out cb (Recheck metadata) j2
          in reject_of r (\<lambda>_.
          let (g1, r) = allocate_slot g
          in reject_of r (\<lambda>slot.
          let (lanes, out) = lane_admit (tg_lanes g1) slot cls; g2 = g1\<lparr>tg_lanes := lanes\<rparr>
          in case out of
              Accepted \<Rightarrow>
                let g3 = index_slot g2 slot metadata
                in ((g3\<lparr>tg_pending_reservations := bt_insert slot lease (tg_pending_reservations g3)\<rparr>,
                     drop_lease cb (bt_get (tg_pending_reservations g3) slot) j3), TypedAccepted)
            | Duplicate \<Rightarrow> ((g2, snd (fst (lease_release cb lease j3))), TypedDuplicate)
            | Backpressured \<Rightarrow> ((g2, snd (fst (lease_release cb lease j3))), TypedBackpressured))
          (g1, snd (fst (lease_release cb lease j3)))) (g, snd (fst (lease_release cb lease j3)))) (g, j2)) (g, j1)) (g, j))"

text \<open>\<open>None\<close> after a slot without metadata drops the lease.\<close>

definition pop_ready_parts :: "callbacks \<Rightarrow> TypedAdmissionGate \<times> journal \<Rightarrow>
    (TypedAdmissionGate \<times> journal) \<times> (SignedEnvelopeMetadata \<times> PendingNonceLease option) option" where
  "pop_ready_parts cb s =
     (let (g, j) = s; (lanes, popped) = lane_pop_ready (tg_lanes g); g1 = g\<lparr>tg_lanes := lanes\<rparr>
      in case popped of
          None \<Rightarrow> ((g1, j), None)
        | Some slot \<Rightarrow>
            let metadata = bt_get (tg_by_slot g1) slot; lease = bt_get (tg_pending_reservations g1) slot;
                g2 = g1\<lparr>tg_by_slot := bt_remove slot (tg_by_slot g1), tg_pending_reservations := bt_remove slot (tg_pending_reservations g1)\<rparr>
            in case metadata of
                None \<Rightarrow> ((g2, drop_lease cb lease j), None)
              | Some m \<Rightarrow> ((g2\<lparr>tg_slot_by_digest := bt_remove (md_digest m) (tg_slot_by_digest g2)\<rparr>, j), Some (m, lease)))"

definition typed_pop_ready :: "callbacks \<Rightarrow> TypedAdmissionGate \<times> journal \<Rightarrow> (TypedAdmissionGate \<times> journal) \<times> SignedEnvelopeMetadata option" where
  "typed_pop_ready cb s =
     (case pop_ready_parts cb s of
        ((g, j), None) \<Rightarrow> ((g, j), None)
      | ((g, j), Some (m, lease)) \<Rightarrow> ((g, drop_lease cb lease j), Some m))"

definition pop_ready_with_lifecycle :: "callbacks \<Rightarrow> TypedAdmissionGate \<times> journal \<Rightarrow>
    (TypedAdmissionGate \<times> journal) \<times> PendingNonceAdmission option" where
  "pop_ready_with_lifecycle cb s =
     (case pop_ready_parts cb s of (s, parts) \<Rightarrow> (s, map_option (\<lambda>(m, lease). \<lparr>pa_metadata = m, pa_lease = lease\<rparr>) parts))"

end
