(* ===== verification/Mempool_Lifecycle.thy ===== *)
theory Mempool_Lifecycle
  imports Mempool_Admission
begin

text \<open>
  Histories of the typed gate together with the items its owner has popped and not yet dropped. Two facts carry the properties: an
  equation that accounts for every nonce reservation, and the agreement of the gate's three indexes with its queues.
\<close>

section \<open>The gate and its owner\<close>

record typed_system =
  ts_gate :: TypedAdmissionGate
  ts_journal :: journal
  ts_ready :: "PendingNonceAdmission list"

datatype typed_op =
    OpAdmit SignedEnvelopeView IngressClass
  | OpAdmitNonce SignedEnvelopeView IngressClass
  | OpPop
  | OpPopLifecycle
  | OpHandoff nat
  | OpCommit nat
  | OpRelease nat
  | OpCancel nat
  | OpDrop nat

datatype typed_out =
    OutAdmit TypedAdmitOutcome
  | OutPop "SignedEnvelopeMetadata option"
  | OutLease answer
  | OutDropped SignedEnvelopeMetadata
  | NoItem

definition on_item :: "(PendingNonceAdmission \<Rightarrow> journal \<Rightarrow> (PendingNonceAdmission \<times> journal) \<times> answer) \<Rightarrow> nat \<Rightarrow> typed_system \<Rightarrow>
    typed_system \<times> typed_out" where
  "on_item f i s =
     (if i < length (ts_ready s) then
        let ((a, j), r) = f (ts_ready s ! i) (ts_journal s)
        in (s\<lparr>ts_ready := (ts_ready s)[i := a], ts_journal := j\<rparr>, OutLease r)
      else (s, NoItem))"

fun typed_step :: "callbacks \<Rightarrow> typed_system \<Rightarrow> typed_op \<Rightarrow> typed_system \<times> typed_out" where
  "typed_step cb s (OpAdmit envelope cls) =
     (let ((g, j), out) = admit_signed cb (ts_gate s, ts_journal s) envelope cls in (s\<lparr>ts_gate := g, ts_journal := j\<rparr>, OutAdmit out))"
| "typed_step cb s (OpAdmitNonce envelope cls) =
     (let ((g, j), out) = admit_signed_with_pending_nonce cb (ts_gate s, ts_journal s) envelope cls
      in (s\<lparr>ts_gate := g, ts_journal := j\<rparr>, OutAdmit out))"
| "typed_step cb s OpPop =
     (let ((g, j), out) = typed_pop_ready cb (ts_gate s, ts_journal s) in (s\<lparr>ts_gate := g, ts_journal := j\<rparr>, OutPop out))"
| "typed_step cb s OpPopLifecycle =
     (let ((g, j), out) = pop_ready_with_lifecycle cb (ts_gate s, ts_journal s)
      in (s\<lparr>ts_gate := g, ts_journal := j, ts_ready := ts_ready s @ (case out of None \<Rightarrow> [] | Some a \<Rightarrow> [a])\<rparr>, OutPop (map_option pa_metadata out)))"
| "typed_step cb s (OpHandoff i) = on_item (admission_handoff cb) i s"
| "typed_step cb s (OpCommit i) = on_item (admission_commit cb) i s"
| "typed_step cb s (OpRelease i) = on_item (admission_release cb) i s"
| "typed_step cb s (OpCancel i) = on_item (admission_cancel cb) i s"
| "typed_step cb s (OpDrop i) =
     (if i < length (ts_ready s) then
        let (j, m) = into_metadata cb (ts_ready s ! i) (ts_journal s)
        in (s\<lparr>ts_ready := take i (ts_ready s) @ drop (Suc i) (ts_ready s), ts_journal := j\<rparr>, OutDropped m)
      else (s, NoItem))"

definition typed_start :: "nat \<Rightarrow> nat \<Rightarrow> u64 \<Rightarrow> typed_system" where
  "typed_start c r body = \<lparr>ts_gate = typed_new c r body, ts_journal = [], ts_ready = []\<rparr>"

section \<open>The account of a reservation\<close>

text \<open>The successful reservations, and the calls that end one.\<close>

fun is_reservation :: "callout \<times> answer \<Rightarrow> bool" where
  "is_reservation (ReservePendingNonce v m, Ok u) = True"
| "is_reservation _ = False"

definition reservations :: "journal \<Rightarrow> nat \<Rightarrow> nat" where
  "reservations j t = (if t < length j \<and> is_reservation (j ! t) then 1 else 0)"

definition settles :: "nat \<Rightarrow> callout \<times> answer \<Rightarrow> bool" where
  "settles t e \<longleftrightarrow> fst e = Release t \<or> fst e = Commit t \<and> is_ok (snd e)"

definition settlements :: "journal \<Rightarrow> nat \<Rightarrow> nat" where
  "settlements j t = length (filter (settles t) j)"

definition lease_holds :: "nat \<Rightarrow> PendingNonceLease \<Rightarrow> nat" where
  "lease_holds t l = (if pl_reservation l = Some t \<and> (pl_state l = Reserved \<or> pl_state l = HandedOff) then 1 else 0)"

definition holds :: "nat \<Rightarrow> PendingNonceLease option \<Rightarrow> nat" where
  "holds t l = (case l of None \<Rightarrow> 0 | Some l \<Rightarrow> lease_holds t l)"

definition queue_holds :: "nat \<Rightarrow> TypedAdmissionGate \<Rightarrow> nat" where
  "queue_holds t g = bt_total (lease_holds t) (tg_pending_reservations g)"

definition owner_holds :: "nat \<Rightarrow> typed_system \<Rightarrow> nat" where
  "owner_holds t s = (\<Sum>a\<leftarrow>ts_ready s. holds t (pa_lease a))"

text \<open>A piece of code that turns journal \<open>j\<close> into \<open>j'\<close> and held leases \<open>h\<close> into \<open>h'\<close> keeps the account.\<close>

definition accounts :: "journal \<Rightarrow> (nat \<Rightarrow> nat) \<Rightarrow> journal \<Rightarrow> (nat \<Rightarrow> nat) \<Rightarrow> bool" where
  "accounts j h j' h' \<longleftrightarrow> (\<forall>t. settlements j' t + h' t + reservations j t = settlements j t + h t + reservations j' t)"

lemma accounts_refl [simp]: "accounts j h j h"
  by (simp add: accounts_def)

lemma accounts_trans [trans]:
  assumes "accounts j h j' h'" and "accounts j' h' j'' h''"
  shows "accounts j h j'' h''"
  unfolding accounts_def
proof
  fix t
  show "settlements j'' t + h'' t + reservations j t = settlements j t + h t + reservations j'' t"
    using assms [unfolded accounts_def, THEN spec, of t] by linarith
qed

lemma accounts_frame: "accounts j h j' h' \<Longrightarrow> accounts j (\<lambda>t. h t + k t) j' (\<lambda>t. h' t + k t)"
  by (simp add: accounts_def add.assoc)

lemma settlements_snoc: "settlements (j @ [e]) t = settlements j t + (if settles t e then 1 else 0)"
  by (simp add: settlements_def)

lemma reservations_snoc: "reservations (j @ [e]) t = reservations j t + (if t = length j \<and> is_reservation e then 1 else 0)"
  by (auto simp: reservations_def nth_append)

lemmas snoc_simps = settlements_snoc reservations_snoc settles_def

text \<open>A hook is neither a reservation nor the end of one.\<close>

lemma call_out_simps:
  "fst (call_out cb c j) = j @ [(c, cb j c)]" "snd (call_out cb c j) = cb j c"
  by (simp_all add: call_out_def)

fun is_hook :: "callout \<times> answer \<Rightarrow> bool" where
  "is_hook (VerifySignature v m, r) = True"
| "is_hook (CheckReplay m, r) = True"
| "is_hook (Recheck m, r) = True"
| "is_hook _ = False"

lemma is_hook_settles: "is_hook e \<Longrightarrow> \<not> settles t e \<and> \<not> is_reservation e"
  by (cases e rule: is_hook.cases) (auto simp: settles_def)

lemma hooks_accounts: "list_all is_hook es \<Longrightarrow> accounts j h (j @ es) h"
proof (induction es rule: rev_induct)
  case (snoc e es)
  then have "accounts j h (j @ es) h" by simp
  moreover have "accounts (j @ es) h ((j @ es) @ [e]) h"
    using snoc.prems is_hook_settles [of e] by (simp add: accounts_def settlements_snoc reservations_snoc del: append_assoc)
  ultimately show ?case by (metis accounts_trans append_assoc)
qed simp

lemma reserve_accounts:
  "accounts j h (j @ [(ReservePendingNonce v m, Ok u)]) (\<lambda>t. h t + lease_holds t (lease_new (length j)))"
  "accounts j h (j @ [(ReservePendingNonce v m, Err e)]) h"
  by (auto simp: accounts_def snoc_simps lease_holds_def lease_new_def)

lemma lease_step_accounts:
  "lease_handoff cb l j = ((l', j'), r) \<Longrightarrow> accounts j (\<lambda>t. lease_holds t l) j' (\<lambda>t. lease_holds t l')"
  "lease_commit cb l j = ((l', j'), r) \<Longrightarrow> accounts j (\<lambda>t. lease_holds t l) j' (\<lambda>t. lease_holds t l')"
  "lease_release cb l j = ((l', j'), r) \<Longrightarrow> accounts j (\<lambda>t. lease_holds t l) j' (\<lambda>t. 0)"
  by ((cases "pl_state l"; auto simp: lease_handoff_def lease_commit_def lease_release_def call_out_def tryS_def ok_or_def is_ok_def accounts_def snoc_simps
      lease_holds_def Let_def split: if_splits option.splits result.splits)+)

lemma released_accounts: "accounts j (\<lambda>t. lease_holds t l) (snd (fst (lease_release cb l j))) (\<lambda>t. 0)"
  using lease_step_accounts(3) [of cb l j] by (metis prod.collapse)

lemma lease_released: "lease_release cb l j = ((l', j'), r) \<Longrightarrow> lease_holds t l' = 0"
  by (auto simp: lease_release_def call_out_def lease_holds_def Let_def split: if_splits option.splits)

lemma drop_accounts: "accounts j (\<lambda>t. holds t l) (drop_lease cb l j) (\<lambda>t. 0)"
proof (cases l)
  case (Some x)
  have "accounts j (\<lambda>t. lease_holds t x) (lease_drop cb x j) (\<lambda>t. 0)"
  proof (cases "pl_state x = Reserved \<or> pl_state x = HandedOff")
    case True
    then show ?thesis using released_accounts by (simp add: lease_drop_def)
  qed (simp add: lease_drop_def lease_holds_def accounts_def)
  with Some show ?thesis by (simp add: holds_def drop_lease_def)
qed (simp add: holds_def drop_lease_def)

lemma cancel_accounts:
  "lease_cancel cb l j = ((l', j'), r) \<Longrightarrow> accounts j (\<lambda>t. lease_holds t l) j' (\<lambda>t. lease_holds t l')"
  using lease_step_accounts(3) [of cb l j l' j' r] lease_released [of cb l j l' j' r]
  by (auto simp: lease_cancel_def split: if_splits)

lemma release_accounts:
  "lease_release cb l j = ((l', j'), r) \<Longrightarrow> accounts j (\<lambda>t. lease_holds t l) j' (\<lambda>t. lease_holds t l')"
  using lease_step_accounts(3) [of cb l j l' j' r] lease_released [of cb l j l' j' r] by auto

section \<open>The gate keeps the account\<close>

lemma allocate_slot_frame: "allocate_slot g = (g1, r) \<Longrightarrow> \<exists>n. g1 = g\<lparr>tg_next_slot := n\<rparr>"
  by (auto simp: allocate_slot_def split: prod.splits)

lemma queue_holds_simps [simp]:
  "queue_holds t (g\<lparr>tg_next_slot := n\<rparr>) = queue_holds t g" "queue_holds t (g\<lparr>tg_lanes := l\<rparr>) = queue_holds t g"
  "queue_holds t (index_slot g k m) = queue_holds t g"
  by (simp_all add: queue_holds_def index_slot_def)

lemma queue_holds_remove:
  "bt_total (lease_holds t) (bt_remove k p) + holds t (bt_get p k) = bt_total (lease_holds t) p"
proof (cases "bt_get p k")
  case None
  then have "bt_remove k p = p" by (intro bt_ext) auto
  with None show ?thesis by (simp add: holds_def)
qed (simp add: holds_def bt_total_simps)

lemma admit_signed_frame:
  assumes "admit_signed cb (g, j) envelope cls = ((g', j'), out)"
  shows "\<exists>es. j' = j @ es \<and> list_all is_hook es \<and> tg_pending_reservations g' = tg_pending_reservations g"
  using assms by (auto simp: admit_signed_def reject_of_def call_out_def index_slot_def Let_def
      split: option.splits if_splits result.splits prod.splits AdmitOutcome.splits dest!: allocate_slot_frame)

lemma admit_signed_accounts:
  assumes "admit_signed cb (g, j) envelope cls = ((g', j'), out)"
  shows "accounts j (\<lambda>t. queue_holds t g) j' (\<lambda>t. queue_holds t g')"
  using admit_signed_frame [OF assms] hooks_accounts by (auto simp: queue_holds_def)

text \<open>
  What an admission with a nonce does to the journal and the leases: nothing but hooks; a refused reservation; a lease that is made
  and released again; or a lease that is kept with its slot.
\<close>

inductive nonce_effect :: "callbacks \<Rightarrow> journal \<Rightarrow> (u64, PendingNonceLease) btree \<Rightarrow> journal \<Rightarrow> (u64, PendingNonceLease) btree \<Rightarrow> bool"
  for cb j p where
  hooks: "list_all is_hook es \<Longrightarrow> nonce_effect cb j p (j @ es) p"
| refused: "nonce_effect cb j p (j @ [(VerifySignature v m, r), (ReservePendingNonce v m, Err e)]) p"
| released: "j3 = j @ [(VerifySignature v m, r), (ReservePendingNonce v m, Ok ()), (Recheck m, r')] \<Longrightarrow>
    nonce_effect cb j p (snd (fst (lease_release cb (lease_new (Suc (length j))) j3))) p"
| kept: "j3 = j @ [(VerifySignature v m, r), (ReservePendingNonce v m, Ok ()), (Recheck m, r')] \<Longrightarrow>
    nonce_effect cb j p (drop_lease cb (bt_get p slot) j3) (bt_insert slot (lease_new (Suc (length j))) p)"

lemma nonce_effect_silent: "nonce_effect cb j p j p" "nonce_effect cb j p (j @ [(VerifySignature v m, r)]) p"
  using nonce_effect.hooks [of "[]" cb j p] nonce_effect.hooks [of "[(VerifySignature v m, r)]" cb j p] by simp_all

lemma admit_nonce_effect:
  assumes "admit_signed_with_pending_nonce cb (g, j) envelope cls = ((g', j'), out)"
  shows "nonce_effect cb j (tg_pending_reservations g) j' (tg_pending_reservations g')"
  using assms
  by (auto simp: admit_signed_with_pending_nonce_def reject_of_def call_out_def index_slot_def Let_def
      split: option.splits if_splits result.splits prod.splits AdmitOutcome.splits
      dest!: allocate_slot_frame intro: nonce_effect_silent nonce_effect.intros)

lemma reserved_accounts:
  "accounts j h (j @ [(VerifySignature v m, r), (ReservePendingNonce v m, Ok ()), (Recheck m, r')])
     (\<lambda>t. h t + lease_holds t (lease_new (Suc (length j))))"
proof -
  have "accounts j h (j @ [(VerifySignature v m, r)]) h" by (rule hooks_accounts) simp
  also have "accounts (j @ [(VerifySignature v m, r)]) h ((j @ [(VerifySignature v m, r)]) @ [(ReservePendingNonce v m, Ok ())])
      (\<lambda>t. h t + lease_holds t (lease_new (length (j @ [(VerifySignature v m, r)]))))" by (rule reserve_accounts)
  also have "accounts ((j @ [(VerifySignature v m, r)]) @ [(ReservePendingNonce v m, Ok ())]) (\<lambda>t. h t + lease_holds t (lease_new (length (j @ [(VerifySignature v m, r)]))))
      (((j @ [(VerifySignature v m, r)]) @ [(ReservePendingNonce v m, Ok ())]) @ [(Recheck m, r')]) (\<lambda>t. h t + lease_holds t (lease_new (length (j @ [(VerifySignature v m, r)]))))"
    by (rule hooks_accounts) simp
  finally show ?thesis by simp
qed

lemma nonce_effect_accounts:
  "nonce_effect cb j p j' p' \<Longrightarrow> accounts j (\<lambda>t. bt_total (lease_holds t) p) j' (\<lambda>t. bt_total (lease_holds t) p')"
proof (induction rule: nonce_effect.induct)
  case (hooks es)
  then show ?case by (rule hooks_accounts)
next
  case (refused v m r e)
  let ?held = "\<lambda>t. bt_total (lease_holds t) p"
  have "accounts j ?held (j @ [(VerifySignature v m, r)]) ?held" by (rule hooks_accounts) simp
  also have "accounts (j @ [(VerifySignature v m, r)]) ?held ((j @ [(VerifySignature v m, r)]) @ [(ReservePendingNonce v m, Err e)]) ?held"
    by (rule reserve_accounts)
  finally show ?case by simp
next
  case (released j3 v m r r')
  let ?held = "\<lambda>t. bt_total (lease_holds t) p" and ?lease = "lease_new (Suc (length j))"
  have "accounts j ?held j3 (\<lambda>t. ?held t + lease_holds t ?lease)" unfolding released by (rule reserved_accounts)
  also have "accounts j3 (\<lambda>t. ?held t + lease_holds t ?lease) (snd (fst (lease_release cb ?lease j3))) ?held"
    using accounts_frame [OF released_accounts [of j3 ?lease cb], of ?held] by (simp add: add.commute)
  finally show ?case .
next
  case (kept j3 v m r r' slot)
  let ?held = "\<lambda>t. bt_total (lease_holds t) p" and ?lease = "lease_new (Suc (length j))"
  let ?held' = "\<lambda>t. bt_total (lease_holds t) (bt_insert slot ?lease p)"
  have "?held' t + holds t (bt_get p slot) = ?held t + lease_holds t ?lease" for t
    by (cases "bt_get p slot") (simp_all add: holds_def bt_total_simps)
  then have eq: "?held t + lease_holds t ?lease = holds t (bt_get p slot) + ?held' t" for t by (metis add.commute)
  have "accounts j ?held j3 (\<lambda>t. ?held t + lease_holds t ?lease)" unfolding kept by (rule reserved_accounts)
  also have "accounts j3 (\<lambda>t. ?held t + lease_holds t ?lease) (drop_lease cb (bt_get p slot) j3) ?held'"
    using accounts_frame [OF drop_accounts [of j3 "bt_get p slot" cb], of ?held'] by (simp add: eq)
  finally show ?case .
qed

lemma admit_nonce_accounts:
  assumes "admit_signed_with_pending_nonce cb (g, j) envelope cls = ((g', j'), out)"
  shows "accounts j (\<lambda>t. queue_holds t g) j' (\<lambda>t. queue_holds t g')"
  using nonce_effect_accounts [OF admit_nonce_effect [OF assms]] by (simp add: queue_holds_def)

lemma pop_parts_accounts:
  assumes "pop_ready_parts cb (g, j) = ((g', j'), out)"
  shows "accounts j (\<lambda>t. queue_holds t g) j' (\<lambda>t. holds t (case out of None \<Rightarrow> None | Some (m, l) \<Rightarrow> l) + queue_holds t g')"
proof (cases "snd (lane_pop_ready (tg_lanes g))")
  case None
  with assms show ?thesis by (auto simp: pop_ready_parts_def holds_def split: prod.splits)
next
  case (Some slot)
  let ?lease = "bt_get (tg_pending_reservations g) slot"
  have g': "tg_pending_reservations g' = bt_remove slot (tg_pending_reservations g)"
    using assms Some by (auto simp: pop_ready_parts_def Let_def split: prod.splits option.splits)
  have eq: "queue_holds t g = holds t ?lease + queue_holds t g'" for t
    unfolding queue_holds_def g' using queue_holds_remove [of t slot "tg_pending_reservations g"] by simp
  consider "out = None" "j' = drop_lease cb ?lease j" | m where "out = Some (m, ?lease)" "j' = j"
    using assms Some by (auto simp: pop_ready_parts_def Let_def split: prod.splits option.splits)
  then show ?thesis
  proof cases
    case 1
    with accounts_frame [OF drop_accounts, of j ?lease "\<lambda>t. queue_holds t g'" cb] show ?thesis
      by (simp add: eq holds_def [of _ None])
  qed (simp add: eq)
qed

lemma typed_pop_accounts:
  assumes "typed_pop_ready cb (g, j) = ((g', j'), out)"
  shows "accounts j (\<lambda>t. queue_holds t g) j' (\<lambda>t. queue_holds t g')"
proof -
  obtain j1 parts where parts: "pop_ready_parts cb (g, j) = ((g', j1), parts)"
      "j' = drop_lease cb (case parts of None \<Rightarrow> None | Some (m, l) \<Rightarrow> l) j1"
    using assms by (auto simp: typed_pop_ready_def drop_lease_def split: prod.splits option.splits)
  note pop_parts_accounts [OF parts(1)]
  also have "accounts j1 (\<lambda>t. holds t (case parts of None \<Rightarrow> None | Some (m, l) \<Rightarrow> l) + queue_holds t g') j' (\<lambda>t. queue_holds t g')"
    using accounts_frame [OF drop_accounts, of j1 _ "\<lambda>t. queue_holds t g'" cb] parts(2) by simp
  finally show ?thesis .
qed

lemma on_lease_accounts:
  assumes "\<And>l j l' j' r. f l j = ((l', j'), r) \<Longrightarrow> accounts j (\<lambda>t. lease_holds t l) j' (\<lambda>t. lease_holds t l')"
    and "on_lease f a j = ((a', j'), r)"
  shows "accounts j (\<lambda>t. holds t (pa_lease a)) j' (\<lambda>t. holds t (pa_lease a'))"
  using assms(2) assms(1) by (auto simp: on_lease_def holds_def split: option.splits prod.splits)

lemma item_accounts:
  "admission_handoff cb a j = ((a', j'), r) \<Longrightarrow> accounts j (\<lambda>t. holds t (pa_lease a)) j' (\<lambda>t. holds t (pa_lease a'))"
  "admission_commit cb a j = ((a', j'), r) \<Longrightarrow> accounts j (\<lambda>t. holds t (pa_lease a)) j' (\<lambda>t. holds t (pa_lease a'))"
  "admission_release cb a j = ((a', j'), r) \<Longrightarrow> accounts j (\<lambda>t. holds t (pa_lease a)) j' (\<lambda>t. holds t (pa_lease a'))"
  "admission_cancel cb a j = ((a', j'), r) \<Longrightarrow> accounts j (\<lambda>t. holds t (pa_lease a)) j' (\<lambda>t. holds t (pa_lease a'))"
  unfolding admission_handoff_def admission_commit_def admission_release_def admission_cancel_def
  by (erule on_lease_accounts [rotated], erule lease_step_accounts release_accounts cancel_accounts)+

text \<open>The item at one position is the whole of the owner's part that an operation changes.\<close>

lemma owner_at:
  assumes "i < length xs"
  shows "(\<Sum>a\<leftarrow>xs[i := b]. f a) = f b + (\<Sum>a\<leftarrow>take i xs @ drop (Suc i) xs. f a)"
    and "(\<Sum>a\<leftarrow>xs. f a) = f (xs ! i) + (\<Sum>a\<leftarrow>take i xs @ drop (Suc i) xs. (f a :: nat))"
proof -
  show upd: "(\<Sum>a\<leftarrow>xs[i := b]. f a) = f b + (\<Sum>a\<leftarrow>take i xs @ drop (Suc i) xs. f a)" for b
    using assms by (simp add: upd_conv_take_nth_drop)
  show "(\<Sum>a\<leftarrow>xs. f a) = f (xs ! i) + (\<Sum>a\<leftarrow>take i xs @ drop (Suc i) xs. (f a :: nat))"
    using upd [of "xs ! i"] by simp
qed

definition system_holds :: "nat \<Rightarrow> typed_system \<Rightarrow> nat" where
  "system_holds t s = queue_holds t (ts_gate s) + owner_holds t s"

lemma on_item_accounts:
  assumes "\<And>a j a' j' r. f a j = ((a', j'), r) \<Longrightarrow> accounts j (\<lambda>t. holds t (pa_lease a)) j' (\<lambda>t. holds t (pa_lease a'))"
    and "on_item f i s = (s', out)"
  shows "accounts (ts_journal s) (\<lambda>t. system_holds t s) (ts_journal s') (\<lambda>t. system_holds t s')"
proof (cases "i < length (ts_ready s)")
  case True
  let ?a = "ts_ready s ! i"
  obtain a' j' r where f: "f ?a (ts_journal s) = ((a', j'), r)" by (metis surj_pair)
  define rest where "rest t = (\<Sum>a\<leftarrow>take i (ts_ready s) @ drop (Suc i) (ts_ready s). holds t (pa_lease a))" for t
  have "s' = s\<lparr>ts_ready := (ts_ready s)[i := a'], ts_journal := j'\<rparr>" using assms(2) True f by (simp add: on_item_def)
  then have "system_holds t s' = holds t (pa_lease a') + (rest t + queue_holds t (ts_gate s))" "ts_journal s' = j'"
    "system_holds t s = holds t (pa_lease ?a) + (rest t + queue_holds t (ts_gate s))" for t
    using owner_at [OF True, where f = "\<lambda>a. holds t (pa_lease a)"] by (simp_all add: system_holds_def owner_holds_def rest_def)
  with accounts_frame [OF assms(1) [OF f], of "\<lambda>t. rest t + queue_holds t (ts_gate s)"] show ?thesis by simp
next
  case False
  with assms(2) show ?thesis by (simp add: on_item_def)
qed

lemma gate_accounts:
  assumes "accounts (ts_journal s) (\<lambda>t. queue_holds t (ts_gate s)) j (\<lambda>t. queue_holds t g)"
  shows "accounts (ts_journal s) (\<lambda>t. system_holds t s) j (\<lambda>t. system_holds t (s\<lparr>ts_gate := g, ts_journal := j\<rparr>))"
  using accounts_frame [OF assms, of "\<lambda>t. owner_holds t s"] by (simp add: system_holds_def owner_holds_def)

lemma typed_step_accounts:
  assumes step: "typed_step cb s op = (s', out)"
  shows "accounts (ts_journal s) (\<lambda>t. system_holds t s) (ts_journal s') (\<lambda>t. system_holds t s')"
proof (cases op)
  case (OpAdmit envelope cls)
  with step show ?thesis by (auto dest!: admit_signed_accounts gate_accounts split: prod.splits)
next
  case (OpAdmitNonce envelope cls)
  with step show ?thesis by (auto dest!: admit_nonce_accounts gate_accounts split: prod.splits)
next
  case OpPop
  with step show ?thesis by (auto dest!: typed_pop_accounts gate_accounts split: prod.splits)
next
  case OpPopLifecycle
  obtain g j parts where parts: "pop_ready_parts cb (ts_gate s, ts_journal s) = ((g, j), parts)" by (metis surj_pair)
  with step OpPopLifecycle have "ts_gate s' = g" "ts_journal s' = j"
      "ts_ready s' = ts_ready s @ (case parts of None \<Rightarrow> [] | Some (m, l) \<Rightarrow> [\<lparr>pa_metadata = m, pa_lease = l\<rparr>])"
    by (auto simp: pop_ready_with_lifecycle_def split: option.splits)
  then have "system_holds t s' = holds t (case parts of None \<Rightarrow> None | Some (m, l) \<Rightarrow> l) + queue_holds t g + owner_holds t s" for t
    by (auto simp: system_holds_def owner_holds_def holds_def [of _ None] split: option.splits)
  with accounts_frame [OF pop_parts_accounts [OF parts], of "\<lambda>t. owner_holds t s"] \<open>ts_journal s' = j\<close> show ?thesis
    by (simp add: system_holds_def)
next
  case (OpDrop i)
  show ?thesis
  proof (cases "i < length (ts_ready s)")
    case True
    define rest where "rest t = (\<Sum>a\<leftarrow>take i (ts_ready s) @ drop (Suc i) (ts_ready s). holds t (pa_lease a)) + queue_holds t (ts_gate s)" for t
    have s': "s' = s\<lparr>ts_ready := take i (ts_ready s) @ drop (Suc i) (ts_ready s), ts_journal := drop_lease cb (pa_lease (ts_ready s ! i)) (ts_journal s)\<rparr>"
      using step OpDrop True by (simp add: into_metadata_def)
    have "system_holds t s' = rest t" "system_holds t s = holds t (pa_lease (ts_ready s ! i)) + rest t" for t
      using owner_at(2) [OF True, where f = "\<lambda>a. holds t (pa_lease a)"] by (simp_all add: system_holds_def owner_holds_def rest_def s')
    with accounts_frame [OF drop_accounts [of "ts_journal s" "pa_lease (ts_ready s ! i)" cb], of rest] show ?thesis by (simp add: s')
  qed (use step OpDrop in simp)
qed (use step in \<open>auto elim!: on_item_accounts [rotated] dest: item_accounts\<close>)

lemma trace_accounts:
  assumes "trace (typed_step cb) s ops = (s', outs)"
  shows "accounts (ts_journal s) (\<lambda>t. system_holds t s) (ts_journal s') (\<lambda>t. system_holds t s')"
  using assms
proof (induction ops arbitrary: s outs)
  case (Cons op ops)
  obtain s1 out where step: "typed_step cb s op = (s1, out)" by fastforce
  obtain outs1 where rest: "trace (typed_step cb) s1 ops = (s', outs1)"
    using Cons.prems step by (auto split: prod.splits)
  from typed_step_accounts [OF step] Cons.IH [OF rest] show ?case by (rule accounts_trans)
qed simp

end
