(* ===== verification/Mempool_Index.thy ===== *)
theory Mempool_Index
  imports Mempool_Lifecycle
begin

text \<open>
  The typed gate's indexes agree with its queues, every queued or popped item has passed the hooks, and the lease of an item is the
  reservation made for it.
\<close>

section \<open>What an item has passed\<close>

definition wellformed :: "u64 \<Rightarrow> SignedEnvelopeMetadata \<Rightarrow> bool" where
  "wellformed body m \<longleftrightarrow>
     md_digest m \<noteq> 0 \<and> md_nonce m \<noteq> 0 \<and> md_body m \<noteq> [] \<and> length (md_body m) \<le> unat body \<and>
     rl_max_gas (md_resource_limits m) \<noteq> 0 \<and> length (md_body m) \<le> unat (rl_max_bytes (md_resource_limits m))"

definition passed_hooks :: "journal \<Rightarrow> SignedEnvelopeMetadata \<Rightarrow> bool" where
  "passed_hooks j m \<longleftrightarrow>
     (\<exists>v. (VerifySignature v m, Ok ()) \<in> set j) \<and> (Recheck m, Ok ()) \<in> set j \<and>
     ((CheckReplay m, Ok ()) \<in> set j \<or> (\<exists>v. (ReservePendingNonce v m, Ok ()) \<in> set j))"

definition lease_for :: "journal \<Rightarrow> SignedEnvelopeMetadata \<Rightarrow> PendingNonceLease option \<Rightarrow> bool" where
  "lease_for j m lease \<longleftrightarrow>
     (\<forall>l t. lease = Some l \<longrightarrow> pl_reservation l = Some t \<longrightarrow> t < length j \<and> (\<exists>v. j ! t = (ReservePendingNonce v m, Ok ())))"

definition item_ok :: "u64 \<Rightarrow> journal \<Rightarrow> SignedEnvelopeMetadata \<Rightarrow> PendingNonceLease option \<Rightarrow> bool" where
  "item_ok body j m lease \<longleftrightarrow> wellformed body m \<and> passed_hooks j m \<and> lease_for j m lease"

lemma item_ok_mono: "item_ok body j m lease \<Longrightarrow> item_ok body (j @ es) m lease"
  unfolding item_ok_def passed_hooks_def lease_for_def by (fastforce simp: nth_append)

lemma item_ok_without: "item_ok body j m lease \<Longrightarrow> item_ok body j m None"
  by (simp add: item_ok_def lease_for_def)

lemma metadata_wellformed: "metadata_from g v d = Ok m \<Longrightarrow> wellformed (tg_max_body_bytes g) m \<and> md_digest m = d"
  by (auto simp: metadata_from_def tryR_def body_length_def limits_validate_def digest_from_bytes_def wellformed_def Let_def
      word_le_nat_alt word_less_nat_alt unat_of_nat not_less split: if_splits result.splits)

section \<open>Queued slots\<close>

definition queued :: "LaneAdmissionGate \<Rightarrow> u64 set" where
  "queued g = set (ag_queue (lg_normal g)) \<union> set (ag_queue (lg_critical g))"

lemma queued_contents: "queued g = set_mset (lane_contents g)"
  by (simp add: queued_def lane_contents_def)

lemma lane_admit_queued:
  assumes ok: "lanes_ok g" and admit: "lane_admit g tx cls = (g', out)"
  shows "lanes_ok g' \<and> queued g' = (if out = Accepted then insert tx (queued g) else queued g)"
  using lanes.admit_law [OF ok, of tx cls g' "Admitted out"] admit by (auto simp: queued_contents)

lemma lane_pop_queued:
  assumes ok: "lanes_ok g" and pop: "lane_pop_ready g = (g', out)"
  shows "lanes_ok g' \<and> (out = None \<and> queued g = {} \<and> queued g' = {} \<or> (\<exists>tx. out = Some tx \<and> tx \<in> queued g \<and> queued g' = queued g - {tx}))"
proof -
  have law: "lanes_ok g'" "out = None \<and> lane_contents g = {#} \<and> lane_contents g' = {#} \<or>
      (\<exists>tx. out = Some tx \<and> lane_contents g = add_mset tx (lane_contents g'))"
    using lanes.pop_law [OF ok, of g' "Popped out"] pop by auto
  have "tx \<notin># lane_contents g'" if "lane_contents g = add_mset tx (lane_contents g')" for tx
  proof -
    have "lane_contents g = mset (ag_queue (lg_normal g) @ ag_queue (lg_critical g))" by (simp add: lane_contents_def)
    moreover have "distinct (ag_queue (lg_normal g) @ ag_queue (lg_critical g))" using ok by (simp add: lanes_ok_def)
    ultimately have "count (lane_contents g) tx \<le> 1" by (metis distinct_count_atmost_1 dual_order.refl zero_le)
    with that show ?thesis by (simp add: not_in_iff)
  qed
  with law show ?thesis by (auto simp: queued_contents)
qed

lemma probe_slots_fresh: "probe_slots n next_slot m = (next_slot', Ok slot) \<Longrightarrow> \<not> bt_contains m slot"
  by (induction n next_slot m rule: probe_slots.induct) (auto simp: Let_def split: if_splits)

lemma allocate_slot_fresh: "allocate_slot g = (g1, Ok slot) \<Longrightarrow> \<not> bt_contains (tg_by_slot g) slot"
  by (auto simp: allocate_slot_def simp del: probe_slots.simps split: prod.splits dest: probe_slots_fresh)

section \<open>The indexes\<close>

definition index_ok :: "TypedAdmissionGate \<Rightarrow> bool" where
  "index_ok g \<longleftrightarrow>
     lanes_ok (tg_lanes g) \<and>
     (\<forall>k. bt_contains (tg_by_slot g) k \<longleftrightarrow> k \<in> queued (tg_lanes g)) \<and>
     (\<forall>d k. bt_get (tg_slot_by_digest g) d = Some k \<longleftrightarrow> (\<exists>m. bt_get (tg_by_slot g) k = Some m \<and> md_digest m = d)) \<and>
     (\<forall>k. bt_contains (tg_pending_reservations g) k \<longrightarrow> bt_contains (tg_by_slot g) k)"

definition items_ok :: "typed_system \<Rightarrow> bool" where
  "items_ok s \<longleftrightarrow>
     index_ok (ts_gate s) \<and>
     (\<forall>k m. bt_get (tg_by_slot (ts_gate s)) k = Some m \<longrightarrow>
        item_ok (tg_max_body_bytes (ts_gate s)) (ts_journal s) m (bt_get (tg_pending_reservations (ts_gate s)) k)) \<and>
     (\<forall>a\<in>set (ts_ready s). item_ok (tg_max_body_bytes (ts_gate s)) (ts_journal s) (pa_metadata a) (pa_lease a))"

text \<open>An admission leaves the records alone, or adds one item.\<close>

definition same_records :: "TypedAdmissionGate \<Rightarrow> TypedAdmissionGate \<Rightarrow> bool" where
  "same_records g g' \<longleftrightarrow>
     lanes_ok (tg_lanes g') \<and> queued (tg_lanes g') = queued (tg_lanes g) \<and> tg_by_slot g' = tg_by_slot g \<and>
     tg_slot_by_digest g' = tg_slot_by_digest g \<and> tg_pending_reservations g' = tg_pending_reservations g"

definition adds_record :: "TypedAdmissionGate \<Rightarrow> TypedAdmissionGate \<Rightarrow> SignedEnvelopeMetadata \<Rightarrow> PendingNonceLease option \<Rightarrow> bool" where
  "adds_record g g' m lease \<longleftrightarrow>
     (\<exists>slot. lanes_ok (tg_lanes g') \<and> queued (tg_lanes g') = insert slot (queued (tg_lanes g)) \<and>
        bt_get (tg_slot_by_digest g) (md_digest m) = None \<and> bt_get (tg_by_slot g) slot = None \<and>
        tg_by_slot g' = bt_insert slot m (tg_by_slot g) \<and> tg_slot_by_digest g' = bt_insert (md_digest m) slot (tg_slot_by_digest g) \<and>
        tg_pending_reservations g' = (case lease of None \<Rightarrow> tg_pending_reservations g | Some l \<Rightarrow> bt_insert slot l (tg_pending_reservations g)))"

lemma same_records_ok: "index_ok g \<Longrightarrow> same_records g g' \<Longrightarrow> index_ok g'"
  unfolding index_ok_def same_records_def by (elim conjE, intro conjI) auto

lemma adds_record_ok:
  assumes ok: "index_ok g" and adds: "adds_record g g' m lease"
  shows "index_ok g'"
proof -
  obtain slot where slot: "lanes_ok (tg_lanes g')" "queued (tg_lanes g') = insert slot (queued (tg_lanes g))"
      "bt_get (tg_slot_by_digest g) (md_digest m) = None" "bt_get (tg_by_slot g) slot = None"
      "tg_by_slot g' = bt_insert slot m (tg_by_slot g)" "tg_slot_by_digest g' = bt_insert (md_digest m) slot (tg_slot_by_digest g)"
      "tg_pending_reservations g' = (case lease of None \<Rightarrow> tg_pending_reservations g | Some l \<Rightarrow> bt_insert slot l (tg_pending_reservations g))"
    using adds by (auto simp: adds_record_def)
  have inv: "bt_get (tg_slot_by_digest g) d = Some k \<longleftrightarrow> (\<exists>m. bt_get (tg_by_slot g) k = Some m \<and> md_digest m = d)" for d k
    using ok by (simp add: index_ok_def)
  have "bt_get (tg_slot_by_digest g') d = Some k \<longleftrightarrow> (\<exists>m. bt_get (tg_by_slot g') k = Some m \<and> md_digest m = d)" for d k
    using inv [of d k] slot(3,4) by (cases "k = slot"; cases "d = md_digest m") (auto simp: slot(5,6))
  moreover have "bt_contains (tg_by_slot g') k \<longleftrightarrow> k \<in> queued (tg_lanes g')" for k
    using ok by (auto simp: index_ok_def slot(2,5) bt_contains_def)
  moreover have "bt_contains (tg_pending_reservations g') k \<Longrightarrow> bt_contains (tg_by_slot g') k" for k
    using ok by (auto simp: index_ok_def slot(5,7) bt_contains_def split: option.splits if_splits)
  ultimately show ?thesis using slot(1) by (simp add: index_ok_def)
qed

text \<open>The end of both admissions: a slot is drawn and offered to the lanes.\<close>

lemma slot_offered:
  assumes ok: "index_ok g" and slot: "allocate_slot g = (g1, Ok slot)" and admit: "lane_admit (tg_lanes g1) slot cls = (lanes, out)"
  shows "lanes_ok lanes \<and> queued lanes = (if out = Accepted then insert slot (queued (tg_lanes g)) else queued (tg_lanes g)) \<and>
    bt_get (tg_by_slot g) slot = None \<and> bt_get (tg_pending_reservations g) slot = None"
proof -
  from allocate_slot_frame [OF slot] have "tg_lanes g1 = tg_lanes g" by auto
  with ok admit have "lanes_ok lanes \<and> queued lanes = (if out = Accepted then insert slot (queued (tg_lanes g)) else queued (tg_lanes g))"
    using lane_admit_queued by (auto simp: index_ok_def)
  moreover have "bt_get (tg_by_slot g) slot = None" using allocate_slot_fresh [OF slot] by (simp add: bt_contains_def)
  ultimately show ?thesis using ok by (auto simp: index_ok_def bt_contains_def)
qed

inductive record_effect :: "TypedAdmissionGate \<Rightarrow> journal \<Rightarrow> TypedAdmissionGate \<Rightarrow> journal \<Rightarrow> bool" for g j where
  same: "same_records g g' \<Longrightarrow> tg_max_body_bytes g' = tg_max_body_bytes g \<Longrightarrow> record_effect g j g' (j @ es)"
| adds: "adds_record g g' m lease \<Longrightarrow> tg_max_body_bytes g' = tg_max_body_bytes g \<Longrightarrow>
    item_ok (tg_max_body_bytes g) (j @ es) m lease \<Longrightarrow> record_effect g j g' (j @ es)"

lemma record_effect_refl: "index_ok g \<Longrightarrow> record_effect g j g (j @ es)" "index_ok g \<Longrightarrow> record_effect g j g j"
  using record_effect.same [of g g j es] record_effect.same [of g g j "[]"] by (simp_all add: same_records_def index_ok_def)

lemma record_effect_drawn:
  assumes ok: "index_ok g" and slot: "allocate_slot g = (g1, r)"
  shows "record_effect g j g1 (j @ es)"
  using ok allocate_slot_frame [OF slot] by (intro record_effect.same) (auto simp: same_records_def index_ok_def)

lemma record_effect_refused:
  assumes ok: "index_ok g" and slot: "allocate_slot g = (g1, Ok slot)" and admit: "lane_admit (tg_lanes g1) slot cls = (lanes, out)"
    and out: "out \<noteq> Accepted"
  shows "record_effect g j (g1\<lparr>tg_lanes := lanes\<rparr>) (j @ es)"
  using slot_offered [OF ok slot admit] allocate_slot_frame [OF slot] out
  by (intro record_effect.same) (auto simp: same_records_def)

lemma record_effect_accepted:
  assumes ok: "index_ok g" and fresh: "bt_get (tg_slot_by_digest g) d = None" and m: "metadata_from g v d = Ok m"
    and slot: "allocate_slot g = (g1, Ok slot)" and admit: "lane_admit (tg_lanes g1) slot cls = (lanes, Accepted)"
  shows "passed_hooks (j @ es) m \<Longrightarrow> record_effect g j (index_slot (g1\<lparr>tg_lanes := lanes\<rparr>) slot m) (j @ es)"
    and "passed_hooks (j @ es) m \<Longrightarrow> lease_for (j @ es) m (Some l) \<Longrightarrow>
      record_effect g j ((index_slot (g1\<lparr>tg_lanes := lanes\<rparr>) slot m)
        \<lparr>tg_pending_reservations := bt_insert slot l (tg_pending_reservations g)\<rparr>) (j @ es)"
proof -
  note facts = slot_offered [OF ok slot admit] allocate_slot_frame [OF slot] metadata_wellformed [OF m] fresh
  assume hooks: "passed_hooks (j @ es) m"
  show "record_effect g j (index_slot (g1\<lparr>tg_lanes := lanes\<rparr>) slot m) (j @ es)"
    using facts hooks by (intro record_effect.adds [where lease = None]) (auto simp: adds_record_def index_slot_def item_ok_def lease_for_def)
  assume "lease_for (j @ es) m (Some l)"
  then show "record_effect g j ((index_slot (g1\<lparr>tg_lanes := lanes\<rparr>) slot m)
        \<lparr>tg_pending_reservations := bt_insert slot l (tg_pending_reservations g)\<rparr>) (j @ es)"
    using facts hooks by (intro record_effect.adds [where lease = "Some l"]) (auto simp: adds_record_def index_slot_def item_ok_def)
qed

lemma record_effect_kept:
  assumes ok: "index_ok g" and fresh: "bt_get (tg_slot_by_digest g) d = None" and m: "metadata_from g v d = Ok m"
    and slot: "allocate_slot g = (g1, Ok slot)" and admit: "lane_admit (tg_lanes g1) slot cls = (lanes, Accepted)"
    and hooks: "passed_hooks (j @ es) m" "lease_for (j @ es) m (Some l)"
  shows "record_effect g j ((index_slot (g1\<lparr>tg_lanes := lanes\<rparr>) slot m)\<lparr>tg_pending_reservations := bt_insert slot l (tg_pending_reservations g1)\<rparr>)
     (drop_lease cb (bt_get (tg_pending_reservations g1) slot) (j @ es))"
proof -
  have "tg_pending_reservations g1 = tg_pending_reservations g" using allocate_slot_frame [OF slot] by auto
  with slot_offered [OF ok slot admit] record_effect_accepted(2) [OF ok fresh m slot admit hooks] show ?thesis
    by (simp add: drop_lease_def)
qed

lemma passed_all:
  "passed_hooks (j @ [(VerifySignature v m, Ok ()), (CheckReplay m, Ok ()), (Recheck m, Ok ())]) m"
  "passed_hooks (j @ [(VerifySignature v m, Ok ()), (ReservePendingNonce v m, Ok ()), (Recheck m, Ok ())]) m"
  "lease_for (j @ [(VerifySignature v m, Ok ()), (ReservePendingNonce v m, Ok ()), (Recheck m, Ok ())]) m (Some (lease_new (Suc (length j))))"
  by (auto simp: passed_hooks_def lease_for_def lease_new_def nth_append)

lemma index_slot_frame [simp]: "tg_pending_reservations (index_slot g k m) = tg_pending_reservations g"
  by (simp add: index_slot_def)

lemmas record_effects = record_effect_drawn record_effect_refused record_effect_accepted(1) record_effect_kept

lemma admit_signed_records:
  assumes ok: "index_ok g" and admit: "admit_signed cb (g, j) envelope cls = ((g', j'), out)"
  shows "record_effect g j g' j'"
  using admit record_effect_refl [OF ok, of j]
  by (auto simp: admit_signed_def reject_of_def call_out_def Let_def
      split: option.splits if_splits result.splits prod.splits AdmitOutcome.splits intro: record_effects [OF ok] passed_all)

text \<open>A lease that is released again leaves a longer journal behind.\<close>

lemma release_grows: "\<exists>es. snd (fst (lease_release cb l j)) = j @ es"
  by (auto simp: lease_release_def call_out_def Let_def split: option.splits)

lemma drop_grows: "\<exists>es. drop_lease cb l j = j @ es"
  using release_grows by (auto simp: drop_lease_def lease_drop_def split: option.splits)

lemma record_effect_longer:
  assumes "record_effect g j g' j'" and "j'' = j' @ es"
  shows "record_effect g j g' j''"
  using assms
proof (cases rule: record_effect.cases)
  case (adds m lease es')
  with assms(2) record_effect.adds [of g g' m lease j "es' @ es"] item_ok_mono [of "tg_max_body_bytes g" "j @ es'" m lease es]
  show ?thesis by simp
qed (use assms(2) in \<open>auto intro: record_effect.same\<close>)

lemma admit_nonce_records:
  assumes ok: "index_ok g" and admit: "admit_signed_with_pending_nonce cb (g, j) envelope cls = ((g', j'), out)"
  shows "record_effect g j g' j'"
proof -
  have released: "record_effect g j h (snd (fst (lease_release cb l (j @ es))))" if "record_effect g j h (j @ es)" for h l es
    using release_grows [of cb l "j @ es"] record_effect_longer [OF that] by auto
  show ?thesis
    using admit record_effect_refl [OF ok, of j] released [OF record_effect_refl(1) [OF ok]]
    by (auto simp: admit_signed_with_pending_nonce_def reject_of_def call_out_def Let_def
        split: option.splits if_splits result.splits prod.splits AdmitOutcome.splits intro: record_effects [OF ok] passed_all released)
qed

text \<open>A pop takes the records of the slot it takes from the lanes.\<close>

lemma pop_parts_records:
  assumes ok: "index_ok g" and pop: "pop_ready_parts cb (g, j) = ((g', j'), out)"
  shows "index_ok g' \<and> j' = j \<and> tg_max_body_bytes g' = tg_max_body_bytes g \<and>
    (out = None \<and> queued (tg_lanes g) = {} \<and> tg_by_slot g' = tg_by_slot g \<and> tg_pending_reservations g' = tg_pending_reservations g \<or>
     (\<exists>slot m. lane_pop_ready (tg_lanes g) = (tg_lanes g', Some slot) \<and> bt_get (tg_by_slot g) slot = Some m \<and>
        out = Some (m, bt_get (tg_pending_reservations g) slot) \<and>
        tg_by_slot g' = bt_remove slot (tg_by_slot g) \<and> tg_pending_reservations g' = bt_remove slot (tg_pending_reservations g)))"
proof -
  obtain lanes popped where lanes: "lane_pop_ready (tg_lanes g) = (lanes, popped)" by fastforce
  have inv: "lanes_ok (tg_lanes g)" "\<And>k. bt_contains (tg_by_slot g) k \<longleftrightarrow> k \<in> queued (tg_lanes g)"
    "\<And>d k. bt_get (tg_slot_by_digest g) d = Some k \<longleftrightarrow> (\<exists>m. bt_get (tg_by_slot g) k = Some m \<and> md_digest m = d)"
    "\<And>k. bt_contains (tg_pending_reservations g) k \<Longrightarrow> bt_contains (tg_by_slot g) k"
    using ok by (auto simp: index_ok_def)
  from lane_pop_queued [OF inv(1) lanes] have lanes_ok: "lanes_ok lanes" and
    "popped = None \<and> queued (tg_lanes g) = {} \<and> queued lanes = {} \<or>
      (\<exists>slot. popped = Some slot \<and> slot \<in> queued (tg_lanes g) \<and> queued lanes = queued (tg_lanes g) - {slot})" by auto
  then consider (empty) "popped = None" "queued (tg_lanes g) = {}" "queued lanes = {}"
    | (slot) slot where "popped = Some slot" "slot \<in> queued (tg_lanes g)" "queued lanes = queued (tg_lanes g) - {slot}" by blast
  then show ?thesis
  proof cases
    case empty
    then have "g' = g\<lparr>tg_lanes := lanes\<rparr>" "j' = j" "out = None" using pop lanes by (auto simp: pop_ready_parts_def)
    with empty ok lanes_ok show ?thesis by (auto simp: index_ok_def)
  next
    case slot
    with inv(2) obtain m where m: "bt_get (tg_by_slot g) slot = Some m" by (auto simp: bt_contains_iff)
    have digest: "bt_get (tg_slot_by_digest g) (md_digest m) = Some slot" using m inv(3) by auto
    have g': "tg_lanes g' = lanes" "tg_by_slot g' = bt_remove slot (tg_by_slot g)" "tg_max_body_bytes g' = tg_max_body_bytes g"
        "tg_pending_reservations g' = bt_remove slot (tg_pending_reservations g)"
        "tg_slot_by_digest g' = bt_remove (md_digest m) (tg_slot_by_digest g)"
        "j' = j" "out = Some (m, bt_get (tg_pending_reservations g) slot)"
      using pop lanes slot(1) m by (auto simp: pop_ready_parts_def Let_def)
    have "bt_get (tg_slot_by_digest g') d = Some k \<longleftrightarrow> (\<exists>m. bt_get (tg_by_slot g') k = Some m \<and> md_digest m = d)" for d k
      using inv(3) [of d k] m digest by (auto simp: g')
    moreover have "bt_contains (tg_by_slot g') k \<longleftrightarrow> k \<in> queued (tg_lanes g')" for k
      using inv(2) [of k] by (auto simp: g' slot(3) bt_contains_def)
    moreover have "bt_contains (tg_pending_reservations g') k \<Longrightarrow> bt_contains (tg_by_slot g') k" for k
      using inv(4) [of k] by (auto simp: g' bt_contains_def split: if_splits)
    ultimately have "index_ok g'" using lanes_ok by (simp add: index_ok_def g')
    with g' lanes slot(1) m show ?thesis by auto
  qed
qed

section \<open>Histories\<close>

lemma queued_new: "queued (lane_new c r) = {}"
  by (simp add: queued_def lane_new_def gate_new_def Let_def)

lemma items_ok_start: "items_ok (typed_start c r body)"
  by (simp add: items_ok_def index_ok_def typed_start_def typed_new_def lane_new_ok bt_contains_def queued_new)

lemma record_effect_items:
  assumes ok: "items_ok s" and effect: "record_effect (ts_gate s) (ts_journal s) g j"
  shows "items_ok (s\<lparr>ts_gate := g, ts_journal := j\<rparr>)"
  using effect
proof cases
  case (same es)
  with ok show ?thesis by (auto simp: items_ok_def same_records_def intro: item_ok_mono same_records_ok)
next
  case (adds m lease es)
  then obtain slot where slot: "bt_get (tg_by_slot (ts_gate s)) slot = None" "tg_by_slot g = bt_insert slot m (tg_by_slot (ts_gate s))"
      "tg_pending_reservations g = (case lease of None \<Rightarrow> tg_pending_reservations (ts_gate s)
         | Some l \<Rightarrow> bt_insert slot l (tg_pending_reservations (ts_gate s)))"
    by (auto simp: adds_record_def)
  have idx: "index_ok (ts_gate s)" "index_ok g" using ok adds adds_record_ok by (auto simp: items_ok_def)
  have "bt_get (tg_pending_reservations (ts_gate s)) slot = None"
    using idx(1) slot(1) by (auto simp: index_ok_def bt_contains_def)
  then have "bt_get (tg_pending_reservations g) k = (if k = slot then lease else bt_get (tg_pending_reservations (ts_gate s)) k)" for k
    using slot(3) by (auto split: option.splits)
  with ok adds slot idx show ?thesis by (auto simp: items_ok_def intro: item_ok_mono)
qed

text \<open>A lifecycle method keeps the reservation of its lease or gives it up.\<close>

lemma lease_keeps:
  assumes "f \<in> {lease_handoff cb, lease_commit cb, lease_release cb, lease_cancel cb}" and "f l j = ((l', j'), r)"
  shows "(\<exists>es. j' = j @ es) \<and> (pl_reservation l' = None \<or> pl_reservation l' = pl_reservation l)"
  using assms by (auto simp: lease_handoff_def lease_commit_def lease_release_def lease_cancel_def call_out_def tryS_def ok_or_def Let_def
      split: if_splits option.splits result.splits)

lemma on_lease_item:
  assumes "f \<in> {lease_handoff cb, lease_commit cb, lease_release cb, lease_cancel cb}" and "on_lease f a j = ((a', j'), r)"
    and ok: "item_ok body j (pa_metadata a) (pa_lease a)"
  shows "(\<exists>es. j' = j @ es) \<and> pa_metadata a' = pa_metadata a \<and> item_ok body j' (pa_metadata a) (pa_lease a')"
proof (cases "pa_lease a")
  case None
  with assms show ?thesis by (auto simp: on_lease_def)
next
  case (Some l)
  obtain l' j1 r1 where f: "f l j = ((l', j1), r1)" by (metis surj_pair)
  with Some assms(2) have a': "a' = a\<lparr>pa_lease := Some l'\<rparr>" "j' = j1" by (auto simp: on_lease_def)
  from lease_keeps [OF assms(1) f] obtain es where es: "j1 = j @ es" "pl_reservation l' = None \<or> pl_reservation l' = pl_reservation l" by auto
  from item_ok_mono [OF ok, of es] Some es(2) have "item_ok body (j @ es) (pa_metadata a) (Some l')"
    by (auto simp: item_ok_def lease_for_def)
  with a' es(1) show ?thesis by simp
qed

lemma on_item_items:
  assumes f: "f \<in> {lease_handoff cb, lease_commit cb, lease_release cb, lease_cancel cb}" and step: "on_item (on_lease f) i s = (s', out)"
    and ok: "items_ok s"
  shows "items_ok s' \<and> (\<exists>es. ts_journal s' = ts_journal s @ es) \<and> ts_gate s' = ts_gate s \<and> (\<forall>m. out \<noteq> OutPop m)"
proof (cases "i < length (ts_ready s)")
  case True
  let ?a = "ts_ready s ! i"
  obtain a' j' r where run: "on_lease f ?a (ts_journal s) = ((a', j'), r)" by (metis surj_pair)
  have s': "s' = s\<lparr>ts_ready := (ts_ready s)[i := a'], ts_journal := j'\<rparr>" "out = OutLease r" using step True run by (simp_all add: on_item_def)
  have "item_ok (tg_max_body_bytes (ts_gate s)) (ts_journal s) (pa_metadata ?a) (pa_lease ?a)" using ok True by (simp add: items_ok_def)
  from on_lease_item [OF f run this] obtain es where es: "j' = ts_journal s @ es" "pa_metadata a' = pa_metadata ?a"
    "item_ok (tg_max_body_bytes (ts_gate s)) j' (pa_metadata a') (pa_lease a')" by auto
  with ok have "items_ok s'"
    by (auto simp: items_ok_def s' dest!: subsetD [OF set_update_subset_insert] intro: item_ok_mono)
  with es(1) s' show ?thesis by simp
next
  case False
  with step ok show ?thesis by (simp add: on_item_def)
qed

lemma items_ok_longer: "items_ok s \<Longrightarrow> items_ok (s\<lparr>ts_journal := ts_journal s @ es\<rparr>)"
  by (auto simp: items_ok_def intro: item_ok_mono)

lemma pop_parts_items:
  assumes ok: "items_ok s" and pop: "pop_ready_parts cb (ts_gate s, ts_journal s) = ((g, j), parts)"
  shows "items_ok (s\<lparr>ts_gate := g\<rparr>) \<and> j = ts_journal s \<and> tg_max_body_bytes g = tg_max_body_bytes (ts_gate s) \<and>
    (\<forall>m l. parts = Some (m, l) \<longrightarrow> item_ok (tg_max_body_bytes (ts_gate s)) (ts_journal s) m l)"
proof -
  from ok have "index_ok (ts_gate s)" by (simp add: items_ok_def)
  from pop_parts_records [OF this pop] ok show ?thesis
    by (elim conjE disjE exE) (simp_all add: items_ok_def)
qed

lemma record_effect_frame: "record_effect g j g' j' \<Longrightarrow> (\<exists>es. j' = j @ es) \<and> tg_max_body_bytes g' = tg_max_body_bytes g"
  by (auto elim: record_effect.cases)

lemma admit_step_items:
  assumes "items_ok s" and "record_effect (ts_gate s) (ts_journal s) g j"
  shows "items_ok (s\<lparr>ts_gate := g, ts_journal := j\<rparr>) \<and> (\<exists>es. j = ts_journal s @ es) \<and> tg_max_body_bytes g = tg_max_body_bytes (ts_gate s)"
  using record_effect_items [OF assms] record_effect_frame [OF assms(2)] by simp

lemma typed_step_items:
  assumes step: "typed_step cb s op = (s', out)" and ok: "items_ok s"
  shows "items_ok s' \<and> (\<exists>es. ts_journal s' = ts_journal s @ es) \<and> tg_max_body_bytes (ts_gate s') = tg_max_body_bytes (ts_gate s) \<and>
    (\<forall>m. out = OutPop (Some m) \<longrightarrow> item_ok (tg_max_body_bytes (ts_gate s)) (ts_journal s') m None)"
proof -
  from ok have idx: "index_ok (ts_gate s)" by (simp add: items_ok_def)
  have item: ?thesis if "on_item (on_lease f) i s = (s', out)" "f \<in> {lease_handoff cb, lease_commit cb, lease_release cb, lease_cancel cb}" for f i
    using on_item_items [OF that(2,1) ok] by auto
  show ?thesis
  proof (cases op)
    case (OpAdmit envelope cls)
    obtain g j r where admit: "admit_signed cb (ts_gate s, ts_journal s) envelope cls = ((g, j), r)" by (metis surj_pair)
    with step OpAdmit admit_step_items [OF ok admit_signed_records [OF idx admit]] show ?thesis by auto
  next
    case (OpAdmitNonce envelope cls)
    obtain g j r where admit: "admit_signed_with_pending_nonce cb (ts_gate s, ts_journal s) envelope cls = ((g, j), r)" by (metis surj_pair)
    with step OpAdmitNonce admit_step_items [OF ok admit_nonce_records [OF idx admit]] show ?thesis by auto
  next
    case OpPop
    obtain g j parts where pop: "pop_ready_parts cb (ts_gate s, ts_journal s) = ((g, j), parts)" by (metis surj_pair)
    define lease where "lease = (case parts of None \<Rightarrow> None | Some (m, l) \<Rightarrow> l)"
    obtain es where es: "drop_lease cb lease (ts_journal s) = ts_journal s @ es" using drop_grows by blast
    note facts = pop_parts_items [OF ok pop]
    have "s' = s\<lparr>ts_gate := g, ts_journal := ts_journal s @ es\<rparr>" "out = OutPop (map_option fst parts)"
      using step OpPop pop facts es by (auto simp: typed_pop_ready_def lease_def drop_lease_def split: option.splits)
    with facts items_ok_longer [of "s\<lparr>ts_gate := g\<rparr>" es] show ?thesis
      by (auto intro: item_ok_mono item_ok_without)
  next
    case OpPopLifecycle
    obtain g j parts where pop: "pop_ready_parts cb (ts_gate s, ts_journal s) = ((g, j), parts)" by (metis surj_pair)
    note facts = pop_parts_items [OF ok pop]
    show ?thesis
    proof (cases parts)
      case None
      with step OpPopLifecycle pop facts show ?thesis by (auto simp: pop_ready_with_lifecycle_def)
    next
      case (Some p)
      then obtain m l where p: "parts = Some (m, l)" by (cases p) auto
      with step OpPopLifecycle pop facts have s': "s' = s\<lparr>ts_gate := g, ts_ready := ts_ready s @ [\<lparr>pa_metadata = m, pa_lease = l\<rparr>]\<rparr>" "out = OutPop (Some m)"
        by (auto simp: pop_ready_with_lifecycle_def)
      with facts p show ?thesis by (auto simp: items_ok_def item_ok_def lease_for_def)
    qed
  next
    case (OpDrop i)
    show ?thesis
    proof (cases "i < length (ts_ready s)")
      case True
      obtain es where "drop_lease cb (pa_lease (ts_ready s ! i)) (ts_journal s) = ts_journal s @ es" using drop_grows by blast
      with step OpDrop True have s': "s' = s\<lparr>ts_ready := take i (ts_ready s) @ drop (Suc i) (ts_ready s), ts_journal := ts_journal s @ es\<rparr>"
          "\<And>m. out \<noteq> OutPop m"
        by (auto simp: into_metadata_def)
      with items_ok_longer [OF ok, of es] show ?thesis
        by (auto simp: items_ok_def dest: in_set_takeD in_set_dropD)
    qed (use step OpDrop ok in auto)
  qed (use step in \<open>auto intro!: item simp: admission_handoff_def admission_commit_def admission_release_def admission_cancel_def\<close>)
qed

lemma trace_items:
  assumes "trace (typed_step cb) s ops = (s', outs)" and "items_ok s"
  shows "items_ok s' \<and> (\<exists>es. ts_journal s' = ts_journal s @ es) \<and> tg_max_body_bytes (ts_gate s') = tg_max_body_bytes (ts_gate s) \<and>
    (\<forall>m. OutPop (Some m) \<in> set outs \<longrightarrow> item_ok (tg_max_body_bytes (ts_gate s)) (ts_journal s') m None)"
  using assms
proof (induction ops arbitrary: s outs)
  case (Cons op ops)
  obtain s1 out where step: "typed_step cb s op = (s1, out)" by fastforce
  obtain outs1 where rest: "trace (typed_step cb) s1 ops = (s', outs1)" "outs = out # outs1"
    using Cons.prems step by (auto split: prod.splits)
  from typed_step_items [OF step Cons.prems(2)] Cons.IH [OF rest(1)] rest(2) show ?case
    by (auto intro: item_ok_mono [where j = "j1 @ j2" for j1 j2, simplified])
qed simp

section \<open>Slots never run out\<close>

definition succ_slot :: "u64 \<Rightarrow> u64" where
  "succ_slot s = (case checked_add s 1 of Some s \<Rightarrow> s | None \<Rightarrow> 1)"

lemma unat_succ_slot: "s \<noteq> 0 \<Longrightarrow> unat (succ_slot s) = unat s mod (2 ^ 64 - 1) + 1"
proof -
  assume "s \<noteq> 0"
  then have s: "0 < unat s" "unat s < 2 ^ 64" using unat_bound [of s] by (auto simp: unat_gt_0)
  show ?thesis
  proof (cases "unat s + 1 < 2 ^ 64")
    case True
    then have "unat (s + 1) = unat s + 1" by (simp add: unat_add_lem [THEN iffD1])
    with True show ?thesis by (simp add: succ_slot_def checked_add_def)
  next
    case False
    with s have "unat s = 2 ^ 64 - 1" by simp
    then show ?thesis by (simp add: succ_slot_def checked_add_def)
  qed
qed

lemma unat_slot_seq: "s \<noteq> 0 \<Longrightarrow> unat ((succ_slot ^^ k) s) = (unat s - 1 + k) mod (2 ^ 64 - 1) + 1"
proof (induction k)
  case 0
  have "unat s - 1 < 2 ^ 64 - 1" using unat_bound [of s] "0" by (simp add: unat_gt_0)
  with "0" show ?case by (simp add: unat_gt_0)
next
  case (Suc k)
  then have IH: "unat ((succ_slot ^^ k) s) = (unat s - 1 + k) mod (2 ^ 64 - 1) + 1" by simp
  then have "(succ_slot ^^ k) s \<noteq> 0" by auto
  from unat_succ_slot [OF this] IH show ?case by (simp add: mod_Suc_eq)
qed

lemma slot_seq_inj:
  assumes "s \<noteq> 0" and "n \<le> 2 ^ 64 - 1"
  shows "inj_on (\<lambda>k. (succ_slot ^^ k) s) {..<n}"
proof (rule inj_onI)
  fix a b assume ab: "a \<in> {..<n}" "b \<in> {..<n}" "(succ_slot ^^ a) s = (succ_slot ^^ b) s"
  then have "(unat s - 1 + a) mod (2 ^ 64 - 1) = (unat s - 1 + b) mod (2 ^ 64 - 1)"
    using unat_slot_seq [OF assms(1), of a] unat_slot_seq [OF assms(1), of b] by simp
  then have "a mod (2 ^ 64 - 1) = b mod (2 ^ 64 - 1)" by (simp only: nat_mod_eq_iff) (auto simp: ac_simps)
  with ab assms(2) show "a = b" by simp
qed

lemma probe_slots_taken:
  assumes "s \<noteq> 0" and "probe_slots n s m = (s', Err e)"
  shows "\<forall>k<n. bt_contains m ((succ_slot ^^ k) s)"
  using assms
proof (induction n arbitrary: s)
  case (Suc n)
  have taken: "bt_contains m s" "probe_slots n (succ_slot s) m = (s', Err e)"
    using Suc.prems by (auto simp: succ_slot_def Let_def split: if_splits)
  have "succ_slot s \<noteq> 0" using unat_succ_slot [OF Suc.prems(1)] by auto
  from Suc.IH [OF this taken(2)] have "bt_contains m ((succ_slot ^^ Suc k) s)" if "k < n" for k
    using that by (simp add: funpow_swap1)
  with taken(1) show ?case by (auto simp: less_Suc_eq_0_disj)
qed simp

lemma keys_contains: "fst ` set (entries m) = {k. bt_contains m k}"
  by (force simp: bt_contains_iff simp flip: entries_get)

lemma probe_slots_finds:
  assumes "s \<noteq> 0" and "length (entries m) < n" and "n \<le> 2 ^ 64 - 1"
  shows "\<exists>s' slot. probe_slots n s m = (s', Ok slot)"
proof (rule ccontr)
  assume "\<not> ?thesis"
  then obtain s' e where "probe_slots n s m = (s', Err e)" by (metis result.exhaust surj_pair)
  from probe_slots_taken [OF assms(1) this]
  have "(\<lambda>k. (succ_slot ^^ k) s) ` {..<n} \<subseteq> fst ` set (entries m)"
    by (auto simp: keys_contains)
  then have "card ((\<lambda>k. (succ_slot ^^ k) s) ` {..<n}) \<le> card (fst ` set (entries m))" by (intro card_mono) auto
  with slot_seq_inj [OF assms(1,3)] have "n \<le> card (fst ` set (entries m))" by (simp add: card_image)
  also have "\<dots> \<le> length (entries m)" by (metis card_length length_map set_map)
  finally show False using assms(2) by simp
qed

lemma allocate_slot_finds:
  assumes "length (entries (tg_by_slot g)) + 2 < 2 ^ 64"
  shows "\<exists>g1 slot. allocate_slot g = (g1, Ok slot)"
proof -
  let ?len = "length (entries (tg_by_slot g))"
  have fuel: "min usize_max (?len + 1) + 1 = Suc (?len + 1)" using assms by (simp add: usize_max_def)
  have "\<exists>s' slot. probe_slots (Suc (?len + 1)) (tg_next_slot g) (tg_by_slot g) = (s', Ok slot)"
  proof (cases "tg_next_slot g = 0")
    case True
    have "checked_add (0 :: u64) 1 = Some 1" by (simp add: checked_add_def)
    with True probe_slots_finds [of 1 "tg_by_slot g" "?len + 1"] assms show ?thesis by (simp add: Let_def)
  next
    case False
    with probe_slots_finds [of "tg_next_slot g" "tg_by_slot g" "Suc (?len + 1)"] assms show ?thesis by simp
  qed
  then show ?thesis unfolding allocate_slot_def fuel by (auto simp del: probe_slots.simps)
qed

section \<open>What passes the checks is queued\<close>

lemma fresh_admissible_iff:
  assumes "lanes_ok (tg_lanes g)"
  shows "fresh_admissible_for g cls \<longleftrightarrow> spec_lane (limits_of (tg_lanes g)) (lane_abs (tg_lanes g)) cls \<noteq> None"
proof -
  have "spec_lane (limits_of (tg_lanes g)) (lane_abs (tg_lanes g)) cls = None" if "lg_total_capacity (tg_lanes g) \<le> lane_total (tg_lanes g)"
    using that assms by (cases cls) (auto simp: lane_total_def lane_abs_def limits_of_def lanes_ok_def)
  moreover have "fresh_admissible_for g cls = fresh_admissible (tg_lanes g) cls"
    by (cases cls) (simp_all add: fresh_admissible_for_def qos_snapshot_def)
  ultimately show ?thesis
    unfolding fresh_admissible_def lane_has_global_headroom_def guard_blocks_iff [OF assms] by (metis not_less)
qed

lemma slot_accepted:
  assumes ok: "index_ok g" and fresh: "fresh_admissible_for g cls" and slot: "allocate_slot g = (g1, Ok slot)"
  shows "\<exists>lanes. lane_admit (tg_lanes g1) slot cls = (lanes, Accepted)"
proof -
  obtain lanes out where admit: "lane_admit (tg_lanes g) slot cls = (lanes, out)" by fastforce
  have lanes: "lanes_ok (tg_lanes g)" using ok by (simp add: index_ok_def)
  have "slot \<notin> queued (tg_lanes g)" using allocate_slot_fresh [OF slot] ok by (simp add: index_ok_def)
  then have "out = Accepted"
    using lane_admit_refines [OF lanes admit] fresh unfolding fresh_admissible_iff [OF lanes]
    by (auto simp: spec_admit_def queued_def lane_abs_def simp del: spec_lane.simps split: IngressClass.splits)
  with admit allocate_slot_frame [OF slot] show ?thesis by auto
qed

lemma entries_lane_total:
  assumes "index_ok g"
  shows "length (entries (tg_by_slot g)) = lane_total (tg_lanes g)"
proof -
  have lanes: "lanes_ok (tg_lanes g)" using assms by (simp add: index_ok_def)
  have "fst ` set (entries (tg_by_slot g)) = queued (tg_lanes g)"
    using assms by (auto simp: index_ok_def keys_contains)
  moreover have "queued (tg_lanes g) = lg_seen_global (tg_lanes g)" using lanes by (simp add: queued_def lanes_ok_def)
  moreover have "length (entries (tg_by_slot g)) = card (fst ` set (entries (tg_by_slot g)))"
    using distinct_card [OF bt.iter_distinct [of "tg_by_slot g"]] by simp
  ultimately show ?thesis using lanes_okD(3) [OF lanes] by metis
qed

end
