(* ===== verification/Mempool_Properties.thy ===== *)
theory Mempool_Properties
  imports Mempool_Index
begin

text \<open>
  The properties of the mempool: those of the two-lane gate over all histories of admissions and pops from a new gate, and those of
  the typed gate over all histories of its operations and all answers of its owner's hooks and nonce authority.
\<close>

text \<open>
  C12. Over every history of admissions and pops, the gate with its id caches, repairs and probes returns exactly what two
  plain first-in-first-out queues return. No id is queued twice, the queues never hold more than the capacity, and the accepted
  ids are the popped ids and those still queued.
\<close>

theorem lane_gate_refines:
  "case trace lane_step (lane_new c r) ops of (g, outs) \<Rightarrow>
     trace (spec_step \<lparr>ll_normal = c - r, ll_critical = min r c, ll_burst = max (min usize_max (min r c * 2)) 1\<rparr>)
       \<lparr>sp_normal = [], sp_critical = [], sp_streak = 0\<rparr> ops = (lane_abs g, outs) \<and>
     distinct (ag_queue (lg_normal g) @ ag_queue (lg_critical g)) \<and>
     length (ag_queue (lg_normal g)) \<le> c - r \<and> length (ag_queue (lg_critical g)) \<le> min r c \<and>
     mset (admitted_ids ops outs) = mset (popped_ids outs) + mset (ag_queue (lg_normal g)) + mset (ag_queue (lg_critical g))"
proof -
  obtain g outs where g: "trace lane_step (lane_new c r) ops = (g, outs)" by fastforce
  have "limits_of (lane_new c r) = \<lparr>ll_normal = c - r, ll_critical = min r c, ll_burst = max (min usize_max (min r c * 2)) 1\<rparr>"
    and "lane_abs (lane_new c r) = \<lparr>sp_normal = [], sp_critical = [], sp_streak = 0\<rparr>" and "lane_contents (lane_new c r) = {#}"
    by (auto simp: lane_new_def gate_new_def limits_of_def lane_abs_def lane_contents_def Let_def)
  with trace_refines [OF lane_new_ok g] lanes.history [OF lane_new_ok g] show ?thesis
    by (auto simp: g limits_of_def lanes_ok_def lane_contents_def)
qed

text \<open>
  C25. An id at index \<open>i\<close> of the normal lane leaves the gate within \<open>(i + 1) * (burst limit + 1)\<close> pops, whatever
  is admitted in between.
\<close>

theorem lane_normal_served:
  assumes "i < length (ag_queue (lg_normal (fst (trace lane_step (lane_new c r) before))))"
    and "(i + 1) * (max (min usize_max (min r c * 2)) 1 + 1) \<le> length (filter is_pop ops)"
  shows "Popped (Some (ag_queue (lg_normal (fst (trace lane_step (lane_new c r) before))) ! i))
    \<in> set (snd (trace lane_step (fst (trace lane_step (lane_new c r) before)) ops))"
proof -
  obtain g outs where g: "trace lane_step (lane_new c r) before = (g, outs)" by fastforce
  obtain g' outs' where g': "trace lane_step g ops = (g', outs')" by fastforce
  from lanes.history [OF lane_new_ok g] have ok: "lanes_ok g" ..
  have lim: "limits_of g = limits_of (lane_new c r)" using trace_refines [OF lane_new_ok g] by simp
  from assms(1) g ok have i: "i < length (sp_normal (lane_abs g))" and "0 < ll_normal (limits_of g)"
    by (auto simp: lane_abs_def limits_of_def lanes_ok_def)
  moreover have "wait_bound (limits_of g) (lane_abs g) i \<le> (i + 1) * (ll_burst (limits_of g) + 1)"
    by (simp add: wait_bound_def)
  then have "wait_bound (limits_of g) (lane_abs g) i \<le> length (filter is_pop ops)"
    using assms(2) unfolding lim by (simp add: limits_of_def lane_new_def Let_def)
  ultimately have "Popped (Some (sp_normal (lane_abs g) ! i)) \<in> set (snd (trace (spec_step (limits_of g)) (lane_abs g) ops))"
    by (intro spec_wait)
  with trace_refines [OF ok g'] g g' show ?thesis by (simp add: lane_abs_def)
qed

definition served_history :: "lane_op list" where
  "served_history = [AdmitOp 7 Critical, AdmitOp 8 Critical, AdmitOp 1 Normal]"

definition served_pops :: "lane_op list" where
  "served_pops = [PopOp, AdmitOp 10 Critical, PopOp, PopOp, PopOp, PopOp]"

lemma served_history_queue:
  "ag_queue (lg_normal (fst (trace lane_step (lane_new 8 2) served_history))) = [1]"
proof -
  obtain g outs where g: "trace lane_step (lane_new 8 2) served_history = (g, outs)" by fastforce
  from trace_refines [OF lane_new_ok g] have "ag_queue (lg_normal g) = [1]"
    by (auto simp: served_history_def lane_abs_def limits_of_def lane_new_def gate_new_def Let_def spec_admit_def)
  then show ?thesis by (simp add: g)
qed

theorem lane_normal_served_witness:
  "Popped (Some 1) \<in> set (snd (trace lane_step (fst (trace lane_step (lane_new 8 2) served_history)) served_pops))"
  using lane_normal_served [of 0 8 2 served_history served_pops]
  by (simp add: served_history_queue served_pops_def usize_max_def)

text \<open>
  C38. The critical lane has no such bound. While normal ids arrive one at a time, each between two pops, every pop returns the
  normal id, and a critical id that came first stays queued, however long this goes on.
\<close>

theorem lane_critical_starved:
  assumes "0 < r" and "r < c" and "x \<noteq> y"
  shows "case trace lane_step (lane_new c r) (AdmitOp x Critical # concat (replicate n [AdmitOp y Normal, PopOp])) of (g, outs) \<Rightarrow>
    outs = Admitted Accepted # concat (replicate n [Admitted Accepted, Popped (Some y)]) \<and> ag_queue (lg_critical g) = [x]"
proof -
  define ops where "ops = concat (replicate n [AdmitOp y Normal, PopOp])"
  obtain g outs where g: "trace lane_step (lane_new c r) (AdmitOp x Critical # ops) = (g, outs)" by (meson surj_pair)
  define l where "l = limits_of (lane_new c r)"
  have new: "lane_abs (lane_new c r) = \<lparr>sp_normal = [], sp_critical = [], sp_streak = 0\<rparr>" "0 < ll_normal l" "0 < ll_critical l"
    using assms by (auto simp: lane_new_def gate_new_def limits_of_def lane_abs_def l_def Let_def)
  have "spec_step l \<lparr>sp_normal = [], sp_critical = [], sp_streak = 0\<rparr> (AdmitOp x Critical) =
      (\<lparr>sp_normal = [], sp_critical = [x], sp_streak = 0\<rparr>, Admitted Accepted)"
    using new by (simp add: spec_admit_def)
  moreover obtain st where "trace (spec_step l) \<lparr>sp_normal = [], sp_critical = [x], sp_streak = 0\<rparr> ops =
      (\<lparr>sp_normal = [], sp_critical = [x], sp_streak = st\<rparr>, concat (replicate n [Admitted Accepted, Popped (Some y)]))"
    using spec_starved [OF new(2) assms(3), of 0 n] ops_def by auto
  ultimately have "lane_abs g = \<lparr>sp_normal = [], sp_critical = [x], sp_streak = st\<rparr> \<and>
      outs = Admitted Accepted # concat (replicate n [Admitted Accepted, Popped (Some y)])"
    using trace_refines [OF lane_new_ok g] by (auto simp: new l_def [symmetric])
  then show ?thesis unfolding ops_def [symmetric] g by (auto simp: lane_abs_def)
qed

theorem lane_critical_starved_witness:
  "case trace lane_step (lane_new 8 2) (AdmitOp 1 Critical # concat (replicate 1000 [AdmitOp 2 Normal, PopOp])) of (g, outs) \<Rightarrow>
    outs = Admitted Accepted # concat (replicate 1000 [Admitted Accepted, Popped (Some 2)]) \<and> ag_queue (lg_critical g) = [1]"
  by (rule lane_critical_starved) simp_all

section \<open>The typed gate\<close>

text \<open>
  C11. Every nonce reservation the authority grants is accounted for exactly once. At any time it is held by one lease, in
  the queue or with a popped item, or it has been released once, or committed once; there is no other release or successful commit.
\<close>

theorem typed_reservations_settled:
  "case trace (typed_step cb) (typed_start c r body) ops of (s, outs) \<Rightarrow>
     settlements (ts_journal s) t + (queue_holds t (ts_gate s) + owner_holds t s) = reservations (ts_journal s) t"
proof -
  obtain s outs where s: "trace (typed_step cb) (typed_start c r body) ops = (s, outs)" by fastforce
  have "ts_journal (typed_start c r body) = []" "system_holds t (typed_start c r body) = 0" for t
    by (simp_all add: typed_start_def system_holds_def owner_holds_def queue_holds_def typed_new_def)
  with trace_accounts [OF s] show ?thesis
    by (simp add: s accounts_def settlements_def [of "[]"] reservations_def [of "[]"] system_holds_def)
qed

text \<open>
  C24. The indexes of the typed gate agree with its lanes. The slots with metadata are the queued slots, the digest index
  is exactly the inverse of the metadata, so that no digest is queued twice, leases belong to queued slots, and a pop
  returns nothing only when both lanes are empty.
\<close>

theorem typed_index_exact:
  "case trace (typed_step cb) (typed_start c r body) ops of (s, outs) \<Rightarrow>
     {k. bt_contains (tg_by_slot (ts_gate s)) k} =
       set (ag_queue (lg_normal (tg_lanes (ts_gate s)))) \<union> set (ag_queue (lg_critical (tg_lanes (ts_gate s)))) \<and>
     (\<forall>d k. bt_get (tg_slot_by_digest (ts_gate s)) d = Some k \<longleftrightarrow> (\<exists>m. bt_get (tg_by_slot (ts_gate s)) k = Some m \<and> md_digest m = d)) \<and>
     {k. bt_contains (tg_pending_reservations (ts_gate s)) k} \<subseteq> {k. bt_contains (tg_by_slot (ts_gate s)) k} \<and>
     (snd (typed_pop_ready cb (ts_gate s, ts_journal s)) = None \<longleftrightarrow> lane_total (tg_lanes (ts_gate s)) = 0)"
proof -
  obtain s outs where s: "trace (typed_step cb) (typed_start c r body) ops = (s, outs)" by fastforce
  have ok: "index_ok (ts_gate s)" using trace_items [OF s items_ok_start] by (simp add: items_ok_def)
  obtain g j parts where pop: "pop_ready_parts cb (ts_gate s, ts_journal s) = ((g, j), parts)" by (metis surj_pair)
  have lanes: "lane_total (tg_lanes (ts_gate s)) = 0 \<longleftrightarrow> queued (tg_lanes (ts_gate s)) = {}"
    by (simp add: lane_total_def queued_def)
  from pop_parts_records [OF ok pop] have "parts = None \<longleftrightarrow> queued (tg_lanes (ts_gate s)) = {}"
    using ok by (auto simp: index_ok_def bt_contains_def)
  moreover have "snd (typed_pop_ready cb (ts_gate s, ts_journal s)) = None \<longleftrightarrow> parts = None"
    by (simp add: typed_pop_ready_def pop split: option.splits prod.splits)
  ultimately show ?thesis using ok by (auto simp: s lanes index_ok_def queued_def)
qed

text \<open>
  C23. Only what its owner vouched for is ever queued or popped. Every item in the queue, with the owner or returned by a pop is
  well formed, its signature was verified and its recheck passed, and the replay check passed or its nonce was reserved.
\<close>

theorem typed_only_verified:
  "case trace (typed_step cb) (typed_start c r body) ops of (s, outs) \<Rightarrow>
     set (bt_values (tg_by_slot (ts_gate s))) \<union> pa_metadata ` set (ts_ready s) \<union> {m. OutPop (Some m) \<in> set outs}
       \<subseteq> {m. wellformed body m \<and> passed_hooks (ts_journal s) m}"
proof -
  obtain s outs where s: "trace (typed_step cb) (typed_start c r body) ops = (s, outs)" by fastforce
  have "tg_max_body_bytes (ts_gate (typed_start c r body)) = body" by (simp add: typed_start_def typed_new_def)
  with trace_items [OF s items_ok_start] show ?thesis
    by (auto simp: s items_ok_def item_ok_def bt_values_mem)
qed

text \<open>
  C37. What passes every check is queued. In any reachable state, a fresh envelope that the lanes have room for, whose
  metadata is well formed and whose hooks all accept, gets a slot, and the slot carries its metadata; slot ids do not run out and
  the lanes do not refuse it after the hooks have run.
\<close>

theorem typed_accepts:
  assumes "ts_journal (fst (trace (typed_step cb) (typed_start c r body) ops)) = j" and "ts_gate (fst (trace (typed_step cb) (typed_start c r body) ops)) = g"
    and "lane_total (tg_lanes g) + 2 < 2 ^ 64"
    and "\<not> contains_digest g (ev_probed_digest v)" and "fresh_admissible_for g cls" and "metadata_from g v (ev_probed_digest v) = Ok m"
    and "cb j (VerifySignature v m) = Ok ()" and "cb (j @ [(VerifySignature v m, Ok ())]) (CheckReplay m) = Ok ()"
    and "cb (j @ [(VerifySignature v m, Ok ()), (CheckReplay m, Ok ())]) (Recheck m) = Ok ()"
  shows "case admit_signed cb (g, j) v cls of ((g', j'), out) \<Rightarrow>
    out = TypedAccepted \<and> (\<exists>slot. bt_get (tg_slot_by_digest g') (md_digest m) = Some slot \<and> bt_get (tg_by_slot g') slot = Some m)"
proof -
  obtain s outs where s: "trace (typed_step cb) (typed_start c r body) ops = (s, outs)" by fastforce
  have ok: "index_ok g" using trace_items [OF s items_ok_start] assms(2) s by (simp add: items_ok_def)
  obtain g1 slot where slot: "allocate_slot g = (g1, Ok slot)"
    using allocate_slot_finds [of g] entries_lane_total [OF ok] assms(3) by auto
  obtain lanes where lanes: "lane_admit (tg_lanes g1) slot cls = (lanes, Accepted)" using slot_accepted [OF ok assms(5) slot] by auto
  have digest: "bt_get (tg_slot_by_digest g) (ev_probed_digest v) = None" using assms(4) by (simp add: contains_digest_def bt_contains_def)
  show ?thesis
    using assms(5-9) digest slot lanes by (simp add: admit_signed_def call_out_def reject_of_def index_slot_def)
qed

definition sample_limits :: ResourceLimits where
  "sample_limits = \<lparr>rl_max_gas = 1000, rl_max_bytes = 64\<rparr>"

definition sample_view :: SignedEnvelopeView where
  "sample_view = \<lparr>ev_probed_digest = 5, ev_canonical_digest = 5, ev_canonical_signer_id = Ok 9, ev_canonical_body = [1, 2, 3], ev_nonce = 1,
     ev_fee_limit = 10, ev_resource_limits = sample_limits, ev_validate_canonical = Ok ()\<rparr>"

definition sample_metadata :: SignedEnvelopeMetadata where
  "sample_metadata = \<lparr>md_digest = 5, md_signer_id = 9, md_body = [1, 2, 3], md_nonce = 1, md_fee_limit = 10, md_resource_limits = sample_limits\<rparr>"

lemma sample_metadata_from: "metadata_from (typed_new 2 1 1024) sample_view 5 = Ok sample_metadata"
  by (simp add: metadata_from_def sample_view_def sample_metadata_def sample_limits_def typed_new_def tryR_def digest_from_bytes_def
      body_length_def limits_validate_def)

lemma sample_fresh: "fresh_admissible_for (typed_new 2 1 1024) Normal"
  using fresh_admissible_iff [of "typed_new 2 1 1024" Normal] lane_new_ok [of 2 1]
  by (simp add: typed_new_def lane_new_def gate_new_def limits_of_def lane_abs_def)

theorem typed_accepts_witness:
  "case admit_signed (\<lambda>j call. Ok ()) (typed_new 2 1 1024, []) sample_view Normal of ((g', j'), out) \<Rightarrow>
    out = TypedAccepted \<and> (\<exists>slot. bt_get (tg_slot_by_digest g') (md_digest sample_metadata) = Some slot \<and> bt_get (tg_by_slot g') slot = Some sample_metadata)"
  by (rule typed_accepts [where c = 2 and r = 1 and body = 1024 and ops = "[]"])
    (use sample_metadata_from sample_fresh in
      \<open>simp_all add: typed_start_def sample_view_def contains_digest_def bt_contains_def typed_new_def lane_total_def lane_new_def gate_new_def\<close>)

end
