(* ===== verification/Spec2Isabelle.thy ===== *)
theory Spec2Isabelle
  imports Escrow_Vault Governance_Guard Verification_Profiles Pon_Work Mvcc_Properties
    Parallel_Block Settlement_Properties Executor_Schedule Research_Properties Mempool_Properties
begin

text \<open>
  \<^bold>\<open>Verification of Trillionnium-Chain\<close>

  The repository is a Rust workspace (\<open>src/trillionnium/crates\<close>). The crates hold the deterministic core of
  the chain: admission of transactions, their execution in blocks, settlement of value, governance of
  parameters, verification of results, useful work, and the research ledger. This development models the crates below as HOL functions, one
  definition per function or type of the source, under the name the source gives it
  (the suffix V1 is dropped, and a name is prefixed where two crates share it), and proves the
  properties that make them correct.

  \<^bold>\<open>Conventions.\<close> Rust integers are words of their width (\<open>u64 = 64 word\<close>), so wrap-around, checked and
  saturating arithmetic are the source's; \<open>usize\<close> lengths and indices are \<open>nat\<close>. A \<open>[u8; 32]\<close> is the 256-bit
  word it spells most significant byte first, so its order is the order of arrays. A \<open>Result\<close> is the type
  \<open>result\<close>; \<open>?\<close> is \<open>tryR\<close>; a method on \<open>&mut self\<close> returns the state it leaves behind, also when it
  fails (\<open>tryS\<close>, \<open>tryM\<close>). Errors keep their variants; the message strings inside them are dropped.
  A Rust panic (a failed \<open>expect\<close> or \<open>assert!\<close>, a division by zero, \<open>unreachable!\<close>) is an error of its own
  (\<open>Panicked\<close>, \<open>AssertionFailed\<close>), and the properties say when it is unreachable. \<open>BTreeMap\<close> and \<open>HashMap\<close> are the ordered finite map \<open>btree\<close> of the theory
  Ordered_Map. SHA-256, the Borsh serializer, Ed25519, the hexadecimal decoder and
  proof-verification backends are not part of the repository: they are arguments of the definitions
  (alone or as the records \<open>crypto\<close> and \<open>research_crypto\<close>), with no assumption on them. The process environment,
  floating-point operations, and the callbacks of the mempool's owner are arguments in the same way.

  \<^bold>\<open>Theories and what they model.\<close>
  \<^item> Prelude, Ordered_Map, Byte_Encoding, Canonical_Encoding, Optimistic_Execution: shared vocabulary. They hold the
    first interfaces: \<open>fail_closed\<close> (a rejected command changes nothing), \<open>invariant_machine\<close> (accepted commands
    keep an invariant), \<open>finite_map\<close> (the laws of maps and of sums over their values), and \<open>optimistic\<close> (a
    computation made on an older state may be reused if what it read has not changed). Later theories add
    \<open>codec\<close> (decoding succeeds exactly on encodings), \<open>group_placement\<close> (a placement keeps accesses behind
    writes) and \<open>id_queue\<close> (ids enter once and leave once). Each is interpreted on the components' own definitions.
  \<^item> Audit_Events and Escrow_Vault: \<open>trnm-audit-events\<close>, \<open>trnm-escrow-vault\<close>. \<open>SettlementVault\<close> is a record, each method
    a definition, and the commands of the vault form a machine. Balances and open locks always
    sum to the accepted deposits, the audit log replays to the ledger, locks end once, only the
    owner is served, and rejected calls change nothing.
  \<^item> Governance_Guard: \<open>trnm-governance-guard\<close>. Roles, proposals with timelock and compare-and-swap, the
    emergency pause. Nothing executes before its time, a parameter changes only by a
    current proposal, stale and final proposals stay that way, and there is one unpause at a time.
  \<^item> Verification_Profiles: \<open>trnm-verification-profiles\<close>. The closed registry of profiles, the statement digest, the
    gate in front of the backend, the lifecycle of a challenge as a step relation, and the book
    of challenges. The lifecycle ends after at most seven accepted calls, and time alone ends it exactly past
    the deadline of its phase.
  \<^item> Pon_Work: \<open>trnm-crypto-primitives/src/pon_work.rs\<close>. The blocked, noise-masked matrix product and its
    transcript. The result is the product modulo the prime, a proof is accepted exactly when it
    is the recomputed one, and noise expansion ends within its budget of 128 hashes (the measure of
    the loop is what is left of that budget).
  \<^item> Mvcc_Types, Mvcc_Engine: \<open>trnm-mvcc-fee\<close> (modules \<open>types\<close>, \<open>error\<close>, \<open>codec\<close>, \<open>engine\<close>). A structure is mapped to the tree
    of values its derived serializer visits (\<open>enc_\<close> definitions). Threads are modelled by what they
    return: the rows of every worker, joined in worker order, as the source joins them.
    Mvcc_Serializability shows that workers do not change the result and that no panic is reachable;
    Mvcc_Accounting shows the arithmetic of fees and the conservation of value; Mvcc_Properties states
    the properties, on a sample chain of two conflicting transactions.
  \<^item> Parallel_Block: \<open>trnm-mvcc-fee\<close> (module \<open>deterministic_parallel_v1\<close>). Workers speculate on the parent state and the commit
    loop runs a transaction again when a version it read has changed. After the validation and the speculation, whose first
    error in worker order is returned, the block is exactly the sequential one, errors included. Versions count the writes,
    and every payer is debited exactly once for its fees.
  \<^item> Settlement_Types, Settlement_Engine, Settlement_Properties: \<open>trnm-service-settlement\<close> (modules \<open>types\<close>, \<open>error\<close>, \<open>codec\<close>, \<open>engine\<close>).
    The trust bundle, receipts, the rollup and the settlement as transitions of \<open>KernelState\<close>. Value is conserved, receipts
    form one signed chain, the escrow is paid once and in exact shares, a matured rollup can be settled
    when the arithmetic has room, and a fee product that overflows locks the escrow.
  \<^item> Executor_Conflict, Executor_Config, Executor_Groups, Executor_Schedule: \<open>trnm-executor/src/lib.rs\<close>. Access sets and conflict detection with
    its fast paths, the configuration read from the environment, reordering strategies, and the placement of
    transactions into groups. The groups are a schedule of a permutation of the batch, the deep scan
    separates all conflicts, and a counterexample shows that the default placement does not.
  \<^item> Cbor, Research_Types, Research_Codec, Research_Command, Research_State, Research_Snapshot: \<open>trnm-research-protocol\<close> (modules \<open>canonical\<close>, \<open>types\<close>,
    \<open>command\<close>, \<open>state\<close>). The deterministic CBOR, the payloads and their validation, signed commands, the ledger with one
    definition per handler, and snapshots. Research_Ledger holds the invariants and Research_Properties the properties: the wire
    format is exact, commands take effect once and only from an authority, shares of a claim add up, and
    every reachable ledger passes the validation of its own snapshot.
  \<^item> Mempool_Lanes, Mempool_Admission: \<open>trnm-mempool\<close> (\<open>lib.rs\<close>, \<open>typed_admission.rs\<close>). The bounded queue, the two-lane gate with its id caches
    and fairness counter, and the typed gate with its nonce leases. Mempool_Fairness shows that the lane gate behaves as two
    plain queues, and computes waiting times on them. Mempool_Lifecycle runs the typed gate with its owner and accounts for every
    reservation; Mempool_Index shows that its indexes agree with its queues and that slot ids never run
    out. Mempool_Properties states the properties, one of them that a critical id may wait for ever.

  \<^bold>\<open>Bounds and fuel.\<close> \<open>strip_leading\<close> (string trimming) takes the length of the string as fuel, and every
  stripped code point shortens it. \<open>probe_slots\<close> is the bounded loop of \<open>allocate_slot\<close>: it tries two ids more than there are
  active slots, as the source does, and one of them is proved free while fewer than \<open>2 ^ 64 - 2\<close> slots are active. All other
  recursion is structural or has a termination proof. Histories are lists of any length.

  \<^bold>\<open>Not modelled.\<close> The stores (\<open>store.rs\<close> of the crates) are SQLite and file I/O; thread scheduling, sockets
  and processes (\<open>trnm-transport\<close>, \<open>trnm-peer-lease\<close>, \<open>trnm-worker-agent\<close>, \<open>trnm-checkpoint-store\<close>, \<open>trnm-release-bundle\<close>, \<open>trnm-state-import\<close>),
  the development binaries and the benchmark are input and output around the modelled core. Files that no
  module declares are not part of the program: \<open>conflict.rs\<close>, \<open>reorder.rs\<close>, \<open>adaptive.rs\<close>, \<open>env_config.rs\<close> and \<open>aggressive_profile.rs\<close> of the
  executor and the \<open>gate\<close> and \<open>lane_\<close> files of the mempool. The traits of the mempool's owner are
  parameters; the \<open>owner_binding\<close> of a reservation only passes the owner's value through. The crates \<open>trnm-oracle\<close>, \<open>trnm-control-plane\<close>,
  \<open>trnm-protocol\<close>, \<open>trnm-types\<close>, \<open>trnm-checkpoint-types\<close>, \<open>trnm-task-kernel\<close> and \<open>trnm-data-availability\<close> have pure parts that no definition here covers,
  apart from the few types the settlement kernel takes from them.
\<close>

end
